(* ===== verification/Prelude.thy ===== *)
theory Prelude
  imports Complex_Main "HOL-Library.Word" "HOL-Library.Multiset" "HOL-Library.Sublist"
    "HOL-Library.AList" "HOL-Library.Char_ord" "HOL-Library.List_Lexorder"
begin

text \<open>
  The Go runtime the components share: byte strings and the functions of packages
  strings and strconv the sources call, time.Time and time.Duration, sort.Slice and
  maps that are iterated. A Go string is a sequence of bytes, so it is a HOL
  \<^typ>\<open>string\<close>, a list of 8-bit characters. The collections \<open>go_str\<close>, \<open>go_time\<close> and
  \<open>go_sort\<close> gather the lemmas the component proofs use.
\<close>

named_theorems go_str
named_theorems go_time
named_theorems go_sort

section \<open>Strings\<close>

text \<open>
  unicode.IsSpace as the UTF-8 encodings of its runes: the six ASCII spaces, U+0085, U+00A0,
  U+1680, U+2000 to U+200A, U+2028, U+2029, U+202F, U+205F and U+3000. UTF-8 is
  self-synchronising, so matching whole encodings at either end of the byte string is what
  decoding the first or the last rune does.
\<close>

definition space_runes :: "string list" where
  "space_runes =
     [[CHR 0x20], [CHR 0x09], [CHR 0x0A], [CHR 0x0B], [CHR 0x0C], [CHR 0x0D],
      [CHR 0xC2, CHR 0x85], [CHR 0xC2, CHR 0xA0], [CHR 0xE1, CHR 0x9A, CHR 0x80],
      [CHR 0xE2, CHR 0x80, CHR 0x80], [CHR 0xE2, CHR 0x80, CHR 0x81],
      [CHR 0xE2, CHR 0x80, CHR 0x82], [CHR 0xE2, CHR 0x80, CHR 0x83],
      [CHR 0xE2, CHR 0x80, CHR 0x84], [CHR 0xE2, CHR 0x80, CHR 0x85],
      [CHR 0xE2, CHR 0x80, CHR 0x86], [CHR 0xE2, CHR 0x80, CHR 0x87],
      [CHR 0xE2, CHR 0x80, CHR 0x88], [CHR 0xE2, CHR 0x80, CHR 0x89],
      [CHR 0xE2, CHR 0x80, CHR 0x8A], [CHR 0xE2, CHR 0x80, CHR 0xA8],
      [CHR 0xE2, CHR 0x80, CHR 0xA9], [CHR 0xE2, CHR 0x80, CHR 0xAF],
      [CHR 0xE2, CHR 0x81, CHR 0x9F], [CHR 0xE3, CHR 0x80, CHR 0x80]]"

text \<open>Removing, as often as possible, one of the given prefixes from the front.\<close>

function strip :: "string list \<Rightarrow> string \<Rightarrow> string" where
  "strip rs s =
     (case find (\<lambda>r. r \<noteq> [] \<and> prefix r s) rs of
        None \<Rightarrow> s
      | Some r \<Rightarrow> strip rs (drop (length r) s))"
  by pat_completeness auto
termination
proof (relation "measure (\<lambda>(rs, s). length s)", goal_cases)
  case 1
  show ?case by simp
next
  case (2 rs s r)
  then have "r \<noteq> []" "prefix r s"
    by (auto simp: find_Some_iff)
  then show ?case
    by (auto simp: prefix_def)
qed

declare strip.simps [simp del]

text \<open>strings.TrimSpace: the left end first, then the right end of what is left.\<close>

definition TrimSpace :: "string \<Rightarrow> string" where
  "TrimSpace s = rev (strip (map rev space_runes) (rev (strip space_runes s)))"

text \<open>A byte that neither starts nor ends a space rune: a printable ASCII character.\<close>

definition printable :: "char \<Rightarrow> bool" where
  "printable c \<longleftrightarrow> CHR ''!'' \<le> c \<and> c \<le> CHR ''~''"

lemma strip_None: "find (\<lambda>r. r \<noteq> [] \<and> prefix r s) rs = None \<Longrightarrow> strip rs s = s"
  by (subst strip.simps) simp

lemma strip_Some:
  "find (\<lambda>r. r \<noteq> [] \<and> prefix r s) rs = Some q \<Longrightarrow> strip rs s = strip rs (drop (length q) s)"
  by (subst strip.simps) simp

lemma strip_fixed:
  assumes "\<And>r. r \<in> set rs \<Longrightarrow> r \<noteq> [] \<Longrightarrow> \<not> prefix r s"
  shows "strip rs s = s"
  by (rule strip_None) (use assms in \<open>auto simp: find_None_iff\<close>)

lemma strip_hd:
  assumes "s \<noteq> []" and "\<And>r. r \<in> set rs \<Longrightarrow> r \<noteq> [] \<Longrightarrow> hd r \<noteq> hd s"
  shows "strip rs s = s"
proof (rule strip_fixed)
  fix r assume "r \<in> set rs" "r \<noteq> []"
  then have "hd r \<noteq> hd s" using assms by blast
  with \<open>r \<noteq> []\<close> show "\<not> prefix r s"
    by (cases r; cases s) auto
qed

lemma strip_Nil [simp]: "strip rs [] = []"
  by (rule strip_fixed) auto

lemma strip_result: "r \<in> set rs \<Longrightarrow> r \<noteq> [] \<Longrightarrow> \<not> prefix r (strip rs s)"
proof (induction rs s rule: strip.induct)
  case (1 rs s)
  show ?case
  proof (cases "find (\<lambda>r. r \<noteq> [] \<and> prefix r s) rs")
    case None
    then have "strip rs s = s" by (rule strip_None)
    with None "1.prems" show ?thesis
      by (auto simp: find_None_iff)
  next
    case (Some q)
    with "1.IH" "1.prems" show ?thesis
      by (simp add: strip_Some)
  qed
qed

lemma strip_suffix: "suffix (strip rs s) s"
proof (induction rs s rule: strip.induct)
  case (1 rs s)
  show ?case
  proof (cases "find (\<lambda>r. r \<noteq> [] \<and> prefix r s) rs")
    case None
    then show ?thesis by (simp add: strip_None)
  next
    case (Some q)
    with "1.IH" have "suffix (strip rs (drop (length q) s)) (drop (length q) s)"
      by simp
    also have "suffix (drop (length q) s) s"
      by (rule suffix_drop)
    finally show ?thesis
      using Some by (simp add: strip_Some)
  qed
qed

lemma TrimSpace_Nil [simp]: "TrimSpace [] = []"
  by (simp add: TrimSpace_def)

lemma TrimSpace_no_left: "r \<in> set space_runes \<Longrightarrow> r \<noteq> [] \<Longrightarrow> \<not> prefix r (TrimSpace s)"
proof
  assume r: "r \<in> set space_runes" "r \<noteq> []" and p: "prefix r (TrimSpace s)"
  have "prefix (TrimSpace s) (strip space_runes s)"
    unfolding TrimSpace_def
    by (metis strip_suffix suffix_to_prefix rev_rev_ident)
  with p have "prefix r (strip space_runes s)"
    by (rule prefix_order.trans)
  with strip_result [OF r] show False by blast
qed

lemma TrimSpace_idem [simp]: "TrimSpace (TrimSpace s) = TrimSpace s"
proof -
  let ?t = "TrimSpace s"
  have left: "strip space_runes ?t = ?t"
    by (rule strip_fixed) (auto dest: TrimSpace_no_left)
  have right: "strip (map rev space_runes) (rev ?t) = rev ?t"
    using strip_result [of _ "map rev space_runes"]
    by (intro strip_fixed) (auto simp: TrimSpace_def)
  show ?thesis
    by (subst TrimSpace_def) (simp only: left right rev_rev_ident)
qed

lemma space_runes_hd: "r \<in> set space_runes \<Longrightarrow> \<not> printable (hd r)"
  by (auto simp: space_runes_def printable_def)

lemma space_runes_last: "r \<in> set space_runes \<Longrightarrow> \<not> printable (last r)"
  by (auto simp: space_runes_def printable_def)

text \<open>Text that starts and ends with a printable character is not trimmed.\<close>

lemma TrimSpace_printable [go_str]:
  assumes "printable (hd s)" and "printable (last s)"
  shows "TrimSpace s = s"
proof (cases "s = []")
  case False
  have l: "strip space_runes s = s"
    by (rule strip_hd) (use False assms space_runes_hd in metis)+
  have r: "strip (map rev space_runes) (rev s) = rev s"
  proof (rule strip_hd)
    show "rev s \<noteq> []" using False by simp
    fix r assume "r \<in> set (map rev space_runes)"
    then obtain q where "q \<in> set space_runes" "r = rev q" by auto
    with assms(2) space_runes_last show "hd r \<noteq> hd (rev s)"
      by (metis hd_rev)
  qed
  show ?thesis
    by (simp add: TrimSpace_def l r)
qed simp

lemma printable_code [go_str]: "printable c = (CHR ''!'' \<le> c \<and> c \<le> CHR ''~'')"
  by (rule printable_def)

text \<open>
  strings.ToUpper and strings.ToLower on ASCII, with the runes outside ASCII that map into it:
  dotless i (U+0131) and long s (U+017F) for ToUpper, I with dot (U+0130) and the Kelvin sign
  (U+212A) for ToLower. Every other rune maps to a rune outside ASCII and is kept as it is, so
  a comparison of the result with an ASCII text is exact.
\<close>

definition upper_char :: "char \<Rightarrow> char" where
  "upper_char c = (if CHR ''a'' \<le> c \<and> c \<le> CHR ''z'' then char_of (of_char c - 32 :: nat) else c)"

definition lower_char :: "char \<Rightarrow> char" where
  "lower_char c = (if CHR ''A'' \<le> c \<and> c \<le> CHR ''Z'' then char_of (of_char c + 32 :: nat) else c)"

fun ToUpper :: "string \<Rightarrow> string" where
  "ToUpper [] = []"
| "ToUpper (c # d # s) =
     (if c = CHR 0xC4 \<and> d = CHR 0xB1 then CHR ''I'' # ToUpper s
      else if c = CHR 0xC5 \<and> d = CHR 0xBF then CHR ''S'' # ToUpper s
      else upper_char c # ToUpper (d # s))"
| "ToUpper [c] = [upper_char c]"

fun ToLower :: "string \<Rightarrow> string" where
  "ToLower [] = []"
| "ToLower (c # d # e # s) =
     (if c = CHR 0xC4 \<and> d = CHR 0xB0 then CHR ''i'' # ToLower (e # s)
      else if c = CHR 0xE2 \<and> d = CHR 0x84 \<and> e = CHR 0xAA then CHR ''k'' # ToLower s
      else lower_char c # ToLower (d # e # s))"
| "ToLower [c, d] =
     (if c = CHR 0xC4 \<and> d = CHR 0xB0 then [CHR ''i''] else [lower_char c, lower_char d])"
| "ToLower [c] = [lower_char c]"

text \<open>
  strings.EqualFold against an ASCII text: ASCII case folding, with the Kelvin sign equal to k and
  long s equal to s.
\<close>

fun fold_case :: "string \<Rightarrow> string" where
  "fold_case [] = []"
| "fold_case (c # s) =
     (case s of
        d # t \<Rightarrow>
          if c = CHR 0xC5 \<and> d = CHR 0xBF then CHR ''s'' # fold_case t
          else
            (case t of
               e # u \<Rightarrow>
                 if c = CHR 0xE2 \<and> d = CHR 0x84 \<and> e = CHR 0xAA then CHR ''k'' # fold_case u
                 else lower_char c # fold_case s
             | [] \<Rightarrow> lower_char c # fold_case s)
      | [] \<Rightarrow> [lower_char c])"

definition EqualFold :: "string \<Rightarrow> string \<Rightarrow> bool" where
  "EqualFold s t \<longleftrightarrow> fold_case s = fold_case t"

definition HasPrefix :: "string \<Rightarrow> string \<Rightarrow> bool" where
  "HasPrefix s p \<longleftrightarrow> prefix p s"

definition HasSuffix :: "string \<Rightarrow> string \<Rightarrow> bool" where
  "HasSuffix s p \<longleftrightarrow> suffix p s"

definition TrimPrefix :: "string \<Rightarrow> string \<Rightarrow> string" where
  "TrimPrefix s p = (if prefix p s then drop (length p) s else s)"

definition TrimSuffix :: "string \<Rightarrow> string \<Rightarrow> string" where
  "TrimSuffix s p = (if suffix p s then take (length s - length p) s else s)"

text \<open>strings.Index (None where Go returns -1) and strings.Contains.\<close>

fun Index :: "string \<Rightarrow> string \<Rightarrow> nat option" where
  "Index [] p = (if p = [] then Some 0 else None)"
| "Index (c # s) p = (if prefix p (c # s) then Some 0 else map_option Suc (Index s p))"

definition Contains :: "string \<Rightarrow> string \<Rightarrow> bool" where
  "Contains s p \<longleftrightarrow> Index s p \<noteq> None"

definition ContainsAny :: "string \<Rightarrow> string \<Rightarrow> bool" where
  "ContainsAny s cs \<longleftrightarrow> list_ex (\<lambda>c. c \<in> set cs) s"

text \<open>strings.TrimRight with the cutset of one character.\<close>

definition TrimRightChar :: "char \<Rightarrow> string \<Rightarrow> string" where
  "TrimRightChar c s = rev (dropWhile (\<lambda>d. d = c) (rev s))"

text \<open>strings.Join, and strings.SplitN with a separator of one character.\<close>

fun Join :: "string list \<Rightarrow> string \<Rightarrow> string" where
  "Join [] sep = []"
| "Join [s] sep = s"
| "Join (s # t # ss) sep = s @ sep @ Join (t # ss) sep"

fun SplitN :: "char \<Rightarrow> nat \<Rightarrow> string \<Rightarrow> string list" where
  "SplitN c 0 s = []"
| "SplitN c (Suc 0) s = [s]"
| "SplitN c (Suc (Suc n)) s =
     (case dropWhile (\<lambda>d. d \<noteq> c) s of
        [] \<Rightarrow> [s]
      | _ # rest \<Rightarrow> takeWhile (\<lambda>d. d \<noteq> c) s # SplitN c (Suc n) rest)"

lemma SplitN_char [go_str]:
  "c \<notin> set a \<Longrightarrow> SplitN c (Suc (Suc n)) (a @ c # s) = a # SplitN c (Suc n) s"
proof -
  assume "c \<notin> set a"
  then have d: "dropWhile (\<lambda>d. d \<noteq> c) (a @ c # s) = c # s"
    and t: "takeWhile (\<lambda>d. d \<noteq> c) (a @ c # s) = a"
    by (induction a) auto
  show ?thesis by (simp add: d t)
qed

lemma SplitN_no_char [go_str]: "c \<notin> set s \<Longrightarrow> SplitN c (Suc (Suc n)) s = [s]"
proof -
  assume "c \<notin> set s"
  then have "dropWhile (\<lambda>d. d \<noteq> c) s = []"
    by (auto simp: dropWhile_eq_Nil_conv)
  then show ?thesis by (simp only: SplitN.simps list.case)
qed

section \<open>Decimal digits\<close>

definition is_digit :: "char \<Rightarrow> bool" where
  "is_digit c \<longleftrightarrow> CHR ''0'' \<le> c \<and> c \<le> CHR ''9''"

definition digit_val :: "char \<Rightarrow> nat" where
  "digit_val c = of_char c - 48"

definition digit_char :: "nat \<Rightarrow> char" where
  "digit_char n = char_of (n + 48)"

definition digits_val :: "string \<Rightarrow> nat" where
  "digits_val s = foldl (\<lambda>n c. 10 * n + digit_val c) 0 s"

text \<open>strconv.ParseUint with base 10; None is the syntax or the range error.\<close>

definition ParseUint :: "nat \<Rightarrow> string \<Rightarrow> nat option" where
  "ParseUint bits s =
     (if s = [] \<or> \<not> list_all is_digit s then None
      else if digits_val s < 2 ^ bits then Some (digits_val s) else None)"

text \<open>strconv.ParseInt with base 10: an optional sign, and the two's complement range.\<close>

definition ParseInt :: "nat \<Rightarrow> string \<Rightarrow> int option" where
  "ParseInt bits s =
     (let neg = (s \<noteq> [] \<and> hd s = CHR ''-'');
          body = (if s \<noteq> [] \<and> (hd s = CHR ''-'' \<or> hd s = CHR ''+'') then tl s else s)
      in if body = [] \<or> \<not> list_all is_digit body then None
         else if neg then (if digits_val body \<le> 2 ^ (bits - 1) then Some (- int (digits_val body)) else None)
         else (if digits_val body < 2 ^ (bits - 1) then Some (int (digits_val body)) else None))"

text \<open>strconv.Itoa on natural numbers.\<close>

fun show_nat :: "nat \<Rightarrow> string" where
  "show_nat n = (if n < 10 then [digit_char n] else show_nat (n div 10) @ [digit_char (n mod 10)])"

declare show_nat.simps [simp del]

definition show_int :: "int \<Rightarrow> string" where
  "show_int i = (if i < 0 then CHR ''-'' # show_nat (nat (- i)) else show_nat (nat i))"

lemma of_char_digit: "n < 10 \<Longrightarrow> of_char (digit_char n) = (n + 48 :: nat)"
  by (simp add: digit_char_def of_char_of)

lemma digit_val_char [simp]: "n < 10 \<Longrightarrow> digit_val (digit_char n) = n"
  by (simp add: digit_val_def of_char_digit)

lemma is_digit_char [simp]: "n < 10 \<Longrightarrow> is_digit (digit_char n)"
  by (simp add: is_digit_def less_eq_char_def of_char_digit)

lemma digits_val_Nil [simp]: "digits_val [] = 0"
  by (simp add: digits_val_def)

lemma digits_val_snoc [simp]: "digits_val (s @ [c]) = 10 * digits_val s + digit_val c"
  by (simp add: digits_val_def)

lemma digits_val_append: "digits_val (s @ t) = digits_val s * 10 ^ length t + digits_val t"
proof (induction t rule: rev_induct)
  case (snoc c t)
  have "digits_val (s @ t @ [c]) = 10 * digits_val (s @ t) + digit_val c"
    using digits_val_snoc [of "s @ t" c] by simp
  with snoc show ?case by simp
qed simp

lemma show_nat_ne [simp]: "show_nat n \<noteq> []"
  by (subst show_nat.simps) simp

lemma show_nat_digits: "list_all is_digit (show_nat n)"
proof (induction n rule: show_nat.induct)
  case (1 n)
  then show ?case by (subst show_nat.simps) (simp add: list_all_append)
qed

lemma digits_val_show [simp]: "digits_val (show_nat n) = n"
proof (induction n rule: show_nat.induct)
  case (1 n)
  show ?case
  proof (cases "n < 10")
    case True
    then show ?thesis
      using digits_val_snoc [of "[]" "digit_char n"] by (subst show_nat.simps) simp
  next
    case False
    with 1 show ?thesis by (subst show_nat.simps) simp
  qed
qed

lemma digit_char_val: "is_digit c \<Longrightarrow> digit_char (digit_val c) = c"
  by (simp add: is_digit_def digit_char_def digit_val_def less_eq_char_def)

lemma digit_val_less: "is_digit c \<Longrightarrow> digit_val c < 10"
  unfolding is_digit_def digit_val_def less_eq_char_def by auto

lemma digit_val_pos: "is_digit c \<Longrightarrow> c \<noteq> CHR ''0'' \<Longrightarrow> 0 < digit_val c"
  using digit_char_val [of c] by (cases "digit_val c") (auto simp: digit_char_def char_of_def bit_0)

lemma digits_val_pos:
  assumes "list_all is_digit s" "s \<noteq> []" "hd s \<noteq> CHR ''0''"
  shows "0 < digits_val s"
proof -
  obtain c t where s: "s = c # t" using assms(2) by (cases s) auto
  have "digits_val (c # t) = digit_val c * 10 ^ length t + digits_val t"
    using digits_val_append [of "[c]" t] digits_val_snoc [of "[]" c] by simp
  with s assms digit_val_pos show ?thesis by simp
qed

text \<open>A text of digits without a leading zero is the decimal rendering of its value.\<close>

lemma show_digits_val:
  "list_all is_digit s \<Longrightarrow> s \<noteq> [] \<Longrightarrow> hd s \<noteq> CHR ''0'' \<Longrightarrow> show_nat (digits_val s) = s"
proof (induction s rule: rev_induct)
  case (snoc c s)
  show ?case
  proof (cases "s = []")
    case True
    with snoc.prems show ?thesis
      using digits_val_snoc [of "[]" c]
      by (subst show_nat.simps) (simp add: digit_char_val digit_val_less)
  next
    case False
    with snoc.prems have s: "list_all is_digit s" "hd s \<noteq> CHR ''0''" "is_digit c"
      by (auto simp: list_all_append)
    have "0 < digits_val s" using s False by (intro digits_val_pos)
    with s False snoc.IH show ?thesis
      by (subst show_nat.simps) (simp add: digit_char_val digit_val_less)
  qed
qed simp

lemma show_nat_hd: "0 < n \<Longrightarrow> hd (show_nat n) \<noteq> CHR ''0''"
proof (induction n rule: show_nat.induct)
  case (1 n)
  show ?case
  proof (cases "n < 10")
    case True
    have "digit_char n \<noteq> CHR ''0''"
    proof
      assume "digit_char n = CHR ''0''"
      then have "digit_val (digit_char n) = 0" by (simp add: digit_val_def)
      with True "1.prems" show False by simp
    qed
    with True show ?thesis by (subst show_nat.simps) simp
  next
    case False
    with 1 show ?thesis by (subst show_nat.simps) simp
  qed
qed

lemma ParseUint_show [go_str]: "n < 2 ^ bits \<Longrightarrow> ParseUint bits (show_nat n) = Some n"
  by (simp add: ParseUint_def show_nat_digits)

lemma ParseUint_bound: "ParseUint bits s = Some n \<Longrightarrow> n < 2 ^ bits"
  by (auto simp: ParseUint_def split: if_splits)

text \<open>The last \<open>e\<close> decimal digits of a number, with leading zeros.\<close>

fun fix_digits :: "nat \<Rightarrow> nat \<Rightarrow> string" where
  "fix_digits 0 r = []"
| "fix_digits (Suc e) r = fix_digits e (r div 10) @ [digit_char (r mod 10)]"

lemma fix_digits_length [simp]: "length (fix_digits e r) = e"
  by (induction e arbitrary: r) auto

lemma fix_digits_digits [simp]: "list_all is_digit (fix_digits e r)"
  by (induction e arbitrary: r) (auto simp: list_all_append)

lemma fix_digits_val [simp]: "digits_val (fix_digits e r) = r mod 10 ^ e"
proof (induction e arbitrary: r)
  case (Suc e)
  have "10 * (r div 10 mod 10 ^ e) + r mod 10 = r mod (10 * 10 ^ e)"
    by (simp add: mod_mult2_eq)
  with Suc show ?case by simp
qed simp

section \<open>Time\<close>

text \<open>
  A time.Time is the number of nanoseconds since the zero Time (January 1 of year 1, UTC), so
  IsZero is equality with 0 and Before, After and Equal are the order of integers. A
  time.Duration is a 64-bit count of nanoseconds; Time.Sub saturates at its ends.
\<close>

type_synonym Time = int
type_synonym Duration = int

definition maxDuration :: Duration where "maxDuration = 2 ^ 63 - 1"
definition minDuration :: Duration where "minDuration = - (2 ^ 63)"

definition time_Sub :: "Time \<Rightarrow> Time \<Rightarrow> Duration" where
  "time_Sub t u = max minDuration (min maxDuration (t - u))"

definition unix_epoch :: Time where "unix_epoch = 62135596800 * 1000000000"

definition UnixMilli :: "Time \<Rightarrow> int" where
  "UnixMilli t = (t - unix_epoch) div 1000000"

definition time_of_UnixMilli :: "int \<Rightarrow> Time" where
  "time_of_UnixMilli ms = unix_epoch + ms * 1000000"

abbreviation Millisecond :: Duration where "Millisecond \<equiv> 1000000"
abbreviation Second :: Duration where "Second \<equiv> 1000000000"
abbreviation Minute :: Duration where "Minute \<equiv> 60000000000"
abbreviation Hour :: Duration where "Hour \<equiv> 3600000000000"

text \<open>
  Duration.String for a positive duration: below a second the largest unit that leaves a whole
  part, otherwise hours, minutes and seconds; the fraction has no trailing zeros.
\<close>

definition fmt_frac :: "nat \<Rightarrow> nat \<Rightarrow> string" where
  "fmt_frac v prec =
     (let f = rev (dropWhile (\<lambda>c. c = CHR ''0'') (rev (fix_digits prec v)))
      in if f = [] then [] else CHR ''.'' # f)"

definition duration_string :: "Duration \<Rightarrow> string" where
  "duration_string d =
     (let n = nat d; s = n div 1000000000 in
      if n = 0 then ''0s''
      else if n < 1000 then show_nat n @ ''ns''
      else if n < 1000000 then show_nat (n div 1000) @ fmt_frac n 3 @ [CHR 0xC2, CHR 0xB5, CHR ''s'']
      else if n < 1000000000 then show_nat (n div 1000000) @ fmt_frac n 6 @ ''ms''
      else (if s div 3600 > 0 then show_nat (s div 3600) @ ''h'' else []) @
           (if s div 60 > 0 then show_nat (s div 60 mod 60) @ ''m'' else []) @
           show_nat (s mod 60) @ fmt_frac n 9 @ ''s'')"

lemma time_Sub_le_iff [go_time]:
  "minDuration < d \<Longrightarrow> d < maxDuration \<Longrightarrow> time_Sub t u \<le> d \<longleftrightarrow> t \<le> u + d"
  by (auto simp: time_Sub_def)

lemma time_Sub_less_iff [go_time]:
  "minDuration < d \<Longrightarrow> d \<le> maxDuration \<Longrightarrow> time_Sub t u < d \<longleftrightarrow> t < u + d"
  by (auto simp: time_Sub_def)

lemma time_Sub_pos_iff [go_time]: "0 < time_Sub t u \<longleftrightarrow> u < t"
  by (auto simp: time_Sub_def maxDuration_def minDuration_def)

lemma time_Sub_nonneg_iff [go_time]: "0 \<le> time_Sub t u \<longleftrightarrow> u \<le> t"
  by (auto simp: time_Sub_def maxDuration_def minDuration_def)

lemma UnixMilli_of [simp]: "UnixMilli (time_of_UnixMilli ms) = ms"
  by (simp add: UnixMilli_def time_of_UnixMilli_def)

section \<open>sort.Slice\<close>

text \<open>
  sort.Slice as an insertion sort by the comparator. Go leaves the order of elements the
  comparator ties unspecified; the model keeps their order, and where the sources sort the
  values of a map the lemma \<open>slice_sort_unique\<close> shows that the iteration order does not matter.
\<close>

fun insert_by :: "('a \<Rightarrow> 'a \<Rightarrow> bool) \<Rightarrow> 'a \<Rightarrow> 'a list \<Rightarrow> 'a list" where
  "insert_by lt x [] = [x]"
| "insert_by lt x (y # ys) = (if lt y x then y # insert_by lt x ys else x # y # ys)"

fun slice_sort :: "('a \<Rightarrow> 'a \<Rightarrow> bool) \<Rightarrow> 'a list \<Rightarrow> 'a list" where
  "slice_sort lt [] = []"
| "slice_sort lt (x # xs) = insert_by lt x (slice_sort lt xs)"

lemma mset_insert_by [simp, go_sort]: "mset (insert_by lt x ys) = add_mset x (mset ys)"
  by (induction ys) auto

lemma mset_slice_sort [simp, go_sort]: "mset (slice_sort lt xs) = mset xs"
  by (induction xs) auto

lemma set_insert_by [simp, go_sort]: "set (insert_by lt x ys) = insert x (set ys)"
  by (induction ys) auto

lemma set_slice_sort [simp, go_sort]: "set (slice_sort lt xs) = set xs"
  by (induction xs) auto

lemma length_slice_sort [simp, go_sort]: "length (slice_sort lt xs) = length xs"
  by (metis mset_slice_sort size_mset)

lemma distinct_map_slice_sort: "distinct (map f (slice_sort lt xs)) \<longleftrightarrow> distinct (map f xs)"
  by (rule mset_eq_imp_distinct_iff) simp

lemma slice_sort_Nil_iff [simp]: "slice_sort lt xs = [] \<longleftrightarrow> xs = []"
  by (metis length_0_conv length_slice_sort)

text \<open>The contract sort.Slice asks of its comparator: a strict weak ordering.\<close>

locale strict_weak =
  fixes lt :: "'a \<Rightarrow> 'a \<Rightarrow> bool"
  assumes less_asym: "lt x y \<Longrightarrow> \<not> lt y x"
    and less_ntrans: "\<not> lt x y \<Longrightarrow> \<not> lt y z \<Longrightarrow> \<not> lt x z"
begin

lemma less_trans: "lt x y \<Longrightarrow> lt y z \<Longrightarrow> lt x z"
  using less_asym less_ntrans by blast

lemma sorted_insert_by:
  "sorted_wrt (\<lambda>a b. \<not> lt b a) ys \<Longrightarrow> sorted_wrt (\<lambda>a b. \<not> lt b a) (insert_by lt x ys)"
proof (induction ys)
  case (Cons y ys)
  show ?case
  proof (cases "lt y x")
    case True
    with Cons show ?thesis by (simp add: less_asym)
  next
    case False
    have "\<not> lt z x" if "z \<in> set ys" for z
      using Cons.prems that False less_ntrans [of z y x] by auto
    with False Cons.prems show ?thesis by simp
  qed
qed simp

lemma sorted_slice_sort: "sorted_wrt (\<lambda>a b. \<not> lt b a) (slice_sort lt xs)"
  by (induction xs) (auto intro: sorted_insert_by)

lemma sorted_perm_unique:
  assumes "sorted_wrt (\<lambda>a b. \<not> lt b a) xs" and "sorted_wrt (\<lambda>a b. \<not> lt b a) ys"
    and "mset xs = mset ys"
    and "\<And>x y. x \<in> set xs \<Longrightarrow> y \<in> set xs \<Longrightarrow> x \<noteq> y \<Longrightarrow> lt x y \<or> lt y x"
  shows "xs = ys"
  using assms
proof (induction xs arbitrary: ys)
  case (Cons x xs)
  from Cons.prems(3) obtain y ys' where ys: "ys = y # ys'"
    by (cases ys) auto
  have set_eq: "set (x # xs) = set ys"
    using Cons.prems(3) by (metis set_mset_mset)
  have "x = y"
  proof (rule ccontr)
    assume "x \<noteq> y"
    then have "x \<in> set ys'" "y \<in> set xs"
      using set_eq ys by auto
    then have "\<not> lt x y" "\<not> lt y x"
      using Cons.prems(1,2) ys by auto
    with Cons.prems(4) \<open>x \<noteq> y\<close> \<open>y \<in> set xs\<close> show False by auto
  qed
  moreover have "xs = ys'"
  proof (rule Cons.IH)
    show "sorted_wrt (\<lambda>a b. \<not> lt b a) xs" "sorted_wrt (\<lambda>a b. \<not> lt b a) ys'"
      using Cons.prems(1,2) ys by simp_all
    show "mset xs = mset ys'"
      using Cons.prems(3) ys \<open>x = y\<close> by simp
    show "lt a b \<or> lt b a" if "a \<in> set xs" "b \<in> set xs" "a \<noteq> b" for a b
      using Cons.prems(4) that by simp
  qed
  ultimately show ?case using ys by simp
qed simp

lemma slice_sort_unique:
  assumes "mset xs = mset ys"
    and "\<And>x y. x \<in> set xs \<Longrightarrow> y \<in> set xs \<Longrightarrow> x \<noteq> y \<Longrightarrow> lt x y \<or> lt y x"
  shows "slice_sort lt xs = slice_sort lt ys"
  by (rule sorted_perm_unique) (use assms in \<open>auto intro: sorted_slice_sort\<close>)

end

lemma strict_weak_key: "strict_weak (\<lambda>x y. f x < (f y :: 'b :: linorder))"
  by unfold_locales auto

interpretation string_order: strict_weak "(<) :: string \<Rightarrow> string \<Rightarrow> bool"
  by (rule strict_weak_key [where f = "\<lambda>x. x"])

interpretation time_order: strict_weak "(<) :: Time \<Rightarrow> Time \<Rightarrow> bool"
  by (rule strict_weak_key [where f = "\<lambda>x. x"])

section \<open>Maps that are iterated\<close>

text \<open>
  A Go map whose entries the code ranges over is an association list with distinct keys: lookup
  is \<^const>\<open>map_of\<close>, assignment \<^const>\<open>AList.update\<close>, delete \<^const>\<open>AList.delete\<close>. A map that is only
  looked up is a partial function.
\<close>

type_synonym ('k, 'v) gomap = "('k \<times> 'v) list"

definition gomap_ok :: "('k, 'v) gomap \<Rightarrow> bool" where
  "gomap_ok m \<longleftrightarrow> distinct (map fst m)"

lemma gomap_ok_Nil [simp, intro]: "gomap_ok []"
  by (simp add: gomap_ok_def)

lemma gomap_ok_update [simp, intro]: "gomap_ok m \<Longrightarrow> gomap_ok (AList.update k v m)"
  by (simp add: gomap_ok_def distinct_update)

lemma gomap_ok_delete [simp, intro]: "gomap_ok m \<Longrightarrow> gomap_ok (AList.delete k m)"
  by (simp add: gomap_ok_def distinct_delete)

lemma removeAll_Nil_iff: "removeAll x xs = [] \<longleftrightarrow> set xs \<subseteq> {x}"
  by (induction xs) auto

lemma length_update: "length (AList.update k v m) = (if map_of m k = None then Suc (length m) else length m)"
  by (induction m) auto

lemma gomap_card: "gomap_ok m \<Longrightarrow> card (fst ` set m) = length m"
  unfolding gomap_ok_def by (metis distinct_card length_map list.set_map)

lemma gomap_in_set: "gomap_ok m \<Longrightarrow> (k, v) \<in> set m \<longleftrightarrow> map_of m k = Some v"
  by (simp add: gomap_ok_def)

lemmas gomap_lookup [simp] = update_conv' delete_conv'

end
