(* ===== verification/Errors.thy ===== *)
theory Errors
  imports Prelude
begin

text \<open>
  Error values: exchange/errors.go, the caller-facing classification of gateway/account/errors.go,
  and Go's error trees with errors.Is and errors.As. A nil error is \<^term>\<open>None\<close> wherever a function
  returns an \<open>error\<close>.
\<close>

section \<open>Kinds and details\<close>

datatype ErrorKind =
    KindInvalidConfig | KindInvalidRequest | KindAuthentication | KindPermission | KindRateLimit
  | KindNotFound | KindUnsupported | KindVenueRejected | KindTransport | KindAmbiguousOutcome
  | KindMalformedResponse | KindMetadataResolution | KindCanceled | KindDeadlineExceeded
  | KindSubscriptionGap | KindSubscriptionClosed

fun kind_string :: "ErrorKind \<Rightarrow> string" where
  "kind_string KindInvalidConfig = ''invalid_config''"
| "kind_string KindInvalidRequest = ''invalid_request''"
| "kind_string KindAuthentication = ''authentication''"
| "kind_string KindPermission = ''permission''"
| "kind_string KindRateLimit = ''rate_limit''"
| "kind_string KindNotFound = ''not_found''"
| "kind_string KindUnsupported = ''unsupported''"
| "kind_string KindVenueRejected = ''venue_rejected''"
| "kind_string KindTransport = ''transport''"
| "kind_string KindAmbiguousOutcome = ''ambiguous_outcome''"
| "kind_string KindMalformedResponse = ''malformed_response''"
| "kind_string KindMetadataResolution = ''metadata_resolution''"
| "kind_string KindCanceled = ''canceled''"
| "kind_string KindDeadlineExceeded = ''deadline_exceeded''"
| "kind_string KindSubscriptionGap = ''subscription_gap''"
| "kind_string KindSubscriptionClosed = ''subscription_closed''"

record ErrorDetails =
  ed_Venue :: string
  ed_Product :: string
  ed_Operation :: string
  ed_Code :: string
  ed_SafeMessage :: string
  ed_RetryAfter :: Duration
  ed_HTTPStatus :: int
  ed_VenueMessage :: string
  ed_CommandNotSent :: bool

definition no_details :: ErrorDetails where
  "no_details =
     \<lparr>ed_Venue = [], ed_Product = [], ed_Operation = [], ed_Code = [], ed_SafeMessage = [],
      ed_RetryAfter = 0, ed_HTTPStatus = 0, ed_VenueMessage = [], ed_CommandNotSent = False\<rparr>"

lemma no_details_sel [simp]:
  "ed_Venue no_details = []" "ed_Product no_details = []" "ed_Operation no_details = []"
  "ed_Code no_details = []" "ed_SafeMessage no_details = []" "ed_RetryAfter no_details = 0"
  "ed_HTTPStatus no_details = 0" "ed_VenueMessage no_details = []" "\<not> ed_CommandNotSent no_details"
  by (simp_all add: no_details_def)

section \<open>Venue failures\<close>

datatype Category =
    CategoryNetwork | CategoryRejected | CategoryCredentials | CategoryRateLimited
  | CategoryInvalid | CategoryUnsupported | CategoryVenue

fun category_string :: "Category \<Rightarrow> string" where
  "category_string CategoryNetwork = ''network''"
| "category_string CategoryRejected = ''rejected''"
| "category_string CategoryCredentials = ''credentials''"
| "category_string CategoryRateLimited = ''rate_limited''"
| "category_string CategoryInvalid = ''invalid''"
| "category_string CategoryUnsupported = ''unsupported''"
| "category_string CategoryVenue = ''venue_error''"

record VenueFailure =
  vf_Category :: Category
  vf_Venue :: string
  vf_Code :: string
  vf_VenueMessage :: string
  vf_Retryable :: bool

text \<open>VenueFailure.Message, the text a caller may be shown.\<close>

definition failure_Message :: "VenueFailure \<Rightarrow> string" where
  "failure_Message failure =
     (let venue = (if vf_Venue failure = [] then ''the exchange'' else vf_Venue failure);
          msg = vf_VenueMessage failure
      in case vf_Category failure of
           CategoryNetwork \<Rightarrow>
             ''Cannot reach '' @ venue @ '' right now. Check the network or proxy and try again.''
         | CategoryRejected \<Rightarrow> if msg \<noteq> [] then msg else venue @ '' rejected the request.''
         | CategoryCredentials \<Rightarrow>
             if msg \<noteq> [] then venue @ '' rejected the API key: '' @ msg
             else venue @ '' rejected the API key or its permissions.''
         | CategoryRateLimited \<Rightarrow> venue @ '' rate limit reached. Wait a moment and try again.''
         | CategoryInvalid \<Rightarrow> if msg \<noteq> [] then msg else ''The request is invalid.''
         | CategoryUnsupported \<Rightarrow> venue @ '' does not support this operation.''
         | CategoryVenue \<Rightarrow> venue @ '' returned an unexpected response. Try again.'')"

definition failure_Error :: "VenueFailure \<Rightarrow> string" where
  "failure_Error failure =
     failure_Message failure @ (if vf_Code failure \<noteq> [] then '' ('' @ vf_Code failure @ '')'' else [])"

section \<open>Error trees\<close>

text \<open>
  The dynamic types an \<open>error\<close> of the modelled code can have: an exchange error, the kind
  sentinels, the two context errors, a net.Error of the standard library, a classified venue
  failure, a package-level sentinel (its Go name and its text), a plain error, the errors of
  internal/venuehttp and internal/errs, the two decoding errors of encoding/json, the typed
  application errors of the SDKs, and the trees that fmt.Errorf with \<open>%w\<close> and errors.Join build.
  The list of a constructor is what its Unwrap gives (no element for nil).
\<close>

record HTTPFailure =
  hf_StatusCode :: int
  hf_Method :: string
  hf_Path :: string
  hf_Code :: string
  hf_RetryAfter :: Duration

datatype SdkErrorType =
    BinancePerpAPIError | BinanceSpotAPIError | OkxAPIError | BybitResponseError | BitgetResponseError
  | GateAPIError | HyperliquidOrderRejectedError | HyperliquidAPIErrorValue | HyperliquidAPIErrorPointer
  | LighterAPIError | NadoGatewayApplicationError | AsterVenueError

datatype goerror =
    ExchangeError ErrorKind ErrorDetails
  | KindSentinel ErrorKind
  | ContextCanceled
  | ContextDeadlineExceeded
  | NetError string
  | FailureError VenueFailure
  | SentinelError string string
  | PlainError string
  | HTTPError HTTPFailure "goerror list"
  | LocalRateLimitError Duration string
  | TransportError "goerror list"
  | MappedError string string string "goerror list"
  | JsonSyntaxError string
  | JsonTypeError string
  | SdkError SdkErrorType string "string list" "goerror list"
  | WrapError string "goerror list"
  | JoinError "goerror list"

text \<open>Error.Error of an exchange error: the parts that are present, joined by a colon.\<close>

definition exchange_Error_text :: "ErrorKind \<Rightarrow> ErrorDetails \<Rightarrow> string" where
  "exchange_Error_text kind details =
     Join ([kind_string kind] @
           (if ed_Venue details \<noteq> [] then [ed_Venue details] else []) @
           (if ed_Product details \<noteq> [] then [ed_Product details] else []) @
           (if ed_Operation details \<noteq> [] then [ed_Operation details] else []) @
           (if ed_Code details \<noteq> [] then [ed_Code details] else []) @
           (if ed_SafeMessage details \<noteq> [] then [ed_SafeMessage details] else []) @
           (if ed_RetryAfter details > 0
            then [''retry_after='' @ duration_string (ed_RetryAfter details)] else [])) '': ''"

fun error_text :: "goerror \<Rightarrow> string" where
  "error_text (ExchangeError k d) = exchange_Error_text k d"
| "error_text (KindSentinel k) = kind_string k"
| "error_text ContextCanceled = ''context canceled''"
| "error_text ContextDeadlineExceeded = ''context deadline exceeded''"
| "error_text (NetError s) = s"
| "error_text (FailureError f) = failure_Error f"
| "error_text (SentinelError _ s) = s"
| "error_text (PlainError s) = s"
| "error_text (HTTPError f _) =
     ''venue HTTP failure (method='' @ hf_Method f @ '' path='' @ hf_Path f @ '' status='' @
     show_int (hf_StatusCode f) @ '' code='' @ hf_Code f @ '')''"
| "error_text (LocalRateLimitError _ _) = ''local request budget exhausted''"
| "error_text (TransportError _) = ''venue HTTP transport failure''"
| "error_text (MappedError exch code message _) =
     (if code \<noteq> [] then ''['' @ exch @ ''] '' @ code @ '': '' @ message else ''['' @ exch @ ''] '' @ message)"
| "error_text (JsonSyntaxError s) = s"
| "error_text (JsonTypeError s) = s"
| "error_text (SdkError _ s _ _) = s"
| "error_text (WrapError s _) = s"
| "error_text (JoinError es) = Join (map error_text es) [CHR 0x0A]"

text \<open>Error.Is of an exchange error, against the sentinels the sources compare with.\<close>

fun exchange_Error_Is :: "ErrorKind \<Rightarrow> goerror \<Rightarrow> bool" where
  "exchange_Error_Is kind (KindSentinel k) \<longleftrightarrow> kind = k"
| "exchange_Error_Is kind ContextCanceled \<longleftrightarrow> kind = KindCanceled"
| "exchange_Error_Is kind ContextDeadlineExceeded \<longleftrightarrow> kind = KindDeadlineExceeded"
| "exchange_Error_Is kind _ \<longleftrightarrow> False"

abbreviation ErrRateLimited :: goerror where
  "ErrRateLimited \<equiv> SentinelError ''errs.ErrRateLimited'' ''rate limited''"

text \<open>HTTPError.Is.\<close>

definition http_Is :: "HTTPFailure \<Rightarrow> goerror \<Rightarrow> bool" where
  "http_Is f target \<longleftrightarrow> target = ErrRateLimited \<and> (hf_StatusCode f = 429 \<or> hf_StatusCode f = 418)"

text \<open>errors.Is: the tree is searched for a node equal to the target or whose Is method accepts it.\<close>

fun errors_Is :: "goerror \<Rightarrow> goerror \<Rightarrow> bool" where
  "errors_Is (ExchangeError k d) target \<longleftrightarrow> exchange_Error_Is k target"
| "errors_Is (WrapError s es) target \<longleftrightarrow> list_ex (\<lambda>e. errors_Is e target) es"
| "errors_Is (JoinError es) target \<longleftrightarrow> list_ex (\<lambda>e. errors_Is e target) es"
| "errors_Is (KindSentinel k) target \<longleftrightarrow> target = KindSentinel k"
| "errors_Is ContextCanceled target \<longleftrightarrow> target = ContextCanceled"
| "errors_Is ContextDeadlineExceeded target \<longleftrightarrow> target = ContextDeadlineExceeded"
| "errors_Is (SentinelError n s) target \<longleftrightarrow> target = SentinelError n s"
| "errors_Is (NetError s) target \<longleftrightarrow> False"
| "errors_Is (FailureError f) target \<longleftrightarrow> False"
| "errors_Is (PlainError s) target \<longleftrightarrow> False"
| "errors_Is (HTTPError f es) target \<longleftrightarrow> http_Is f target \<or> list_ex (\<lambda>e. errors_Is e target) es"
| "errors_Is (LocalRateLimitError d a) target \<longleftrightarrow> target = ErrRateLimited"
| "errors_Is (TransportError es) target \<longleftrightarrow> list_ex (\<lambda>e. errors_Is e target) es"
| "errors_Is (MappedError x c m es) target \<longleftrightarrow> list_ex (\<lambda>e. errors_Is e target) es"
| "errors_Is (JsonSyntaxError s) target \<longleftrightarrow> False"
| "errors_Is (JsonTypeError s) target \<longleftrightarrow> False"
| "errors_Is (SdkError t s ms es) target \<longleftrightarrow> list_ex (\<lambda>e. errors_Is e target) es"

text \<open>errors.As for the exchange error, the venue failure and net.Error: the first match in preorder.\<close>

fun first_some :: "'a option list \<Rightarrow> 'a option" where
  "first_some [] = None"
| "first_some (None # xs) = first_some xs"
| "first_some (Some x # xs) = Some x"

fun as_exchange :: "goerror \<Rightarrow> (ErrorKind \<times> ErrorDetails) option" where
  "as_exchange (ExchangeError k d) = Some (k, d)"
| "as_exchange (WrapError s es) = first_some (map as_exchange es)"
| "as_exchange (JoinError es) = first_some (map as_exchange es)"
| "as_exchange (HTTPError h es) = first_some (map as_exchange es)"
| "as_exchange (TransportError es) = first_some (map as_exchange es)"
| "as_exchange (MappedError x c m es) = first_some (map as_exchange es)"
| "as_exchange (SdkError t s ms es) = first_some (map as_exchange es)"
| "as_exchange _ = None"

fun as_failure :: "goerror \<Rightarrow> VenueFailure option" where
  "as_failure (FailureError f) = Some f"
| "as_failure (WrapError s es) = first_some (map as_failure es)"
| "as_failure (JoinError es) = first_some (map as_failure es)"
| "as_failure (HTTPError h es) = first_some (map as_failure es)"
| "as_failure (TransportError es) = first_some (map as_failure es)"
| "as_failure (MappedError x c m es) = first_some (map as_failure es)"
| "as_failure (SdkError t s ms es) = first_some (map as_failure es)"
| "as_failure _ = None"

fun as_net_error :: "goerror \<Rightarrow> bool" where
  "as_net_error (NetError s) \<longleftrightarrow> True"
| "as_net_error ContextDeadlineExceeded \<longleftrightarrow> True"
| "as_net_error (WrapError s es) \<longleftrightarrow> list_ex as_net_error es"
| "as_net_error (JoinError es) \<longleftrightarrow> list_ex as_net_error es"
| "as_net_error (HTTPError h es) \<longleftrightarrow> list_ex as_net_error es"
| "as_net_error (TransportError es) \<longleftrightarrow> list_ex as_net_error es"
| "as_net_error (MappedError x c m es) \<longleftrightarrow> list_ex as_net_error es"
| "as_net_error (SdkError t s ms es) \<longleftrightarrow> list_ex as_net_error es"
| "as_net_error _ \<longleftrightarrow> False"

section \<open>Classification\<close>

definition venueName :: "string \<Rightarrow> string" where
  "venueName venue =
     (if venue = ''binance'' then ''Binance'' else if venue = ''okx'' then ''OKX''
      else if venue = ''bybit'' then ''Bybit'' else if venue = ''bitget'' then ''Bitget''
      else if venue = ''gate'' then ''Gate'' else if venue = ''hyperliquid'' then ''Hyperliquid''
      else if venue = ''lighter'' then ''Lighter'' else if venue = ''aster'' then ''Aster''
      else if venue = ''nado'' then ''Nado'' else venue)"

text \<open>The category and the retry flag Classify gives to an exchange error by its kind.\<close>

fun kind_category :: "ErrorKind \<Rightarrow> Category \<times> bool" where
  "kind_category KindTransport = (CategoryNetwork, True)"
| "kind_category KindDeadlineExceeded = (CategoryNetwork, True)"
| "kind_category KindCanceled = (CategoryNetwork, True)"
| "kind_category KindSubscriptionClosed = (CategoryNetwork, True)"
| "kind_category KindSubscriptionGap = (CategoryNetwork, True)"
| "kind_category KindVenueRejected = (CategoryRejected, False)"
| "kind_category KindNotFound = (CategoryRejected, False)"
| "kind_category KindAuthentication = (CategoryCredentials, False)"
| "kind_category KindPermission = (CategoryCredentials, False)"
| "kind_category KindRateLimit = (CategoryRateLimited, True)"
| "kind_category KindInvalidRequest = (CategoryInvalid, False)"
| "kind_category KindInvalidConfig = (CategoryInvalid, False)"
| "kind_category KindUnsupported = (CategoryUnsupported, False)"
| "kind_category KindMalformedResponse = (CategoryVenue, True)"
| "kind_category KindMetadataResolution = (CategoryVenue, True)"
| "kind_category KindAmbiguousOutcome = (CategoryVenue, True)"

definition Classify :: "goerror option \<Rightarrow> VenueFailure option" where
  "Classify err =
     (case err of
        None \<Rightarrow> None
      | Some e \<Rightarrow>
          (case as_failure e of
             Some existing \<Rightarrow> Some existing
           | None \<Rightarrow>
               (case as_exchange e of
                  Some (kind, details) \<Rightarrow>
                    (let (cat, retry) =
                       (if ed_HTTPStatus details \<ge> 500 \<or> ed_HTTPStatus details = 408
                        then (CategoryNetwork, True) else kind_category kind)
                     in Some \<lparr>vf_Category = cat, vf_Venue = venueName (ed_Venue details),
                              vf_Code = ed_Code details, vf_VenueMessage = ed_VenueMessage details,
                              vf_Retryable = retry\<rparr>)
                | None \<Rightarrow>
                    (let net = (errors_Is e ContextDeadlineExceeded \<or> errors_Is e ContextCanceled \<or>
                                as_net_error e)
                     in Some \<lparr>vf_Category = (if net then CategoryNetwork else CategoryVenue),
                              vf_Venue = [], vf_Code = [], vf_VenueMessage = [],
                              vf_Retryable = net\<rparr>))))"

lemma Classify_None_iff [simp]: "Classify err = None \<longleftrightarrow> err = None"
  by (auto simp: Classify_def Let_def split: option.splits prod.splits)

lemma first_some_in: "first_some xs = Some x \<Longrightarrow> Some x \<in> set xs"
  by (induction xs rule: first_some.induct) auto

text \<open>An exchange error found in the tree also answers errors.Is for its kind.\<close>

lemma as_exchange_children:
  assumes "first_some (map as_exchange es) = Some (k, d)"
    and "\<And>e. e \<in> set es \<Longrightarrow> as_exchange e = Some (k, d) \<Longrightarrow> errors_Is e (KindSentinel k)"
  shows "list_ex (\<lambda>e. errors_Is e (KindSentinel k)) es"
proof -
  obtain e where "e \<in> set es" "as_exchange e = Some (k, d)"
    using first_some_in [OF assms(1)] by fastforce
  with assms(2) show ?thesis by (auto simp: list_ex_iff)
qed

lemma as_exchange_Is: "as_exchange e = Some (k, d) \<Longrightarrow> errors_Is e (KindSentinel k)"
  by (induction e) (simp_all add: as_exchange_children)

end
