(* ===== verification/Decimal.thy ===== *)
theory Decimal
  imports Prelude
begin

text \<open>
  Decimal arithmetic is the third-party package shopspring/decimal, so its operations are
  parameters: every definition that computes with decimals takes a record of them. The locale
  \<open>decimal_laws\<close> states the documented behaviour the code relies on: a decimal denotes a rational
  number, the predicates and arithmetic are those of that number, and String is a canonical
  rendering that NewFromString reads back. The last section satisfies the laws by an
  arbitrary-precision decimal (an integer mantissa over a power of ten).
\<close>

section \<open>The operations the sources call\<close>

record 'd Decimals =
  IsPositive :: "'d \<Rightarrow> bool"
  IsNegative :: "'d \<Rightarrow> bool"
  IsZero :: "'d \<Rightarrow> bool"
  LessThan :: "'d \<Rightarrow> 'd \<Rightarrow> bool"
  GreaterThan :: "'d \<Rightarrow> 'd \<Rightarrow> bool"
  DMul :: "'d \<Rightarrow> 'd \<Rightarrow> 'd"
  DAdd :: "'d \<Rightarrow> 'd \<Rightarrow> 'd"
  DMod :: "'d \<Rightarrow> 'd \<Rightarrow> 'd"
  DAbs :: "'d \<Rightarrow> 'd"
  DMax :: "'d \<Rightarrow> 'd \<Rightarrow> 'd"
  DMin :: "'d \<Rightarrow> 'd \<Rightarrow> 'd"
  DZero :: 'd
  DString :: "'d \<Rightarrow> string"
  NewFromString :: "string \<Rightarrow> 'd option"

text \<open>Truncation towards zero, as the quotient of Mod is taken.\<close>

definition rat_trunc :: "rat \<Rightarrow> int" where
  "rat_trunc q = (if q < 0 then - \<lfloor>- q\<rfloor> else \<lfloor>q\<rfloor>)"

section \<open>The laws\<close>

locale decimal_laws =
  fixes D :: "'d Decimals" and val :: "'d \<Rightarrow> rat"
  assumes IsPositive_iff [simp]: "IsPositive D x \<longleftrightarrow> 0 < val x"
    and IsNegative_iff [simp]: "IsNegative D x \<longleftrightarrow> val x < 0"
    and IsZero_iff [simp]: "IsZero D x \<longleftrightarrow> val x = 0"
    and LessThan_iff [simp]: "LessThan D x y \<longleftrightarrow> val x < val y"
    and GreaterThan_iff [simp]: "GreaterThan D x y \<longleftrightarrow> val y < val x"
    and val_Mul [simp]: "val (DMul D x y) = val x * val y"
    and val_Add [simp]: "val (DAdd D x y) = val x + val y"
    and val_Mod: "val y \<noteq> 0 \<Longrightarrow> val (DMod D x y) = val x - val y * of_int (rat_trunc (val x / val y))"
    and val_Abs [simp]: "val (DAbs D x) = \<bar>val x\<bar>"
    and val_Max [simp]: "val (DMax D x y) = max (val x) (val y)"
    and val_Min [simp]: "val (DMin D x y) = min (val x) (val y)"
    and val_Zero [simp]: "val (DZero D) = 0"
    and String_eq_iff: "DString D x = DString D y \<longleftrightarrow> val x = val y"
    and String_ne: "DString D x \<noteq> []"
    and parse_String: "\<exists>y. NewFromString D (DString D x) = Some y \<and> val y = val x"
begin

text \<open>A decimal is a multiple of an increment exactly when Mod gives zero.\<close>

lemma Mod_zero_iff:
  assumes "val y \<noteq> 0"
  shows "val (DMod D x y) = 0 \<longleftrightarrow> (\<exists>k::int. val x = of_int k * val y)"
proof
  assume "val (DMod D x y) = 0"
  then have "val x = of_int (rat_trunc (val x / val y)) * val y"
    using assms by (simp add: val_Mod mult.commute)
  then show "\<exists>k::int. val x = of_int k * val y" by blast
next
  assume "\<exists>k::int. val x = of_int k * val y"
  then obtain k :: int where k: "val x = of_int k * val y" by blast
  then have "val x / val y = of_int k" using assms by simp
  moreover have "rat_trunc (of_int k) = k"
    by (simp add: rat_trunc_def)
  ultimately show "val (DMod D x y) = 0"
    using assms k by (simp add: val_Mod)
qed

lemma LessThan_strict_weak: "strict_weak (LessThan D)"
  by unfold_locales auto

lemma GreaterThan_strict_weak: "strict_weak (GreaterThan D)"
  by unfold_locales auto

end

section \<open>Decimals as scaled integers\<close>

datatype dec = Dec int nat

fun dec_val :: "dec \<Rightarrow> rat" where
  "dec_val (Dec m e) = of_int m / 10 ^ e"

fun dec_norm :: "int \<Rightarrow> nat \<Rightarrow> dec" where
  "dec_norm m 0 = Dec m 0"
| "dec_norm m (Suc e) = (if 10 dvd m then dec_norm (m div 10) e else Dec m (Suc e))"

definition dec_print :: "int \<Rightarrow> nat \<Rightarrow> string" where
  "dec_print m e =
     (if m < 0 then ''-'' else []) @ show_nat (nat \<bar>m\<bar> div 10 ^ e) @
     (if e = 0 then [] else CHR ''.'' # fix_digits e (nat \<bar>m\<bar>))"

fun dec_string :: "dec \<Rightarrow> string" where
  "dec_string (Dec m e) = (case dec_norm m e of Dec m' e' \<Rightarrow> dec_print m' e')"

definition dec_parse :: "string \<Rightarrow> dec option" where
  "dec_parse s =
     (let neg = (s \<noteq> [] \<and> hd s = CHR ''-'');
          body = (if neg then tl s else s);
          whole = takeWhile (\<lambda>c. c \<noteq> CHR ''.'') body;
          rest = dropWhile (\<lambda>c. c \<noteq> CHR ''.'') body;
          frac = tl rest
      in if whole = [] \<or> \<not> list_all is_digit whole \<or> \<not> list_all is_digit frac then None
         else Some (Dec ((if neg then -1 else 1) * int (digits_val (whole @ frac))) (length frac)))"

fun dec_less :: "dec \<Rightarrow> dec \<Rightarrow> bool" where
  "dec_less (Dec m e) (Dec n f) \<longleftrightarrow> m * 10 ^ f < n * 10 ^ e"

fun dec_mul :: "dec \<Rightarrow> dec \<Rightarrow> dec" where
  "dec_mul (Dec m e) (Dec n f) = Dec (m * n) (e + f)"

fun dec_add :: "dec \<Rightarrow> dec \<Rightarrow> dec" where
  "dec_add (Dec m e) (Dec n f) = Dec (m * 10 ^ f + n * 10 ^ e) (e + f)"

fun dec_mod :: "dec \<Rightarrow> dec \<Rightarrow> dec" where
  "dec_mod (Dec m e) (Dec n f) =
     (let a = m * 10 ^ f; b = \<bar>n * 10 ^ e\<bar>
      in Dec (if a < 0 then - (- a mod b) else a mod b) (e + f))"

fun mantissa :: "dec \<Rightarrow> int" where
  "mantissa (Dec m e) = m"

definition dec_ops :: "dec Decimals" where
  "dec_ops =
     \<lparr>IsPositive = (\<lambda>x. 0 < mantissa x), IsNegative = (\<lambda>x. mantissa x < 0),
      IsZero = (\<lambda>x. mantissa x = 0), LessThan = dec_less, GreaterThan = (\<lambda>x y. dec_less y x),
      DMul = dec_mul, DAdd = dec_add, DMod = dec_mod,
      DAbs = (\<lambda>x. case x of Dec m e \<Rightarrow> Dec \<bar>m\<bar> e),
      DMax = (\<lambda>x y. if dec_less x y then y else x),
      DMin = (\<lambda>x y. if dec_less y x then y else x),
      DZero = Dec 0 0, DString = dec_string, NewFromString = dec_parse\<rparr>"

subsection \<open>Values\<close>

lemma dec_less_val: "dec_less x y \<longleftrightarrow> dec_val x < dec_val y"
proof (cases x; cases y)
  fix m e n f assume "x = Dec m e" "y = Dec n f"
  moreover have "rat_of_int m / 10 ^ e < of_int n / 10 ^ f \<longleftrightarrow> rat_of_int (m * 10 ^ f) < of_int (n * 10 ^ e)"
    by (simp add: field_simps)
  ultimately show ?thesis
    by (simp only: dec_less.simps dec_val.simps of_int_less_iff)
qed

lemma dec_norm_val: "dec_val (dec_norm m e) = of_int m / 10 ^ e"
  by (induction m e rule: dec_norm.induct) (auto simp: dvd_def)

text \<open>The normal form: no fraction, or a last fraction digit other than zero.\<close>

fun dec_normal :: "dec \<Rightarrow> bool" where
  "dec_normal (Dec m e) \<longleftrightarrow> e = 0 \<or> \<not> 10 dvd m"

lemma dec_norm_normal: "dec_normal (dec_norm m e)"
  by (induction m e rule: dec_norm.induct) auto

lemma dec_normal_unique_le:
  assumes "dec_normal (Dec m e)" "dec_normal (Dec n f)" "dec_val (Dec m e) = dec_val (Dec n f)" "e \<le> f"
  shows "m = n \<and> e = f"
proof -
  obtain k where k: "f = e + k" using assms(4) le_Suc_ex by blast
  have "rat_of_int m * 10 ^ k = of_int n"
    using assms(3) k by (simp add: field_simps power_add)
  then have "rat_of_int (m * 10 ^ k) = of_int n" by simp
  then have n: "n = m * 10 ^ k" by linarith
  have "k = 0"
  proof (rule ccontr)
    assume "k \<noteq> 0"
    then have "10 dvd n" using n by (cases k) auto
    with assms(2) k \<open>k \<noteq> 0\<close> show False by simp
  qed
  with n k show ?thesis by simp
qed

lemma dec_normal_unique:
  "dec_normal x \<Longrightarrow> dec_normal y \<Longrightarrow> dec_val x = dec_val y \<Longrightarrow> x = y"
proof (cases x; cases y)
  fix m e n f
  assume a: "dec_normal x" "dec_normal y" "dec_val x = dec_val y" "x = Dec m e" "y = Dec n f"
  show "x = y"
    by (cases "e \<le> f")
      (use a dec_normal_unique_le [of m e n f] dec_normal_unique_le [of n f m e] in auto)
qed

subsection \<open>Printing and parsing\<close>

lemma digit_not_point: "is_digit c \<Longrightarrow> c \<noteq> CHR ''.''" "is_digit c \<Longrightarrow> c \<noteq> CHR ''-''"
  by (auto simp: is_digit_def)

lemma digits_takeWhile:
  "list_all is_digit s \<Longrightarrow> takeWhile (\<lambda>c. c \<noteq> CHR ''.'') (s @ t) = s @ takeWhile (\<lambda>c. c \<noteq> CHR ''.'') t"
  "list_all is_digit s \<Longrightarrow> dropWhile (\<lambda>c. c \<noteq> CHR ''.'') (s @ t) = dropWhile (\<lambda>c. c \<noteq> CHR ''.'') t"
  by (induction s) (auto dest: digit_not_point)

lemma dec_parse_body:
  assumes "list_all is_digit w" "w \<noteq> []" "list_all is_digit f" "t = (if f = [] then [] else CHR ''.'' # f)"
  shows "dec_parse (w @ t) = Some (Dec (int (digits_val (w @ f))) (length f))"
    and "dec_parse (''-'' @ w @ t) = Some (Dec (- int (digits_val (w @ f))) (length f))"
proof -
  have hd: "hd (w @ t) \<noteq> CHR ''-''"
    using assms(1,2) digit_not_point by (cases w) auto
  have t: "takeWhile (\<lambda>c. c \<noteq> CHR ''.'') t = []" "tl (dropWhile (\<lambda>c. c \<noteq> CHR ''.'') t) = f"
    using assms(4) by auto
  show "dec_parse (w @ t) = Some (Dec (int (digits_val (w @ f))) (length f))"
    using hd assms t by (simp add: dec_parse_def Let_def digits_takeWhile)
  show "dec_parse (''-'' @ w @ t) = Some (Dec (- int (digits_val (w @ f))) (length f))"
    using assms t by (simp add: dec_parse_def Let_def digits_takeWhile)
qed

lemma dec_parse_print: "dec_parse (dec_print m e) = Some (Dec m e)"
proof -
  let ?w = "show_nat (nat \<bar>m\<bar> div 10 ^ e)" and ?f = "fix_digits e (nat \<bar>m\<bar>)"
  have "digits_val (?w @ ?f) = nat \<bar>m\<bar>"
    unfolding digits_val_append fix_digits_length digits_val_show fix_digits_val
    by (rule div_mult_mod_eq)
  then have v: "int (digits_val (?w @ ?f)) = \<bar>m\<bar>"
    by simp
  have f: "?f = [] \<longleftrightarrow> e = 0"
    by (metis fix_digits_length length_0_conv)
  show ?thesis
    using dec_parse_body [OF show_nat_digits show_nat_ne fix_digits_digits refl,
        of "nat \<bar>m\<bar> div 10 ^ e" e "nat \<bar>m\<bar>"] v f
    by (auto simp: dec_print_def)
qed

lemma dec_parse_string: "dec_parse (dec_string (Dec m e)) = Some (dec_norm m e)"
  by (cases "dec_norm m e") (simp add: dec_parse_print)

lemma dec_string_eq_iff: "dec_string x = dec_string y \<longleftrightarrow> dec_val x = dec_val y"
proof (cases x; cases y)
  fix m e n f assume xy: "x = Dec m e" "y = Dec n f"
  show ?thesis
  proof
    assume "dec_string x = dec_string y"
    then have "dec_norm m e = dec_norm n f"
      using dec_parse_string xy by (metis option.inject)
    then show "dec_val x = dec_val y"
      using dec_norm_val [of m e] dec_norm_val [of n f] xy by simp
  next
    assume "dec_val x = dec_val y"
    then have "dec_norm m e = dec_norm n f"
      by (intro dec_normal_unique dec_norm_normal) (simp add: xy dec_norm_val)
    then show "dec_string x = dec_string y"
      using xy by simp
  qed
qed

subsection \<open>The laws hold\<close>

lemma rat_trunc_div: "b \<noteq> 0 \<Longrightarrow> rat_trunc (of_int a / of_int b) = sgn a * sgn b * (\<bar>a\<bar> div \<bar>b\<bar>)"
proof -
  assume b: "b \<noteq> 0"
  have fl: "\<lfloor>rat_of_int i / rat_of_int j\<rfloor> = i div j" for i j
    by (rule floor_divide_of_int_eq)
  have neg: "- (rat_of_int a / rat_of_int b) = rat_of_int (- a) / rat_of_int b"
    by simp
  consider "0 < a" "0 < b" | "a < 0" "0 < b" | "0 < a" "b < 0" | "a < 0" "b < 0" | "a = 0"
    using b by linarith
  then show ?thesis
  proof cases
    case 1
    then show ?thesis by (simp add: rat_trunc_def fl divide_less_0_iff)
  next
    case 2
    then show ?thesis unfolding rat_trunc_def neg fl by (simp add: divide_less_0_iff)
  next
    case 3
    then show ?thesis
      using div_minus_minus [of a "- b"] unfolding rat_trunc_def neg fl by (simp add: divide_less_0_iff)
  next
    case 4
    then show ?thesis
      using div_minus_minus [of a b] by (simp add: rat_trunc_def fl divide_less_0_iff)
  next
    case 5
    then show ?thesis by (simp add: rat_trunc_def)
  qed
qed

lemma trunc_rem:
  fixes a b :: int
  shows "(if a < 0 then - (- a mod \<bar>b\<bar>) else a mod \<bar>b\<bar>) = a - b * (sgn a * sgn b * (\<bar>a\<bar> div \<bar>b\<bar>))"
proof -
  have "b * sgn b = \<bar>b\<bar>" by (simp add: abs_sgn)
  then have r: "b * (sgn a * sgn b * k) = \<bar>b\<bar> * (sgn a * k)" for k
    by (metis mult.assoc mult.commute)
  have m: "c mod \<bar>b\<bar> = c - \<bar>b\<bar> * (c div \<bar>b\<bar>)" for c
    by (simp add: minus_mult_div_eq_mod)
  show ?thesis
    unfolding r m by (cases "a < 0"; cases "a = 0") simp_all
qed

lemma dec_mod_val:
  assumes "dec_val y \<noteq> 0"
  shows "dec_val (dec_mod x y) = dec_val x - dec_val y * of_int (rat_trunc (dec_val x / dec_val y))"
proof -
  obtain m e n f where xy: "x = Dec m e" "y = Dec n f" by (metis dec.exhaust)
  define a b where "a = m * 10 ^ f" and "b = n * 10 ^ e"
  have b0: "b \<noteq> 0" using assms xy by (auto simp: b_def)
  have vx: "dec_val x = of_int a / 10 ^ (e + f)" and vy: "dec_val y = of_int b / 10 ^ (e + f)"
    using xy by (simp_all add: a_def b_def power_add)
  let ?t = "sgn a * sgn b * (\<bar>a\<bar> div \<bar>b\<bar>)"
  have q: "rat_trunc (dec_val x / dec_val y) = ?t"
    using b0 by (simp add: vx vy rat_trunc_div)
  have "dec_val (dec_mod x y) = of_int (a - b * ?t) / 10 ^ (e + f)"
    unfolding trunc_rem [symmetric] xy by (simp add: a_def b_def Let_def)
  also have "\<dots> = of_int a / 10 ^ (e + f) - of_int b / 10 ^ (e + f) * of_int ?t"
    by (simp add: diff_divide_distrib)
  finally show ?thesis unfolding q by (simp only: vx vy)
qed

lemma dec_mantissa_val [simp]:
  "0 < mantissa x \<longleftrightarrow> 0 < dec_val x" "mantissa x < 0 \<longleftrightarrow> dec_val x < 0" "mantissa x = 0 \<longleftrightarrow> dec_val x = 0"
  by (cases x; simp add: zero_less_divide_iff divide_less_0_iff)+

lemma dec_mul_val: "dec_val (dec_mul x y) = dec_val x * dec_val y"
  by (cases x; cases y) (simp add: power_add)

lemma dec_add_val: "dec_val (dec_add x y) = dec_val x + dec_val y"
  by (cases x; cases y) (simp add: power_add add_divide_distrib)

lemma dec_parse_string_val: "\<exists>y. dec_parse (dec_string x) = Some y \<and> dec_val y = dec_val x"
  by (cases x) (simp only: dec_parse_string dec_norm_val dec_val.simps option.inject ex_simps simp_thms)

lemma dec_string_ne: "dec_string x \<noteq> []"
  by (cases x) (simp split: dec.split add: dec_print_def)

interpretation dec: decimal_laws dec_ops dec_val
  by unfold_locales
    (auto simp: dec_ops_def dec_less_val dec_mul_val dec_add_val dec_mod_val dec_string_eq_iff
      dec_parse_string_val dec_string_ne split: dec.split)

end
