(* ===== verification/Exchange_Model.thy ===== *)
theory Exchange_Model
  imports Errors Decimal
begin

text \<open>
  The venue-neutral data model of exchange/model.go, with the validators of instruments, order
  requests, acknowledgements (exchange/ack.go), exact order lookups (exchange/exact_order_lookup.go)
  and account events (exchange/account_events.go, exchange/websocket.go). The named string types of
  Go admit every string, and the validators exist to reject the unknown ones, so they are strings
  here too.
\<close>

section \<open>Named strings\<close>

type_synonym Venue = string
type_synonym Product = string
type_synonym Side = string
type_synonym OrderType = string
type_synonym LimitPolicy = string
type_synonym Environment = string
type_synonym AssetClass = string
type_synonym MarketFamily = string
type_synonym PositionSlot = string

abbreviation "VenueBinance \<equiv> ''binance''"
abbreviation "VenueOKX \<equiv> ''okx''"
abbreviation "VenueLighter \<equiv> ''lighter''"
abbreviation "VenueHyperliquid \<equiv> ''hyperliquid''"
abbreviation "VenueBybit \<equiv> ''bybit''"
abbreviation "VenueBitget \<equiv> ''bitget''"
abbreviation "VenueGate \<equiv> ''gate''"
abbreviation "VenueAster \<equiv> ''aster''"
abbreviation "VenueNado \<equiv> ''nado''"

abbreviation "ProductSpot \<equiv> ''spot''"
abbreviation "ProductPerp \<equiv> ''perp''"
abbreviation "SideBuy \<equiv> ''buy''"
abbreviation "SideSell \<equiv> ''sell''"
abbreviation "OrderTypeMarket \<equiv> ''market''"
abbreviation "OrderTypeLimit \<equiv> ''limit''"
abbreviation "LimitPolicyResting \<equiv> ''resting''"
abbreviation "LimitPolicyIOC \<equiv> ''ioc''"
abbreviation "LimitPolicyPostOnly \<equiv> ''post_only''"
abbreviation "EnvironmentLive \<equiv> ''live''"
abbreviation "MarketFamilySpot \<equiv> ''spot''"
abbreviation "MarketFamilyVenuePerpetual \<equiv> ''venue_perpetual''"
abbreviation "MarketFamilyBuilderPerpetual \<equiv> ''builder_perpetual''"
abbreviation "AssetClassUnknown \<equiv> ''unknown''"
abbreviation "PositionSlotNet \<equiv> ''net''"
abbreviation "PositionSlotLong \<equiv> ''long''"
abbreviation "PositionSlotShort \<equiv> ''short''"

definition knownVenue :: "Venue \<Rightarrow> bool" where
  "knownVenue venue \<longleftrightarrow>
     venue \<in> {VenueBinance, VenueOKX, VenueLighter, VenueHyperliquid, VenueBybit, VenueBitget,
              VenueGate, VenueAster, VenueNado}"

definition knownMarketFamily :: "MarketFamily \<Rightarrow> bool" where
  "knownMarketFamily family \<longleftrightarrow>
     family \<in> {MarketFamilySpot, MarketFamilyVenuePerpetual, MarketFamilyBuilderPerpetual}"

definition knownAssetClass :: "AssetClass \<Rightarrow> bool" where
  "knownAssetClass cls \<longleftrightarrow>
     cls \<in> {AssetClassUnknown, ''crypto'', ''equity'', ''commodity'', ''index'', ''fx'', ''rates'',
            ''pre_ipo'', ''rwa_other''}"

definition slot_Valid :: "PositionSlot \<Rightarrow> bool" where
  "slot_Valid slot \<longleftrightarrow> slot \<in> {PositionSlotNet, PositionSlotLong, PositionSlotShort}"

section \<open>Instruments\<close>

record 'd OptionalDecimal =
  od_Value :: 'd
  od_Valid :: bool

record OptionalInt =
  oi_Value :: int
  oi_Valid :: bool

text \<open>
  The raw categories are a text holding canonical JSON; the model keeps what json.Unmarshal makes
  of it: no text, a text that is not a list of strings (the JSON null included), or the list.
\<close>

datatype InstrumentCategories = NoCategories | MalformedCategories | Categories "string list"

record InstrumentMetadata =
  md_MarketFamily :: MarketFamily
  md_AssetClass :: AssetClass
  md_ClassificationSource :: string
  md_RawAssetType :: string
  md_RawCategories :: InstrumentCategories

record InstrumentIdentity =
  id_Venue :: Venue
  id_Product :: Product
  id_Symbol :: string
  id_BaseAsset :: string
  id_QuoteAsset :: string
  id_SettleAsset :: string
  id_NativeSymbol :: string
  id_NativeID :: string

record 'd InstrumentRules =
  ru_PriceIncrement :: 'd
  ru_QuantityIncrement :: 'd
  ru_MinQuantity :: 'd
  ru_MinNotional :: "'d OptionalDecimal"

record 'd InstrumentEncoding =
  en_ContractMultiplier :: "'d OptionalDecimal"
  en_PriceScale :: OptionalInt
  en_QuantityScale :: OptionalInt
  en_QuoteScale :: OptionalInt

record 'd Instrument =
  ins_Identity :: InstrumentIdentity
  ins_Rules :: "'d InstrumentRules"
  ins_Encoding :: "'d InstrumentEncoding"
  ins_Metadata :: InstrumentMetadata
  ins_Revision :: string

definition NewInstrumentCategories :: "string list \<Rightarrow> InstrumentCategories" where
  "NewInstrumentCategories values = (if values = [] then NoCategories else Categories values)"

definition invalidRequest :: "string \<Rightarrow> goerror" where
  "invalidRequest message =
     ExchangeError KindInvalidRequest
       (no_details\<lparr>ed_Operation := ''PlaceOrderRequest.Validate'', ed_SafeMessage := message\<rparr>)"

fun categories_values :: "InstrumentCategories \<Rightarrow> goerror + string list" where
  "categories_values NoCategories = Inr []"
| "categories_values MalformedCategories = Inl (invalidRequest ''instrument categories are malformed'')"
| "categories_values (Categories values) = Inr values"

text \<open>The loop over the categories: non-empty, trimmed and not seen before.\<close>

fun check_categories :: "string set \<Rightarrow> string list \<Rightarrow> goerror option" where
  "check_categories seen [] = None"
| "check_categories seen (category # rest) =
     (if category = [] \<or> TrimSpace category \<noteq> category
      then Some (invalidRequest ''instrument category must be non-empty and trimmed'')
      else if category \<in> seen then Some (invalidRequest ''instrument categories must be unique'')
      else check_categories (insert category seen) rest)"

definition Instrument_Validate :: "'d Decimals \<Rightarrow> 'd Instrument \<Rightarrow> goerror option" where
  "Instrument_Validate D instrument =
     (let identity = ins_Identity instrument; rules = ins_Rules instrument;
          enc = ins_Encoding instrument; metadata = ins_Metadata instrument in
      if id_Venue identity = [] \<or> id_Product identity = [] \<or> TrimSpace (id_Symbol identity) = [] \<or>
         TrimSpace (id_NativeSymbol identity) = [] \<or> TrimSpace (id_BaseAsset identity) = [] \<or>
         TrimSpace (id_QuoteAsset identity) = []
      then Some (invalidRequest ''instrument identity is incomplete'')
      else if \<not> knownVenue (id_Venue identity)
      then Some (invalidRequest ''instrument venue is unknown'')
      else if TrimSpace (id_Symbol identity) \<noteq> id_Symbol identity \<or>
              TrimSpace (id_NativeSymbol identity) \<noteq> id_NativeSymbol identity \<or>
              TrimSpace (id_NativeID identity) \<noteq> id_NativeID identity \<or>
              TrimSpace (id_BaseAsset identity) \<noteq> id_BaseAsset identity \<or>
              TrimSpace (id_QuoteAsset identity) \<noteq> id_QuoteAsset identity \<or>
              TrimSpace (id_SettleAsset identity) \<noteq> id_SettleAsset identity
      then Some (invalidRequest ''instrument identity must be trimmed'')
      else if id_Product identity \<noteq> ProductSpot \<and> id_Product identity \<noteq> ProductPerp
      then Some (invalidRequest ''instrument product is unknown'')
      else if \<not> IsPositive D (ru_PriceIncrement rules)
      then Some (invalidRequest ''instrument price increment must be positive'')
      else if \<not> IsPositive D (ru_QuantityIncrement rules)
      then Some (invalidRequest ''instrument quantity increment must be positive'')
      else if IsNegative D (ru_MinQuantity rules)
      then Some (invalidRequest ''instrument min quantity must not be negative'')
      else if od_Valid (ru_MinNotional rules) \<and> IsNegative D (od_Value (ru_MinNotional rules))
      then Some (invalidRequest ''instrument min notional must not be negative'')
      else if od_Valid (en_ContractMultiplier enc) \<and> \<not> IsPositive D (od_Value (en_ContractMultiplier enc))
      then Some (invalidRequest ''instrument contract multiplier must be positive'')
      else if oi_Valid (en_PriceScale enc) \<and> oi_Value (en_PriceScale enc) \<le> 0
      then Some (invalidRequest ''instrument price scale must be positive'')
      else if oi_Valid (en_QuantityScale enc) \<and> oi_Value (en_QuantityScale enc) \<le> 0
      then Some (invalidRequest ''instrument quantity scale must be positive'')
      else if oi_Valid (en_QuoteScale enc) \<and> oi_Value (en_QuoteScale enc) \<le> 0
      then Some (invalidRequest ''instrument quote scale must be positive'')
      else if md_MarketFamily metadata \<noteq> [] \<and> \<not> knownMarketFamily (md_MarketFamily metadata)
      then Some (invalidRequest ''instrument market family is unknown'')
      else if md_MarketFamily metadata \<noteq> [] \<and> id_Product identity = ProductSpot \<and>
              md_MarketFamily metadata \<noteq> MarketFamilySpot
      then Some (invalidRequest ''spot instrument market family is inconsistent'')
      else if md_MarketFamily metadata \<noteq> [] \<and> id_Product identity = ProductPerp \<and>
              md_MarketFamily metadata = MarketFamilySpot
      then Some (invalidRequest ''perp instrument market family is inconsistent'')
      else if md_AssetClass metadata \<noteq> [] \<and> \<not> knownAssetClass (md_AssetClass metadata)
      then Some (invalidRequest ''instrument asset class is unknown'')
      else if TrimSpace (md_ClassificationSource metadata) \<noteq> md_ClassificationSource metadata \<or>
              TrimSpace (md_RawAssetType metadata) \<noteq> md_RawAssetType metadata
      then Some (invalidRequest ''instrument metadata must be trimmed'')
      else (case categories_values (md_RawCategories metadata) of
              Inl err \<Rightarrow> Some err
            | Inr categories \<Rightarrow> check_categories {} categories))"

definition EffectiveMetadata :: "'d Instrument \<Rightarrow> InstrumentMetadata" where
  "EffectiveMetadata instrument =
     (let metadata = ins_Metadata instrument; product = id_Product (ins_Identity instrument);
          metadata1 =
            (if md_MarketFamily metadata = [] then
               (if product = ProductSpot then metadata\<lparr>md_MarketFamily := MarketFamilySpot\<rparr>
                else if product = ProductPerp
                then metadata\<lparr>md_MarketFamily := MarketFamilyVenuePerpetual\<rparr>
                else metadata)
             else metadata)
      in if md_AssetClass metadata1 = [] then metadata1\<lparr>md_AssetClass := AssetClassUnknown\<rparr>
         else metadata1)"

section \<open>Order requests\<close>

record 'd PlaceOrderRequest =
  po_Instrument :: "'d Instrument"
  po_ClientOrderID :: string
  po_Side :: Side
  po_Type :: OrderType
  po_Quantity :: 'd
  po_LimitPrice :: 'd
  po_LimitPolicy :: LimitPolicy
  po_ReduceOnly :: bool

definition decimalAligned :: "'d Decimals \<Rightarrow> 'd \<Rightarrow> 'd \<Rightarrow> bool" where
  "decimalAligned D value increment \<longleftrightarrow>
     (if \<not> IsPositive D increment then False else IsZero D (DMod D value increment))"

definition isPortableClientOrderID :: "string \<Rightarrow> bool" where
  "isPortableClientOrderID value \<longleftrightarrow>
     (if value = [] \<or> hd value = CHR ''0'' then False
      else if \<not> list_all is_digit value then False
      else (case ParseUint 48 value of None \<Rightarrow> False | Some parsed \<Rightarrow> parsed > 0))"

definition PlaceOrderRequest_Validate ::
  "'d Decimals \<Rightarrow> 'd PlaceOrderRequest \<Rightarrow> Product \<Rightarrow> goerror option" where
  "PlaceOrderRequest_Validate D request product =
     (let rules = ins_Rules (po_Instrument request) in
      if product \<noteq> ProductSpot \<and> product \<noteq> ProductPerp then Some (invalidRequest ''unknown product'')
      else (case Instrument_Validate D (po_Instrument request) of
              Some err \<Rightarrow> Some err
            | None \<Rightarrow>
      if id_Product (ins_Identity (po_Instrument request)) \<noteq> product
      then Some (invalidRequest ''instrument product does not match request product'')
      else if po_Side request \<noteq> SideBuy \<and> po_Side request \<noteq> SideSell
      then Some (invalidRequest ''side must be buy or sell'')
      else if \<not> IsPositive D (po_Quantity request)
      then Some (invalidRequest ''quantity must be positive'')
      else if \<not> decimalAligned D (po_Quantity request) (ru_QuantityIncrement rules)
      then Some (invalidRequest ''quantity is not aligned to instrument quantity increment'')
      else if LessThan D (po_Quantity request) (ru_MinQuantity rules)
      then Some (invalidRequest ''quantity is below instrument minimum quantity'')
      else if od_Valid (ru_MinNotional rules) \<and> IsPositive D (po_LimitPrice request) \<and>
              LessThan D (DMul D (po_Quantity request) (po_LimitPrice request))
                (od_Value (ru_MinNotional rules))
      then Some (invalidRequest ''order notional is below instrument minimum notional'')
      else if \<not> isPortableClientOrderID (po_ClientOrderID request)
      then Some (invalidRequest ''client order id must be a positive decimal uint48'')
      else if product = ProductSpot \<and> po_ReduceOnly request
      then Some (invalidRequest ''reduce-only is available only for perpetual products'')
      else if po_Type request = OrderTypeMarket then
        (if \<not> IsZero D (po_LimitPrice request)
         then Some (invalidRequest ''market order must not include a limit price'')
         else if po_LimitPolicy request \<noteq> []
         then Some (invalidRequest ''market order must not include a limit policy'')
         else None)
      else if po_Type request = OrderTypeLimit then
        (if \<not> IsPositive D (po_LimitPrice request)
         then Some (invalidRequest ''limit order price must be positive'')
         else if \<not> decimalAligned D (po_LimitPrice request) (ru_PriceIncrement rules)
         then Some (invalidRequest ''limit order price is not aligned to instrument price increment'')
         else if po_LimitPolicy request \<in> {LimitPolicyResting, LimitPolicyIOC, LimitPolicyPostOnly}
         then None
         else Some (invalidRequest ''limit order policy must be resting, ioc, or post_only''))
      else Some (invalidRequest ''order type must be market or limit'')))"

section \<open>Venue records\<close>

record 'd BookLevel =
  bl_Price :: 'd
  bl_Quantity :: 'd

record 'd Candle =
  cd_OpenTime :: Time
  cd_CloseTime :: Time
  cd_Open :: 'd
  cd_High :: 'd
  cd_Low :: 'd
  cd_Close :: 'd
  cd_Volume :: 'd
  cd_Complete :: bool

record 'd Order =
  or_NativeSymbol :: string
  or_NativeID :: string
  or_OrderID :: string
  or_ClientOrderID :: string
  or_Side :: Side
  or_Type :: OrderType
  or_Quantity :: 'd
  or_LimitPrice :: 'd
  or_LimitPolicy :: LimitPolicy
  or_ReduceOnly :: bool
  or_Filled :: 'd
  or_AverageFillPrice :: "'d OptionalDecimal"
  or_Status :: string
  or_CreatedAt :: Time
  or_UpdatedAt :: Time

record 'd Fill =
  fi_NativeSymbol :: string
  fi_NativeID :: string
  fi_OrderID :: string
  fi_ClientOrderID :: string
  fi_FillID :: string
  fi_Side :: Side
  fi_Price :: 'd
  fi_Quantity :: 'd
  fi_Fee :: 'd
  fi_FeeAsset :: string
  fi_Liquidity :: string
  fi_Time :: Time

record 'd Balance =
  ba_Asset :: string
  ba_Available :: 'd
  ba_Locked :: 'd
  ba_Total :: 'd

record 'd Position =
  pn_NativeSymbol :: string
  pn_NativeID :: string
  pn_PositionSlot :: PositionSlot
  pn_Side :: Side
  pn_Quantity :: 'd
  pn_EntryPrice :: 'd
  pn_MarkPrice :: 'd
  pn_UnrealizedPnL :: 'd
  pn_LiquidationPrice :: "'d OptionalDecimal"
  pn_Leverage :: "'d OptionalDecimal"
  pn_MarginUsed :: "'d OptionalDecimal"

section \<open>Acknowledgements\<close>

type_synonym OrderAckState = string

abbreviation "AckAcceptedPending \<equiv> ''accepted_pending''"
abbreviation "AckResting \<equiv> ''resting''"
abbreviation "AckPartiallyFilled \<equiv> ''partially_filled''"
abbreviation "AckImmediatelyFilled \<equiv> ''immediately_filled''"
abbreviation "AckCanceled \<equiv> ''canceled''"
abbreviation "AckRejected \<equiv> ''rejected''"
abbreviation "AckAmbiguous \<equiv> ''ambiguous''"

record 'd OrderAcknowledgement =
  ack_Venue :: Venue
  ack_Product :: Product
  ack_Operation :: string
  ack_State :: OrderAckState
  ack_NativeSymbol :: string
  ack_NativeID :: string
  ack_OrderType :: OrderType
  ack_OrderID :: string
  ack_ClientOrderID :: string
  ack_TransactionHash :: string
  ack_FilledQuantity :: 'd
  ack_AverageFillPrice :: "'d OptionalDecimal"
  ack_VenueCode :: string
  ack_VenueMessage :: string

definition ackMalformed :: "string \<Rightarrow> goerror" where
  "ackMalformed message =
     ExchangeError KindMalformedResponse
       (no_details\<lparr>ed_Operation := ''OrderAcknowledgement.Validate'', ed_SafeMessage := message\<rparr>)"

definition Acknowledgement_Validate ::
  "'d Decimals \<Rightarrow> 'd OrderAcknowledgement \<Rightarrow> goerror option" where
  "Acknowledgement_Validate D ack =
     (let no_reference = (ack_OrderID ack = [] \<and> ack_ClientOrderID ack = [] \<and> ack_TransactionHash ack = [])
      in
      if ack_Venue ack = [] \<or> ack_Product ack = [] \<or> ack_Operation ack = [] \<or> ack_State ack = [] \<or>
         ack_NativeSymbol ack = []
      then Some (ackMalformed ''missing acknowledgement metadata'')
      else if ack_State ack = AckAcceptedPending then
        (if no_reference
         then Some (ackMalformed ''accepted-pending acknowledgement has no order reference'') else None)
      else if ack_State ack = AckResting then
        (if ack_OrderType ack = OrderTypeMarket
         then Some (ackMalformed ''market order acknowledgement cannot be resting'')
         else if ack_OrderID ack = []
         then Some (ackMalformed ''final exchange acknowledgement has no order id'') else None)
      else if ack_State ack = AckPartiallyFilled then
        (if ack_OrderID ack = []
         then Some (ackMalformed ''partial-fill acknowledgement has no order id'')
         else if \<not> IsPositive D (ack_FilledQuantity ack)
         then Some (ackMalformed ''partial-fill acknowledgement has no positive filled quantity'')
         else None)
      else if ack_State ack = AckImmediatelyFilled then
        (if ack_OrderID ack = []
         then Some (ackMalformed ''final exchange acknowledgement has no order id'') else None)
      else if ack_State ack = AckCanceled then
        (if no_reference
         then Some (ackMalformed ''canceled acknowledgement has no order reference'') else None)
      else if ack_State ack = AckRejected then
        (if ack_VenueCode ack = [] \<and> ack_VenueMessage ack = []
         then Some (ackMalformed ''rejected acknowledgement has no venue rejection details'') else None)
      else if ack_State ack = AckAmbiguous then
        (if no_reference
         then Some (ackMalformed ''ambiguous acknowledgement has no correlation reference'') else None)
      else Some (ackMalformed ''unknown acknowledgement state''))"

section \<open>Exact order lookup\<close>

abbreviation "ExactOrderFound \<equiv> ''found''"
abbreviation "ExactOrderNotFound \<equiv> ''not_found''"
abbreviation "ExactOrderUnconfirmed \<equiv> ''unconfirmed''"
abbreviation "ExactOrderEvidenceByClientOrderID \<equiv> ''client_order_id''"
abbreviation "ExactOrderEvidenceByVenueOrderID \<equiv> ''venue_order_id''"
abbreviation "ExactOrderEvidenceByOpenOrders \<equiv> ''open_orders''"
abbreviation "ExactOrderEvidenceByHistoryPage \<equiv> ''history_page''"

record 'd ExactOrderLookupRequest =
  lq_Instrument :: "'d Instrument option"
  lq_ClientOrderID :: string
  lq_VenueOrderID :: string

definition ExactOrderLookupRequest_Validate ::
  "'d Decimals \<Rightarrow> 'd ExactOrderLookupRequest \<Rightarrow> goerror option" where
  "ExactOrderLookupRequest_Validate D request =
     (let identities = (if lq_ClientOrderID request \<noteq> [] then 1 else 0 :: nat) +
                       (if lq_VenueOrderID request \<noteq> [] then 1 else 0) in
      if lq_ClientOrderID request \<noteq> [] \<and> \<not> isPortableClientOrderID (lq_ClientOrderID request)
      then Some (invalidRequest ''client order id must be a positive decimal uint48'')
      else if identities \<noteq> 1
      then Some (invalidRequest ''exact order lookup requires exactly one order identity'')
      else (case lq_Instrument request of
              None \<Rightarrow> None
            | Some instrument \<Rightarrow> Instrument_Validate D instrument))"

record 'd ExactOrderScope =
  es_Venue :: Venue
  es_Product :: Product
  es_Instrument :: "'d Instrument option"

definition ExactOrderScope_Validate :: "'d Decimals \<Rightarrow> 'd ExactOrderScope \<Rightarrow> goerror option" where
  "ExactOrderScope_Validate D scope =
     (if es_Venue scope = [] \<or> es_Product scope = []
      then Some (invalidRequest ''exact order evidence scope is incomplete'')
      else if \<not> knownVenue (es_Venue scope)
      then Some (invalidRequest ''exact order evidence venue is unknown'')
      else if es_Product scope \<noteq> ProductSpot \<and> es_Product scope \<noteq> ProductPerp
      then Some (invalidRequest ''exact order evidence product is unknown'')
      else (case es_Instrument scope of
              None \<Rightarrow> None
            | Some instrument \<Rightarrow>
                (case Instrument_Validate D instrument of
                   Some err \<Rightarrow> Some err
                 | None \<Rightarrow>
                     if id_Venue (ins_Identity instrument) \<noteq> es_Venue scope \<or>
                        id_Product (ins_Identity instrument) \<noteq> es_Product scope
                     then Some (invalidRequest ''exact order evidence instrument scope mismatch'')
                     else None)))"

record 'd ExactOrderEvidence =
  ev_Scope :: "'d ExactOrderScope"
  ev_Method :: string
  ev_Authoritative :: bool
  ev_Complete :: bool
  ev_ObservedClientOrderID :: string
  ev_ObservedVenueOrderID :: string
  ev_NativeCursor :: string

definition ExactOrderEvidence_Validate ::
  "'d Decimals \<Rightarrow> 'd ExactOrderEvidence \<Rightarrow> goerror option" where
  "ExactOrderEvidence_Validate D evidence =
     (case ExactOrderScope_Validate D (ev_Scope evidence) of
        Some err \<Rightarrow> Some err
      | None \<Rightarrow>
          if ev_ObservedClientOrderID evidence \<noteq> [] \<and>
             \<not> isPortableClientOrderID (ev_ObservedClientOrderID evidence)
          then Some (invalidRequest
                 ''exact order evidence client order id must be a positive decimal uint48'')
          else if ev_Method evidence = ExactOrderEvidenceByClientOrderID then
            (if ev_ObservedClientOrderID evidence = []
             then Some (invalidRequest ''client-order-id evidence requires a checked client order id'')
             else None)
          else if ev_Method evidence = ExactOrderEvidenceByVenueOrderID then
            (if ev_ObservedVenueOrderID evidence = []
             then Some (invalidRequest ''venue-order-id evidence requires a checked venue order id'')
             else None)
          else if ev_Method evidence \<in> {ExactOrderEvidenceByOpenOrders, ExactOrderEvidenceByHistoryPage} then None
          else Some (invalidRequest ''exact order evidence method is unknown''))"

record 'd ExactOrderLookupResult =
  lr_Status :: string
  lr_Order :: "'d Order"
  lr_Evidence :: "'d ExactOrderEvidence"

definition ExactOrderLookupResult_Validate ::
  "'d Decimals \<Rightarrow> 'd ExactOrderLookupResult \<Rightarrow> goerror option" where
  "ExactOrderLookupResult_Validate D result =
     (let status = lr_Status result; evidence = lr_Evidence result; order = lr_Order result in
      if status \<noteq> ExactOrderFound \<and> status \<noteq> ExactOrderNotFound \<and> status \<noteq> ExactOrderUnconfirmed
      then Some (invalidRequest ''unknown exact order lookup status'')
      else (case ExactOrderEvidence_Validate D evidence of
              Some err \<Rightarrow> Some err
            | None \<Rightarrow>
      if (status = ExactOrderFound \<or> status = ExactOrderNotFound) \<and>
         (\<not> ev_Authoritative evidence \<or> \<not> ev_Complete evidence)
      then Some (invalidRequest ''exact found/not-found requires authoritative complete evidence'')
      else if (status = ExactOrderFound \<or> status = ExactOrderNotFound) \<and>
              ev_Method evidence = ExactOrderEvidenceByHistoryPage
      then Some (invalidRequest ''history pagination is not exact order evidence'')
      else if (status = ExactOrderFound \<or> status = ExactOrderNotFound) \<and>
              ev_ObservedClientOrderID evidence = [] \<and> ev_ObservedVenueOrderID evidence = []
      then Some (invalidRequest ''exact found/not-found evidence has no checked order identity'')
      else if status = ExactOrderFound \<and> or_OrderID order = [] \<and> or_ClientOrderID order = []
      then Some (invalidRequest ''found exact order has no order identity'')
      else if status = ExactOrderFound \<and> ev_ObservedClientOrderID evidence \<noteq> [] \<and>
              or_ClientOrderID order \<noteq> ev_ObservedClientOrderID evidence
      then Some (invalidRequest ''found exact order client identity does not match evidence'')
      else if status = ExactOrderFound \<and> ev_ObservedVenueOrderID evidence \<noteq> [] \<and>
              or_OrderID order \<noteq> ev_ObservedVenueOrderID evidence
      then Some (invalidRequest ''found exact order venue identity does not match evidence'')
      else None))"

section \<open>Account events\<close>

abbreviation "EventSnapshot \<equiv> ''snapshot''"
abbreviation "EventDelta \<equiv> ''delta''"
abbreviation "EventFull \<equiv> ''full''"
abbreviation "AccountEventOrder \<equiv> ''order''"
abbreviation "AccountEventFill \<equiv> ''fill''"
abbreviation "AccountEventBalance \<equiv> ''balance''"
abbreviation "AccountEventPosition \<equiv> ''position''"

record AccountRoute =
  ar_AccountID :: string
  ar_RouteID :: string
  ar_Venue :: Venue
  ar_Environment :: Environment
  ar_Product :: Product
  ar_Settlement :: string
  ar_NativeFamily :: string

definition AccountRoute_Validate :: "AccountRoute \<Rightarrow> goerror option" where
  "AccountRoute_Validate route =
     (if TrimSpace (ar_AccountID route) = [] \<or> TrimSpace (ar_RouteID route) = [] \<or>
         \<not> knownVenue (ar_Venue route) \<or> ar_Environment route \<noteq> EnvironmentLive \<or>
         (ar_Product route \<noteq> ProductSpot \<and> ar_Product route \<noteq> ProductPerp) \<or>
         TrimSpace (ar_NativeFamily route) = []
      then Some (PlainError ''account route is invalid'') else None)"

record 'd OrderEvent =
  oe_Kind :: string
  oe_Order :: "'d Order"

record 'd FillEvent =
  fe_Kind :: string
  fe_Fill :: "'d Fill"

record 'd BalanceEvent =
  be_Kind :: string
  be_Balances :: "'d Balance list"
  be_Time :: Time

record 'd PositionEvent =
  pe_Kind :: string
  pe_Positions :: "'d Position list"
  pe_Time :: Time

record 'd AccountEvent =
  ae_Kind :: string
  ae_Route :: AccountRoute
  ae_InstrumentID :: string
  ae_ObservedAt :: Time
  ae_Order :: "'d OrderEvent option"
  ae_Fill :: "'d FillEvent option"
  ae_Balance :: "'d BalanceEvent option"
  ae_Position :: "'d PositionEvent option"

definition AccountEvent_Validate :: "'d AccountEvent \<Rightarrow> goerror option" where
  "AccountEvent_Validate event =
     (if AccountRoute_Validate (ae_Route event) \<noteq> None \<or> ae_ObservedAt event = 0
      then Some (PlainError ''account event identity is invalid'')
      else
        (let payloads = length (filter (\<lambda>present. present)
               [ae_Order event \<noteq> None, ae_Fill event \<noteq> None, ae_Balance event \<noteq> None,
                ae_Position event \<noteq> None]) in
         if ae_Kind event = AccountEventOrder then
           (if ae_Order event = None \<or> payloads \<noteq> 1
            then Some (PlainError ''account order event is invalid'') else None)
         else if ae_Kind event = AccountEventFill then
           (if ae_Fill event = None \<or> payloads \<noteq> 1
            then Some (PlainError ''account fill event is invalid'') else None)
         else if ae_Kind event = AccountEventBalance then
           (if ae_Balance event = None \<or> payloads \<noteq> 1
            then Some (PlainError ''account balance event is invalid'') else None)
         else if ae_Kind event = AccountEventPosition then
           (if ae_Position event = None \<or> payloads \<noteq> 1
            then Some (PlainError ''account position event is invalid'') else None)
         else Some (PlainError ''account event kind is invalid'')))"

section \<open>What the validators accept\<close>

text \<open>
  The conditions on an instrument and on an order, stated on the rational values of the decimals:
  the reference the validators are compared with.
\<close>

definition named :: "string \<Rightarrow> bool" where
  "named s \<longleftrightarrow> s \<noteq> [] \<and> TrimSpace s = s"

definition tradable_instrument :: "('d \<Rightarrow> rat) \<Rightarrow> 'd Instrument \<Rightarrow> bool" where
  "tradable_instrument val instrument \<longleftrightarrow>
     (let identity = ins_Identity instrument; rules = ins_Rules instrument;
          enc = ins_Encoding instrument; metadata = ins_Metadata instrument in
      knownVenue (id_Venue identity) \<and> id_Product identity \<in> {ProductSpot, ProductPerp} \<and>
      named (id_Symbol identity) \<and> named (id_NativeSymbol identity) \<and>
      named (id_BaseAsset identity) \<and> named (id_QuoteAsset identity) \<and>
      TrimSpace (id_NativeID identity) = id_NativeID identity \<and>
      TrimSpace (id_SettleAsset identity) = id_SettleAsset identity \<and>
      0 < val (ru_PriceIncrement rules) \<and> 0 < val (ru_QuantityIncrement rules) \<and>
      0 \<le> val (ru_MinQuantity rules) \<and>
      (od_Valid (ru_MinNotional rules) \<longrightarrow> 0 \<le> val (od_Value (ru_MinNotional rules))) \<and>
      (od_Valid (en_ContractMultiplier enc) \<longrightarrow> 0 < val (od_Value (en_ContractMultiplier enc))) \<and>
      (\<forall>scale\<in>{en_PriceScale enc, en_QuantityScale enc, en_QuoteScale enc}.
         oi_Valid scale \<longrightarrow> 0 < oi_Value scale) \<and>
      md_MarketFamily metadata \<in>
        (if id_Product identity = ProductSpot then {[], MarketFamilySpot}
         else {[], MarketFamilyVenuePerpetual, MarketFamilyBuilderPerpetual}) \<and>
      (md_AssetClass metadata = [] \<or> knownAssetClass (md_AssetClass metadata)) \<and>
      TrimSpace (md_ClassificationSource metadata) = md_ClassificationSource metadata \<and>
      TrimSpace (md_RawAssetType metadata) = md_RawAssetType metadata \<and>
      (case md_RawCategories metadata of
         NoCategories \<Rightarrow> True
       | MalformedCategories \<Rightarrow> False
       | Categories cs \<Rightarrow> distinct cs \<and> (\<forall>c\<in>set cs. named c)))"

definition multiple_of :: "('d \<Rightarrow> rat) \<Rightarrow> 'd \<Rightarrow> 'd \<Rightarrow> bool" where
  "multiple_of val value increment \<longleftrightarrow> (\<exists>k::int. val value = of_int k * val increment)"

definition placeable_order :: "('d \<Rightarrow> rat) \<Rightarrow> 'd PlaceOrderRequest \<Rightarrow> Product \<Rightarrow> bool" where
  "placeable_order val request product \<longleftrightarrow>
     (let instrument = po_Instrument request; rules = ins_Rules instrument;
          quantity = po_Quantity request; price = po_LimitPrice request in
      tradable_instrument val instrument \<and> id_Product (ins_Identity instrument) = product \<and>
      po_Side request \<in> {SideBuy, SideSell} \<and>
      0 < val quantity \<and> multiple_of val quantity (ru_QuantityIncrement rules) \<and>
      val (ru_MinQuantity rules) \<le> val quantity \<and>
      (\<exists>n. 1 \<le> n \<and> n < 2 ^ 48 \<and> po_ClientOrderID request = show_nat n) \<and>
      (po_ReduceOnly request \<longrightarrow> product = ProductPerp) \<and>
      ((po_Type request = OrderTypeMarket \<and> val price = 0 \<and> po_LimitPolicy request = []) \<or>
       (po_Type request = OrderTypeLimit \<and> 0 < val price \<and>
        multiple_of val price (ru_PriceIncrement rules) \<and>
        (od_Valid (ru_MinNotional rules) \<longrightarrow>
           val (od_Value (ru_MinNotional rules)) \<le> val quantity * val price) \<and>
        po_LimitPolicy request \<in> {LimitPolicyResting, LimitPolicyIOC, LimitPolicyPostOnly})))"

lemma check_categories_None_iff:
  "check_categories seen cs = None \<longleftrightarrow> (\<forall>c\<in>set cs. named c) \<and> distinct cs \<and> set cs \<inter> seen = {}"
  by (induction seen cs rule: check_categories.induct) (auto simp: named_def)

lemma isPortable_iff:
  "isPortableClientOrderID v \<longleftrightarrow> (\<exists>n. 1 \<le> n \<and> n < 2 ^ 48 \<and> v = show_nat n)"
proof
  assume "isPortableClientOrderID v"
  then have v: "v \<noteq> []" "hd v \<noteq> CHR ''0''" "list_all is_digit v" "digits_val v < 2 ^ 48" "0 < digits_val v"
    by (auto simp: isPortableClientOrderID_def ParseUint_def split: if_splits)
  then show "\<exists>n. 1 \<le> n \<and> n < 2 ^ 48 \<and> v = show_nat n"
    using show_digits_val [of v] by (intro exI [of _ "digits_val v"]) auto
next
  assume "\<exists>n. 1 \<le> n \<and> n < 2 ^ 48 \<and> v = show_nat n"
  then show "isPortableClientOrderID v"
    using show_nat_hd show_nat_digits
    by (auto simp: isPortableClientOrderID_def ParseUint_show)
qed

text \<open>A validator that returns early: it accepts when no guard fires.\<close>

lemma early_return_None [simp]: "(if b then Some e else x) = None \<longleftrightarrow> \<not> b \<and> x = None"
  by simp

lemma market_family_iff:
  "p \<in> {ProductSpot, ProductPerp} \<Longrightarrow>
   (\<not> (f \<noteq> [] \<and> \<not> knownMarketFamily f) \<and> \<not> (f \<noteq> [] \<and> p = ProductSpot \<and> f \<noteq> MarketFamilySpot) \<and>
    \<not> (f \<noteq> [] \<and> p = ProductPerp \<and> f = MarketFamilySpot)) \<longleftrightarrow>
   f \<in> (if p = ProductSpot then {[], MarketFamilySpot}
        else {[], MarketFamilyVenuePerpetual, MarketFamilyBuilderPerpetual})"
  by (auto simp: knownMarketFamily_def)

lemma categories_iff:
  "(case categories_values cats of Inl err \<Rightarrow> Some err | Inr cs \<Rightarrow> check_categories {} cs) = None \<longleftrightarrow>
   (case cats of NoCategories \<Rightarrow> True | MalformedCategories \<Rightarrow> False
    | Categories cs \<Rightarrow> distinct cs \<and> (\<forall>c\<in>set cs. named c))"
  by (cases cats) (auto simp: check_categories_None_iff)

lemma named_iff: "named s \<longleftrightarrow> \<not> TrimSpace s = [] \<and> \<not> TrimSpace s \<noteq> s"
  by (auto simp: named_def)

lemma scales_iff:
  "(\<forall>s\<in>{a, b, c}. oi_Valid s \<longrightarrow> 0 < oi_Value s) \<longleftrightarrow>
   \<not> (oi_Valid a \<and> oi_Value a \<le> 0) \<and> \<not> (oi_Valid b \<and> oi_Value b \<le> 0) \<and>
   \<not> (oi_Valid c \<and> oi_Value c \<le> 0)"
  by auto

lemma knownVenue_ne: "knownVenue v \<Longrightarrow> v \<noteq> []"
  by (auto simp: knownVenue_def)

context decimal_laws
begin

lemma decimalAligned_iff:
  "0 < val increment \<Longrightarrow> decimalAligned D value increment \<longleftrightarrow> multiple_of val value increment"
  by (simp add: decimalAligned_def multiple_of_def Mod_zero_iff)

lemma Instrument_Validate_market:
  "Instrument_Validate D instrument = None \<Longrightarrow>
   id_Product (ins_Identity instrument) \<in> {ProductSpot, ProductPerp} \<and>
   knownVenue (id_Venue (ins_Identity instrument))"
  by (simp only: Instrument_Validate_def Let_def early_return_None insert_iff empty_iff simp_thms
      de_Morgan_conj not_not)

lemma Instrument_Validate_iff:
  "Instrument_Validate D instrument = None \<longleftrightarrow> tradable_instrument val instrument"
proof (cases "id_Product (ins_Identity instrument) \<in> {ProductSpot, ProductPerp} \<and>
    knownVenue (id_Venue (ins_Identity instrument))")
  case True
  then have p: "id_Product (ins_Identity instrument) \<in> {ProductSpot, ProductPerp}"
    and p': "id_Product (ins_Identity instrument) \<noteq> []"
    and v: "knownVenue (id_Venue (ins_Identity instrument))" "id_Venue (ins_Identity instrument) \<noteq> []"
    using knownVenue_ne by auto
  show ?thesis
    unfolding Instrument_Validate_def tradable_instrument_def Let_def early_return_None
      categories_iff market_family_iff [OF p, symmetric] IsPositive_iff IsNegative_iff named_iff
      scales_iff not_less [symmetric] insert_iff empty_iff
    using p [unfolded insert_iff empty_iff] p' v by argo
next
  case False
  then show ?thesis
    using Instrument_Validate_market by (auto simp only: tradable_instrument_def Let_def)
qed

lemma PlaceOrderRequest_Validate_iff:
  "PlaceOrderRequest_Validate D request product = None \<longleftrightarrow> placeable_order val request product"
proof (cases "Instrument_Validate D (po_Instrument request)")
  case None
  then have t: "tradable_instrument val (po_Instrument request)"
    by (simp add: Instrument_Validate_iff)
  then have inc: "0 < val (ru_QuantityIncrement (ins_Rules (po_Instrument request)))"
      "0 < val (ru_PriceIncrement (ins_Rules (po_Instrument request)))"
      and prod: "id_Product (ins_Identity (po_Instrument request)) \<in> {ProductSpot, ProductPerp}"
    by (simp_all only: tradable_instrument_def Let_def)
  have pol: "(if b then None else Some e) = None \<longleftrightarrow> b" for b :: bool and e :: goerror
    by simp
  show ?thesis
    unfolding PlaceOrderRequest_Validate_def placeable_order_def Let_def None option.case
      early_return_None pol decimalAligned_iff [OF inc(1)] decimalAligned_iff [OF inc(2)]
      IsPositive_iff IsZero_iff LessThan_iff val_Mul isPortable_iff not_less [symmetric]
    using t prod by (cases "0 < val (po_LimitPrice request)"; cases "po_Type request = OrderTypeMarket") auto
next
  case (Some err)
  then have "\<not> tradable_instrument val (po_Instrument request)"
    by (metis Instrument_Validate_iff option.distinct(1))
  with Some show ?thesis
    by (simp add: PlaceOrderRequest_Validate_def placeable_order_def Let_def)
qed

end

section \<open>Properties\<close>

text \<open>
  C25: a client order id is portable exactly when it is the decimal rendering, without sign or leading
  zero, of a number from 1 to 2^48 - 1.
\<close>

theorem portable_client_order_id:
  "isPortableClientOrderID v \<longleftrightarrow> (\<exists>n. 1 \<le> n \<and> n < 2 ^ 48 \<and> v = show_nat n)"
  by (rule isPortable_iff)

text \<open>
  C24: PlaceOrderRequest.Validate accepts exactly the placeable orders: a well-formed instrument of the
  requested product, a positive quantity that is a whole number of quantity increments and not below
  the minimum, a portable client order id, reduce-only on perpetuals only, and either a market order
  without price and policy or a limit order whose positive price is a whole number of price increments,
  whose notional reaches the minimum and whose policy is known.
\<close>

theorem place_order_accepts_exactly:
  assumes "decimal_laws D val"
  shows "PlaceOrderRequest_Validate D request product = None \<longleftrightarrow> placeable_order val request product"
  using assms by (rule decimal_laws.PlaceOrderRequest_Validate_iff)

definition sample_instrument :: "dec Instrument" where
  "sample_instrument =
     \<lparr>ins_Identity = \<lparr>id_Venue = VenueBinance, id_Product = ProductPerp, id_Symbol = ''BTC/USDT'',
        id_BaseAsset = ''BTC'', id_QuoteAsset = ''USDT'', id_SettleAsset = ''USDT'',
        id_NativeSymbol = ''BTCUSDT'', id_NativeID = []\<rparr>,
      ins_Rules = \<lparr>ru_PriceIncrement = Dec 1 1, ru_QuantityIncrement = Dec 1 3,
        ru_MinQuantity = Dec 1 3, ru_MinNotional = \<lparr>od_Value = Dec 5 0, od_Valid = True\<rparr>\<rparr>,
      ins_Encoding = \<lparr>en_ContractMultiplier = \<lparr>od_Value = Dec 0 0, od_Valid = False\<rparr>,
        en_PriceScale = \<lparr>oi_Value = 0, oi_Valid = False\<rparr>,
        en_QuantityScale = \<lparr>oi_Value = 0, oi_Valid = False\<rparr>,
        en_QuoteScale = \<lparr>oi_Value = 0, oi_Valid = False\<rparr>\<rparr>,
      ins_Metadata = \<lparr>md_MarketFamily = [], md_AssetClass = [], md_ClassificationSource = [],
        md_RawAssetType = [], md_RawCategories = Categories [''layer-1'']\<rparr>,
      ins_Revision = []\<rparr>"

definition sample_order :: "dec PlaceOrderRequest" where
  "sample_order =
     \<lparr>po_Instrument = sample_instrument, po_ClientOrderID = ''42'', po_Side = SideBuy,
      po_Type = OrderTypeLimit, po_Quantity = Dec 25 2, po_LimitPrice = Dec 600005 1,
      po_LimitPolicy = LimitPolicyPostOnly, po_ReduceOnly = True\<rparr>"

lemma sample_trim [simp]:
  "TrimSpace ''BTC/USDT'' = ''BTC/USDT''" "TrimSpace ''BTC'' = ''BTC''" "TrimSpace ''USDT'' = ''USDT''"
  "TrimSpace ''BTCUSDT'' = ''BTCUSDT''" "TrimSpace ''layer-1'' = ''layer-1''"
  by (simp_all add: go_str)

lemma sample_instrument_valid [simp]: "Instrument_Validate dec_ops sample_instrument = None"
  by (simp add: Instrument_Validate_def sample_instrument_def knownVenue_def dec_ops_def)

lemma sample_id_portable [simp]: "isPortableClientOrderID ''42''"
  by (simp add: isPortableClientOrderID_def ParseUint_def is_digit_def digits_val_def digit_val_def)

lemmas sample_order_simps = PlaceOrderRequest_Validate_def decimalAligned_def sample_order_def dec_ops_def

theorem place_order_accepts_exactly_witness:
  "placeable_order dec_val sample_order ProductPerp \<and>
   \<not> placeable_order dec_val (sample_order\<lparr>po_Quantity := Dec 25 5\<rparr>) ProductPerp"
proof -
  have "PlaceOrderRequest_Validate dec_ops sample_order ProductPerp = None"
    using sample_instrument_valid by (simp add: sample_order_simps sample_instrument_def)
  moreover have
    "PlaceOrderRequest_Validate dec_ops (sample_order\<lparr>po_Quantity := Dec 25 5\<rparr>) ProductPerp \<noteq> None"
    using sample_instrument_valid by (simp add: sample_order_simps sample_instrument_def)
  ultimately show ?thesis
    by (simp add: place_order_accepts_exactly [OF dec.decimal_laws_axioms])
qed


definition sample_ack :: "dec OrderAcknowledgement" where
  "sample_ack =
     \<lparr>ack_Venue = VenueBinance, ack_Product = ProductPerp, ack_Operation = ''place'',
      ack_State = AckPartiallyFilled, ack_NativeSymbol = ''BTCUSDT'', ack_NativeID = [],
      ack_OrderType = OrderTypeLimit, ack_OrderID = ''9001'', ack_ClientOrderID = ''42'',
      ack_TransactionHash = [], ack_FilledQuantity = Dec 1 1,
      ack_AverageFillPrice = \<lparr>od_Value = Dec 0 0, od_Valid = False\<rparr>, ack_VenueCode = [],
      ack_VenueMessage = []\<rparr>"


text \<open>
  C28: a lookup result Validate accepts never claims more than its evidence. Found and not-found both rest
  on authoritative, complete evidence that is not a history page and that checked an order identity, and
  a found order carries every identity the evidence checked.
\<close>

theorem exact_lookup_is_evidenced:
  assumes "ExactOrderLookupResult_Validate D result = None"
  shows "lr_Status result \<in> {ExactOrderFound, ExactOrderNotFound, ExactOrderUnconfirmed} \<and>
    (lr_Status result \<noteq> ExactOrderUnconfirmed \<longrightarrow>
       ev_Authoritative (lr_Evidence result) \<and> ev_Complete (lr_Evidence result) \<and>
       ev_Method (lr_Evidence result) \<in>
         {ExactOrderEvidenceByClientOrderID, ExactOrderEvidenceByVenueOrderID, ExactOrderEvidenceByOpenOrders} \<and>
       (ev_ObservedClientOrderID (lr_Evidence result) \<noteq> [] \<or> ev_ObservedVenueOrderID (lr_Evidence result) \<noteq> [])) \<and>
    (lr_Status result = ExactOrderFound \<longrightarrow>
       ev_ObservedClientOrderID (lr_Evidence result) \<in> {[], or_ClientOrderID (lr_Order result)} \<and>
       ev_ObservedVenueOrderID (lr_Evidence result) \<in> {[], or_OrderID (lr_Order result)})"
proof -
  from assms have ev: "ExactOrderEvidence_Validate D (lr_Evidence result) = None"
    by (auto simp: ExactOrderLookupResult_Validate_def Let_def split: if_splits option.splits)
  then have "ev_Method (lr_Evidence result) \<in>
      {ExactOrderEvidenceByClientOrderID, ExactOrderEvidenceByVenueOrderID, ExactOrderEvidenceByOpenOrders,
       ExactOrderEvidenceByHistoryPage}"
    by (auto simp: ExactOrderEvidence_Validate_def split: if_splits option.splits)
  with assms ev show ?thesis
    by (auto simp: ExactOrderLookupResult_Validate_def Let_def)
qed

definition sample_venue_order :: "dec Order" where
  "sample_venue_order =
     \<lparr>or_NativeSymbol = ''BTCUSDT'', or_NativeID = [], or_OrderID = ''9001'', or_ClientOrderID = ''42'',
      or_Side = SideBuy, or_Type = OrderTypeLimit, or_Quantity = Dec 25 2, or_LimitPrice = Dec 600005 1,
      or_LimitPolicy = LimitPolicyPostOnly, or_ReduceOnly = False, or_Filled = Dec 0 0,
      or_AverageFillPrice = \<lparr>od_Value = Dec 0 0, od_Valid = False\<rparr>, or_Status = ''open'',
      or_CreatedAt = 0, or_UpdatedAt = 0\<rparr>"

definition sample_lookup :: "dec ExactOrderLookupResult" where
  "sample_lookup =
     \<lparr>lr_Status = ExactOrderFound, lr_Order = sample_venue_order,
      lr_Evidence = \<lparr>ev_Scope = \<lparr>es_Venue = VenueBinance, es_Product = ProductPerp,
          es_Instrument = Some sample_instrument\<rparr>,
        ev_Method = ExactOrderEvidenceByClientOrderID, ev_Authoritative = True, ev_Complete = True,
        ev_ObservedClientOrderID = ''42'', ev_ObservedVenueOrderID = [], ev_NativeCursor = []\<rparr>\<rparr>"

theorem exact_lookup_is_evidenced_witness:
  "ExactOrderLookupResult_Validate dec_ops sample_lookup = None \<and>
   or_ClientOrderID (lr_Order sample_lookup) = ''42''"
proof -
  have "ExactOrderLookupResult_Validate dec_ops sample_lookup = None"
    by (simp add: ExactOrderLookupResult_Validate_def ExactOrderEvidence_Validate_def
        ExactOrderScope_Validate_def sample_lookup_def sample_venue_order_def knownVenue_def)
      (simp add: sample_instrument_def)
  with exact_lookup_is_evidenced [OF this] show ?thesis
    by (simp add: sample_lookup_def)
qed

text \<open>
  An account event Validate accepts carries exactly the payload its kind announces, a live route
  of a known venue, and the time it was observed.
\<close>

theorem account_event_single_payload:
  assumes "AccountEvent_Validate event = None"
  shows "ae_Kind event \<in> {AccountEventOrder, AccountEventFill, AccountEventBalance, AccountEventPosition} \<and>
    (ae_Order event \<noteq> None \<longleftrightarrow> ae_Kind event = AccountEventOrder) \<and>
    (ae_Fill event \<noteq> None \<longleftrightarrow> ae_Kind event = AccountEventFill) \<and>
    (ae_Balance event \<noteq> None \<longleftrightarrow> ae_Kind event = AccountEventBalance) \<and>
    (ae_Position event \<noteq> None \<longleftrightarrow> ae_Kind event = AccountEventPosition) \<and>
    ae_ObservedAt event \<noteq> 0 \<and> knownVenue (ar_Venue (ae_Route event)) \<and>
    ar_Environment (ae_Route event) = EnvironmentLive"
proof -
  have route: "AccountRoute_Validate (ae_Route event) = None" "ae_ObservedAt event \<noteq> 0"
    using assms by (auto simp: AccountEvent_Validate_def split: if_splits)
  then have "knownVenue (ar_Venue (ae_Route event))" "ar_Environment (ae_Route event) = EnvironmentLive"
    by (auto simp: AccountRoute_Validate_def split: if_splits)
  with assms route show ?thesis
    by (cases "ae_Order event"; cases "ae_Fill event"; cases "ae_Balance event"; cases "ae_Position event")
      (auto simp: AccountEvent_Validate_def split: if_splits)
qed

definition sample_event :: "dec AccountEvent" where
  "sample_event =
     \<lparr>ae_Kind = AccountEventOrder,
      ae_Route = \<lparr>ar_AccountID = ''a1'', ar_RouteID = ''r1'', ar_Venue = VenueBinance,
        ar_Environment = EnvironmentLive, ar_Product = ProductPerp, ar_Settlement = ''USDT'',
        ar_NativeFamily = ''usdm''\<rparr>,
      ae_InstrumentID = ''binance:perp:BTC/USDT'', ae_ObservedAt = unix_epoch,
      ae_Order = Some \<lparr>oe_Kind = EventDelta, oe_Order = sample_venue_order\<rparr>,
      ae_Fill = None, ae_Balance = None, ae_Position = None\<rparr>"

theorem account_event_single_payload_witness:
  "AccountEvent_Validate sample_event = None \<and> ae_Order sample_event \<noteq> None"
proof -
  have "AccountEvent_Validate sample_event = None" by code_simp
  with account_event_single_payload [OF this] show ?thesis
    by (simp add: sample_event_def)
qed

end
