(* ===== verification/Http_Policy.thy ===== *)
theory Http_Policy
  imports Prelude
begin

text \<open>
  What a venue request costs and which command it carries (internal/venuehttp/policy.go). The
  decoders of encoding/json, mime and mime/multipart the code calls are the fields of \<open>Decoders\<close>;
  the lemmas hold for every choice of them.
\<close>

section \<open>Requests and policies\<close>

record HTTPPolicy =
  pl_Venue :: string
  pl_Endpoint :: string
  pl_Cost :: int
  pl_Action :: string

text \<open>
  A request: the venue its context carries (empty without one), the method, the path and the query
  of its URL, its content type, and what GetBody gives (None when the body cannot be had).
\<close>

record Request =
  rq_Venue :: string
  rq_Method :: string
  rq_Path :: string
  rq_Query :: "string \<Rightarrow> string"
  rq_ContentType :: string
  rq_Body :: "string option"

text \<open>The action of a Hyperliquid exchange request: its type and the number of its orders and cancels.\<close>

record HyperliquidAction =
  ha_Type :: string
  ha_Orders :: nat
  ha_Cancels :: nat

text \<open>
  The decoders: a JSON object into its raw fields (nothing for a text that is no object), a JSON
  array into its length, a JSON string, the action object, a JSON array of strings into its length, a
  media type with its boundary, and the parts of a multipart body up to the first error, each with
  its form name and its content (None when it cannot be read).
\<close>

record Decoders =
  dc_fields :: "string \<Rightarrow> (string \<rightharpoonup> string)"
  dc_array :: "string \<Rightarrow> nat option"
  dc_string :: "string \<Rightarrow> string option"
  dc_action :: "string \<Rightarrow> HyperliquidAction option"
  dc_symbols :: "string \<Rightarrow> nat option"
  dc_media :: "string \<Rightarrow> (string \<times> string) option"
  dc_parts :: "string \<Rightarrow> string \<Rightarrow> (string \<times> string option) list"

abbreviation "MethodGet \<equiv> ''GET''"
abbreviation "MethodPost \<equiv> ''POST''"
abbreviation "MethodDelete \<equiv> ''DELETE''"

text \<open>The limit of the body readers, 64 KiB.\<close>

definition body_limit :: nat where "body_limit = 65536"

definition requestBodyFields :: "Decoders \<Rightarrow> Request \<Rightarrow> (string \<rightharpoonup> string)" where
  "requestBodyFields dc request =
     (case rq_Body request of
        None \<Rightarrow> Map.empty
      | Some body \<Rightarrow> dc_fields dc (take body_limit body))"

section \<open>Binance weights\<close>

text \<open>
  strconv.Atoi without its error: a text that is no number is 0, a number out of range the nearest
  64-bit one.
\<close>

definition Atoi_value :: "string \<Rightarrow> int" where
  "Atoi_value s =
     (let neg = (s \<noteq> [] \<and> hd s = CHR ''-'');
          body = (if s \<noteq> [] \<and> (hd s = CHR ''-'' \<or> hd s = CHR ''+'') then tl s else s)
      in if body = [] \<or> \<not> list_all is_digit body then 0
         else if neg then max (- (2 ^ 63)) (- int (digits_val body))
         else min (2 ^ 63 - 1) (int (digits_val body)))"

text \<open>The text after the last slash.\<close>

definition last_segment :: "string \<Rightarrow> string" where
  "last_segment path = rev (takeWhile (\<lambda>c. c \<noteq> CHR ''/'') (rev path))"

definition spot_depth_cost :: "int \<Rightarrow> int" where
  "spot_depth_cost limit =
     (let l = (if limit \<le> 0 then 100 else limit) in
      if l \<le> 100 then 5 else if l \<le> 500 then 25 else if l \<le> 1000 then 50 else 250)"

definition spot_ticker_cost :: "Decoders \<Rightarrow> (string \<Rightarrow> string) \<Rightarrow> int" where
  "spot_ticker_cost dc q =
     (if q ''symbol'' \<noteq> [] then 2
      else (case dc_symbols dc (q ''symbols'') of
              Some n \<Rightarrow> if 0 < n \<and> n \<le> 20 then 2 else if 0 < n \<and> n \<le> 100 then 40 else 80
            | None \<Rightarrow> 80))"

text \<open>The switch over the spot endpoints; None falls through to the code after it.\<close>

definition spot_cost :: "Decoders \<Rightarrow> string \<Rightarrow> (string \<Rightarrow> string) \<Rightarrow> int \<Rightarrow> int option" where
  "spot_cost dc part q limit =
     (if part \<in> {''ping'', ''time''} then Some 1
      else if part \<in> {''exchangeInfo'', ''account'', ''myTrades''} then Some 20
      else if part = ''order'' then Some 4
      else if part = ''openOrders'' then Some (if q ''symbol'' = [] then 80 else 6)
      else if part = ''depth'' then Some (spot_depth_cost limit)
      else if part \<in> {''klines'', ''uiKlines'', ''avgPrice''} then Some 2
      else if part \<in> {''ticker/price'', ''ticker/bookTicker''} then Some (if q ''symbol'' = [] then 4 else 2)
      else if part = ''ticker/24hr'' then Some (spot_ticker_cost dc q)
      else None)"

definition perp_depth_cost :: "int \<Rightarrow> int" where
  "perp_depth_cost limit =
     (let l = (if limit \<le> 0 then 500 else limit) in
      if l \<le> 50 then 2 else if l \<le> 100 then 5 else if l \<le> 500 then 10 else 20)"

definition perp_klines_cost :: "int \<Rightarrow> int" where
  "perp_klines_cost limit =
     (let l = (if limit \<le> 0 then 500 else limit) in
      if l < 100 then 1 else if l < 500 then 2 else if l \<le> 1000 then 5 else 10)"

definition perp_cost :: "string \<Rightarrow> (string \<Rightarrow> string) \<Rightarrow> int \<Rightarrow> int option" where
  "perp_cost part q limit =
     (if part \<in> {''ping'', ''time'', ''exchangeInfo'', ''openInterest'', ''order''} then Some 1
      else if part = ''depth'' then Some (perp_depth_cost limit)
      else if part \<in> {''ticker'', ''24hr''} then Some (if q ''symbol'' = [] then 40 else 1)
      else if part = ''bookTicker'' then Some (if q ''symbol'' = [] then 5 else 2)
      else if part = ''price'' then Some (if q ''symbol'' = [] then 2 else 1)
      else if part = ''premiumIndex'' then Some (if q ''symbol'' = [] then 10 else 1)
      else if part \<in> {''klines'', ''markPriceKlines'', ''indexPriceKlines''} then Some (perp_klines_cost limit)
      else if part \<in> {''account'', ''balance'', ''positionRisk'', ''userTrades'', ''allOrders''} then Some 5
      else if part = ''openOrders'' then Some (if q ''symbol'' = [] then 40 else 1)
      else if part \<in> {''fundingRate'', ''fundingInfo''} then Some 1
      else None)"

definition binanceRequestCost :: "Decoders \<Rightarrow> Request \<Rightarrow> int" where
  "binanceRequestCost dc request =
     (let path = rq_Path request; q = rq_Query request in
      if rq_Method request \<noteq> MethodGet then 1
      else
        (let limit = Atoi_value (q ''limit'');
             spot = (if HasPrefix path ''/api/v3/'' then spot_cost dc (TrimPrefix path ''/api/v3/'') q limit else None)
         in case spot of
              Some c \<Rightarrow> c
            | None \<Rightarrow>
                (case if HasPrefix path ''/fapi/'' then perp_cost (last_segment path) q limit else None of
                   Some c \<Rightarrow> c
                 | None \<Rightarrow> 20)))"

section \<open>Lighter transactions\<close>

text \<open>The loop over the parts of the body.\<close>

fun tx_action :: "string \<Rightarrow> (string \<times> string option) list \<Rightarrow> string" where
  "tx_action fallback [] = fallback"
| "tx_action fallback ((name, content) # parts) =
     (if name \<noteq> ''tx_type'' then tx_action fallback parts
      else
        (case content of
           None \<Rightarrow> fallback
         | Some value \<Rightarrow>
             (let v = take 16 value in
              if v = ''14'' then ''place''
              else if v = ''15'' \<or> v = ''16'' then ''cancel''
              else fallback)))"

definition lighterAction :: "Decoders \<Rightarrow> Request \<Rightarrow> string \<Rightarrow> string" where
  "lighterAction dc request fallback =
     (if rq_Method request \<noteq> MethodPost \<or> rq_Path request \<noteq> ''/api/v1/sendTx'' then fallback
      else
        (case rq_Body request of
           None \<Rightarrow> fallback
         | Some body \<Rightarrow>
             (case dc_media dc (rq_ContentType request) of
                None \<Rightarrow> fallback
              | Some (mediaType, boundary) \<Rightarrow>
                  if mediaType \<noteq> ''multipart/form-data'' then fallback
                  else tx_action fallback (dc_parts dc boundary (take body_limit body)))))"

section \<open>The policy of a request\<close>

text \<open>Hyperliquid: the weight of an information request by its kind.\<close>

definition info_cost :: "string \<Rightarrow> int" where
  "info_cost kind =
     (if kind \<in> {''l2Book'', ''allMids'', ''clearinghouseState'', ''spotClearinghouseState'', ''orderStatus'', ''exchangeStatus''}
      then 2
      else if kind \<in> {''historicalOrders'', ''userFills'', ''userFillsByTime'', ''userTwapSliceFills''} then 120
      else if kind = ''userRole'' then 60
      else if kind = ''candleSnapshot'' then 105
      else 20)"

definition hyperliquid_policy :: "Decoders \<Rightarrow> string \<Rightarrow> (string \<rightharpoonup> string) \<Rightarrow> HTTPPolicy \<Rightarrow> HTTPPolicy" where
  "hyperliquid_policy dc path body policy =
     (let kind = (case body ''type'' of None \<Rightarrow> [] | Some raw \<Rightarrow> (case dc_string dc raw of None \<Rightarrow> [] | Some k \<Rightarrow> k));
          p1 = (if path = ''/info''
                then policy\<lparr>pl_Action := ''read'', pl_Cost := info_cost kind,
                            pl_Endpoint := pl_Endpoint policy @ ''/'' @ kind\<rparr>
                else policy)
      in if path = ''/exchange''
         then (case body ''action'' of
                 None \<Rightarrow> p1
               | Some raw \<Rightarrow>
                   (case dc_action dc raw of
                      None \<Rightarrow> p1
                    | Some act \<Rightarrow>
                        p1\<lparr>pl_Action := (if ha_Type act = ''order'' then ''place''
                                         else if ha_Type act \<in> {''cancel'', ''cancelByCloid''} then ''cancel''
                                         else pl_Action p1),
                           pl_Cost := 1 + int ((ha_Orders act + ha_Cancels act) div 40),
                           pl_Endpoint := pl_Endpoint p1 @ ''/'' @ ha_Type act\<rparr>))
         else p1)"

text \<open>Two conditional assignments of the action, in the order of the code.\<close>

definition with_action :: "bool \<Rightarrow> bool \<Rightarrow> HTTPPolicy \<Rightarrow> HTTPPolicy" where
  "with_action place cancel policy =
     (if cancel then policy\<lparr>pl_Action := ''cancel''\<rparr>
      else if place then policy\<lparr>pl_Action := ''place''\<rparr> else policy)"

text \<open>The endpoint: Gate puts the order identity in the path, which must not create a new bucket.\<close>

definition endpoint_of :: "string \<Rightarrow> string" where
  "endpoint_of path =
     (case Index path ''/orders/'' of None \<Rightarrow> path | Some i \<Rightarrow> take i path @ ''/orders/:id'')"

definition venue_policy :: "Decoders \<Rightarrow> Request \<Rightarrow> HTTPPolicy \<Rightarrow> HTTPPolicy" where
  "venue_policy dc request policy =
     (let path = rq_Path request; meth = rq_Method request; body = requestBodyFields dc request; v = pl_Venue policy in
      if v = ''binance'' \<or> v = ''aster'' then
        (let p = with_action
               (meth = MethodPost \<and> (HasSuffix path ''/order'' \<or> HasSuffix path ''/batchOrders''))
               (meth = MethodDelete \<and> Contains (ToLower path) ''order'') policy
         in if v = ''binance'' then p\<lparr>pl_Cost := binanceRequestCost dc request\<rparr> else p)
      else if v = ''bybit'' then
        (let p = with_action (HasPrefix path ''/v5/order/create'') (HasPrefix path ''/v5/order/cancel'') policy in
         case body ''request'' of
           None \<Rightarrow> p
         | Some batch \<Rightarrow>
             if batch = [] then p
             else (case dc_array dc batch of
                     Some n \<Rightarrow> if n > 1 then p\<lparr>pl_Cost := int n\<rparr> else p
                   | None \<Rightarrow> p))
      else if v = ''bitget'' then
        with_action (HasSuffix path ''/place-order'' \<or> HasSuffix path ''/batch-place-order'')
          (Contains path ''/cancel-'' \<or> Contains path ''/batch-cancel-'') policy
      else if v = ''okx'' then
        with_action (meth = MethodPost \<and> (path = ''/api/v5/trade/order'' \<or> path = ''/api/v5/trade/batch-orders''))
          (HasPrefix path ''/api/v5/trade/cancel-'') policy
      else if v = ''gate'' then
        with_action (meth = MethodPost \<and> HasSuffix path ''/orders'') (meth = MethodDelete \<and> Contains path ''/orders'') policy
      else if v = ''hyperliquid'' then hyperliquid_policy dc path body policy
      else if v = ''lighter'' then policy\<lparr>pl_Action := lighterAction dc request (pl_Action policy)\<rparr>
      else if v = ''nado'' then
        (if HasSuffix path ''/execute''
         then with_action (body ''place_order'' \<noteq> None)
                (body ''cancel_orders'' \<noteq> None \<or> body ''cancel_product_orders'' \<noteq> None) policy
         else policy\<lparr>pl_Action := ''read''\<rparr>)
      else policy)"

definition PolicyForRequest :: "Decoders \<Rightarrow> Request \<Rightarrow> HTTPPolicy" where
  "PolicyForRequest dc request =
     venue_policy dc request
       \<lparr>pl_Venue = rq_Venue request, pl_Endpoint = rq_Method request @ '' '' @ endpoint_of (rq_Path request),
        pl_Cost = 1, pl_Action = (if rq_Method request = MethodGet then ''read'' else [])\<rparr>"

section \<open>Bounds of the cost\<close>

lemma with_action_sel [simp]:
  "pl_Venue (with_action a b p) = pl_Venue p" "pl_Cost (with_action a b p) = pl_Cost p"
  "pl_Endpoint (with_action a b p) = pl_Endpoint p"
  by (simp_all add: with_action_def)

lemma spot_cost_bounds: "spot_cost dc part q limit = Some c \<Longrightarrow> 1 \<le> c \<and> c \<le> 250"
  by (auto simp: spot_cost_def spot_depth_cost_def spot_ticker_cost_def Let_def split: if_splits option.splits)

lemma perp_cost_bounds: "perp_cost part q limit = Some c \<Longrightarrow> 1 \<le> c \<and> c \<le> 40"
  by (auto simp: perp_cost_def perp_depth_cost_def perp_klines_cost_def Let_def split: if_splits)

lemma binanceRequestCost_bounds: "1 \<le> binanceRequestCost dc request \<and> binanceRequestCost dc request \<le> 250"
  by (auto simp: binanceRequestCost_def Let_def split: option.split if_splits dest: spot_cost_bounds perp_cost_bounds)

lemma info_cost_bounds: "1 \<le> info_cost kind \<and> info_cost kind \<le> 120"
  by (simp add: info_cost_def)

lemma hyperliquid_policy_sel:
  "pl_Venue (hyperliquid_policy dc path body p) = pl_Venue p"
  "1 \<le> pl_Cost p \<Longrightarrow> 1 \<le> pl_Cost (hyperliquid_policy dc path body p)"
  "prefix (pl_Endpoint p) (pl_Endpoint (hyperliquid_policy dc path body p))"
  by (simp_all add: hyperliquid_policy_def info_cost_bounds Let_def split: option.split)

lemma venue_policy_sel:
  "pl_Venue (venue_policy dc request p) = pl_Venue p"
  "1 \<le> pl_Cost p \<Longrightarrow> 1 \<le> pl_Cost (venue_policy dc request p)"
  "prefix (pl_Endpoint p) (pl_Endpoint (venue_policy dc request p))"
  by (simp_all add: venue_policy_def hyperliquid_policy_sel binanceRequestCost_bounds Let_def split: option.split)

lemma PolicyForRequest_sel:
  "pl_Venue (PolicyForRequest dc request) = rq_Venue request"
  "1 \<le> pl_Cost (PolicyForRequest dc request)"
  "pl_Endpoint (PolicyForRequest dc request) \<noteq> []"
proof -
  show "pl_Venue (PolicyForRequest dc request) = rq_Venue request" "1 \<le> pl_Cost (PolicyForRequest dc request)"
    by (simp_all add: PolicyForRequest_def venue_policy_sel)
  have "prefix (rq_Method request @ '' '' @ endpoint_of (rq_Path request)) (pl_Endpoint (PolicyForRequest dc request))"
    unfolding PolicyForRequest_def by (rule prefix_order.trans [OF _ venue_policy_sel(3)]) simp
  then show "pl_Endpoint (PolicyForRequest dc request) \<noteq> []" by auto
qed

end
