(* ===== verification/Http_Errors.thy ===== *)
theory Http_Errors
  imports Exchange_Model Http_Policy
begin

text \<open>
  Failures of venue requests: the HTTP evidence of internal/venuehttp/http.go, the error mapping of
  the Binance family (internal/mbx/mbx.go), and the normalisation at the adapter boundary of
  exchange/internal/factoryclient (http_errors.go, venue_message.go).
\<close>

section \<open>errors.As for the transport errors\<close>

text \<open>The nodes of an error tree in the order errors.As visits them.\<close>

fun error_nodes :: "goerror \<Rightarrow> goerror list" where
  "error_nodes (WrapError s es) = WrapError s es # concat (map error_nodes es)"
| "error_nodes (JoinError es) = JoinError es # concat (map error_nodes es)"
| "error_nodes (HTTPError f es) = HTTPError f es # concat (map error_nodes es)"
| "error_nodes (TransportError es) = TransportError es # concat (map error_nodes es)"
| "error_nodes (MappedError x c m es) = MappedError x c m es # concat (map error_nodes es)"
| "error_nodes (SdkError t s ms es) = SdkError t s ms es # concat (map error_nodes es)"
| "error_nodes e = [e]"

definition as_http :: "goerror \<Rightarrow> HTTPFailure option" where
  "as_http e = first_some (map (\<lambda>n. case n of HTTPError f _ \<Rightarrow> Some f | _ \<Rightarrow> None) (error_nodes e))"

definition as_local :: "goerror \<Rightarrow> (Duration \<times> string) option" where
  "as_local e = first_some (map (\<lambda>n. case n of LocalRateLimitError d a \<Rightarrow> Some (d, a) | _ \<Rightarrow> None) (error_nodes e))"

definition as_sdk :: "SdkErrorType \<Rightarrow> goerror \<Rightarrow> string list option" where
  "as_sdk t e =
     first_some (map (\<lambda>n. case n of SdkError u _ fs _ \<Rightarrow> if u = t then Some fs else None | _ \<Rightarrow> None) (error_nodes e))"

fun is_json_error :: "goerror \<Rightarrow> bool" where
  "is_json_error (JsonSyntaxError _) \<longleftrightarrow> True"
| "is_json_error (JsonTypeError _) \<longleftrightarrow> True"
| "is_json_error _ \<longleftrightarrow> False"

definition as_json :: "goerror \<Rightarrow> bool" where
  "as_json e \<longleftrightarrow> list_ex is_json_error (error_nodes e)"

section \<open>HTTP evidence\<close>

abbreviation ErrMalformedResponse :: goerror where
  "ErrMalformedResponse \<equiv> SentinelError ''venuehttp.ErrMalformedResponse'' ''malformed venue response''"

text \<open>A response: the headers are read with Header.Get, which gives the empty text for an absent one.\<close>

record Response =
  rs_StatusCode :: int
  rs_Header :: "string \<Rightarrow> string"
  rs_Request :: "(string \<times> string) option"
  rs_Body :: string

text \<open>RetryAfter; http.ParseTime is the parameter \<open>parse\<close>.\<close>

definition RetryAfter :: "(string \<Rightarrow> Time option) \<Rightarrow> (string \<Rightarrow> string) \<Rightarrow> Time \<Rightarrow> Duration" where
  "RetryAfter parse header now =
     (let value = TrimSpace (header ''Retry-After'') in
      case ParseInt 64 value of
        Some seconds \<Rightarrow>
          if seconds \<le> 0 then 0
          else if seconds > maxDuration div Second then maxDuration
          else seconds * Second
      | None \<Rightarrow>
          (case parse value of
             Some until \<Rightarrow> if until > now then time_Sub until now else 0
           | None \<Rightarrow> 0))"

text \<open>The request of a response is its method and escaped path; a response without one leaves them empty.\<close>

definition WithHTTPResponse ::
  "(string \<Rightarrow> Time option) \<Rightarrow> Time \<Rightarrow> goerror option \<Rightarrow> Response option \<Rightarrow> goerror option" where
  "WithHTTPResponse parse now err response =
     (case (err, response) of
        (Some e, Some r) \<Rightarrow>
          if as_http e \<noteq> None then Some e
          else
            Some (HTTPError \<lparr>hf_StatusCode = rs_StatusCode r,
                hf_Method = (case rs_Request r of Some (m, _) \<Rightarrow> m | None \<Rightarrow> []),
                hf_Path = (case rs_Request r of Some (_, p) \<Rightarrow> p | None \<Rightarrow> []),
                hf_Code = [], hf_RetryAfter = RetryAfter parse (rs_Header r) now\<rparr> [e])
      | _ \<Rightarrow> err)"

definition code_char :: "char \<Rightarrow> bool" where
  "code_char c \<longleftrightarrow> (CHR ''0'' \<le> c \<and> c \<le> CHR ''9'') \<or> (CHR ''A'' \<le> c \<and> c \<le> CHR ''Z'') \<or>
     (CHR ''a'' \<le> c \<and> c \<le> CHR ''z'') \<or> c = CHR ''_'' \<or> c = CHR ''-''"

text \<open>One key of responseCode: the value under it when it is an acceptable code.\<close>

definition code_under :: "Decoders \<Rightarrow> (string \<rightharpoonup> string) \<Rightarrow> string \<Rightarrow> string option" where
  "code_under dc fs key =
     (case fs key of
        None \<Rightarrow> None
      | Some raw \<Rightarrow>
          if raw = [] then None
          else
            (let v = (case dc_string dc raw of Some s \<Rightarrow> s | None \<Rightarrow> raw) in
             if v = [] \<or> length v > 64 \<or> v = ''0'' then None
             else if list_all code_char v then Some v else None))"

definition responseCode :: "Decoders \<Rightarrow> string \<Rightarrow> string" where
  "responseCode dc body =
     (case first_some (map (code_under dc (dc_fields dc body)) [''retCode'', ''code'', ''error_code'', ''label'']) of
        Some v \<Rightarrow> v
      | None \<Rightarrow> [])"

definition CheckHTTPStatus ::
  "Decoders \<Rightarrow> (string \<Rightarrow> Time option) \<Rightarrow> Time \<Rightarrow> Response \<Rightarrow> goerror option" where
  "CheckHTTPStatus dc parse now response =
     (if rs_StatusCode response < 400 then None
      else
        (case WithHTTPResponse parse now (Some (PlainError ''venue HTTP request failed'')) (Some response) of
           Some (HTTPError f es) \<Rightarrow>
             Some (HTTPError (f\<lparr>hf_Code := responseCode dc (take body_limit (rs_Body response))\<rparr>) es)
         | other \<Rightarrow> other))"

section \<open>The Binance family\<close>

definition IsRateLimitMessage :: "string \<Rightarrow> bool" where
  "IsRateLimitMessage message \<longleftrightarrow>
     (let lower = ToLower message in
      Contains lower ''request weight'' \<or> Contains lower ''too many requests'' \<or> Contains lower ''banned until'')"

text \<open>MapAPIError; \<open>unmarshal\<close> gives the code and the message of the body. None: no mapping was needed.\<close>

definition MapAPIError ::
  "string \<Rightarrow> int \<Rightarrow> string \<Rightarrow> (string \<Rightarrow> (int \<times> string) option) \<Rightarrow> goerror option" where
  "MapAPIError exch statusCode data unmarshal =
     (case unmarshal data of
        None \<Rightarrow> Some (PlainError (''http error '' @ show_int statusCode @ '': '' @ data))
      | Some (code, message) \<Rightarrow>
          if statusCode = 429 \<or> statusCode = 418 \<or> IsRateLimitMessage message \<or> code = -1003 \<or> code = -1015
          then Some (MappedError exch (show_int code) message [ErrRateLimited])
          else None)"

definition TransportCause :: "goerror option \<Rightarrow> goerror option" where
  "TransportCause err = map_option (\<lambda>e. WrapError ''transport failure'' [e]) err"

record UsedWeight =
  uw_Used :: int
  uw_Used1M :: int

record OrderCount =
  oc_Count10s :: int
  oc_Count1d :: int

text \<open>A counter follows its header; an absent or malformed one leaves it as it was.\<close>

definition counter_from :: "string \<Rightarrow> int \<Rightarrow> int" where
  "counter_from value old =
     (if value = [] then old else (case ParseInt 64 value of Some n \<Rightarrow> n | None \<Rightarrow> old))"

definition UsedWeight_UpdateByHeader :: "(string \<Rightarrow> string) \<Rightarrow> UsedWeight \<Rightarrow> UsedWeight" where
  "UsedWeight_UpdateByHeader header u =
     \<lparr>uw_Used = counter_from (header ''X-Mbx-Used-Weight'') (uw_Used u),
      uw_Used1M = counter_from (header ''X-Mbx-Used-Weight-1m'') (uw_Used1M u)\<rparr>"

definition OrderCount_UpdateByHeader :: "(string \<Rightarrow> string) \<Rightarrow> OrderCount \<Rightarrow> OrderCount" where
  "OrderCount_UpdateByHeader header u =
     \<lparr>oc_Count10s = counter_from (header ''X-Mbx-Order-Count-10s'') (oc_Count10s u),
      oc_Count1d = counter_from (header ''X-Mbx-Order-Count-1d'') (oc_Count1d u)\<rparr>"

section \<open>The text of a venue\<close>

text \<open>
  The length of the rune a byte string starts with, by the table of unicode/utf8: 0 for an invalid
  encoding, which Go decodes as the replacement character of width one.
\<close>

definition byte_in :: "nat \<Rightarrow> nat \<Rightarrow> string \<Rightarrow> nat \<Rightarrow> bool" where
  "byte_in lo hi s i \<longleftrightarrow> i < length s \<and> lo \<le> of_char (s ! i) \<and> of_char (s ! i) \<le> hi"

definition second_byte :: "nat \<Rightarrow> nat \<times> nat" where
  "second_byte b =
     (if b = 0xE0 then (0xA0, 0xBF) else if b = 0xED then (0x80, 0x9F)
      else if b = 0xF0 then (0x90, 0xBF) else if b = 0xF4 then (0x80, 0x8F) else (0x80, 0xBF))"

definition rune_len :: "string \<Rightarrow> nat" where
  "rune_len s =
     (if s = [] then 0
      else
        (let b = of_char (hd s); (lo, hi) = second_byte b in
         if b < 0x80 then 1
         else if 0xC2 \<le> b \<and> b \<le> 0xDF then (if byte_in 0x80 0xBF s 1 then 2 else 0)
         else if 0xE0 \<le> b \<and> b \<le> 0xEF then (if byte_in lo hi s 1 \<and> byte_in 0x80 0xBF s 2 then 3 else 0)
         else if 0xF0 \<le> b \<and> b \<le> 0xF4
         then (if byte_in lo hi s 1 \<and> byte_in 0x80 0xBF s 2 \<and> byte_in 0x80 0xBF s 3 then 4 else 0)
         else 0))"

text \<open>unicode.IsControl on an encoded rune: U+0000 to U+001F and U+007F to U+009F.\<close>

definition is_control :: "string \<Rightarrow> bool" where
  "is_control r \<longleftrightarrow>
     (case r of
        [c] \<Rightarrow> of_char c < (0x20 :: nat) \<or> of_char c = (0x7F :: nat)
      | [c, d] \<Rightarrow> of_char c = (0xC2 :: nat) \<and> of_char d < (0xA0 :: nat)
      | _ \<Rightarrow> False)"

definition replacement :: string where "replacement = [CHR 0xEF, CHR 0xBF, CHR 0xBD]"

text \<open>strings.Map with the function that turns control characters into spaces.\<close>

function map_controls :: "string \<Rightarrow> string" where
  "map_controls s =
     (if s = [] then []
      else
        (let n = rune_len s in
         if n = 0 then replacement @ map_controls (tl s)
         else (if is_control (take n s) then '' '' else take n s) @ map_controls (drop n s)))"
  by pat_completeness auto
termination
  by (relation "measure length") auto

declare map_controls.simps [simp del]

text \<open>strings.Fields: the runs of runes that are no spaces.\<close>

function Fields_from :: "string \<Rightarrow> string \<Rightarrow> string list" where
  "Fields_from cur s =
     (if s = [] then (if cur = [] then [] else [cur])
      else
        (let n = max 1 (rune_len s); r = take n s in
         if r \<in> set space_runes
         then (if cur = [] then Fields_from [] (drop n s) else cur # Fields_from [] (drop n s))
         else Fields_from (cur @ r) (drop n s)))"
  by pat_completeness auto
termination
  by (relation "measure (\<lambda>(cur, s). length s)") auto

declare Fields_from.simps [simp del]

abbreviation Fields :: "string \<Rightarrow> string list" where "Fields s \<equiv> Fields_from [] s"

abbreviation maxVenueMessage :: nat where "maxVenueMessage \<equiv> 240"

definition ellipsis :: string where "ellipsis = [CHR 0xE2, CHR 0x80, CHR 0xA6]"

definition cleanVenueMessage :: "string \<Rightarrow> string" where
  "cleanVenueMessage message =
     (let joined = Join (Fields (map_controls message)) '' '' in
      if length joined > maxVenueMessage then TrimSpace (take maxVenueMessage joined) @ ellipsis
      else joined)"

text \<open>The types venueMessage asks for, in its order.\<close>

definition venue_error_types :: "SdkErrorType list" where
  "venue_error_types =
     [BinancePerpAPIError, BinanceSpotAPIError, OkxAPIError, BybitResponseError, BitgetResponseError,
      GateAPIError, HyperliquidOrderRejectedError, HyperliquidAPIErrorValue, HyperliquidAPIErrorPointer,
      LighterAPIError, NadoGatewayApplicationError, AsterVenueError]"

definition venueMessage :: "goerror option \<Rightarrow> string" where
  "venueMessage err =
     (case err of
        None \<Rightarrow> []
      | Some e \<Rightarrow>
          (let candidates = concat (map (\<lambda>t. case as_sdk t e of Some fs \<Rightarrow> fs | None \<Rightarrow> []) venue_error_types) in
           case find (\<lambda>c. cleanVenueMessage c \<noteq> []) candidates of
             Some c \<Rightarrow> cleanVenueMessage c
           | None \<Rightarrow> []))"

definition definitive_kind :: "ErrorKind \<Rightarrow> bool" where
  "definitive_kind kind \<longleftrightarrow>
     kind \<in> {KindVenueRejected, KindInvalidRequest, KindPermission, KindAuthentication, KindNotFound}"

definition doubtful_status :: "int \<Rightarrow> bool" where
  "doubtful_status status \<longleftrightarrow> status \<ge> 500 \<or> status = 429 \<or> status = 418 \<or> status = 408"

text \<open>withVenueMessage on the mapped error, and what it does to an acknowledgement.\<close>

definition withVenueMessage ::
  "goerror option \<Rightarrow> 'd OrderAcknowledgement option \<Rightarrow> goerror option \<Rightarrow> goerror option \<times> 'd OrderAcknowledgement option" where
  "withVenueMessage mapped ack original =
     (let message = venueMessage original in
      if message = [] then (mapped, ack)
      else
        (case Option.bind mapped as_exchange of
           None \<Rightarrow> (mapped, ack)
         | Some (kind, details) \<Rightarrow>
             if \<not> definitive_kind kind \<or> doubtful_status (ed_HTTPStatus details) then (mapped, ack)
             else
               (Some (ExchangeError kind (details\<lparr>ed_VenueMessage := message\<rparr>)),
                map_option (\<lambda>a. if ack_State a = AckRejected then a\<lparr>ack_VenueMessage := message\<rparr> else a) ack)))"

section \<open>Normalisation\<close>

text \<open>The steps of normalizeHTTPError on the kind and the details, in the order of the code.\<close>

type_synonym outcome = "ErrorKind \<times> ErrorDetails"

definition unless_ambiguous :: "ErrorKind \<Rightarrow> ErrorKind \<Rightarrow> ErrorKind" where
  "unless_ambiguous kind new = (if kind \<noteq> KindAmbiguousOutcome then new else kind)"

definition note_malformed :: "goerror \<Rightarrow> outcome \<Rightarrow> outcome" where
  "note_malformed e out =
     (case out of (kind, details) \<Rightarrow>
        if errors_Is e ErrMalformedResponse \<or> as_json e
        then (unless_ambiguous kind KindMalformedResponse, details\<lparr>ed_SafeMessage := ''malformed venue response''\<rparr>)
        else out)"

definition note_http :: "goerror \<Rightarrow> outcome \<Rightarrow> outcome" where
  "note_http e out =
     (case as_http e of
        None \<Rightarrow> out
      | Some f \<Rightarrow>
          (case out of (kind, details) \<Rightarrow>
             let d = details\<lparr>ed_HTTPStatus := hf_StatusCode f,
                             ed_RetryAfter := max (ed_RetryAfter details) (hf_RetryAfter f),
                             ed_Code := (if ed_Code details = [] then hf_Code f else ed_Code details)\<rparr>
             in if hf_StatusCode f \<ge> 500 \<or> hf_StatusCode f = 408
                then (unless_ambiguous kind KindTransport, d\<lparr>ed_SafeMessage := ''venue server or timeout response''\<rparr>)
                else if hf_StatusCode f = 429 \<or> hf_StatusCode f = 418
                then (unless_ambiguous kind KindRateLimit, d\<lparr>ed_SafeMessage := ''venue rate limit''\<rparr>)
                else (kind, d)))"

definition note_rate_limited :: "goerror \<Rightarrow> outcome \<Rightarrow> outcome" where
  "note_rate_limited e out =
     (case out of (kind, details) \<Rightarrow>
        if errors_Is e ErrRateLimited \<and> kind \<noteq> KindAmbiguousOutcome \<and> ed_HTTPStatus details < 500
        then (KindRateLimit, details\<lparr>ed_SafeMessage := ''request rate limited''\<rparr>)
        else out)"

text \<open>The operation name without underscores in lower case, and whether a refused action is that command.\<close>

abbreviation operation_key :: "string \<Rightarrow> string" where
  "operation_key operation \<equiv> ToLower (filter (\<lambda>c. c \<noteq> CHR ''_'') operation)"

abbreviation is_command :: "string \<Rightarrow> string \<Rightarrow> bool" where
  "is_command act operation \<equiv>
     (let op = operation_key operation in
      (act = ''place'' \<and> (op = ''place'' \<or> op = ''placeorder'')) \<or>
      (act = ''cancel'' \<and> (op = ''cancel'' \<or> op = ''cancelorder'')))"

definition note_local :: "goerror \<Rightarrow> string \<Rightarrow> outcome \<Rightarrow> outcome" where
  "note_local e operation out =
     (case as_local e of
        None \<Rightarrow> out
      | Some (retry, act) \<Rightarrow>
          (KindRateLimit,
           (snd out)\<lparr>ed_Code := ''LOCAL_RATE_LIMIT'',
                     ed_SafeMessage := ''HTTP request was not sent: local budget exhausted'',
                     ed_RetryAfter := retry, ed_CommandNotSent := is_command act operation\<rparr>))"

definition note_all :: "goerror option \<Rightarrow> string \<Rightarrow> outcome \<Rightarrow> outcome" where
  "note_all original operation out =
     (case original of
        None \<Rightarrow> out
      | Some e \<Rightarrow> note_local e operation (note_rate_limited e (note_http e (note_malformed e out))))"

definition normalizeHTTPError ::
  "goerror option \<Rightarrow> goerror option \<Rightarrow> Venue \<Rightarrow> Product \<Rightarrow> string \<Rightarrow> goerror option" where
  "normalizeHTTPError mapped original venue pd operation =
     (case mapped of
        None \<Rightarrow> None
      | Some m \<Rightarrow>
          (case as_exchange m of
             None \<Rightarrow> Some m
           | Some out \<Rightarrow>
               (case note_all original operation out of (kind, details) \<Rightarrow>
                  fst (withVenueMessage
                    (Some (ExchangeError kind
                       (details\<lparr>ed_Venue := venue, ed_Product := pd, ed_Operation := operation\<rparr>)))
                    (None :: unit OrderAcknowledgement option) original))))"

abbreviation unknown_outcome :: string where
  "unknown_outcome \<equiv> ''order command outcome is unknown after possible send''"

definition normalizeHTTPCommand ::
  "'d OrderAcknowledgement \<Rightarrow> goerror option \<Rightarrow> goerror option \<Rightarrow> Venue \<Rightarrow> Product \<Rightarrow> string \<Rightarrow>
   'd OrderAcknowledgement \<times> goerror option" where
  "normalizeHTTPCommand ack mapped original venue pd operation =
     (let (ack1, mapped1) =
        (case Option.bind original as_http of
           Some f \<Rightarrow>
             if doubtful_status (hf_StatusCode f)
             then (ack\<lparr>ack_State := AckAmbiguous, ack_VenueMessage := unknown_outcome\<rparr>,
                   Some (ExchangeError KindAmbiguousOutcome
                     (no_details\<lparr>ed_Venue := venue, ed_Product := pd, ed_Operation := operation,
                                 ed_Code := ack_VenueCode ack, ed_SafeMessage := unknown_outcome\<rparr>)))
             else (ack, mapped)
         | None \<Rightarrow> (ack, mapped));
          mapped2 = normalizeHTTPError mapped1 original venue pd operation;
          (mapped3, ack3) = withVenueMessage mapped2 (Some ack1) original
      in (the ack3, mapped3))"

section \<open>What an outcome keeps\<close>

lemma unless_ambiguous_keeps [simp]: "unless_ambiguous KindAmbiguousOutcome k = KindAmbiguousOutcome"
  by (simp add: unless_ambiguous_def)

text \<open>Without a local refusal the steps keep an ambiguous outcome and the not-sent mark.\<close>

lemma note_steps_ambiguous:
  "fst (note_malformed e (KindAmbiguousOutcome, d)) = KindAmbiguousOutcome"
  "fst (note_http e (KindAmbiguousOutcome, d)) = KindAmbiguousOutcome"
  "note_rate_limited e (KindAmbiguousOutcome, d) = (KindAmbiguousOutcome, d)"
  by (simp_all add: note_malformed_def note_http_def note_rate_limited_def Let_def split: option.split)

lemma note_steps_frame:
  "ed_CommandNotSent (snd (note_malformed e out)) = ed_CommandNotSent (snd out)"
  "ed_CommandNotSent (snd (note_http e out)) = ed_CommandNotSent (snd out)"
  "ed_CommandNotSent (snd (note_rate_limited e out)) = ed_CommandNotSent (snd out)"
  "ed_VenueMessage (snd (note_malformed e out)) = ed_VenueMessage (snd out)"
  "ed_VenueMessage (snd (note_http e out)) = ed_VenueMessage (snd out)"
  "ed_VenueMessage (snd (note_rate_limited e out)) = ed_VenueMessage (snd out)"
  "ed_HTTPStatus (snd (note_malformed e out)) = ed_HTTPStatus (snd out)"
  "ed_HTTPStatus (snd (note_rate_limited e out)) = ed_HTTPStatus (snd out)"
  "as_http e = Some f \<Longrightarrow> ed_HTTPStatus (snd (note_http e out)) = hf_StatusCode f"
  by (cases out; simp add: note_malformed_def note_http_def note_rate_limited_def Let_def split: option.split)+

lemma note_local_simps:
  "as_local e = None \<Longrightarrow> note_local e operation out = out"
  "as_local e = Some (r, act) \<Longrightarrow> fst (note_local e operation out) = KindRateLimit \<and>
     ed_CommandNotSent (snd (note_local e operation out)) = is_command act operation"
  by (simp_all add: note_local_def)

lemma note_all_CommandNotSent:
  assumes "\<not> ed_CommandNotSent (snd out)"
  shows "ed_CommandNotSent (snd (note_all original operation out)) \<longleftrightarrow>
    (\<exists>e r act. original = Some e \<and> as_local e = Some (r, act) \<and> is_command act operation)"
proof (cases original)
  case (Some e)
  show ?thesis
  proof (cases "as_local e")
    case None
    with Some assms show ?thesis by (simp add: note_all_def note_local_simps(1) note_steps_frame)
  next
    case (Some ra)
    then obtain r act where "as_local e = Some (r, act)" by (cases ra) auto
    with \<open>original = Some e\<close> show ?thesis by (simp add: note_all_def note_local_simps(2))
  qed
qed (use assms in \<open>simp add: note_all_def\<close>)

lemma withVenueMessage_frame:
  assumes "fst (withVenueMessage (Some (ExchangeError k d)) ack original) = Some (ExchangeError k' d')"
  shows "k' = k \<and> ed_CommandNotSent d' = ed_CommandNotSent d \<and> ed_HTTPStatus d' = ed_HTTPStatus d \<and>
    (d' = d \<or> definitive_kind k \<and> \<not> doubtful_status (ed_HTTPStatus d) \<and> ed_VenueMessage d' = venueMessage original)"
  using assms by (auto simp: withVenueMessage_def Let_def split: if_splits)

lemma withVenueMessage_doubtful:
  "\<not> definitive_kind k \<Longrightarrow> withVenueMessage (Some (ExchangeError k d)) ack original = (Some (ExchangeError k d), ack)"
  by (simp add: withVenueMessage_def Let_def)

section \<open>The cleaned text\<close>

definition visible :: "char \<Rightarrow> bool" where
  "visible c \<longleftrightarrow> 0x20 \<le> (of_char c :: nat) \<and> (of_char c :: nat) \<noteq> 0x7F"

lemma visible_constants [simp]: "list_all visible replacement" "list_all visible ellipsis" "visible CHR '' ''"
  by (simp_all add: replacement_def ellipsis_def visible_def)

text \<open>
  A text without control characters: no byte below 0x20 and no 0x7F, and no pair of bytes 0xC2 0x80 to
  0xC2 0x9F, the encodings of U+0080 to U+009F (0xC2 only ever starts a rune).
\<close>

abbreviation no_c1 :: "char \<Rightarrow> char \<Rightarrow> bool" where
  "no_c1 a b \<equiv> \<not> ((of_char a :: nat) = 0xC2 \<and> 0x80 \<le> (of_char b :: nat) \<and> (of_char b :: nat) \<le> 0x9F)"

definition control_free :: "string \<Rightarrow> bool" where
  "control_free s \<longleftrightarrow> list_all visible s \<and> successively no_c1 s"

lemma control_free_parts:
  "control_free (xs @ ys) \<Longrightarrow> control_free xs" "control_free (xs @ ys) \<Longrightarrow> control_free ys"
  by (auto simp: control_free_def successively_append_iff)

lemma control_free_append:
  assumes "control_free xs" "control_free ys" "ys \<noteq> [] \<Longrightarrow> (of_char (hd ys) :: nat) < 0x80 \<or> 0xC2 \<le> (of_char (hd ys) :: nat)"
  shows "control_free (xs @ ys)"
  using assms by (auto simp: control_free_def successively_append_iff)

lemma byte_in_visible: "byte_in lo hi s i \<Longrightarrow> 0x80 \<le> lo \<Longrightarrow> visible (s ! i)"
  by (auto simp: byte_in_def visible_def)

lemma byte_in_high: "byte_in lo hi s i \<Longrightarrow> hi \<le> 0xBF \<Longrightarrow> (of_char (s ! i) :: nat) \<le> 0xBF"
  by (auto simp: byte_in_def)

lemma second_byte_range: "second_byte b = (lo, hi) \<Longrightarrow> 0x80 \<le> lo \<and> hi \<le> 0xBF"
  by (auto simp: second_byte_def split: if_splits)

lemma rune_len_bytes:
  assumes "rune_len s = n" "n \<noteq> 0"
  shows "s \<noteq> []" "n \<le> length s" "n = 1 \<longrightarrow> (of_char (hd s) :: nat) < 0x80"
    "n \<noteq> 1 \<longrightarrow> (0xC2 :: nat) \<le> of_char (hd s)" "\<And>i. 0 < i \<Longrightarrow> i < n \<Longrightarrow> visible (s ! i)"
    "\<And>i. 0 < i \<Longrightarrow> i < n \<Longrightarrow> (of_char (s ! i) :: nat) \<le> 0xBF"
proof -
  show "s \<noteq> []" using assms by (auto simp: rune_len_def)
  then have "Suc 0 \<le> length s" by (cases s) auto
  obtain lo hi where sb: "second_byte (of_char (hd s)) = (lo, hi)" by force
  have low: "0x80 \<le> lo" and high: "hi \<le> 0xBF"
    using second_byte_range [OF sb] by simp_all
  show "n \<le> length s" "n = 1 \<longrightarrow> (of_char (hd s) :: nat) < 0x80"
      "n \<noteq> 1 \<longrightarrow> (0xC2 :: nat) \<le> of_char (hd s)"
    using assms \<open>Suc 0 \<le> length s\<close> by (auto simp: rune_len_def Let_def byte_in_def sb split: if_splits)
  fix i assume i: "0 < i" "i < n"
  have "n \<le> 4"
    using assms by (auto simp: rune_len_def Let_def sb split: if_splits)
  with i have "i = 1 \<or> i = 2 \<or> i = 3" by linarith
  then consider "i = 1" | "i = 2" | "i = 3" by blast
  then show "visible (s ! i)"
    by cases (use i assms in \<open>auto simp: rune_len_def Let_def sb split: if_splits
      intro: byte_in_visible [OF _ low] byte_in_visible\<close>)
  show "(of_char (s ! i) :: nat) \<le> 0xBF"
    using \<open>i = 1 \<or> i = 2 \<or> i = 3\<close>
    by (elim disjE) (use i assms in \<open>auto simp: rune_len_def Let_def sb split: if_splits
      intro: byte_in_high [OF _ high] byte_in_high\<close>)
qed

lemma rune_visible:
  assumes "rune_len s = n" "n \<noteq> 0" "\<not> is_control (take n s)"
  shows "list_all visible (take n s)"
proof -
  note bytes = rune_len_bytes [OF assms(1,2)]
  have "visible (s ! i)" if "i < n" for i
  proof (cases "i = 0")
    case True
    show ?thesis
    proof (cases "n = 1")
      case one: True
      with bytes(1) have "take n s = [hd s]" by (cases s) auto
      with assms(3) bytes(1) True show ?thesis by (cases s) (auto simp: is_control_def visible_def)
    next
      case False
      with bytes(1,4) True show ?thesis by (cases s) (auto simp: visible_def)
    qed
  next
    case False
    with that bytes(5) show ?thesis by blast
  qed
  then show ?thesis by (simp add: list_all_length)
qed

lemma rune_control_free:
  assumes "rune_len s = n" "n \<noteq> 0" "\<not> is_control (take n s)"
  shows "control_free (take n s)"
proof -
  note bytes = rune_len_bytes [OF assms(1,2)]
  have "no_c1 (take n s ! i) (take n s ! Suc i)" if i: "Suc i < n" for i
  proof (rule ccontr)
    assume "\<not> no_c1 (take n s ! i) (take n s ! Suc i)"
    then have c1: "(of_char (s ! i) :: nat) = 0xC2" "(of_char (s ! Suc i) :: nat) \<le> 0x9F"
      using i by simp_all
    have "i = 0"
      using bytes(6) [of i] i c1(1) by (cases i) auto
    then have "n = 2"
      using c1(1) assms(1) i bytes(1) by (cases s) (auto simp: rune_len_def Let_def split: if_splits)
    then have "take n s = [s ! 0, s ! 1]"
      using bytes(2) by (cases s; cases "tl s") auto
    then show False
      using assms(3) c1 \<open>i = 0\<close> by (simp add: is_control_def)
  qed
  then have "successively no_c1 (take n s)"
    using bytes(2) by (simp add: successively_conv_nth)
  then show ?thesis
    using rune_visible [OF assms] by (simp add: control_free_def)
qed

text \<open>The mapped text is a sequence of pieces without control characters that each start a rune.\<close>

definition starts_rune :: "string \<Rightarrow> bool" where
  "starts_rune s \<longleftrightarrow> s = [] \<or> (of_char (hd s) :: nat) < 0x80 \<or> 0xC2 \<le> (of_char (hd s) :: nat)"

lemma piece_append:
  "control_free xs \<Longrightarrow> starts_rune xs \<Longrightarrow> control_free ys \<and> starts_rune ys \<Longrightarrow> xs \<noteq> [] \<Longrightarrow>
   control_free (xs @ ys) \<and> starts_rune (xs @ ys)"
  using control_free_append [of xs ys] by (auto simp: starts_rune_def)

lemma control_free_constants:
  "control_free replacement" "starts_rune replacement" "control_free '' ''" "starts_rune '' ''" "control_free ellipsis"
  by (simp_all add: control_free_def starts_rune_def replacement_def ellipsis_def visible_def)

lemma rune_starts: "rune_len s = n \<Longrightarrow> n \<noteq> 0 \<Longrightarrow> starts_rune (take n s)"
  using rune_len_bytes(3,4) [of s n] by (cases "n = 1") (auto simp: starts_rune_def)

lemma map_controls_free: "control_free (map_controls s) \<and> starts_rune (map_controls s)"
proof (induction s rule: map_controls.induct)
  case (1 s)
  consider "s = []" | "s \<noteq> []" "rune_len s = 0" | "s \<noteq> []" "rune_len s \<noteq> 0" by blast
  then show ?case
  proof cases
    case 1
    then show ?thesis
      by (subst (1 2) map_controls.simps) (simp add: control_free_def starts_rune_def)
  next
    case 2
    have "map_controls s = replacement @ map_controls (tl s)"
      using 2 by (subst map_controls.simps) (simp add: Let_def)
    then show ?thesis
      using "1.IH"(1) [OF 2(1) refl 2(2)] control_free_constants(1,2)
      by (simp only:) (rule piece_append; simp add: replacement_def)
  next
    case 3
    define n where "n = rune_len s"
    have n: "rune_len s = n" "n \<noteq> 0" using 3 by (auto simp: n_def)
    let ?piece = "if is_control (take n s) then '' '' else take n s"
    have "map_controls s = ?piece @ map_controls (drop n s)"
      using 3 n by (subst map_controls.simps) (simp add: Let_def)
    moreover have "control_free ?piece" "starts_rune ?piece" "?piece \<noteq> []"
      using rune_control_free [OF n] rune_starts [OF n] control_free_constants(3,4) 3 n(2) by simp_all
    ultimately show ?thesis
      using "1.IH"(2) [OF 3(1) refl 3(2)] n(1) by (simp only:) (rule piece_append; simp)
  qed
qed

lemma Fields_free: "control_free (cur @ s) \<Longrightarrow> x \<in> set (Fields_from cur s) \<Longrightarrow> control_free x"
proof (induction cur s rule: Fields_from.induct)
  case (1 cur s)
  show ?case
  proof (cases "s = []")
    case True
    with "1.prems" show ?thesis by (auto simp: Fields_from.simps split: if_splits)
  next
    case False
    define n where "n = max 1 (rune_len s)"
    note step = Fields_from.simps [of cur s, unfolded Let_def, folded n_def]
    have "control_free cur" "control_free (drop n s)" "control_free ((cur @ take n s) @ drop n s)"
      using "1.prems"(1) control_free_parts [of cur s] control_free_parts(2) [of "take n s" "drop n s"] by simp_all
    then show ?thesis
      using "1.prems"(2) "1.IH"(1) [OF False n_def refl] "1.IH"(2) [OF False n_def refl] "1.IH"(3) [OF False n_def refl] False
      by (auto simp: step split: if_splits)
  qed
qed

lemma Join_free: "(\<And>x. x \<in> set xs \<Longrightarrow> control_free x) \<Longrightarrow> control_free (Join xs '' '')"
proof (induction xs "'' ''" rule: Join.induct)
  case (3 x y ys)
  then have "control_free x" "control_free (Join (y # ys) '' '')"
    by simp_all
  then show ?case
    by (cases "Join (y # ys) '' ''") (auto simp: control_free_def successively_append_iff visible_def)
qed (simp_all add: control_free_def)

lemma TrimSpace_length: "length (TrimSpace s) \<le> length s"
proof -
  have "length (strip rs t) \<le> length t" for rs t
    using strip_suffix [of rs t] by (rule suffix_length_le)
  then show ?thesis
    unfolding TrimSpace_def by (metis length_rev order_trans)
qed

lemma TrimSpace_free:
  assumes "control_free s"
  shows "control_free (TrimSpace s)"
proof -
  obtain xs where "s = xs @ strip space_runes s"
    using strip_suffix [of space_runes s] by (auto simp: suffix_def)
  moreover obtain ys where "rev (strip space_runes s) = ys @ strip (map rev space_runes) (rev (strip space_runes s))"
    using strip_suffix [of "map rev space_runes" "rev (strip space_runes s)"] by (auto simp: suffix_def)
  ultimately have "s = xs @ TrimSpace s @ rev ys"
    unfolding TrimSpace_def by (metis rev_append rev_rev_ident)
  then show ?thesis
    using assms control_free_parts by metis
qed

lemma cleanVenueMessage_clean:
  "length (cleanVenueMessage message) \<le> 243" "control_free (cleanVenueMessage message)"
proof -
  define j where "j = Join (Fields (map_controls message)) '' ''"
  have "control_free j"
    unfolding j_def
  proof (rule Join_free)
    show "control_free x" if "x \<in> set (Fields (map_controls message))" for x
      by (rule Fields_free [OF _ that]) (simp add: map_controls_free)
  qed
  then have "control_free (take maxVenueMessage j)"
    using control_free_parts(1) [of "take maxVenueMessage j" "drop maxVenueMessage j"] by (simp only: append_take_drop_id)
  then have "control_free (TrimSpace (take maxVenueMessage j) @ ellipsis)"
    by (rule control_free_append [OF TrimSpace_free control_free_constants(5)]) (simp add: ellipsis_def)
  moreover have "length (TrimSpace (take maxVenueMessage j)) \<le> 240"
    using TrimSpace_length [of "take maxVenueMessage j"] by simp
  moreover have "cleanVenueMessage message =
      (if length j > maxVenueMessage then TrimSpace (take maxVenueMessage j) @ ellipsis else j)"
    by (simp add: cleanVenueMessage_def Let_def j_def)
  ultimately show "length (cleanVenueMessage message) \<le> 243" "control_free (cleanVenueMessage message)"
    using \<open>control_free j\<close> by (simp_all add: ellipsis_def)
qed

lemma venueMessage_clean: "length (venueMessage err) \<le> 243 \<and> control_free (venueMessage err)"
  by (simp add: venueMessage_def Let_def cleanVenueMessage_clean control_free_def [of "[]"] split: option.split)

lemma normalizeHTTPError_eq:
  assumes "as_exchange m = Some out" "note_all original operation out = (kind, details)"
  shows "normalizeHTTPError (Some m) original venue pd operation =
    fst (withVenueMessage (Some (ExchangeError kind
      (details\<lparr>ed_Venue := venue, ed_Product := pd, ed_Operation := operation\<rparr>)))
      (None :: unit OrderAcknowledgement option) original)"
  using assms by (simp add: normalizeHTTPError_def)

lemma normalizeHTTPError_cases:
  assumes "as_exchange m = Some out" "note_all original operation out = (kind, details)"
  shows "\<exists>d. normalizeHTTPError (Some m) original venue pd operation = Some (ExchangeError kind d) \<and>
    ed_CommandNotSent d = ed_CommandNotSent details"
  unfolding normalizeHTTPError_eq [OF assms] by (simp add: withVenueMessage_def Let_def)

text \<open>A command with a doubtful answer, for the callers of the adapters.\<close>

lemma doubtful_command:
  assumes "as_http e = Some f" "doubtful_status (hf_StatusCode f)" "as_local e = None"
  shows "\<exists>ack' d. normalizeHTTPCommand ack mapped (Some e) venue pd operation =
      (ack', Some (ExchangeError KindAmbiguousOutcome d)) \<and>
    ack_State ack' = AckAmbiguous \<and> ack_VenueMessage ack' = unknown_outcome \<and>
    ed_HTTPStatus d = hf_StatusCode f \<and> \<not> ed_CommandNotSent d \<and> ed_VenueMessage d = []"
proof -
  define d0 where "d0 = no_details\<lparr>ed_Venue := venue, ed_Product := pd, ed_Operation := operation,
      ed_Code := ack_VenueCode ack, ed_SafeMessage := unknown_outcome\<rparr>"
  obtain k d where kd: "note_all (Some e) operation (KindAmbiguousOutcome, d0) = (k, d)" by force
  have k: "k = KindAmbiguousOutcome"
    using kd note_steps_ambiguous [of e] assms(3)
    by (auto simp: note_all_def note_local_simps(1)) (metis fst_conv prod.collapse)
  have d: "ed_CommandNotSent d = ed_CommandNotSent d0" "ed_VenueMessage d = ed_VenueMessage d0"
      "ed_HTTPStatus d = hf_StatusCode f"
    using arg_cong [OF kd, of snd] assms(3)
    by (auto simp: note_all_def note_local_simps(1) note_steps_frame(1-8) note_steps_frame(9) [OF assms(1)])
  have amb: "\<not> definitive_kind KindAmbiguousOutcome" by (simp add: definitive_kind_def)
  have "normalizeHTTPError (Some (ExchangeError KindAmbiguousOutcome d0)) (Some e) venue pd operation =
      Some (ExchangeError KindAmbiguousOutcome (d\<lparr>ed_Venue := venue, ed_Product := pd, ed_Operation := operation\<rparr>))"
    using normalizeHTTPError_eq [OF _ kd] k by (simp add: withVenueMessage_doubtful [OF amb])
  then show ?thesis
    using assms(1,2) d
    by (simp add: normalizeHTTPCommand_def d0_def withVenueMessage_doubtful [OF amb])
qed

text \<open>An error that shows a venue message, and what the two normalisations make of the message.\<close>

definition shows_venue_text :: "goerror option \<Rightarrow> ErrorKind \<Rightarrow> ErrorDetails \<Rightarrow> bool" where
  "shows_venue_text original kind details \<longleftrightarrow> ed_VenueMessage details \<noteq> [] \<longrightarrow>
     definitive_kind kind \<and> \<not> doubtful_status (ed_HTTPStatus details) \<and> ed_VenueMessage details = venueMessage original \<and>
     length (ed_VenueMessage details) \<le> 243 \<and> control_free (ed_VenueMessage details)"

lemma normalizeHTTPError_text:
  assumes "as_exchange m = Some (k0, d0)" "ed_VenueMessage d0 = []"
    and "normalizeHTTPError (Some m) original venue pd operation = Some (ExchangeError k d)"
  shows "shows_venue_text original k d"
proof -
  obtain k1 d1 where kd: "note_all original operation (k0, d0) = (k1, d1)" by force
  have "ed_VenueMessage (snd (note_all original operation (k0, d0))) = []"
    using assms(2) by (simp add: note_all_def note_local_def note_steps_frame split: option.split)
  then have d1: "ed_VenueMessage d1 = []" by (simp add: kd)
  show ?thesis
    using withVenueMessage_frame [OF assms(3) [unfolded normalizeHTTPError_eq [OF assms(1) kd]]] d1
      venueMessage_clean [of original] by (auto simp: shows_venue_text_def)
qed

lemma withVenueMessage_text:
  assumes "withVenueMessage (Some (ExchangeError k d)) (Some ack) original = (Some (ExchangeError k' d'), Some ack')"
  shows "ack_State ack' = ack_State ack"
    "shows_venue_text original k d \<Longrightarrow> shows_venue_text original k' d'"
    "ack_VenueMessage ack' = ack_VenueMessage ack \<or>
     ack_State ack' = AckRejected \<and> ack_VenueMessage ack' = ed_VenueMessage d' \<and> ack_VenueMessage ack' \<noteq> []"
  using assms venueMessage_clean [of original]
  by (auto simp: withVenueMessage_def Let_def shows_venue_text_def split: if_splits)

lemma withVenueMessage_Some: "\<exists>ack'. snd (withVenueMessage mapped (Some ack) original) = Some ack'"
  by (simp add: withVenueMessage_def Let_def split: option.split)

lemma normalizeHTTPCommand_eq:
  "normalizeHTTPCommand ack mapped original venue pd operation =
     (let doubt = (\<exists>f. Option.bind original as_http = Some f \<and> doubtful_status (hf_StatusCode f));
          ack1 = (if doubt then ack\<lparr>ack_State := AckAmbiguous, ack_VenueMessage := unknown_outcome\<rparr> else ack);
          mapped1 = (if doubt then Some (ExchangeError KindAmbiguousOutcome
            (no_details\<lparr>ed_Venue := venue, ed_Product := pd, ed_Operation := operation, ed_Code := ack_VenueCode ack,
               ed_SafeMessage := unknown_outcome\<rparr>)) else mapped);
          out = withVenueMessage (normalizeHTTPError mapped1 original venue pd operation) (Some ack1) original
      in (the (snd out), fst out))"
  by (cases "Option.bind original as_http") (auto simp: normalizeHTTPCommand_def Let_def split: prod.split)

section \<open>Properties\<close>

text \<open>
  C29: An order command whose request was answered by a server failure, a timeout or a rate limit (5xx,
  408, 429, 418) is reported as ambiguous, in the acknowledgement and in the error, whatever the adapter
  had made of the answer; the status is kept, the command is never marked as not sent, and no text of
  the answer is shown.
\<close>

theorem doubtful_command_is_ambiguous:
  assumes "as_http e = Some f" "doubtful_status (hf_StatusCode f)" "as_local e = None"
  shows "\<exists>ack' d. normalizeHTTPCommand ack mapped (Some e) venue pd operation =
      (ack', Some (ExchangeError KindAmbiguousOutcome d)) \<and>
    ack_State ack' = AckAmbiguous \<and> ack_VenueMessage ack' = unknown_outcome \<and>
    ed_HTTPStatus d = hf_StatusCode f \<and> \<not> ed_CommandNotSent d \<and> ed_VenueMessage d = []"
  by (rule doubtful_command [OF assms])

definition gateway_timeout :: goerror where
  "gateway_timeout = HTTPError \<lparr>hf_StatusCode = 504, hf_Method = ''POST'', hf_Path = ''/api/v3/order'', hf_Code = [],
     hf_RetryAfter = 0\<rparr> [SdkError BinanceSpotAPIError ''rejected'' [''Account has insufficient balance''] []]"

theorem doubtful_command_is_ambiguous_witness:
  "as_http gateway_timeout \<noteq> None \<and> as_local gateway_timeout = None \<and>
   (\<exists>ack' d. normalizeHTTPCommand (sample_ack\<lparr>ack_State := AckRejected\<rparr>)
      (Some (ExchangeError KindVenueRejected no_details)) (Some gateway_timeout) ''binance'' ''spot'' ''PlaceOrder'' =
      (ack', Some (ExchangeError KindAmbiguousOutcome d)) \<and> ack_State ack' = AckAmbiguous \<and> ed_HTTPStatus d = 504)"
proof -
  have a: "as_http gateway_timeout = Some \<lparr>hf_StatusCode = 504, hf_Method = ''POST'', hf_Path = ''/api/v3/order'',
      hf_Code = [], hf_RetryAfter = 0\<rparr>" "as_local gateway_timeout = None"
    by (simp_all add: as_http_def as_local_def gateway_timeout_def)
  have b: "doubtful_status (hf_StatusCode \<lparr>hf_StatusCode = 504, hf_Method = ''POST'', hf_Path = ''/api/v3/order'',
      hf_Code = [], hf_RetryAfter = 0\<rparr>)" by (simp add: doubtful_status_def)
  show ?thesis
    using doubtful_command_is_ambiguous [OF a(1) b a(2)] a by fastforce
qed

text \<open>
  C30: A failure is marked as a command that was not sent exactly when the local budget refused that very
  command: the refused request was the placement of a place operation or the cancellation of a cancel
  operation. A refused follow-up request is never such a proof.
\<close>

theorem command_not_sent_exactly:
  assumes "as_exchange m = Some (k0, d0)" "\<not> ed_CommandNotSent d0"
  shows "\<exists>k d. normalizeHTTPError (Some m) (Some e) venue pd operation = Some (ExchangeError k d) \<and>
    (ed_CommandNotSent d \<longleftrightarrow> (\<exists>retry act. as_local e = Some (retry, act) \<and> is_command act operation)) \<and>
    (ed_CommandNotSent d \<longrightarrow> k = KindRateLimit)"
proof -
  obtain k d where kd: "note_all (Some e) operation (k0, d0) = (k, d)" by force
  have not_sent: "ed_CommandNotSent d \<longleftrightarrow> (\<exists>retry act. as_local e = Some (retry, act) \<and> is_command act operation)"
    using note_all_CommandNotSent [of "(k0, d0)" "Some e" operation] kd assms(2) by simp
  have kind: "k = KindRateLimit" if "as_local e = Some (retry, act)" for retry act
    using arg_cong [OF kd, of fst] note_local_simps(2) [OF that] by (simp add: note_all_def)
  obtain d' where "normalizeHTTPError (Some m) (Some e) venue pd operation = Some (ExchangeError k d')"
      "ed_CommandNotSent d' = ed_CommandNotSent d"
    using normalizeHTTPError_cases [OF assms(1) kd] by blast
  with not_sent kind show ?thesis by blast
qed

theorem command_not_sent_exactly_witness:
  "(\<exists>k d. normalizeHTTPError (Some (ExchangeError KindTransport no_details)) (Some (LocalRateLimitError Second ''read''))
      ''okx'' ''perp'' ''PlaceOrder'' = Some (ExchangeError k d) \<and> \<not> ed_CommandNotSent d) \<and>
   (\<exists>k d. normalizeHTTPError (Some (ExchangeError KindTransport no_details)) (Some (LocalRateLimitError Second ''place''))
      ''okx'' ''perp'' ''PlaceOrder'' = Some (ExchangeError k d) \<and> ed_CommandNotSent d)"
proof -
  have op: "is_command ''place'' ''PlaceOrder''" "\<not> is_command ''read'' ''PlaceOrder''"
    by code_simp+
  have loc: "as_local (LocalRateLimitError Second act) = Some (Second, act)" for act
    by (simp add: as_local_def)
  have m: "as_exchange (ExchangeError KindTransport no_details) = Some (KindTransport, no_details)"
      "\<not> ed_CommandNotSent no_details" by simp_all
  show ?thesis
    using command_not_sent_exactly [OF m, of "LocalRateLimitError Second ''read''" "''okx''" "''perp''" "''PlaceOrder''"]
      command_not_sent_exactly [OF m, of "LocalRateLimitError Second ''place''" "''okx''" "''perp''" "''PlaceOrder''"]
      op loc by auto
qed

text \<open>
  C34: Text of the venue reaches the caller only on a definitive rejection that no proxy can have written,
  in the error of a request and in the error and the acknowledgement of an order command: an error that
  shows a venue message is of a definitive kind, has no doubtful status, and the message is the cleaned text
  of the venue's error, at most 243 bytes and free of control characters. An acknowledgement keeps the
  message the adapter gave it, or is ambiguous with the fixed text for an unknown outcome, or is rejected
  and shows the message of the error.
\<close>

theorem venue_text_definitive:
  assumes "as_exchange m = Some (k0, d0)" "ed_VenueMessage d0 = []"
    and "normalizeHTTPError (Some m) original venue pd operation = Some (ExchangeError k d)"
    and "normalizeHTTPCommand ack (Some m) original venue pd operation = (ack', Some (ExchangeError k' d'))"
  shows "shows_venue_text original k d \<and> shows_venue_text original k' d' \<and>
    (ack_VenueMessage ack' = ack_VenueMessage ack \<or>
     ack_VenueMessage ack' = unknown_outcome \<and> ack_State ack' = AckAmbiguous \<or>
     ack_VenueMessage ack' = ed_VenueMessage d' \<and> ack_VenueMessage ack' \<noteq> [] \<and> ack_State ack' = AckRejected)"
proof -
  define doubt where "doubt \<longleftrightarrow> (\<exists>f. Option.bind original as_http = Some f \<and> doubtful_status (hf_StatusCode f))"
  define ack1 where "ack1 = (if doubt then ack\<lparr>ack_State := AckAmbiguous, ack_VenueMessage := unknown_outcome\<rparr> else ack)"
  define m1 where "m1 = (if doubt then ExchangeError KindAmbiguousOutcome
      (no_details\<lparr>ed_Venue := venue, ed_Product := pd, ed_Operation := operation, ed_Code := ack_VenueCode ack,
         ed_SafeMessage := unknown_outcome\<rparr>) else m)"
  obtain k1 d1 where m1: "as_exchange m1 = Some (k1, d1)" "ed_VenueMessage d1 = []"
    using assms(1,2) by (cases doubt) (simp_all add: m1_def)
  obtain k2 d2 where e2: "normalizeHTTPError (Some m1) original venue pd operation = Some (ExchangeError k2 d2)"
    using normalizeHTTPError_cases [OF m1(1)] by (metis surj_pair)
  have "withVenueMessage (Some (ExchangeError k2 d2)) (Some ack1) original = (Some (ExchangeError k' d'), Some ack')"
    using assms(4) e2 normalizeHTTPCommand_eq [of ack "Some m" original venue pd operation]
      withVenueMessage_Some [of "Some (ExchangeError k2 d2)" ack1 original]
    by (auto simp: doubt_def ack1_def m1_def intro!: prod_eqI split: if_splits)
  note text_of = withVenueMessage_text [OF this]
  have "shows_venue_text original k d" "shows_venue_text original k2 d2"
    using normalizeHTTPError_text [OF assms(1-3)] normalizeHTTPError_text [OF m1 e2] by simp_all
  then show ?thesis
    using text_of by (auto simp: ack1_def split: if_splits)
qed

text \<open>A rejection whose text has a line break, a tab and the control character U+0085.\<close>

definition bare_rejection :: goerror where
  "bare_rejection = SdkError OkxAPIError ''rejected''
     [''Insufficient'' @ [CHR 0x0A, CHR 0x09] @ ''margin'' @ [CHR 0xC2, CHR 0x85]] []"

lemma bare_rejection_text: "venueMessage (Some bare_rejection) = ''Insufficient margin''"
  by code_simp

lemma bare_rejection_notes:
  "as_http bare_rejection = None" "note_all (Some bare_rejection) operation (k, d) = (k, d)"
  by (simp_all add: bare_rejection_def as_http_def note_all_def note_malformed_def note_http_def note_rate_limited_def
      note_local_def as_local_def as_json_def errors_Is.simps)

theorem venue_text_definitive_witness:
  "\<exists>ack' d. normalizeHTTPCommand (sample_ack\<lparr>ack_State := AckRejected\<rparr>) (Some (ExchangeError KindVenueRejected no_details))
       (Some bare_rejection) ''okx'' ''perp'' ''PlaceOrder'' = (ack', Some (ExchangeError KindVenueRejected d)) \<and>
     ed_VenueMessage d = ''Insufficient margin'' \<and> ack_VenueMessage ack' = ''Insufficient margin'' \<and>
     control_free (ed_VenueMessage d)"
proof -
  let ?m = "ExchangeError KindVenueRejected no_details" and ?ack = "sample_ack\<lparr>ack_State := AckRejected\<rparr>"
  have plain: "definitive_kind KindVenueRejected" "\<not> doubtful_status 0" "ed_HTTPStatus no_details = 0"
    by (simp_all add: definitive_kind_def doubtful_status_def no_details_def)
  obtain d where e: "normalizeHTTPError (Some ?m) (Some bare_rejection) ''okx'' ''perp'' ''PlaceOrder'' =
      Some (ExchangeError KindVenueRejected d)" "ed_HTTPStatus d = 0"
    using normalizeHTTPError_eq [OF as_exchange.simps(1) bare_rejection_notes(2)] plain
    by (simp add: withVenueMessage_def bare_rejection_text Let_def)
  obtain ack' d' where c: "normalizeHTTPCommand ?ack (Some ?m) (Some bare_rejection) ''okx'' ''perp'' ''PlaceOrder'' =
      (ack', Some (ExchangeError KindVenueRejected d'))" "ed_VenueMessage d' = ''Insufficient margin''"
      "ack_VenueMessage ack' = ''Insufficient margin''"
    using e plain
    by (simp add: normalizeHTTPCommand_eq bare_rejection_notes(1) withVenueMessage_def bare_rejection_text Let_def)
  then show ?thesis
    using venue_text_definitive [OF as_exchange.simps(1) no_details_sel(8) e(1) c(1)] by (auto simp: shows_venue_text_def)
qed

end
