(* ===== verification/Rate_Limit.thy ===== *)
theory Rate_Limit
  imports Http_Errors
begin

text \<open>
  The process-wide request budget of the gateway (gateway/ratelimit/coordinator.go) and the HTTP
  transport that spends it (transport.go). Every method of the coordinator runs under its mutex and is
  one step; the clock reading it takes is an argument. Go's int is 64 bits wide; the limits the
  transport configures are at most 1200, so that no sum of the model leaves that range.
\<close>

section \<open>The coordinator\<close>

abbreviation ErrInvalidBudget :: goerror where
  "ErrInvalidBudget \<equiv> SentinelError ''ratelimit.ErrInvalidBudget'' ''invalid gateway rate-limit budget''"

type_synonym KeyKind = string

abbreviation "VenueBudget \<equiv> ''venue''"
abbreviation "EndpointBudget \<equiv> ''endpoint''"

record BudgetKey =
  bk_kind :: KeyKind
  bk_value :: string

definition BudgetKey_validate :: "BudgetKey \<Rightarrow> goerror option" where
  "BudgetKey_validate key =
     (if bk_kind key \<notin> {VenueBudget, EndpointBudget} then Some ErrInvalidBudget
      else if bk_value key = [] \<or> bk_value key \<noteq> TrimSpace (bk_value key) \<or> length (bk_value key) > 256 \<or>
              ContainsAny (bk_value key) [CHR 0x0A, CHR 0x0D, CHR 0x09]
      then Some ErrInvalidBudget else None)"

record Quota =
  qt_Limit :: int
  qt_Interval :: Duration

record window =
  wn_quota :: Quota
  wn_start :: Time
  wn_used :: int
  wn_blockedUntil :: Time

type_synonym Coordinator = "BudgetKey \<rightharpoonup> window"

definition NewCoordinator :: Coordinator where "NewCoordinator = Map.empty"

definition Configure :: "Time \<Rightarrow> BudgetKey \<Rightarrow> Quota \<Rightarrow> Coordinator \<Rightarrow> goerror option \<times> Coordinator" where
  "Configure now key quota co =
     (if BudgetKey_validate key \<noteq> None \<or> qt_Limit quota \<le> 0 \<or> qt_Interval quota \<le> 0
      then (Some ErrInvalidBudget, co)
      else
        (case co key of
           Some existing \<Rightarrow> (if wn_quota existing \<noteq> quota then Some ErrInvalidBudget else None, co)
         | None \<Rightarrow> (None, co(key \<mapsto> \<lparr>wn_quota = quota, wn_start = now, wn_used = 0, wn_blockedUntil = 0\<rparr>))))"

abbreviation window_end :: "window \<Rightarrow> Time" where
  "window_end w \<equiv> wn_start w + qt_Interval (wn_quota w)"

definition Used :: "Time \<Rightarrow> BudgetKey \<Rightarrow> Coordinator \<Rightarrow> int" where
  "Used now key co =
     (case co key of None \<Rightarrow> 0 | Some w \<Rightarrow> if \<not> now < window_end w then 0 else wn_used w)"

record Charge =
  ch_Key :: BudgetKey
  ch_Cost :: int
  ch_Reserve :: int

text \<open>The window a charge meets: an expired one starts again.\<close>

definition roll :: "Time \<Rightarrow> window \<Rightarrow> window" where
  "roll now w = (if \<not> now < window_end w then w\<lparr>wn_start := now, wn_used := 0\<rparr> else w)"

text \<open>The first loop of TryAcquire. Windows it has rolled stay rolled when a later charge is invalid.\<close>

fun scan ::
  "Time \<Rightarrow> Charge list \<Rightarrow> BudgetKey set \<Rightarrow> Duration \<Rightarrow> Coordinator \<Rightarrow> (goerror + Duration) \<times> Coordinator" where
  "scan now [] seen delay co = (Inr delay, co)"
| "scan now (c # cs) seen delay co =
     (case co (ch_Key c) of
        None \<Rightarrow> (Inl ErrInvalidBudget, co)
      | Some w \<Rightarrow>
          (let allowance = qt_Limit (wn_quota w) - ch_Reserve c in
           if ch_Key c \<in> seen \<or> ch_Cost c \<le> 0 \<or> ch_Reserve c < 0 \<or> ch_Cost c > allowance
           then (Inl ErrInvalidBudget, co)
           else
             (let w1 = roll now w;
                  d1 = (if wn_used w1 + ch_Cost c > allowance then max delay (time_Sub (window_end w1) now) else delay);
                  d2 = max d1 (time_Sub (wn_blockedUntil w1) now)
              in scan now cs (insert (ch_Key c) seen) d2 (co(ch_Key c \<mapsto> w1)))))"

text \<open>The second loop of TryAcquire.\<close>

fun commit :: "Charge list \<Rightarrow> Coordinator \<Rightarrow> Coordinator" where
  "commit [] co = co"
| "commit (c # cs) co =
     commit cs (co(ch_Key c := map_option (\<lambda>w. w\<lparr>wn_used := wn_used w + ch_Cost c\<rparr>) (co (ch_Key c))))"

text \<open>TryAcquire; \<open>ctx_err\<close> is the error of the context, context.Canceled for a nil one.\<close>

definition TryAcquire ::
  "goerror option \<Rightarrow> Time \<Rightarrow> Charge list \<Rightarrow> Coordinator \<Rightarrow> (goerror + Duration) \<times> Coordinator" where
  "TryAcquire ctx_err now charges co =
     (case ctx_err of
        Some err \<Rightarrow> (Inl err, co)
      | None \<Rightarrow>
          if charges = [] then (Inl ErrInvalidBudget, co)
          else
            (case scan now charges {} 0 co of
               (Inl err, co') \<Rightarrow> (Inl err, co')
             | (Inr delay, co') \<Rightarrow> if delay > 0 then (Inr delay, co') else (Inr 0, commit charges co')))"

definition Block :: "BudgetKey \<Rightarrow> Time \<Rightarrow> Coordinator \<Rightarrow> Coordinator" where
  "Block key until co =
     (case co key of
        Some w \<Rightarrow> if until > wn_blockedUntil w then co(key \<mapsto> w\<lparr>wn_blockedUntil := until\<rparr>) else co
      | None \<Rightarrow> co)"

section \<open>The transport\<close>

definition localUnitsPerMinute :: "string \<rightharpoonup> int" where
  "localUnitsPerMinute =
     map_of [(''binance'', 1200), (''aster'', 1200), (''bybit'', 1200), (''bitget'', 600), (''okx'', 600),
             (''gate'', 600), (''hyperliquid'', 1200), (''lighter'', 300), (''nado'', 300)]"

definition endpoint_limit :: "HTTPPolicy \<Rightarrow> int" where
  "endpoint_limit policy =
     (let l = (if pl_Venue policy = ''bybit'' then
                 (if pl_Endpoint policy = ''POST /v5/order/cancel-all'' then 1
                  else if pl_Endpoint policy \<in> {''GET /v5/account/fee-rate'', ''POST /v5/account/set-margin-mode''} then 5
                  else 10)
               else 10)
      in if pl_Venue policy = ''nado'' \<or> pl_Venue policy = ''lighter'' then 5 else l)"

definition venue_key :: "HTTPPolicy \<Rightarrow> BudgetKey" where
  "venue_key policy = \<lparr>bk_kind = VenueBudget, bk_value = pl_Venue policy @ ''/egress''\<rparr>"

text \<open>The endpoint budget belongs to the principal of the request context, when there is one.\<close>

definition endpoint_key :: "HTTPPolicy \<Rightarrow> string \<Rightarrow> BudgetKey" where
  "endpoint_key policy princ =
     \<lparr>bk_kind = EndpointBudget,
      bk_value = pl_Venue policy @ (if princ \<noteq> [] then ''/'' @ princ else []) @ ''/'' @ pl_Endpoint policy\<rparr>"

definition venue_reserve :: "HTTPPolicy \<Rightarrow> int \<Rightarrow> int" where
  "venue_reserve policy limit = (if pl_Action policy = ''cancel'' then 0 else limit div 5)"

text \<open>
  RoundTrip up to the call of the next transport: the errors it returns before it, and Inr when the
  request goes out. \<open>clock i\<close> is the i-th clock reading.
\<close>

definition admit ::
  "(nat \<Rightarrow> Time) \<Rightarrow> goerror option \<Rightarrow> HTTPPolicy \<Rightarrow> string \<Rightarrow> Coordinator \<Rightarrow> (goerror + unit) \<times> Coordinator" where
  "admit clock ctx_err policy princ co =
     (case localUnitsPerMinute (pl_Venue policy) of
        None \<Rightarrow> (Inl (PlainError ''SDK request rate policy is required''), co)
      | Some limit \<Rightarrow>
          if pl_Endpoint policy = [] \<or> pl_Cost policy \<le> 0
          then (Inl (PlainError ''SDK request rate policy is required''), co)
          else
            (case Configure (clock 0) (venue_key policy) \<lparr>qt_Limit = limit, qt_Interval = Minute\<rparr> co of
               (Some err, co1) \<Rightarrow> (Inl err, co1)
             | (None, co1) \<Rightarrow>
                 (case Configure (clock 1) (endpoint_key policy princ)
                         \<lparr>qt_Limit = endpoint_limit policy, qt_Interval = Second\<rparr> co1 of
                    (Some err, co2) \<Rightarrow> (Inl err, co2)
                  | (None, co2) \<Rightarrow>
                      (case TryAcquire ctx_err (clock 2)
                              [\<lparr>ch_Key = venue_key policy, ch_Cost = pl_Cost policy, ch_Reserve = venue_reserve policy limit\<rparr>,
                               \<lparr>ch_Key = endpoint_key policy princ, ch_Cost = 1, ch_Reserve = 0\<rparr>] co2 of
                         (Inl err, co3) \<Rightarrow> (Inl err, co3)
                       | (Inr delay, co3) \<Rightarrow>
                           if delay > 0 then (Inl (LocalRateLimitError delay (pl_Action policy)), co3)
                           else (Inr (), co3)))))"

text \<open>What RoundTrip learns from a response.\<close>

definition observe ::
  "(string \<Rightarrow> Time option) \<Rightarrow> (nat \<Rightarrow> Time) \<Rightarrow> HTTPPolicy \<Rightarrow> string \<Rightarrow> Response \<Rightarrow> Coordinator \<Rightarrow> Coordinator" where
  "observe parse clock policy princ response co =
     (let delay = RetryAfter parse (rs_Header response) (clock 3);
          co1 = (if rs_StatusCode response = 429 \<or> rs_StatusCode response = 418
                 then Block (venue_key policy) (clock 4 + (if delay \<le> 0 then Second else delay)) co
                 else co)
      in if pl_Venue policy = ''bybit'' \<and> rs_Header response ''X-Bapi-Limit-Status'' = ''0''
         then (case ParseInt 64 (rs_Header response ''X-Bapi-Limit-Reset-Timestamp'') of
                 Some millis \<Rightarrow> Block (endpoint_key policy princ) (time_of_UnixMilli millis) co1
               | None \<Rightarrow> co1)
         else co1)"

text \<open>RoundTrip: the answer, whether the request was handed to the next transport, and the coordinator.\<close>

record Trip =
  tr_Response :: "Response option"
  tr_Error :: "goerror option"
  tr_Sent :: bool

definition RoundTrip ::
  "Decoders \<Rightarrow> (string \<Rightarrow> Time option) \<Rightarrow> (Request \<Rightarrow> Response option \<times> goerror option) \<Rightarrow> (nat \<Rightarrow> Time) \<Rightarrow>
   goerror option \<Rightarrow> Request \<Rightarrow> string \<Rightarrow> Coordinator \<Rightarrow> Trip \<times> Coordinator" where
  "RoundTrip dc parse nxt clock ctx_err request princ co =
     (let policy = PolicyForRequest dc request in
      case admit clock ctx_err policy princ co of
        (Inl err, co1) \<Rightarrow> (\<lparr>tr_Response = None, tr_Error = Some err, tr_Sent = False\<rparr>, co1)
      | (Inr _, co1) \<Rightarrow>
          (case nxt request of
             (response, err) \<Rightarrow>
               (\<lparr>tr_Response = response, tr_Error = err, tr_Sent = True\<rparr>,
                (case response of None \<Rightarrow> co1 | Some r \<Rightarrow> observe parse clock policy princ r co1))))"

section \<open>Executions\<close>

text \<open>
  The coordinator under any interleaving of its callers, with the log of what it granted: each granted
  charge with the clock reading of its TryAcquire. The clock does not go back.
\<close>

inductive budget_run :: "Coordinator \<Rightarrow> (Time \<times> Charge) list \<Rightarrow> Time \<Rightarrow> bool" where
  run_new: "budget_run NewCoordinator [] now"
| run_tick: "budget_run co grants now \<Longrightarrow> now \<le> now' \<Longrightarrow> budget_run co grants now'"
| run_configure: "budget_run co grants now \<Longrightarrow> budget_run (snd (Configure now key quota co)) grants now"
| run_acquire: "budget_run co grants now \<Longrightarrow> TryAcquire ctx_err now charges co = (res, co') \<Longrightarrow>
    budget_run co' (if res = Inr 0 then grants @ map (Pair now) charges else grants) now"
| run_block: "budget_run co grants now \<Longrightarrow> budget_run (Block key until co) grants now"

text \<open>What the log granted for the charges that satisfy \<open>P\<close> between two times.\<close>

definition spent :: "(Charge \<Rightarrow> bool) \<Rightarrow> Time \<Rightarrow> Time \<Rightarrow> (Time \<times> Charge) list \<Rightarrow> int" where
  "spent P a b grants = (\<Sum>(t, c) \<leftarrow> grants. if P c \<and> a \<le> t \<and> t < b then ch_Cost c else 0)"

section \<open>What the loops do\<close>

lemma roll_simps [simp]:
  "wn_quota (roll now w) = wn_quota w" "wn_blockedUntil (roll now w) = wn_blockedUntil w"
  by (simp_all add: roll_def)

text \<open>A charge the scan accepts, with the delay it returns.\<close>

definition accepted :: "Time \<Rightarrow> Duration \<Rightarrow> Coordinator \<Rightarrow> Charge \<Rightarrow> bool" where
  "accepted now delay co c \<longleftrightarrow>
     (\<exists>w. co (ch_Key c) = Some w \<and> 0 < ch_Cost c \<and> 0 \<le> ch_Reserve c \<and>
       ch_Cost c \<le> qt_Limit (wn_quota w) - ch_Reserve c \<and>
       (wn_used (roll now w) + ch_Cost c > qt_Limit (wn_quota w) - ch_Reserve c \<longrightarrow>
          time_Sub (window_end (roll now w)) now \<le> delay) \<and>
       time_Sub (wn_blockedUntil w) now \<le> delay)"

definition rolled :: "Time \<Rightarrow> Charge list \<Rightarrow> Coordinator \<Rightarrow> Coordinator" where
  "rolled now cs co = (\<lambda>k. if k \<in> ch_Key ` set cs then map_option (roll now) (co k) else co k)"

lemma accepted_mono: "accepted now d co c \<Longrightarrow> d \<le> d' \<Longrightarrow> accepted now d' co c"
  unfolding accepted_def by force

lemma scan_Inr:
  assumes "scan now cs seen d co = (Inr d', co')"
  shows "d \<le> d' \<and> distinct (map ch_Key cs) \<and> ch_Key ` set cs \<inter> seen = {} \<and>
    (\<forall>c\<in>set cs. accepted now d' co c) \<and> co' = rolled now cs co"
  using assms
proof (induction cs arbitrary: seen d co)
  case Nil
  then show ?case by (simp add: rolled_def)
next
  case (Cons c cs)
  obtain w where w: "co (ch_Key c) = Some w"
    using Cons.prems by (auto split: option.splits)
  define d2 where "d2 = max (if wn_used (roll now w) + ch_Cost c > qt_Limit (wn_quota w) - ch_Reserve c
      then max d (time_Sub (window_end (roll now w)) now) else d) (time_Sub (wn_blockedUntil w) now)"
  define co1 where "co1 = co(ch_Key c \<mapsto> roll now w)"
  have ok: "ch_Key c \<notin> seen" "0 < ch_Cost c" "0 \<le> ch_Reserve c" "ch_Cost c \<le> qt_Limit (wn_quota w) - ch_Reserve c"
    and rest: "scan now cs (insert (ch_Key c) seen) d2 co1 = (Inr d', co')"
    using Cons.prems w by (auto simp: Let_def d2_def co1_def split: if_splits)
  note IH = Cons.IH [OF rest]
  have here: "accepted now d2 co c" "d \<le> d2"
    using ok w by (auto simp: accepted_def d2_def)
  have other: "accepted now d' co x" if "x \<in> set cs" for x
  proof -
    have "ch_Key c \<notin> ch_Key ` set cs" using IH by auto
    then have "ch_Key x \<noteq> ch_Key c" using that by (metis imageI)
    moreover have "accepted now d' co1 x" using IH that by auto
    ultimately show ?thesis by (simp add: accepted_def co1_def)
  qed
  have "rolled now cs co1 = rolled now (c # cs) co"
    using IH w by (auto simp: rolled_def co1_def fun_eq_iff)
  then show ?case
    using IH ok here other accepted_mono [OF here(1)] by auto
qed

text \<open>What a list of charges adds to a key.\<close>

definition charged :: "Charge list \<Rightarrow> BudgetKey \<Rightarrow> int" where
  "charged cs k = (\<Sum>c \<leftarrow> cs. if ch_Key c = k then ch_Cost c else 0)"

lemma commit_eq: "commit cs co = (\<lambda>k. map_option (\<lambda>w. w\<lparr>wn_used := wn_used w + charged cs k\<rparr>) (co k))"
proof (induction cs arbitrary: co)
  case Nil
  then show ?case by (simp add: charged_def option.map_ident)
next
  case (Cons c cs)
  show ?case
    by (rule ext) (simp add: Cons.IH charged_def option.map_comp comp_def add.assoc)
qed

lemma charged_distinct:
  assumes "distinct (map ch_Key cs)"
  shows "c \<in> set cs \<Longrightarrow> charged cs (ch_Key c) = ch_Cost c" "k \<notin> ch_Key ` set cs \<Longrightarrow> charged cs k = 0"
proof -
  have none: "charged cs k = 0" if "k \<notin> ch_Key ` set cs" for cs k
    using that by (induction cs) (auto simp: charged_def)
  then show "k \<notin> ch_Key ` set cs \<Longrightarrow> charged cs k = 0" .
  show "c \<in> set cs \<Longrightarrow> charged cs (ch_Key c) = ch_Cost c"
    using assms
  proof (induction cs)
    case (Cons x cs)
    then show ?case
      using none [of "ch_Key c" cs] by (auto simp: charged_def)
  qed simp
qed

lemma TryAcquire_granted:
  assumes "TryAcquire ctx_err now charges co = (Inr 0, co')"
  shows "distinct (map ch_Key charges)" "\<And>c. c \<in> set charges \<Longrightarrow> accepted now 0 co c"
    "co' = commit charges (rolled now charges co)"
proof -
  obtain d co1 where s: "scan now charges {} 0 co = (Inr d, co1)" "d \<le> 0" "co' = commit charges co1"
    using assms by (auto simp: TryAcquire_def split: option.splits if_splits sum.splits prod.splits)
  note r = scan_Inr [OF s(1)]
  then have "d = 0" using s(2) by simp
  with r s(3) show "distinct (map ch_Key charges)" "\<And>c. c \<in> set charges \<Longrightarrow> accepted now 0 co c"
    "co' = commit charges (rolled now charges co)" by auto
qed

text \<open>Without a grant only expired windows are rolled.\<close>

definition rolls :: "Time \<Rightarrow> Coordinator \<Rightarrow> Coordinator \<Rightarrow> bool" where
  "rolls now co co' \<longleftrightarrow> (\<forall>k. co' k = co k \<or> co' k = map_option (roll now) (co k))"

lemma roll_roll [simp]: "roll now (roll now w) = roll now w"
  by (simp add: roll_def)

lemma scan_rolls: "scan now cs seen d co = (res, co') \<Longrightarrow> rolls now co co'"
proof (induction cs arbitrary: seen d co)
  case (Cons c cs)
  show ?case
  proof (cases "co (ch_Key c)")
    case (Some w)
    then consider "co' = co" | sn dl where "scan now cs sn dl (co(ch_Key c \<mapsto> roll now w)) = (res, co')"
      using Cons.prems by (auto simp: Let_def split: if_splits)
    then show ?thesis
    proof cases
      case 2
      note IH = Cons.IH [OF this, unfolded rolls_def, rule_format]
      have "co' k = co k \<or> co' k = map_option (roll now) (co k)" for k
        using IH [of k] Some by (cases "k = ch_Key c") simp_all
      then show ?thesis by (simp add: rolls_def)
    qed (simp add: rolls_def)
  qed (use Cons.prems in \<open>simp add: rolls_def\<close>)
qed (simp add: rolls_def)

lemma TryAcquire_refused:
  assumes "TryAcquire ctx_err now charges co = (res, co')" "res \<noteq> Inr 0"
  shows "rolls now co co'"
proof -
  have refl: "rolls now co co" by (simp add: rolls_def)
  show ?thesis
    using assms scan_rolls [of now charges "{}" 0 co] refl
    by (simp add: TryAcquire_def split: option.splits if_splits sum.splits prod.splits)
qed

lemma scan_accepted:
  assumes "\<forall>c\<in>set cs. accepted now d co c" "distinct (map ch_Key cs)" "ch_Key ` set cs \<inter> seen = {}"
  shows "scan now cs seen d co = (Inr d, rolled now cs co)"
  using assms
proof (induction cs arbitrary: seen co)
  case Nil
  then show ?case by (simp add: rolled_def)
next
  case (Cons c cs)
  obtain w where w: "co (ch_Key c) = Some w" "0 < ch_Cost c" "0 \<le> ch_Reserve c" "ch_Cost c \<le> qt_Limit (wn_quota w) - ch_Reserve c"
      "wn_used (roll now w) + ch_Cost c > qt_Limit (wn_quota w) - ch_Reserve c \<longrightarrow> time_Sub (window_end (roll now w)) now \<le> d"
      "time_Sub (wn_blockedUntil w) now \<le> d"
    using Cons.prems(1) by (auto simp: accepted_def)
  define co1 where "co1 = co(ch_Key c \<mapsto> roll now w)"
  have fresh: "ch_Key x \<noteq> ch_Key c" if "x \<in> set cs" for x
    using Cons.prems(2) that by (auto simp: image_iff)
  have "accepted now d co1 x" if "x \<in> set cs" for x
    using Cons.prems(1) fresh [OF that] that by (simp add: accepted_def co1_def)
  moreover have "ch_Key ` set cs \<inter> insert (ch_Key c) seen = {}"
    using Cons.prems(2,3) by auto
  ultimately have "scan now cs (insert (ch_Key c) seen) d co1 = (Inr d, rolled now cs co1)"
    using Cons.IH Cons.prems(2) by simp
  moreover have "rolled now cs co1 = rolled now (c # cs) co"
    using w(1) by (auto simp: rolled_def co1_def fun_eq_iff dest: fresh)
  moreover have "max (if wn_used (roll now w) + ch_Cost c > qt_Limit (wn_quota w) - ch_Reserve c
      then max d (time_Sub (window_end (roll now w)) now) else d) (time_Sub (wn_blockedUntil w) now) = d"
    using w(5,6) by auto
  ultimately show ?case
    using w(1-4) Cons.prems(3) by (simp add: Let_def co1_def)
qed

section \<open>The log and the windows\<close>

lemma spent_simps [simp]:
  "spent P a b [] = 0"
  "spent P a b (grants @ grants') = spent P a b grants + spent P a b grants'"
  by (simp_all add: spent_def)

lemma spent_Cons: "spent P a b ((t, c) # grants) = (if P c \<and> a \<le> t \<and> t < b then ch_Cost c else 0) + spent P a b grants"
  by (simp add: spent_def)

lemma spent_nonneg: "\<forall>(t, c)\<in>set grants. 0 < ch_Cost c \<Longrightarrow> 0 \<le> spent P a b grants"
  by (induction grants) (auto simp: spent_Cons)

lemma spent_empty: "\<forall>(t, c)\<in>set grants. P c \<longrightarrow> t < a \<or> b \<le> t \<Longrightarrow> spent P a b grants = 0"
  by (induction grants) (auto simp: spent_Cons)

lemma spent_mono:
  assumes "\<forall>(t, c)\<in>set grants. 0 < ch_Cost c"
    and "\<And>t c. (t, c) \<in> set grants \<Longrightarrow> P c \<Longrightarrow> a \<le> t \<Longrightarrow> t < b \<Longrightarrow> Q c \<and> a' \<le> t \<and> t < b'"
  shows "spent P a b grants \<le> spent Q a' b' grants"
  using assms
proof (induction grants)
  case (Cons g grants)
  obtain t c where g: "g = (t, c)" by force
  have "spent P a b grants \<le> spent Q a' b' grants"
    using Cons.prems by (intro Cons.IH) auto
  with Cons.prems(1) Cons.prems(2) [of t c] show ?case
    by (auto simp: g spent_Cons)
qed simp

lemma spent_split:
  assumes "\<forall>(t, c)\<in>set grants. 0 < ch_Cost c" "\<And>t c. (t, c) \<in> set grants \<Longrightarrow> P c \<Longrightarrow> t < e"
  shows "spent P a b grants \<le> spent P a s grants + spent P s e grants"
  using assms
proof (induction grants)
  case (Cons g grants)
  obtain t c where g: "g = (t, c)" by force
  have "spent P a b grants \<le> spent P a s grants + spent P s e grants"
    using Cons.prems by (intro Cons.IH) auto
  with Cons.prems(1) Cons.prems(2) [of t c] show ?case
    by (auto simp: g spent_Cons)
qed simp

abbreviation of_key :: "BudgetKey \<Rightarrow> Charge \<Rightarrow> bool" where
  "of_key k c \<equiv> ch_Key c = k"

abbreviation reserving :: "BudgetKey \<Rightarrow> int \<Rightarrow> Charge \<Rightarrow> bool" where
  "reserving k r c \<equiv> ch_Key c = k \<and> r \<le> ch_Reserve c"

text \<open>
  A window in step with the log: it counts the grants of its period; what was granted in the
  last interval before it fits one limit, and in any interval two; grants that leave a reserve
  never use it.
\<close>

definition window_ok :: "(Time \<times> Charge) list \<Rightarrow> BudgetKey \<Rightarrow> window \<Rightarrow> bool" where
  "window_ok grants k w \<longleftrightarrow>
     (let L = qt_Limit (wn_quota w); I = qt_Interval (wn_quota w) in
      0 < L \<and> 0 < I \<and> wn_used w \<le> L \<and> wn_used w = spent (of_key k) (wn_start w) (window_end w) grants \<and>
      (\<forall>(t, c)\<in>set grants. of_key k c \<longrightarrow> t < window_end w) \<and>
      (\<forall>a > wn_start w - I. spent (of_key k) a (wn_start w) grants \<le> L) \<and>
      (\<forall>a. spent (of_key k) a (a + I) grants \<le> 2 * L) \<and>
      (\<forall>r \<ge> 0. spent (reserving k r) (wn_start w) (window_end w) grants \<le> max 0 (L - r)))"

definition budget_ok :: "Coordinator \<Rightarrow> (Time \<times> Charge) list \<Rightarrow> Time \<Rightarrow> bool" where
  "budget_ok co grants now \<longleftrightarrow>
     (\<forall>(t, c)\<in>set grants. t \<le> now \<and> 0 < ch_Cost c \<and> co (ch_Key c) \<noteq> None) \<and>
     (\<forall>k w. co k = Some w \<longrightarrow> window_ok grants k w \<and> wn_start w \<le> now)"

lemma window_ok_roll:
  assumes "window_ok grants k w" "\<forall>(t, c)\<in>set grants. t \<le> now \<and> 0 < ch_Cost c"
  shows "window_ok grants k (roll now w)"
proof (cases "now < window_end w")
  case True
  with assms show ?thesis by (simp add: roll_def)
next
  case False
  define L where "L = qt_Limit (wn_quota w)"
  define I where "I = qt_Interval (wn_quota w)"
  have cost: "\<forall>(t, c)\<in>set grants. 0 < ch_Cost c" using assms(2) by auto
  have w: "0 < L" "0 < I" "wn_used w \<le> L" "wn_used w = spent (of_key k) (wn_start w) (wn_start w + I) grants"
      "\<forall>(t, c)\<in>set grants. of_key k c \<longrightarrow> t < wn_start w + I" "\<forall>a. spent (of_key k) a (a + I) grants \<le> 2 * L"
    using assms(1) unfolding window_ok_def Let_def L_def I_def by blast+
  have last: "spent (of_key k) a now grants \<le> L" if "a > now - I" for a
  proof -
    have "spent (of_key k) a now grants \<le> spent (of_key k) (wn_start w) (wn_start w + I) grants"
      by (rule spent_mono [OF cost]) (use that False w(5) in \<open>auto simp: I_def\<close>)
    with w(3,4) show ?thesis by simp
  qed
  have none: "spent P now (now + I) grants = 0" if "\<And>c. P c \<Longrightarrow> of_key k c" for P
    by (rule spent_empty) (use that w(5) False in \<open>fastforce simp: I_def\<close>)
  have reserved: "spent (reserving k r) now (now + I) grants = 0" for r by (rule none) simp
  have ends: "\<forall>(t, c)\<in>set grants. of_key k c \<longrightarrow> t < now + I"
    using assms(2) w(2) by fastforce
  show ?thesis
    using False w(1,2,6) last none reserved ends
    by (simp add: window_ok_def roll_def Let_def flip: L_def I_def)
qed

text \<open>One grant on a current window.\<close>

lemma window_ok_charge:
  assumes "window_ok grants k w" "\<forall>(t, c)\<in>set grants. t \<le> now \<and> 0 < ch_Cost c"
    and now: "wn_start w \<le> now" "now < window_end w"
    and c: "ch_Key c = k" "0 < ch_Cost c" "0 \<le> ch_Reserve c"
      "wn_used w + ch_Cost c \<le> qt_Limit (wn_quota w) - ch_Reserve c"
  shows "window_ok (grants @ [(now, c)]) k (w\<lparr>wn_used := wn_used w + ch_Cost c\<rparr>)"
proof -
  define L where "L = qt_Limit (wn_quota w)"
  define I where "I = qt_Interval (wn_quota w)"
  define st where "st = wn_start w"
  have cost: "\<forall>(t, c)\<in>set grants. 0 < ch_Cost c" using assms(2) by auto
  have w: "0 < L" "0 < I" "wn_used w \<le> L" "wn_used w = spent (of_key k) st (st + I) grants"
      "\<forall>(t, c)\<in>set grants. of_key k c \<longrightarrow> t < st + I"
      "\<forall>a > st - I. spent (of_key k) a st grants \<le> L" "\<forall>a. spent (of_key k) a (a + I) grants \<le> 2 * L"
      "\<forall>r \<ge> 0. spent (reserving k r) st (st + I) grants \<le> max 0 (L - r)"
    using assms(1) unfolding window_ok_def Let_def L_def I_def st_def by blast+
  have st: "st \<le> now" "now < st + I" using now by (simp_all add: st_def I_def)
  have fits: "wn_used w + ch_Cost c \<le> L - ch_Reserve c" using c(4) by (simp add: L_def)
  have any: "spent (of_key k) a (a + I) (grants @ [(now, c)]) \<le> 2 * L" for a
  proof (cases "a \<le> now \<and> now < a + I")
    case True
    have "spent (of_key k) a (a + I) grants \<le> spent (of_key k) a st grants + spent (of_key k) st (st + I) grants"
      by (rule spent_split [OF cost]) (use w(5) in auto)
    moreover have "spent (of_key k) a st grants \<le> L"
      using w(6) True st by auto
    ultimately show ?thesis
      using True fits c(1,3) w(4) by (simp add: spent_Cons)
  next
    case False
    with w(7) c(1) show ?thesis by (auto simp: spent_Cons)
  qed
  have reserved: "spent (reserving k r) st (st + I) (grants @ [(now, c)]) \<le> max 0 (L - r)" if "0 \<le> r" for r
  proof (cases "r \<le> ch_Reserve c")
    case True
    have "spent (reserving k r) st (st + I) grants \<le> spent (of_key k) st (st + I) grants"
      by (rule spent_mono [OF cost]) auto
    with True fits w(4) show ?thesis using c(1) st by (simp add: spent_Cons)
  next
    case False
    with w(8) that show ?thesis by (simp add: spent_Cons)
  qed
  show ?thesis
    using w(1,2,4,5,6) st fits c(1,3) any reserved
    by (auto simp: window_ok_def Let_def spent_Cons simp flip: L_def I_def st_def)
qed

text \<open>A window depends only on the grants of its key.\<close>

abbreviation grants_of :: "BudgetKey \<Rightarrow> (Time \<times> Charge) list \<Rightarrow> (Time \<times> Charge) list" where
  "grants_of k \<equiv> filter (\<lambda>(t, c). ch_Key c = k)"

lemma spent_grants_of: "(\<And>c. P c \<Longrightarrow> of_key k c) \<Longrightarrow> spent P a b (grants_of k grants) = spent P a b grants"
  by (induction grants) (auto simp: spent_Cons)

lemma window_ok_cong:
  assumes "grants_of k grants = grants_of k grants'"
  shows "window_ok grants k w = window_ok grants' k w"
proof -
  have eq: "spent P a b grants = spent P a b grants'" if "\<And>c. P c \<Longrightarrow> of_key k c" for P a b
    using spent_grants_of [of P k a b, OF that] assms by metis
  have mem: "(\<forall>(t, c)\<in>set gs. of_key k c \<longrightarrow> Q t) = (\<forall>(t, c)\<in>set (grants_of k gs). Q t)" for gs Q
    by auto
  have "spent (reserving k r) a b grants = spent (reserving k r) a b grants'" for r a b by (rule eq) simp
  then show ?thesis
    by (simp add: window_ok_def Let_def mem assms eq)
qed

lemma window_ok_blocked [simp]: "window_ok grants k (w\<lparr>wn_blockedUntil := u\<rparr>) = window_ok grants k w"
  by (simp add: window_ok_def)

lemma window_ok_new:
  assumes "0 < qt_Limit q" "0 < qt_Interval q" "\<forall>(t, c)\<in>set grants. ch_Key c \<noteq> k"
  shows "window_ok grants k \<lparr>wn_quota = q, wn_start = now, wn_used = 0, wn_blockedUntil = 0\<rparr>"
proof -
  have "spent (of_key k) a b grants = 0" "spent (reserving k r) a b grants = 0" for a b r
    by (rule spent_empty; use assms in auto)+
  with assms show ?thesis by (auto simp: window_ok_def Let_def)
qed

lemma budget_okD:
  assumes "budget_ok co grants now"
  shows "\<forall>(t, c)\<in>set grants. t \<le> now \<and> 0 < ch_Cost c" "(t, c) \<in> set grants \<Longrightarrow> co (ch_Key c) \<noteq> None"
    "co k = Some w \<Longrightarrow> window_ok grants k w" "co k = Some w \<Longrightarrow> wn_start w \<le> now"
  using assms by (fastforce simp: budget_ok_def)+

lemma roll_current:
  assumes "window_ok grants k w" "wn_start w \<le> now"
  shows "wn_start (roll now w) \<le> now" "now < window_end (roll now w)"
  using assms by (auto simp: roll_def window_ok_def Let_def)

lemma budget_ok_rolls:
  assumes "budget_ok co grants now" "rolls now co co'"
  shows "budget_ok co' grants now"
proof -
  note d = budget_okD [OF assms(1)]
  have "window_ok grants k w \<and> wn_start w \<le> now" if k: "co' k = Some w" for k w
  proof -
    from assms(2) k consider "co k = Some w" | w0 where "co k = Some w0" "w = roll now w0"
      unfolding rolls_def by (metis map_option_eq_Some)
    then show ?thesis
      by cases (use d window_ok_roll [OF _ d(1)] roll_current in blast)+
  qed
  moreover have "co' k \<noteq> None" if "co k \<noteq> None" for k
    using assms(2) that unfolding rolls_def by (metis option.map_disc_iff)
  ultimately show ?thesis
    using assms(1) unfolding budget_ok_def by (fastforce split: prod.splits)
qed

lemma grants_of_charges:
  assumes "distinct (map ch_Key charges)" "c \<in> set charges" "ch_Key c = k"
  shows "grants_of k (map (Pair now) charges) = [(now, c)]"
proof -
  obtain pre post where split: "charges = pre @ c # post" using assms(2) by (meson split_list)
  then have "grants_of k (map (Pair now) pre) = []" "grants_of k (map (Pair now) post) = []"
    using assms(1,3) by (auto simp: filter_empty_conv image_iff)
  then show ?thesis using assms(3) split by simp
qed

lemma budget_ok_grant:
  assumes ok: "budget_ok co grants now" and res: "TryAcquire ctx_err now charges co = (Inr 0, co')"
  shows "budget_ok co' (grants @ map (Pair now) charges) now"
proof -
  note d = budget_okD [OF ok]
  note g = TryAcquire_granted [OF res]
  have window: "window_ok (grants @ map (Pair now) charges) k w' \<and> wn_start w' \<le> now" if k: "co' k = Some w'" for k w'
  proof (cases "k \<in> ch_Key ` set charges")
    case True
    then obtain c where c: "c \<in> set charges" "ch_Key c = k" by auto
    obtain w where w: "co k = Some w" "0 < ch_Cost c" "0 \<le> ch_Reserve c"
        "\<not> wn_used (roll now w) + ch_Cost c > qt_Limit (wn_quota w) - ch_Reserve c \<or> time_Sub (window_end (roll now w)) now \<le> 0"
      using g(2) [OF c(1)] c(2) unfolding accepted_def by metis
    have ch: "charged charges k = ch_Cost c"
      using charged_distinct(1) [OF g(1) c(1)] c(2) by simp
    have w': "w' = (roll now w)\<lparr>wn_used := wn_used (roll now w) + ch_Cost c\<rparr>"
      using k w(1) c ch by (auto simp: g(3) commit_eq rolled_def)
    note cur = roll_current [OF d(3,4) [OF w(1) ] ]
    have "0 < time_Sub (window_end (roll now w)) now" using cur(2) by (simp add: time_Sub_pos_iff)
    with w(4) have fits: "wn_used (roll now w) + ch_Cost c \<le> qt_Limit (wn_quota (roll now w)) - ch_Reserve c" by auto
    have "window_ok (grants @ [(now, c)]) k w'"
      unfolding w' by (rule window_ok_charge [OF window_ok_roll [OF d(3) [OF w(1)] d(1)] d(1)])
        (use cur w c(2) fits in auto)
    moreover have "grants_of k (map (Pair now) charges) = [(now, c)]"
      using g(1) c by (rule grants_of_charges)
    ultimately show ?thesis
      using window_ok_cong [of k "grants @ map (Pair now) charges" "grants @ [(now, c)]" w'] c(2) cur(1) d(4) [OF w(1)]
      by (simp add: w')
  next
    case False
    then have "co k = Some w'"
      using k charged_distinct(2) [OF g(1) False] by (auto simp: g(3) commit_eq rolled_def)
    moreover have "grants_of k (map (Pair now) charges) = []"
      using False by (auto simp: filter_empty_conv image_iff)
    ultimately show ?thesis
      using window_ok_cong [of k "grants @ map (Pair now) charges" grants w'] d(3,4) by simp
  qed
  have dom: "co' k \<noteq> None" if "co k \<noteq> None" for k
    using that by (simp add: g(3) commit_eq rolled_def)
  have "0 < ch_Cost c \<and> co' (ch_Key c) \<noteq> None" if "c \<in> set charges" for c
    using g(2) [OF that] dom unfolding accepted_def by blast
  with window dom ok show ?thesis
    unfolding budget_ok_def by (auto split: prod.splits)
qed

lemma budget_run_ok: "budget_run co grants now \<Longrightarrow> budget_ok co grants now"
proof (induction rule: budget_run.induct)
  case (run_new now)
  show ?case by (simp add: budget_ok_def NewCoordinator_def)
next
  case (run_tick co grants now now')
  then show ?case by (fastforce simp: budget_ok_def)
next
  case (run_configure co grants now key quota)
  show ?case
  proof (cases "snd (Configure now key quota co) = co")
    case False
    then have c: "snd (Configure now key quota co) = co(key \<mapsto> \<lparr>wn_quota = quota, wn_start = now, wn_used = 0, wn_blockedUntil = 0\<rparr>)"
        "0 < qt_Limit quota" "0 < qt_Interval quota" "co key = None"
      by (auto simp: Configure_def split: if_splits option.splits)
    have "\<forall>(t, c)\<in>set grants. ch_Key c \<noteq> key"
      using run_configure.IH c(4) by (auto simp: budget_ok_def)
    with c window_ok_new [OF c(2,3)] run_configure.IH show ?thesis
      by (auto simp: budget_ok_def)
  qed (use run_configure.IH in simp)
next
  case (run_acquire co grants now ctx_err charges res co')
  show ?case
  proof (cases "res = Inr 0")
    case True
    with budget_ok_grant [OF run_acquire.IH] run_acquire.hyps(2) show ?thesis by simp
  next
    case False
    with budget_ok_rolls [OF run_acquire.IH TryAcquire_refused [OF run_acquire.hyps(2)]] show ?thesis by simp
  qed
next
  case (run_block co grants now key until)
  then show ?case
    by (auto simp: Block_def budget_ok_def split: option.split)
qed

section \<open>Properties\<close>

text \<open>
  C31: The budget holds whatever the interleaving of its callers. In every period of one interval the
  granted cost of a key is at most twice its limit, in the current window at most the limit, and
  charges that leave a reserve never use it: in the current window, requests that must leave a fifth of
  the allowance for cancellations get at most the other four.
\<close>

theorem budget_never_exceeded:
  assumes "budget_run co grants now" "co k = Some w"
  shows "spent (of_key k) a (a + qt_Interval (wn_quota w)) grants \<le> 2 * qt_Limit (wn_quota w) \<and>
    wn_used w = spent (of_key k) (wn_start w) (window_end w) grants \<and> wn_used w \<le> qt_Limit (wn_quota w) \<and>
    (0 \<le> r \<longrightarrow> spent (reserving k r) (wn_start w) (window_end w) grants \<le> max 0 (qt_Limit (wn_quota w) - r))"
  using budget_okD(3) [OF budget_run_ok [OF assms(1)] assms(2)] by (simp add: window_ok_def Let_def)

definition sample_budget :: BudgetKey where
  "sample_budget = \<lparr>bk_kind = VenueBudget, bk_value = ''okx/egress''\<rparr>"

definition sample_charge :: Charge where
  "sample_charge = \<lparr>ch_Key = sample_budget, ch_Cost = 2, ch_Reserve = 1\<rparr>"

definition sample_coordinator :: Coordinator where
  "sample_coordinator = snd (TryAcquire None 7 [sample_charge]
     (snd (Configure 5 sample_budget \<lparr>qt_Limit = 4, qt_Interval = 10\<rparr> NewCoordinator)))"

lemma sample_budget_valid: "BudgetKey_validate sample_budget = None"
  by (simp add: BudgetKey_validate_def sample_budget_def go_str ContainsAny_def)

lemma sample_coordinator_eq:
  "TryAcquire None 7 [sample_charge] (snd (Configure 5 sample_budget \<lparr>qt_Limit = 4, qt_Interval = 10\<rparr> NewCoordinator)) =
     (Inr 0, [sample_budget \<mapsto> \<lparr>wn_quota = \<lparr>qt_Limit = 4, qt_Interval = 10\<rparr>, wn_start = 5, wn_used = 2, wn_blockedUntil = 0\<rparr>])"
  by (simp add: TryAcquire_def Configure_def sample_budget_valid NewCoordinator_def sample_charge_def roll_def
      time_Sub_def maxDuration_def minDuration_def Let_def)

lemma sample_coordinator_sel:
  "sample_coordinator =
     [sample_budget \<mapsto> \<lparr>wn_quota = \<lparr>qt_Limit = 4, qt_Interval = 10\<rparr>, wn_start = 5, wn_used = 2, wn_blockedUntil = 0\<rparr>]"
  by (simp add: sample_coordinator_def sample_coordinator_eq)

lemma sample_run: "budget_run sample_coordinator [(7, sample_charge)] 7"
proof -
  have "budget_run (snd (Configure 5 sample_budget \<lparr>qt_Limit = 4, qt_Interval = 10\<rparr> NewCoordinator)) [] 7"
    by (rule run_tick [OF run_configure [OF run_new]]) simp
  from run_acquire [OF this sample_coordinator_eq] show ?thesis
    by (simp add: sample_coordinator_def sample_coordinator_eq)
qed

theorem budget_never_exceeded_witness:
  "budget_run sample_coordinator [(7, sample_charge)] 7 \<and> spent (of_key sample_budget) 0 10 [(7, sample_charge)] \<le> 8"
proof -
  have "sample_coordinator sample_budget =
      Some \<lparr>wn_quota = \<lparr>qt_Limit = 4, qt_Interval = 10\<rparr>, wn_start = 5, wn_used = 2, wn_blockedUntil = 0\<rparr>"
    by (simp add: sample_coordinator_sel)
  from budget_never_exceeded [OF sample_run this, of 0] sample_run show ?thesis by simp
qed

lemma accepted_after_wait:
  assumes "accepted now d co c" "0 < d" "d < maxDuration" "c \<in> set cs"
  shows "accepted (now + d) 0 (rolled now cs co) c"
proof -
  obtain w where w: "co (ch_Key c) = Some w" "0 < ch_Cost c" "0 \<le> ch_Reserve c" "ch_Cost c \<le> qt_Limit (wn_quota w) - ch_Reserve c"
      "wn_used (roll now w) + ch_Cost c > qt_Limit (wn_quota w) - ch_Reserve c \<longrightarrow> time_Sub (window_end (roll now w)) now \<le> d"
      "time_Sub (wn_blockedUntil w) now \<le> d"
    using assms(1) by (auto simp: accepted_def)
  have sub: "time_Sub t now \<le> d \<Longrightarrow> t \<le> now + d" for t
    using time_Sub_le_iff [of d t now] assms(2,3) by (simp add: minDuration_def)
  define v where "v = roll now w"
  have "\<not> wn_used (roll (now + d) v) + ch_Cost c > qt_Limit (wn_quota w) - ch_Reserve c"
  proof (cases "now + d < window_end v")
    case True
    with w(5) sub [of "window_end v"] show ?thesis
      by (auto simp: roll_def v_def)
  next
    case False
    with w(4) show ?thesis by (simp add: roll_def)
  qed
  moreover have "time_Sub (wn_blockedUntil v) (now + d) \<le> 0"
    using sub [OF w(6)] time_Sub_pos_iff [of "wn_blockedUntil w" "now + d"] by (simp add: v_def not_less [symmetric])
  moreover have "rolled now cs co (ch_Key c) = Some v"
    using w(1) assms(4) by (simp add: rolled_def v_def)
  ultimately show ?thesis
    using w(2,3,4) by (simp add: accepted_def v_def)
qed

text \<open>
  C33: A reported delay is honest: a caller who was told to wait and tries again after exactly that
  time, with nothing else having happened, is granted all its charges. (A delay of the largest
  Duration is a saturated one and excluded.)
\<close>

theorem delay_is_honest:
  assumes "TryAcquire None now charges co = (Inr d, co')" "0 < d" "d < maxDuration"
  shows "\<exists>co''. TryAcquire None (now + d) charges co' = (Inr 0, co'')"
proof -
  have s: "scan now charges {} 0 co = (Inr d, co')" "charges \<noteq> []"
    using assms(1,2) by (auto simp: TryAcquire_def split: if_splits sum.splits prod.splits)
  note r = scan_Inr [OF s(1)]
  have "scan (now + d) charges {} 0 co' = (Inr 0, rolled (now + d) charges co')"
    by (rule scan_accepted) (use r accepted_after_wait [OF _ assms(2,3)] in auto)
  with s(2) show ?thesis by (simp add: TryAcquire_def)
qed

theorem delay_is_honest_witness:
  "fst (TryAcquire None 8 [sample_charge] sample_coordinator) = Inr 7 \<and>
   (\<exists>co''. TryAcquire None (8 + 7) [sample_charge] (snd (TryAcquire None 8 [sample_charge] sample_coordinator)) = (Inr 0, co''))"
proof -
  have f: "fst (TryAcquire None 8 [sample_charge] sample_coordinator) = Inr 7"
    by (simp add: TryAcquire_def sample_coordinator_sel sample_charge_def roll_def
      time_Sub_def maxDuration_def minDuration_def Let_def)
  then have t: "TryAcquire None 8 [sample_charge] sample_coordinator =
      (Inr 7, snd (TryAcquire None 8 [sample_charge] sample_coordinator))"
    by (metis prod.collapse)
  show ?thesis
    using delay_is_honest [OF t] f by (simp add: maxDuration_def)
qed

section \<open>Cool-down\<close>

text \<open>Other callers of the coordinator.\<close>

inductive coordinator_step :: "Coordinator \<Rightarrow> Coordinator \<Rightarrow> bool" where
  step_configure: "coordinator_step co (snd (Configure now key quota co))"
| step_acquire: "coordinator_step co (snd (TryAcquire ctx_err now charges co))"
| step_block: "coordinator_step co (Block key until co)"

text \<open>Windows stay, and a block is only ever extended.\<close>

definition keeps_blocks :: "Coordinator \<Rightarrow> Coordinator \<Rightarrow> bool" where
  "keeps_blocks co co' \<longleftrightarrow>
     (\<forall>k w. co k = Some w \<longrightarrow> (\<exists>w'. co' k = Some w' \<and> wn_quota w' = wn_quota w \<and> wn_blockedUntil w \<le> wn_blockedUntil w'))"

lemma keeps_blocks_refl [simp]: "keeps_blocks co co"
  by (simp add: keeps_blocks_def)

lemma keeps_blocksD:
  assumes "keeps_blocks co co'" "co k = Some w"
  obtains w' where "co' k = Some w'" "wn_quota w' = wn_quota w" "wn_blockedUntil w \<le> wn_blockedUntil w'"
  using assms unfolding keeps_blocks_def by blast

lemma keeps_blocks_trans:
  assumes "keeps_blocks a b" "keeps_blocks b c"
  shows "keeps_blocks a c"
  unfolding keeps_blocks_def
proof (intro allI impI)
  fix k w assume "a k = Some w"
  then obtain w1 where w1: "b k = Some w1" "wn_quota w1 = wn_quota w" "wn_blockedUntil w \<le> wn_blockedUntil w1"
    by (rule keeps_blocksD [OF assms(1)])
  obtain w2 where "c k = Some w2" "wn_quota w2 = wn_quota w1" "wn_blockedUntil w1 \<le> wn_blockedUntil w2"
    using w1(1) by (rule keeps_blocksD [OF assms(2)])
  with w1(2,3) show "\<exists>w'. c k = Some w' \<and> wn_quota w' = wn_quota w \<and> wn_blockedUntil w \<le> wn_blockedUntil w'" by simp
qed

lemma keeps_blocks_rolls:
  assumes "rolls now co co'"
  shows "keeps_blocks co co'"
  unfolding keeps_blocks_def
proof (intro allI impI)
  fix k w assume "co k = Some w"
  with assms [unfolded rolls_def, rule_format, of k] have "co' k = Some w \<or> co' k = Some (roll now w)" by simp
  then show "\<exists>w'. co' k = Some w' \<and> wn_quota w' = wn_quota w \<and> wn_blockedUntil w \<le> wn_blockedUntil w'" by auto
qed

lemma keeps_blocks_TryAcquire: "TryAcquire ctx_err now charges co = (res, co') \<Longrightarrow> keeps_blocks co co'"
proof (cases "res = Inr 0")
  case True
  assume "TryAcquire ctx_err now charges co = (res, co')"
  with True TryAcquire_granted(3) have "co' = commit charges (rolled now charges co)" by blast
  then show ?thesis by (auto simp: keeps_blocks_def commit_eq rolled_def)
next
  case False
  assume "TryAcquire ctx_err now charges co = (res, co')"
  with False show ?thesis by (blast intro: keeps_blocks_rolls TryAcquire_refused)
qed

lemma keeps_blocks_Configure: "Configure now key quota co = (res, co') \<Longrightarrow> keeps_blocks co co'"
  by (auto simp: Configure_def keeps_blocks_def split: if_splits option.splits)

lemma keeps_blocks_Block: "keeps_blocks co (Block key until co)"
  by (auto simp: Block_def keeps_blocks_def split: option.split)

lemma keeps_blocks_steps: "coordinator_step\<^sup>*\<^sup>* co co' \<Longrightarrow> keeps_blocks co co'"
proof (induction rule: rtranclp_induct)
  case (step y z)
  from step.hyps(2) have "keeps_blocks y z"
    by cases (metis keeps_blocks_Configure keeps_blocks_TryAcquire keeps_blocks_Block prod.collapse)+
  with step.IH show ?case by (rule keeps_blocks_trans)
qed simp

lemma admit_granted:
  assumes "admit clock ctx_err policy princ co = (Inr u, co3)"
  obtains limit co2 where "localUnitsPerMinute (pl_Venue policy) = Some limit" "keeps_blocks co co2"
    "TryAcquire ctx_err (clock 2)
      [\<lparr>ch_Key = venue_key policy, ch_Cost = pl_Cost policy, ch_Reserve = venue_reserve policy limit\<rparr>,
       \<lparr>ch_Key = endpoint_key policy princ, ch_Cost = 1, ch_Reserve = 0\<rparr>] co2 = (Inr 0, co3)"
proof -
  obtain limit where l: "localUnitsPerMinute (pl_Venue policy) = Some limit"
    using assms by (auto simp: admit_def split: option.splits)
  obtain co1 where c1: "Configure (clock 0) (venue_key policy) \<lparr>qt_Limit = limit, qt_Interval = Minute\<rparr> co = (None, co1)"
    using assms l by (auto simp: admit_def split: if_splits option.splits prod.splits)
  obtain co2 where c2: "Configure (clock 1) (endpoint_key policy princ)
      \<lparr>qt_Limit = endpoint_limit policy, qt_Interval = Second\<rparr> co1 = (None, co2)"
    using assms l c1 by (auto simp: admit_def split: if_splits option.splits prod.splits)
  obtain d where d: "TryAcquire ctx_err (clock 2)
      [\<lparr>ch_Key = venue_key policy, ch_Cost = pl_Cost policy, ch_Reserve = venue_reserve policy limit\<rparr>,
       \<lparr>ch_Key = endpoint_key policy princ, ch_Cost = 1, ch_Reserve = 0\<rparr>] co2 = (Inr d, co3)" "\<not> d > 0"
    using assms l c1 c2 by (auto simp: admit_def split: if_splits sum.splits prod.splits)
  then have "d = 0" by (auto simp: TryAcquire_def split: option.splits if_splits sum.splits prod.splits)
  with d l that keeps_blocks_trans [OF keeps_blocks_Configure [OF c1] keeps_blocks_Configure [OF c2]] show ?thesis by blast
qed

lemma granted_first:
  assumes "TryAcquire ctx_err now (c # cs) co = (Inr 0, co')"
  shows "\<exists>w. co (ch_Key c) = Some w \<and> time_Sub (wn_blockedUntil w) now \<le> 0"
  using TryAcquire_granted(2) [OF assms, of c] by (auto simp: accepted_def)

text \<open>A blocked venue admits nothing.\<close>

lemma blocked_not_admitted:
  assumes "co (venue_key policy) = Some w" "clock 2 < wn_blockedUntil w"
  shows "\<exists>err co'. admit clock ctx_err policy princ co = (Inl err, co')"
proof (rule ccontr)
  assume "\<not> ?thesis"
  then obtain u co3 where "admit clock ctx_err policy princ co = (Inr u, co3)"
    by (metis prod.collapse sum.exhaust)
  then obtain limit co2 where g: "keeps_blocks co co2" "TryAcquire ctx_err (clock 2)
      [\<lparr>ch_Key = venue_key policy, ch_Cost = pl_Cost policy, ch_Reserve = venue_reserve policy limit\<rparr>,
       \<lparr>ch_Key = endpoint_key policy princ, ch_Cost = 1, ch_Reserve = 0\<rparr>] co2 = (Inr 0, co3)"
    by (rule admit_granted)
  obtain w' where w': "co2 (venue_key policy) = Some w'" "wn_blockedUntil w \<le> wn_blockedUntil w'"
    using g(1) assms(1) by (auto simp: keeps_blocks_def)
  have "time_Sub (wn_blockedUntil w') (clock 2) \<le> 0"
    using granted_first [OF g(2)] w'(1) by simp
  with w'(2) assms(2) time_Sub_pos_iff [of "wn_blockedUntil w'" "clock 2"] show False by simp
qed

lemma admitted_window:
  assumes "admit clock ctx_err policy princ co = (Inr u, co1)"
  shows "\<exists>w. co1 (venue_key policy) = Some w"
proof -
  obtain limit co2 where g: "TryAcquire ctx_err (clock 2)
      [\<lparr>ch_Key = venue_key policy, ch_Cost = pl_Cost policy, ch_Reserve = venue_reserve policy limit\<rparr>,
       \<lparr>ch_Key = endpoint_key policy princ, ch_Cost = 1, ch_Reserve = 0\<rparr>] co2 = (Inr 0, co1)"
    using assms by (rule admit_granted)
  obtain w where "co2 (venue_key policy) = Some w"
    using granted_first [OF g] by auto
  with keeps_blocks_TryAcquire [OF g] show ?thesis by (auto simp: keeps_blocks_def)
qed

lemma observe_blocks:
  assumes "co (venue_key policy) = Some w" "rs_StatusCode r = 429 \<or> rs_StatusCode r = 418"
  shows "\<exists>w'. observe parse clock policy princ r co (venue_key policy) = Some w' \<and>
    clock 4 + (let delay = RetryAfter parse (rs_Header r) (clock 3) in if delay \<le> 0 then Second else delay) \<le> wn_blockedUntil w'"
proof -
  define until where "until = clock 4 +
    (let delay = RetryAfter parse (rs_Header r) (clock 3) in if delay \<le> 0 then Second else delay)"
  define co1 where "co1 = Block (venue_key policy) until co"
  obtain w1 where w1: "co1 (venue_key policy) = Some w1" "until \<le> wn_blockedUntil w1"
    using assms(1) by (cases "wn_blockedUntil w < until") (simp_all add: co1_def Block_def not_less)
  have "observe parse clock policy princ r co = co1 \<or>
      (\<exists>k u. observe parse clock policy princ r co = Block k u co1)"
    using assms(2) by (auto simp: observe_def Let_def co1_def until_def split: option.split)
  then have "keeps_blocks co1 (observe parse clock policy princ r co)"
    using keeps_blocks_Block by auto
  with w1 show ?thesis by (fastforce simp: keeps_blocks_def until_def)
qed

text \<open>
  A venue that answers 429 or 418 is left alone. Until the announced Retry-After has passed (one
  second without one), no request to that venue leaves the process, whatever its kind, whoever sends
  it, and whatever the other callers of the budget do meanwhile; priority never bypasses the ban.
\<close>

theorem venue_cool_down:
  assumes "RoundTrip dc parse nxt clock ctx_err request princ co = (trip, co1)"
    and "tr_Response trip = Some r" "rs_StatusCode r = 429 \<or> rs_StatusCode r = 418"
    and "coordinator_step\<^sup>*\<^sup>* co1 co2" "rq_Venue later = rq_Venue request"
    and "clock' 2 < clock 4 + (let delay = RetryAfter parse (rs_Header r) (clock 3) in if delay \<le> 0 then Second else delay)"
  shows "\<not> tr_Sent (fst (RoundTrip dc parse nxt clock' ctx_err' later princ' co2))"
proof -
  define policy where "policy = PolicyForRequest dc request"
  obtain u coa where a: "admit clock ctx_err policy princ co = (Inr u, coa)"
    and c1: "co1 = observe parse clock policy princ r coa"
    using assms(1,2) by (auto simp: RoundTrip_def Let_def policy_def split: prod.splits sum.splits)
  obtain w where w: "co1 (venue_key policy) = Some w"
      "clock 4 + (let delay = RetryAfter parse (rs_Header r) (clock 3) in if delay \<le> 0 then Second else delay) \<le> wn_blockedUntil w"
    using admitted_window [OF a] observe_blocks [OF _ assms(3)] unfolding c1 by blast
  obtain w2 where "co2 (venue_key policy) = Some w2" "wn_blockedUntil w \<le> wn_blockedUntil w2"
    using keeps_blocks_steps [OF assms(4)] w(1) by (auto simp: keeps_blocks_def)
  moreover have "venue_key (PolicyForRequest dc later) = venue_key policy"
    using assms(5) by (simp add: venue_key_def policy_def PolicyForRequest_sel)
  ultimately obtain err co' where "admit clock' ctx_err' (PolicyForRequest dc later) princ' co2 = (Inl err, co')"
    using blocked_not_admitted [of co2 "PolicyForRequest dc later" w2 clock' ctx_err' princ'] w(2) assms(6) by auto
  then show ?thesis by (simp add: RoundTrip_def Let_def)
qed

definition no_decoders :: Decoders where
  "no_decoders = \<lparr>dc_fields = (\<lambda>_. Map.empty), dc_array = (\<lambda>_. None), dc_string = (\<lambda>_. None), dc_action = (\<lambda>_. None),
     dc_symbols = (\<lambda>_. None), dc_media = (\<lambda>_. None), dc_parts = (\<lambda>_ _. [])\<rparr>"

definition sample_request :: Request where
  "sample_request = \<lparr>rq_Venue = ''okx'', rq_Method = MethodGet, rq_Path = ''/api/v5/account/balance'', rq_Query = (\<lambda>_. []),
     rq_ContentType = [], rq_Body = None\<rparr>"

definition too_many :: Response where
  "too_many = \<lparr>rs_StatusCode = 429, rs_Header = (\<lambda>h. if h = ''Retry-After'' then ''5'' else []), rs_Request = None, rs_Body = []\<rparr>"

definition sample_trip :: "Trip \<times> Coordinator" where
  "sample_trip = RoundTrip no_decoders (\<lambda>_. None) (\<lambda>_. (Some too_many, None)) (\<lambda>_. 0) None sample_request [] NewCoordinator"

lemma sample_policy:
  "PolicyForRequest no_decoders sample_request =
     \<lparr>pl_Venue = ''okx'', pl_Endpoint = ''GET /api/v5/account/balance'', pl_Cost = 1, pl_Action = ''read''\<rparr>"
  by code_simp

lemma sample_trip_response: "tr_Response (fst sample_trip) = Some too_many"
  unfolding sample_trip_def RoundTrip_def sample_policy Let_def
  by (simp add: admit_def localUnitsPerMinute_def Configure_def BudgetKey_validate_def venue_key_def endpoint_key_def
      endpoint_limit_def venue_reserve_def NewCoordinator_def TryAcquire_def roll_def time_Sub_def maxDuration_def minDuration_def
      go_str ContainsAny_def Let_def)

theorem venue_cool_down_witness:
  "tr_Response (fst sample_trip) = Some too_many \<and>
   \<not> tr_Sent (fst (RoundTrip no_decoders (\<lambda>_. None) (\<lambda>_. (Some too_many, None)) (\<lambda>_. 4 * Second) None sample_request []
        (snd sample_trip)))"
proof -
  have t: "RoundTrip no_decoders (\<lambda>_. None) (\<lambda>_. (Some too_many, None)) (\<lambda>_. 0) None sample_request [] NewCoordinator =
      (fst sample_trip, snd sample_trip)"
    by (simp add: sample_trip_def)
  have "RetryAfter (\<lambda>_. None) (rs_Header too_many) 0 = 5 * Second"
    by (simp add: RetryAfter_def too_many_def go_str ParseInt_def is_digit_def digits_val_def digit_val_def maxDuration_def Let_def)
  then show ?thesis
    using venue_cool_down [OF t sample_trip_response _ rtranclp.rtrancl_refl, of sample_request "\<lambda>_. 4 * Second" None "[]"]
      sample_trip_response by (simp add: too_many_def Let_def)
qed

end
