(* ===== verification/Venue_Routes.thy ===== *)
theory Venue_Routes
  imports Exchange_Model
begin

text \<open>
  The markets the gateway serves and its instrument ids (gateway/venue/venue.go).
\<close>

record Market =
  mk_Venue :: Venue
  mk_Product :: Product
  mk_Settlement :: string

definition Market_String :: "Market \<Rightarrow> string" where
  "Market_String market =
     (if mk_Settlement market = [] then mk_Venue market @ '':'' @ mk_Product market
      else mk_Venue market @ '':'' @ mk_Product market @ '':'' @ mk_Settlement market)"

definition market :: "Venue \<Rightarrow> Product \<Rightarrow> string \<Rightarrow> Market" where
  "market venue product settlement = \<lparr>mk_Venue = venue, mk_Product = product, mk_Settlement = settlement\<rparr>"

definition Markets :: "Market list" where
  "Markets =
     [market VenueBinance ProductPerp ''USDT'', market VenueBinance ProductSpot [],
      market VenueOKX ProductPerp ''USDT'', market VenueOKX ProductSpot [],
      market VenueBybit ProductPerp ''USDT'', market VenueBybit ProductPerp ''USDC'',
      market VenueBybit ProductSpot [],
      market VenueBitget ProductPerp ''USDT'', market VenueBitget ProductPerp ''USDC'',
      market VenueBitget ProductSpot [],
      market VenueGate ProductPerp ''USDT'', market VenueGate ProductSpot [],
      market VenueHyperliquid ProductPerp ''USDC'', market VenueHyperliquid ProductSpot [],
      market VenueLighter ProductPerp ''USDC'', market VenueLighter ProductSpot []]"

text \<open>The loop of Venues: each venue at its first occurrence.\<close>

fun venues_from :: "Venue set \<Rightarrow> Market list \<Rightarrow> Venue list" where
  "venues_from seen [] = []"
| "venues_from seen (m # ms) =
     (if mk_Venue m \<notin> seen then mk_Venue m # venues_from (insert (mk_Venue m) seen) ms
      else venues_from seen ms)"

definition Venues :: "Venue list" where
  "Venues = venues_from {} Markets"

definition MarketsOf :: "Venue \<Rightarrow> Market list" where
  "MarketsOf venue = filter (\<lambda>m. mk_Venue m = venue) Markets"

definition Supported :: "Venue \<Rightarrow> bool" where
  "Supported venue \<longleftrightarrow> length (MarketsOf venue) > 0"

type_synonym InstrumentID = string

definition NewInstrumentID :: "Venue \<Rightarrow> Product \<Rightarrow> string \<Rightarrow> InstrumentID" where
  "NewInstrumentID venue product symbol = venue @ '':'' @ product @ '':'' @ symbol"

definition InstrumentID_Parse :: "InstrumentID \<Rightarrow> goerror + Venue \<times> Product \<times> string" where
  "InstrumentID_Parse iid =
     (let parts = SplitN (CHR '':'') 3 iid in
      if length parts \<noteq> 3 \<or> parts ! 0 = [] \<or> parts ! 2 = []
      then Inl (PlainError ''instrument id must be venue:product:symbol'')
      else if parts ! 1 \<noteq> ProductSpot \<and> parts ! 1 \<noteq> ProductPerp
      then Inl (PlainError ''instrument id product must be spot or perp'')
      else Inr (parts ! 0, parts ! 1, parts ! 2))"

definition instrument_settlement :: "'d Instrument \<Rightarrow> string" where
  "instrument_settlement instrument =
     (let identity = ins_Identity instrument in
      if id_Product identity = ProductPerp
      then (if ToUpper (id_SettleAsset identity) = [] then ToUpper (id_QuoteAsset identity)
            else ToUpper (id_SettleAsset identity))
      else [])"

definition MarketOf :: "'d Instrument \<Rightarrow> Market option" where
  "MarketOf instrument =
     find (\<lambda>m. mk_Venue m = id_Venue (ins_Identity instrument) \<and>
                mk_Product m = id_Product (ins_Identity instrument) \<and>
                mk_Settlement m = instrument_settlement instrument) Markets"

section \<open>Lemmas\<close>

lemma market_eq_iff [simp]: "market v p t = market v' p' t' \<longleftrightarrow> v = v' \<and> p = p' \<and> t = t'"
  by (auto simp: market_def)

lemma MarketOf_Some:
  "MarketOf instrument = Some m \<longleftrightarrow>
   m \<in> set Markets \<and> m = market (id_Venue (ins_Identity instrument)) (id_Product (ins_Identity instrument))
     (instrument_settlement instrument)"
proof -
  let ?m = "market (id_Venue (ins_Identity instrument)) (id_Product (ins_Identity instrument))
    (instrument_settlement instrument)"
  have f: "find P xs = Some m \<longleftrightarrow> m \<in> set xs \<and> m = y"
    if "\<And>x. P x \<longleftrightarrow> x = y" for P and xs :: "Market list" and y
    using that by (induction xs) auto
  have "mk_Venue x = id_Venue (ins_Identity instrument) \<and>
      mk_Product x = id_Product (ins_Identity instrument) \<and>
      mk_Settlement x = instrument_settlement instrument \<longleftrightarrow> x = ?m" for x
    by (cases x) (auto simp: market_def)
  then show ?thesis
    unfolding MarketOf_def by (rule f)
qed

lemma split_three:
  assumes "length (SplitN c 3 s) = 3"
  shows "s = SplitN c 3 s ! 0 @ [c] @ SplitN c 3 s ! 1 @ [c] @ SplitN c 3 s ! 2"
proof -
  have three: "(3::nat) = Suc (Suc (Suc 0))" by simp
  have dw: "s' = takeWhile (\<lambda>d. d \<noteq> c) s' @ c # rest" if "dropWhile (\<lambda>d. d \<noteq> c) s' = x # rest" for s' x rest
    using that takeWhile_dropWhile_id [of "\<lambda>d. d \<noteq> c" s'] hd_dropWhile [of "\<lambda>d. d \<noteq> c" s'] by auto
  obtain x r1 where r1: "dropWhile (\<lambda>d. d \<noteq> c) s = x # r1"
    using assms by (cases "dropWhile (\<lambda>d. d \<noteq> c) s") (simp_all add: three)
  obtain y r2 where r2: "dropWhile (\<lambda>d. d \<noteq> c) r1 = y # r2"
    using assms r1 by (cases "dropWhile (\<lambda>d. d \<noteq> c) r1") (simp_all add: three)
  have "SplitN c 3 s = [takeWhile (\<lambda>d. d \<noteq> c) s, takeWhile (\<lambda>d. d \<noteq> c) r1, r2]"
    using r1 r2 by (simp add: three)
  then show ?thesis
    using dw [OF r1] dw [OF r2] by simp
qed

section \<open>Properties\<close>

text \<open>
  C39: instrument ids print and parse as inverses. Parsing an id gives back exactly the parts it was built
  from when the venue is a non-empty text without a colon, the product is spot or perp and the symbol is not
  empty, whatever colons the symbol contains; and an id that parses is the id of the parts it parses to.
\<close>

theorem instrument_id_roundtrip:
  "InstrumentID_Parse iid = Inr (venue, product, symbol) \<longleftrightarrow>
     iid = NewInstrumentID venue product symbol \<and> venue \<noteq> [] \<and> CHR '':'' \<notin> set venue \<and>
     product \<in> {ProductSpot, ProductPerp} \<and> symbol \<noteq> []"
proof
  assume p: "InstrumentID_Parse iid = Inr (venue, product, symbol)"
  let ?s = "SplitN (CHR '':'') 3 iid"
  have len: "length ?s = 3" and parts: "venue = ?s ! 0" "product = ?s ! 1" "symbol = ?s ! 2"
    and ok: "venue \<noteq> []" "symbol \<noteq> []" "product \<in> {ProductSpot, ProductPerp}"
    using p by (auto simp: InstrumentID_Parse_def Let_def split: if_splits)
  have "CHR '':'' \<notin> set (takeWhile (\<lambda>d. d \<noteq> CHR '':'') s)" for s
    by (auto dest: set_takeWhileD)
  moreover have "?s ! 0 = takeWhile (\<lambda>d. d \<noteq> CHR '':'') iid"
    using len by (cases "dropWhile (\<lambda>d. d \<noteq> CHR '':'') iid") (simp_all add: numeral_3_eq_3)
  ultimately have "CHR '':'' \<notin> set venue"
    using parts(1) by metis
  with ok split_three [OF len] parts show "iid = NewInstrumentID venue product symbol \<and> venue \<noteq> [] \<and>
      CHR '':'' \<notin> set venue \<and> product \<in> {ProductSpot, ProductPerp} \<and> symbol \<noteq> []"
    by (simp add: NewInstrumentID_def)
next
  assume a: "iid = NewInstrumentID venue product symbol \<and> venue \<noteq> [] \<and> CHR '':'' \<notin> set venue \<and>
    product \<in> {ProductSpot, ProductPerp} \<and> symbol \<noteq> []"
  then have "CHR '':'' \<notin> set product" by auto
  with a have "SplitN (CHR '':'') 3 iid = [venue, product, symbol]"
    by (simp add: NewInstrumentID_def numeral_3_eq_3 SplitN_char del: SplitN.simps(3))
  with a show "InstrumentID_Parse iid = Inr (venue, product, symbol)"
    by (auto simp: InstrumentID_Parse_def)
qed

end
