(* ===== verification/Gateway_Catalog.thy ===== *)
theory Gateway_Catalog
  imports Venue_Routes
begin

text \<open>
  The gateway's merged instrument directory (gateway/market/catalog.go): projection, publication of
  one market's instruments, lookup by id and by native identity, refresh with its error record, and
  the timing of the refresh loop. The venue connectors are interfaces: what a load returned is an
  argument, and the order in which concurrent loads finish is the order of a list.
\<close>

section \<open>Data\<close>

record 'd GatewayInstrument =
  gi_ID :: InstrumentID
  gi_Venue :: Venue
  gi_Product :: Product
  gi_Symbol :: string
  gi_Base :: string
  gi_Quote :: string
  gi_Settle :: string
  gi_TickSize :: string
  gi_StepSize :: string
  gi_MinQty :: string
  gi_MinNotional :: string
  gi_MarketFamily :: string
  gi_native :: "'d Instrument"

text \<open>\<open>'c\<close> is the type of public market connectors.\<close>

record ('d, 'c) Catalog =
  ct_connectors :: "Market \<rightharpoonup> 'c"
  ct_instruments :: "InstrumentID \<rightharpoonup> 'd GatewayInstrument"
  ct_byMarket :: "Market \<Rightarrow> InstrumentID list"
  ct_loadErrors :: "Market \<rightharpoonup> string"

record MarketStatus =
  ms_Market :: string
  ms_Instruments :: nat
  ms_Error :: string

abbreviation ErrUnknownInstrument :: goerror where
  "ErrUnknownInstrument \<equiv> SentinelError ''ErrUnknownInstrument'' ''unknown instrument''"

definition empty_catalog :: "(Market \<rightharpoonup> 'c) \<Rightarrow> ('d, 'c) Catalog" where
  "empty_catalog connectors =
     \<lparr>ct_connectors = connectors, ct_instruments = Map.empty, ct_byMarket = (\<lambda>_. []),
      ct_loadErrors = Map.empty\<rparr>"

section \<open>Operations\<close>

text \<open>
  NewCatalog: one connector per served market, in order; the first construction that fails aborts.
\<close>

fun new_connectors ::
  "(Market \<Rightarrow> goerror + 'c) \<Rightarrow> Market list \<Rightarrow> (Market \<rightharpoonup> 'c) \<Rightarrow> goerror + (Market \<rightharpoonup> 'c)" where
  "new_connectors mk [] connectors = Inr connectors"
| "new_connectors mk (m # ms) connectors =
     (case mk m of
        Inl err \<Rightarrow> Inl (WrapError (''public connector '' @ Market_String m @ '': '' @ error_text err) [err])
      | Inr client \<Rightarrow> new_connectors mk ms (connectors(m \<mapsto> client)))"

definition NewCatalog :: "(Market \<Rightarrow> goerror + 'c) \<Rightarrow> goerror + ('d, 'c) Catalog" where
  "NewCatalog mk =
     (case new_connectors mk Markets Map.empty of
        Inl err \<Rightarrow> Inl err
      | Inr connectors \<Rightarrow> Inr (empty_catalog connectors))"

definition project :: "'d Decimals \<Rightarrow> 'd Instrument \<Rightarrow> 'd GatewayInstrument" where
  "project D native =
     (let identity = ins_Identity native; rules = ins_Rules native in
      \<lparr>gi_ID = NewInstrumentID (id_Venue identity) (id_Product identity) (id_Symbol identity),
       gi_Venue = id_Venue identity, gi_Product = id_Product identity, gi_Symbol = id_Symbol identity,
       gi_Base = id_BaseAsset identity, gi_Quote = id_QuoteAsset identity,
       gi_Settle = id_SettleAsset identity, gi_TickSize = DString D (ru_PriceIncrement rules),
       gi_StepSize = DString D (ru_QuantityIncrement rules), gi_MinQty = DString D (ru_MinQuantity rules),
       gi_MinNotional = (if od_Valid (ru_MinNotional rules) then DString D (od_Value (ru_MinNotional rules)) else []),
       gi_MarketFamily = md_MarketFamily (ins_Metadata native), gi_native = native\<rparr>)"

text \<open>The loop of publish: the ids in order of arrival and their projections.\<close>

fun collect ::
  "'d Decimals \<Rightarrow> Market \<Rightarrow> 'd Instrument list \<Rightarrow> InstrumentID list \<Rightarrow> (InstrumentID, 'd GatewayInstrument) gomap \<Rightarrow>
   InstrumentID list \<times> (InstrumentID, 'd GatewayInstrument) gomap" where
  "collect D m [] ids projected = (ids, projected)"
| "collect D m (native # natives) ids projected =
     (if MarketOf native \<noteq> Some m then collect D m natives ids projected
      else
        (let instrument = project D native in
         if map_of projected (gi_ID instrument) \<noteq> None then collect D m natives ids projected
         else collect D m natives (ids @ [gi_ID instrument])
                (AList.update (gi_ID instrument) instrument projected)))"

definition catalog_publish ::
  "'d Decimals \<Rightarrow> Market \<Rightarrow> 'd Instrument list \<Rightarrow> ('d, 'c) Catalog \<Rightarrow> ('d, 'c) Catalog" where
  "catalog_publish D m natives catalog =
     (case collect D m natives [] [] of
        (ids, projected) \<Rightarrow>
          catalog\<lparr>ct_instruments := (ct_instruments catalog |` (- set (ct_byMarket catalog m))) ++ map_of projected,
                  ct_byMarket := (ct_byMarket catalog)(m := slice_sort (<) ids),
                  ct_loadErrors := (ct_loadErrors catalog)(m := None)\<rparr>)"

text \<open>One market's goroutine of refreshMarkets.\<close>

definition refresh_market ::
  "'d Decimals \<Rightarrow> (Market \<Rightarrow> goerror + 'd Instrument list) \<Rightarrow> Market \<Rightarrow> ('d, 'c) Catalog \<Rightarrow> ('d, 'c) Catalog" where
  "refresh_market D load m catalog =
     (if ct_connectors catalog m = None then catalog
      else (case load m of
              Inl err \<Rightarrow> catalog\<lparr>ct_loadErrors := (ct_loadErrors catalog)(m \<mapsto> error_text err)\<rparr>
            | Inr natives \<Rightarrow> catalog_publish D m natives catalog))"

definition refreshMarkets ::
  "'d Decimals \<Rightarrow> (Market \<Rightarrow> goerror + 'd Instrument list) \<Rightarrow> Market list \<Rightarrow> ('d, 'c) Catalog \<Rightarrow> ('d, 'c) Catalog" where
  "refreshMarkets D load ms catalog = foldl (\<lambda>c m. refresh_market D load m c) catalog ms"

definition unloadedMarkets :: "('d, 'c) Catalog \<Rightarrow> Market list" where
  "unloadedMarkets catalog = filter (\<lambda>m. ct_byMarket catalog m = []) Markets"

text \<open>One round of Run: how long it waits, and what it does when the wait is over.\<close>

definition run_wait :: "Time \<Rightarrow> Time \<Rightarrow> Duration \<Rightarrow> ('d, 'c) Catalog \<Rightarrow> Duration" where
  "run_wait now nxt retry catalog =
     (let wait = time_Sub nxt now in
      if unloadedMarkets catalog \<noteq> [] \<and> retry < wait then retry else wait)"

definition run_round ::
  "'d Decimals \<Rightarrow> (Market \<Rightarrow> goerror + 'd Instrument list) \<Rightarrow> Time \<Rightarrow> Time \<Rightarrow> Duration \<Rightarrow> ('d, 'c) Catalog \<Rightarrow>
   Time \<times> ('d, 'c) Catalog" where
  "run_round D load now nxt interval catalog =
     (if now < nxt then (nxt, refreshMarkets D load (unloadedMarkets catalog) catalog)
      else (now + interval, refreshMarkets D load Markets catalog))"

definition catalog_Get :: "('d, 'c) Catalog \<Rightarrow> InstrumentID \<Rightarrow> goerror + 'd GatewayInstrument" where
  "catalog_Get catalog iid =
     (case ct_instruments catalog iid of
        None \<Rightarrow> Inl (WrapError (error_text ErrUnknownInstrument @ '': '' @ iid) [ErrUnknownInstrument])
      | Some instrument \<Rightarrow> Inr instrument)"

text \<open>The zero Instrument a map lookup yields for a missing key.\<close>

definition zero_native :: "'d Decimals \<Rightarrow> 'd Instrument" where
  "zero_native D =
     (let none = \<lparr>od_Value = DZero D, od_Valid = False\<rparr>; noint = \<lparr>oi_Value = 0, oi_Valid = False\<rparr> in
      \<lparr>ins_Identity = \<lparr>id_Venue = [], id_Product = [], id_Symbol = [], id_BaseAsset = [], id_QuoteAsset = [],
         id_SettleAsset = [], id_NativeSymbol = [], id_NativeID = []\<rparr>,
       ins_Rules = \<lparr>ru_PriceIncrement = DZero D, ru_QuantityIncrement = DZero D, ru_MinQuantity = DZero D,
         ru_MinNotional = none\<rparr>,
       ins_Encoding = \<lparr>en_ContractMultiplier = none, en_PriceScale = noint, en_QuantityScale = noint,
         en_QuoteScale = noint\<rparr>,
       ins_Metadata = \<lparr>md_MarketFamily = [], md_AssetClass = [], md_ClassificationSource = [],
         md_RawAssetType = [], md_RawCategories = NoCategories\<rparr>,
       ins_Revision = []\<rparr>)"

definition zero_instrument :: "'d Decimals \<Rightarrow> 'd GatewayInstrument" where
  "zero_instrument D =
     \<lparr>gi_ID = [], gi_Venue = [], gi_Product = [], gi_Symbol = [], gi_Base = [], gi_Quote = [],
      gi_Settle = [], gi_TickSize = [], gi_StepSize = [], gi_MinQty = [], gi_MinNotional = [],
      gi_MarketFamily = [], gi_native = zero_native D\<rparr>"

definition lookup_instrument :: "'d Decimals \<Rightarrow> ('d, 'c) Catalog \<Rightarrow> InstrumentID \<Rightarrow> 'd GatewayInstrument" where
  "lookup_instrument D catalog iid =
     (case ct_instruments catalog iid of None \<Rightarrow> zero_instrument D | Some i \<Rightarrow> i)"

definition MarketInstruments :: "'d Decimals \<Rightarrow> ('d, 'c) Catalog \<Rightarrow> Market \<Rightarrow> 'd GatewayInstrument list" where
  "MarketInstruments D catalog m = map (lookup_instrument D catalog) (ct_byMarket catalog m)"

definition catalog_List :: "'d Decimals \<Rightarrow> ('d, 'c) Catalog \<Rightarrow> Venue \<Rightarrow> Product \<Rightarrow> 'd GatewayInstrument list" where
  "catalog_List D catalog filterVenue filterProduct =
     concat (map (\<lambda>m.
       if (filterVenue \<noteq> [] \<and> mk_Venue m \<noteq> filterVenue) \<or> (filterProduct \<noteq> [] \<and> mk_Product m \<noteq> filterProduct)
       then [] else map (lookup_instrument D catalog) (ct_byMarket catalog m)) Markets)"

definition ResolveNative ::
  "'d Decimals \<Rightarrow> ('d, 'c) Catalog \<Rightarrow> Market \<Rightarrow> string \<Rightarrow> string \<Rightarrow> 'd GatewayInstrument option" where
  "ResolveNative D catalog m nativeSymbol nativeID =
     find (\<lambda>instrument. let identity = ins_Identity (gi_native instrument) in
       (nativeID \<noteq> [] \<and> id_NativeID identity = nativeID) \<or>
       (nativeSymbol \<noteq> [] \<and> id_NativeSymbol identity = nativeSymbol))
       (MarketInstruments D catalog m)"

definition catalog_Status_list :: "('d, 'c) Catalog \<Rightarrow> MarketStatus list" where
  "catalog_Status_list catalog =
     map (\<lambda>m. \<lparr>ms_Market = Market_String m, ms_Instruments = length (ct_byMarket catalog m),
                ms_Error = (case ct_loadErrors catalog m of Some e \<Rightarrow> e | None \<Rightarrow> [])\<rparr>) Markets"

text \<open>connector: None is the nil dereference of a market without a connector.\<close>

definition catalog_connector ::
  "('d, 'c) Catalog \<Rightarrow> InstrumentID \<Rightarrow> (goerror + 'd GatewayInstrument \<times> 'c) option" where
  "catalog_connector catalog iid =
     (case catalog_Get catalog iid of
        Inl err \<Rightarrow> Some (Inl err)
      | Inr instrument \<Rightarrow>
          (let m = (case MarketOf (gi_native instrument) of Some m \<Rightarrow> m | None \<Rightarrow> market [] [] []) in
           case ct_connectors catalog m of
             None \<Rightarrow> None
           | Some client \<Rightarrow> Some (Inr (instrument, client))))"

section \<open>What publish collects\<close>

text \<open>The projections of the natives that belong to the market.\<close>

definition owned :: "'d Decimals \<Rightarrow> Market \<Rightarrow> 'd Instrument list \<Rightarrow> 'd GatewayInstrument list" where
  "owned D m natives = map (project D) (filter (\<lambda>native. MarketOf native = Some m) natives)"

lemma project_sel [simp]:
  "gi_ID (project D native) = NewInstrumentID (id_Venue (ins_Identity native)) (id_Product (ins_Identity native))
     (id_Symbol (ins_Identity native))"
  "gi_native (project D native) = native"
  by (simp_all add: project_def Let_def)

lemma collect_spec:
  "collect D m natives ids projected = (ids', projected') \<Longrightarrow> set ids = dom (map_of projected) \<Longrightarrow> distinct ids \<Longrightarrow>
   set ids' = dom (map_of projected') \<and> distinct ids' \<and>
   map_of projected' = map_of (map (\<lambda>i. (gi_ID i, i)) (owned D m natives)) ++ map_of projected"
proof (induction D m natives ids projected rule: collect.induct)
  case (2 D m native natives ids projected)
  let ?i = "project D native"
  show ?case
  proof (cases "MarketOf native = Some m")
    case False
    with "2.IH"(1) "2.prems" show ?thesis by (simp add: owned_def)
  next
    case own: True
    show ?thesis
    proof (cases "map_of projected (gi_ID ?i)")
      case (Some j)
      with own "2.prems" have c: "collect D m natives ids projected = (ids', projected')"
        by (simp add: Let_def)
      have "map_of ((gi_ID ?i, ?i) # map (\<lambda>i. (gi_ID i, i)) (owned D m natives)) ++ map_of projected =
          map_of (map (\<lambda>i. (gi_ID i, i)) (owned D m natives)) ++ map_of projected"
        using Some by (auto simp: map_add_def fun_eq_iff split: option.split)
      with "2.IH"(2) [OF _ refl] own Some c "2.prems"(2,3) show ?thesis
        by (simp add: owned_def fun_upd_def)
    next
      case None
      with own "2.prems"(1) have c: "collect D m natives (ids @ [gi_ID ?i]) (AList.update (gi_ID ?i) ?i projected) =
          (ids', projected')"
        by (simp add: Let_def)
      have "set (ids @ [gi_ID ?i]) = dom (map_of (AList.update (gi_ID ?i) ?i projected))"
        using "2.prems"(2) by auto
      moreover have "distinct (ids @ [gi_ID ?i])"
        using "2.prems"(2,3) None by auto
      moreover have "map_of (map (\<lambda>i. (gi_ID i, i)) (owned D m natives)) ++ (map_of projected)(gi_ID ?i \<mapsto> ?i) =
          map_of ((gi_ID ?i, ?i) # map (\<lambda>i. (gi_ID i, i)) (owned D m natives)) ++ map_of projected"
        using None by (auto simp: map_add_def fun_eq_iff split: option.split)
      ultimately show ?thesis
        using "2.IH"(3) [OF _ refl] own None c by (simp add: owned_def fun_upd_def)
    qed
  qed
qed (simp add: owned_def)

section \<open>The directory invariant\<close>

text \<open>
  An id belongs to one market. This is what the id format relies on: the symbol carries the settlement
  asset, so two markets of a venue never list the same id.
\<close>

definition one_owner :: "'d Decimals \<Rightarrow> (InstrumentID \<Rightarrow> Market) \<Rightarrow> Market \<Rightarrow> 'd Instrument list \<Rightarrow> bool" where
  "one_owner D owner m natives \<longleftrightarrow> (\<forall>i\<in>set (owned D m natives). owner (gi_ID i) = m)"

definition directory_ok :: "(InstrumentID \<Rightarrow> Market) \<Rightarrow> ('d, 'c) Catalog \<Rightarrow> bool" where
  "directory_ok owner catalog \<longleftrightarrow>
     (\<forall>m. sorted_wrt (<) (ct_byMarket catalog m) \<and>
        set (ct_byMarket catalog m) = {iid. ct_instruments catalog iid \<noteq> None \<and> owner iid = m}) \<and>
     (\<forall>iid i. ct_instruments catalog iid = Some i \<longrightarrow> gi_ID i = iid \<and> MarketOf (gi_native i) = Some (owner iid))"

definition market_listing :: "'d Decimals \<Rightarrow> Market \<Rightarrow> 'd Instrument list \<Rightarrow> InstrumentID \<rightharpoonup> 'd GatewayInstrument" where
  "market_listing D m natives = map_of (map (\<lambda>i. (gi_ID i, i)) (owned D m natives))"

lemma market_listing_owned:
  "market_listing D m natives iid = Some i \<Longrightarrow> i \<in> set (owned D m natives) \<and> gi_ID i = iid"
  by (auto simp: market_listing_def dest!: map_of_SomeD)

lemma owned_market: "i \<in> set (owned D m natives) \<Longrightarrow> MarketOf (gi_native i) = Some m"
  by (auto simp: owned_def)

lemma publish_eq:
  obtains ids where "set ids = dom (market_listing D m natives)" "distinct ids"
    "catalog_publish D m natives catalog =
       catalog\<lparr>ct_instruments := (ct_instruments catalog |` (- set (ct_byMarket catalog m))) ++ market_listing D m natives,
               ct_byMarket := (ct_byMarket catalog)(m := slice_sort (<) ids),
               ct_loadErrors := (ct_loadErrors catalog)(m := None)\<rparr>"
proof -
  obtain ids projected where c: "collect D m natives [] [] = (ids, projected)"
    by (cases "collect D m natives [] []") auto
  from collect_spec [OF c] have "set ids = dom (market_listing D m natives)" "distinct ids"
      "map_of projected = market_listing D m natives"
    by (simp_all add: market_listing_def)
  with c that show thesis by (simp add: catalog_publish_def)
qed

lemma sorted_ids: "distinct ids \<Longrightarrow> sorted_wrt (<) (slice_sort (<) (ids :: string list))"
proof -
  assume "distinct ids"
  moreover have "mset (slice_sort (<) ids) = mset ids" by simp
  ultimately have "distinct (slice_sort (<) ids)"
    by (metis mset_eq_imp_distinct_iff)
  then have "sorted_wrt (\<lambda>x y. \<not> y < x \<and> x \<noteq> y) (slice_sort (<) ids)"
    using string_order.sorted_slice_sort [of ids]
    by (simp add: distinct_conv_nth sorted_wrt_iff_nth_less)
  then show ?thesis
    by (rule sorted_wrt_mono_rel [rotated]) auto
qed

text \<open>Publication replaces the entries of one market and keeps every other entry.\<close>

lemma publish_instruments:
  assumes "directory_ok owner catalog" "one_owner D owner m natives"
  shows "ct_instruments (catalog_publish D m natives catalog) iid =
    (if owner iid = m then market_listing D m natives iid else ct_instruments catalog iid)"
proof -
  obtain ids where eq: "catalog_publish D m natives catalog =
       catalog\<lparr>ct_instruments := (ct_instruments catalog |` (- set (ct_byMarket catalog m))) ++ market_listing D m natives,
               ct_byMarket := (ct_byMarket catalog)(m := slice_sort (<) ids),
               ct_loadErrors := (ct_loadErrors catalog)(m := None)\<rparr>"
    by (rule publish_eq)
  have old: "set (ct_byMarket catalog m) = {iid. ct_instruments catalog iid \<noteq> None \<and> owner iid = m}"
    using assms(1) by (simp add: directory_ok_def)
  have "market_listing D m natives iid = None" if "owner iid \<noteq> m"
    using assms(2) that market_listing_owned [of D m natives iid]
    by (cases "market_listing D m natives iid") (auto simp: one_owner_def)
  then show ?thesis
    by (auto simp: eq old map_add_def restrict_map_def split: option.split)
qed

lemma publish_ok:
  assumes "directory_ok owner catalog" "one_owner D owner m natives"
  shows "directory_ok owner (catalog_publish D m natives catalog)"
proof -
  obtain ids where ids: "set ids = dom (market_listing D m natives)" "distinct ids"
    and eq: "catalog_publish D m natives catalog =
       catalog\<lparr>ct_instruments := (ct_instruments catalog |` (- set (ct_byMarket catalog m))) ++ market_listing D m natives,
               ct_byMarket := (ct_byMarket catalog)(m := slice_sort (<) ids),
               ct_loadErrors := (ct_loadErrors catalog)(m := None)\<rparr>"
    by (rule publish_eq)
  let ?c = "catalog_publish D m natives catalog"
  have by_m: "ct_byMarket ?c m' = (if m' = m then slice_sort (<) ids else ct_byMarket catalog m')" for m'
    by (simp add: eq)
  note inst = publish_instruments [OF assms]
  have own: "owner iid = m \<and> gi_ID i = iid \<and> MarketOf (gi_native i) = Some m"
    if "market_listing D m natives iid = Some i" for iid i
    using assms(2) market_listing_owned [OF that] owned_market by (auto simp: one_owner_def)
  show ?thesis
    unfolding directory_ok_def
  proof (intro conjI allI impI)
    fix m'
    show "sorted_wrt (<) (ct_byMarket ?c m')"
      using sorted_ids [OF ids(2)] assms(1) by (simp add: by_m directory_ok_def)
    show "set (ct_byMarket ?c m') = {iid. ct_instruments ?c iid \<noteq> None \<and> owner iid = m'}"
      using assms(1) own by (auto simp: by_m inst ids(1) directory_ok_def)
  next
    fix iid i assume i: "ct_instruments ?c iid = Some i"
    show "gi_ID i = iid" "MarketOf (gi_native i) = Some (owner iid)"
      using i assms(1) own [of iid i] by (auto simp: inst directory_ok_def split: if_splits)
  qed
qed

lemma empty_catalog_sel [simp]:
  "ct_connectors (empty_catalog connectors) = connectors" "ct_instruments (empty_catalog connectors) = Map.empty"
  by (simp_all add: empty_catalog_def)

lemma empty_directory_ok [simp]: "directory_ok owner (empty_catalog connectors)"
  by (simp add: directory_ok_def empty_catalog_def)

section \<open>Refreshing\<close>

lemma directory_ok_errors [simp]:
  "directory_ok owner (catalog\<lparr>ct_loadErrors := e\<rparr>) \<longleftrightarrow> directory_ok owner catalog"
  by (simp add: directory_ok_def)

lemma publish_connectors [simp]: "ct_connectors (catalog_publish D m natives catalog) = ct_connectors catalog"
  by (simp add: catalog_publish_def split: prod.split)

lemma refresh_market_connectors [simp]:
  "ct_connectors (refresh_market D load m catalog) = ct_connectors catalog"
  by (simp add: refresh_market_def split: sum.split)

lemma refresh_market_ok:
  assumes "directory_ok owner catalog" "\<And>natives. load m = Inr natives \<Longrightarrow> one_owner D owner m natives"
  shows "directory_ok owner (refresh_market D load m catalog)"
  using assms publish_ok [OF assms(1)] by (simp add: refresh_market_def split: sum.split)

text \<open>What a refresh leaves for an id: the fresh listing of its market if that was loaded.\<close>

definition refreshed ::
  "'d Decimals \<Rightarrow> (Market \<Rightarrow> goerror + 'd Instrument list) \<Rightarrow> Market \<Rightarrow> InstrumentID \<Rightarrow>
   'd GatewayInstrument option \<Rightarrow> 'd GatewayInstrument option" where
  "refreshed D load m iid old =
     (case load m of Inl _ \<Rightarrow> old | Inr natives \<Rightarrow> market_listing D m natives iid)"

lemma refresh_market_instruments:
  assumes "directory_ok owner catalog" "\<And>natives. load m = Inr natives \<Longrightarrow> one_owner D owner m natives"
    and "ct_connectors catalog m \<noteq> None"
  shows "ct_instruments (refresh_market D load m catalog) iid =
    (if owner iid = m then refreshed D load m iid (ct_instruments catalog iid) else ct_instruments catalog iid)"
  using assms publish_instruments [OF assms(1)]
  by (auto simp: refresh_market_def refreshed_def split: sum.split)

lemma refreshMarkets_spec:
  assumes "directory_ok owner catalog" "\<And>m natives. load m = Inr natives \<Longrightarrow> one_owner D owner m natives"
    and "\<And>m. m \<in> set ms \<Longrightarrow> ct_connectors catalog m \<noteq> None" "distinct ms"
  shows "directory_ok owner (refreshMarkets D load ms catalog) \<and>
    ct_connectors (refreshMarkets D load ms catalog) = ct_connectors catalog \<and>
    (\<forall>iid. ct_instruments (refreshMarkets D load ms catalog) iid =
       (if owner iid \<in> set ms then refreshed D load (owner iid) iid (ct_instruments catalog iid)
        else ct_instruments catalog iid))"
  using assms(1,3,4)
proof (induction ms arbitrary: catalog)
  case (Cons m ms)
  let ?c = "refresh_market D load m catalog"
  have c: "directory_ok owner ?c" "ct_connectors ?c = ct_connectors catalog"
    by (simp_all add: refresh_market_ok [OF Cons.prems(1) assms(2)])
  have inst: "ct_instruments ?c iid =
      (if owner iid = m then refreshed D load m iid (ct_instruments catalog iid) else ct_instruments catalog iid)" for iid
    using refresh_market_instruments [OF Cons.prems(1) assms(2)] Cons.prems(2) by simp
  have "refreshMarkets D load (m # ms) catalog = refreshMarkets D load ms ?c"
    by (simp add: refreshMarkets_def)
  with Cons.IH [OF c(1)] c Cons.prems(2,3) inst show ?case by auto
qed (simp add: refreshMarkets_def)

section \<open>Lookups\<close>

lemma new_connectors_dom:
  "new_connectors mk ms connectors = Inr connectors' \<Longrightarrow> dom connectors' = dom connectors \<union> set ms"
  by (induction mk ms connectors rule: new_connectors.induct) (auto split: sum.splits)

lemma NewCatalog_spec:
  assumes "NewCatalog mk = Inr catalog"
  shows "directory_ok owner catalog" "\<And>m. m \<in> set Markets \<Longrightarrow> ct_connectors catalog m \<noteq> None"
proof -
  obtain cs where cs: "new_connectors mk Markets Map.empty = Inr cs" "catalog = empty_catalog cs"
    using assms by (auto simp: NewCatalog_def split: sum.splits)
  then show "directory_ok owner catalog" by simp
  fix m assume "m \<in> set Markets"
  with new_connectors_dom [OF cs(1)] have "m \<in> dom cs" by simp
  then show "ct_connectors catalog m \<noteq> None" by (auto simp: cs(2) empty_catalog_def)
qed

text \<open>A directory whose connectors cover the served markets answers every lookup.\<close>

definition connected :: "('d, 'c) Catalog \<Rightarrow> bool" where
  "connected catalog \<longleftrightarrow> (\<forall>m\<in>set Markets. ct_connectors catalog m \<noteq> None)"

lemma connector_defined:
  assumes "directory_ok owner catalog" "connected catalog"
  shows "catalog_connector catalog iid \<noteq> None"
proof (cases "ct_instruments catalog iid")
  case None
  then show ?thesis by (simp add: catalog_connector_def catalog_Get_def)
next
  case (Some i)
  then have m: "MarketOf (gi_native i) = Some (owner iid)"
    using assms(1) by (simp add: directory_ok_def)
  then have "owner iid \<in> set Markets" using MarketOf_Some by blast
  with assms(2) Some m show ?thesis
    by (auto simp: catalog_connector_def catalog_Get_def connected_def Let_def)
qed

lemma listed_instrument:
  assumes "directory_ok owner catalog" "i \<in> set (MarketInstruments D catalog m)"
  shows "catalog_Get catalog (gi_ID i) = Inr i" "MarketOf (gi_native i) = Some m"
proof -
  obtain iid where iid: "iid \<in> set (ct_byMarket catalog m)" "i = lookup_instrument D catalog iid"
    using assms(2) by (auto simp: MarketInstruments_def)
  with assms(1) obtain j where j: "ct_instruments catalog iid = Some j" "owner iid = m"
    by (auto simp: directory_ok_def)
  with iid(2) have "i = j" by (simp add: lookup_instrument_def)
  with assms(1) j show "catalog_Get catalog (gi_ID i) = Inr i" "MarketOf (gi_native i) = Some m"
    by (auto simp: directory_ok_def catalog_Get_def)
qed

lemma catalog_List_in:
  "i \<in> set (catalog_List D catalog v p) \<longleftrightarrow>
   (\<exists>m\<in>set Markets. (v = [] \<or> mk_Venue m = v) \<and> (p = [] \<or> mk_Product m = p) \<and>
      i \<in> set (MarketInstruments D catalog m))"
  by (auto simp: catalog_List_def MarketInstruments_def split: if_splits)

lemma listed_iff:
  assumes "directory_ok owner catalog"
  shows "i \<in> set (MarketInstruments D catalog m) \<longleftrightarrow>
    catalog_Get catalog (gi_ID i) = Inr i \<and> MarketOf (gi_native i) = Some m"
proof
  assume known: "catalog_Get catalog (gi_ID i) = Inr i \<and> MarketOf (gi_native i) = Some m"
  then have i: "ct_instruments catalog (gi_ID i) = Some i"
    by (auto simp: catalog_Get_def split: option.splits)
  have ok: "\<And>iid i. ct_instruments catalog iid = Some i \<Longrightarrow> MarketOf (gi_native i) = Some (owner iid)"
      "set (ct_byMarket catalog m) = {iid. ct_instruments catalog iid \<noteq> None \<and> owner iid = m}"
    using assms unfolding directory_ok_def by blast+
  have "owner (gi_ID i) = m"
    using ok(1) [OF i] known by simp
  then have "gi_ID i \<in> set (ct_byMarket catalog m)"
    using i by (simp add: ok(2))
  moreover have "lookup_instrument D catalog (gi_ID i) = i"
    using i by (simp add: lookup_instrument_def)
  ultimately show "i \<in> set (MarketInstruments D catalog m)"
    unfolding MarketInstruments_def by force
qed (use listed_instrument [OF assms] in blast)

lemma listed_sorted:
  assumes "directory_ok owner catalog"
  shows "sorted_wrt (\<lambda>i j. gi_ID i < gi_ID j) (MarketInstruments D catalog m)"
proof -
  have "gi_ID (lookup_instrument D catalog iid) = iid" if "iid \<in> set (ct_byMarket catalog m)" for iid
  proof -
    obtain i where "ct_instruments catalog iid = Some i"
      using assms \<open>iid \<in> set (ct_byMarket catalog m)\<close> unfolding directory_ok_def by blast
    then show ?thesis
      using assms by (simp add: directory_ok_def lookup_instrument_def)
  qed
  then have "map gi_ID (MarketInstruments D catalog m) = ct_byMarket catalog m"
    by (simp add: MarketInstruments_def map_idI)
  moreover have "sorted_wrt (<) (ct_byMarket catalog m)"
    using assms by (simp add: directory_ok_def)
  ultimately have "sorted_wrt (<) (map gi_ID (MarketInstruments D catalog m))"
    by simp
  then show ?thesis
    by (simp only: sorted_wrt_map)
qed

text \<open>An instrument that carries a native identity: by a native id that is given, or by a symbol that is.\<close>

definition carries :: "string \<Rightarrow> string \<Rightarrow> 'd GatewayInstrument \<Rightarrow> bool" where
  "carries nativeSymbol nativeID i \<longleftrightarrow>
     (nativeID \<noteq> [] \<and> id_NativeID (ins_Identity (gi_native i)) = nativeID) \<or>
     (nativeSymbol \<noteq> [] \<and> id_NativeSymbol (ins_Identity (gi_native i)) = nativeSymbol)"

lemma ResolveNative_first:
  assumes "sorted_wrt (\<lambda>i j. gi_ID i < gi_ID j) (MarketInstruments D c m)"
  shows "case ResolveNative D c m nativeSymbol nativeID of
     None \<Rightarrow> \<forall>j\<in>set (MarketInstruments D c m). \<not> carries nativeSymbol nativeID j
   | Some i \<Rightarrow> i \<in> set (MarketInstruments D c m) \<and> carries nativeSymbol nativeID i \<and>
       (\<forall>j\<in>set (MarketInstruments D c m). carries nativeSymbol nativeID j \<longrightarrow> gi_ID i \<le> gi_ID j)"
proof -
  have find: "case find P xs of None \<Rightarrow> \<forall>j\<in>set xs. \<not> P j
     | Some i \<Rightarrow> i \<in> set xs \<and> P i \<and> (\<forall>j\<in>set xs. P j \<longrightarrow> gi_ID i \<le> gi_ID j)"
    if "sorted_wrt (\<lambda>i j. gi_ID i < gi_ID j) xs" for P and xs :: "'a GatewayInstrument list"
    using that by (induction xs) (auto split: option.splits simp: less_imp_le)
  show ?thesis
    using find [OF assms, of "carries nativeSymbol nativeID"] by (simp add: ResolveNative_def carries_def [abs_def] Let_def)
qed

lemma refreshed_directory:
  assumes "NewCatalog mk = Inr c0"
    and "\<forall>(load, ms)\<in>set rounds. distinct ms \<and> set ms \<subseteq> set Markets \<and>
           (\<forall>m natives. load m = Inr natives \<longrightarrow> one_owner D owner m natives)"
  shows "directory_ok owner (foldl (\<lambda>c (load, ms). refreshMarkets D load ms c) c0 rounds) \<and>
      connected (foldl (\<lambda>c (load, ms). refreshMarkets D load ms c) c0 rounds)"
  using assms(2)
proof (induction rounds rule: rev_induct)
  case Nil
  then show ?case
    using NewCatalog_spec [OF assms(1)] by (simp add: connected_def)
next
  case (snoc r rounds)
  obtain load ms where r: "r = (load, ms)" by (cases r)
  let ?c = "foldl (\<lambda>c (load, ms). refreshMarkets D load ms c) c0 rounds"
  have IH: "directory_ok owner ?c" "connected ?c"
    using snoc by auto
  have "directory_ok owner (refreshMarkets D load ms ?c) \<and>
      ct_connectors (refreshMarkets D load ms ?c) = ct_connectors ?c"
    using refreshMarkets_spec [OF IH(1), of load D ms] snoc.prems(1) IH(2) r
    by (auto simp: connected_def)
  with IH(2) r show ?case by (simp add: connected_def)
qed

section \<open>Properties\<close>

text \<open>
  C37: refreshing markets concurrently gives the same directory in whatever order the loads finish: every
  id of a market that loaded is what that load listed for it (the first of duplicates), and every id of a
  market that failed, or was not refreshed, is kept. The index by market stays sorted and in step with the
  directory.
\<close>

theorem refresh_replaces_loaded_markets:
  assumes "directory_ok owner catalog"
    and "\<forall>m natives. load m = Inr natives \<longrightarrow> one_owner D owner m natives"
    and "\<forall>m\<in>set ms. ct_connectors catalog m \<noteq> None" and "distinct ms"
  shows "directory_ok owner (refreshMarkets D load ms catalog) \<and>
    ct_instruments (refreshMarkets D load ms catalog) iid =
      (case load (owner iid) of
         Inr natives \<Rightarrow> (if owner iid \<in> set ms then market_listing D (owner iid) natives iid
                        else ct_instruments catalog iid)
       | Inl err \<Rightarrow> ct_instruments catalog iid)"
  using refreshMarkets_spec [OF assms(1), of load D ms] assms(2,3,4)
  by (auto simp: refreshed_def split: sum.split)

abbreviation sample_market :: Market where
  "sample_market \<equiv> market VenueBinance ProductPerp ''USDT''"

definition sample_load :: "Market \<Rightarrow> goerror + dec Instrument list" where
  "sample_load m = (if m = sample_market then Inr [sample_instrument] else Inl (NetError ''timeout''))"

lemma sample_MarketOf [simp]: "MarketOf sample_instrument = Some sample_market"
  by code_simp

lemma sample_owned [simp]: "owned dec_ops sample_market [sample_instrument] = [project dec_ops sample_instrument]"
  by (simp add: owned_def)

abbreviation sample_iid :: InstrumentID where
  "sample_iid \<equiv> ''binance:perp:BTC/USDT''"

lemma sample_iid [simp]:
  "NewInstrumentID (id_Venue (ins_Identity sample_instrument)) (id_Product (ins_Identity sample_instrument))
     (id_Symbol (ins_Identity sample_instrument)) = sample_iid"
  by (simp add: NewInstrumentID_def sample_instrument_def)

theorem refresh_replaces_loaded_markets_witness:
  "ct_instruments (refreshMarkets dec_ops sample_load [market VenueOKX ProductSpot [], sample_market]
     (empty_catalog (\<lambda>_. Some ()))) sample_iid = Some (project dec_ops sample_instrument)"
proof -
  have "ct_instruments (refreshMarkets dec_ops sample_load [market VenueOKX ProductSpot [], sample_market]
       (empty_catalog (\<lambda>_. Some ()))) sample_iid =
     (case sample_load sample_market of
         Inr natives \<Rightarrow> market_listing dec_ops sample_market natives sample_iid
       | Inl err \<Rightarrow> None)"
    using refresh_replaces_loaded_markets [of "\<lambda>_. sample_market" "empty_catalog (\<lambda>_. Some ())" sample_load dec_ops
        "[market VenueOKX ProductSpot [], sample_market]" sample_iid]
    by (auto simp: one_owner_def sample_load_def split: if_splits)
  then show ?thesis
    by (simp add: sample_load_def market_listing_def)
qed

text \<open>
  C38: after NewCatalog and any rounds of refreshes of served markets, all lookups show the same directory.
  Fetching the connector of an id never dereferences a missing one. An instrument is listed for a market
  exactly when Get returns it and it belongs to that market, each once and by rising id; it is in the list
  for a venue and product filter exactly when Get returns it and its market passes the filter. ResolveNative
  fails exactly when Get knows no instrument of the asked market that carries the asked native id or symbol,
  and otherwise returns the one with the least id. Get returns an instrument under its own id only.
\<close>

theorem directory_serves_every_lookup:
  assumes "NewCatalog mk = Inr c0"
    and "c = foldl (\<lambda>c (load, ms). refreshMarkets D load ms c) c0 rounds"
    and "\<forall>(load, ms)\<in>set rounds. distinct ms \<and> set ms \<subseteq> set Markets \<and>
           (\<forall>m natives. load m = Inr natives \<longrightarrow> one_owner D owner m natives)"
  shows "catalog_connector c iid \<noteq> None \<and> (\<forall>i. catalog_Get c iid = Inr i \<longrightarrow> gi_ID i = iid) \<and>
    (\<forall>i. i \<in> set (MarketInstruments D c m) \<longleftrightarrow> catalog_Get c (gi_ID i) = Inr i \<and> MarketOf (gi_native i) = Some m) \<and>
    sorted_wrt (\<lambda>i j. gi_ID i < gi_ID j) (MarketInstruments D c m) \<and>
    (\<forall>i. i \<in> set (catalog_List D c v p) \<longleftrightarrow> catalog_Get c (gi_ID i) = Inr i \<and>
       (\<exists>m. MarketOf (gi_native i) = Some m \<and> (v = [] \<or> mk_Venue m = v) \<and> (p = [] \<or> mk_Product m = p))) \<and>
    (case ResolveNative D c m nativeSymbol nativeID of
       None \<Rightarrow> \<forall>j. catalog_Get c (gi_ID j) = Inr j \<longrightarrow> MarketOf (gi_native j) = Some m \<longrightarrow> \<not> carries nativeSymbol nativeID j
     | Some i \<Rightarrow> catalog_Get c (gi_ID i) = Inr i \<and> MarketOf (gi_native i) = Some m \<and> carries nativeSymbol nativeID i \<and>
         (\<forall>j. catalog_Get c (gi_ID j) = Inr j \<longrightarrow> MarketOf (gi_native j) = Some m \<longrightarrow> carries nativeSymbol nativeID j \<longrightarrow>
            gi_ID i \<le> gi_ID j))"
proof -
  note reached = refreshed_directory [OF assms(1,3)]
  then have ok: "directory_ok owner c" and con: "connected c"
    using assms(2) by simp_all
  note listed = listed_iff [OF ok] and sorted = listed_sorted [OF ok]
  have "i \<in> set (catalog_List D c v p) \<longleftrightarrow> catalog_Get c (gi_ID i) = Inr i \<and>
       (\<exists>m. MarketOf (gi_native i) = Some m \<and> (v = [] \<or> mk_Venue m = v) \<and> (p = [] \<or> mk_Product m = p))" for i
    using MarketOf_Some [of "gi_native i"] by (auto simp: catalog_List_in listed)
  moreover have "gi_ID i = iid" if "catalog_Get c iid = Inr i" for i
    using that ok by (auto simp: catalog_Get_def directory_ok_def split: option.splits)
  ultimately show ?thesis
    using connector_defined [OF ok con] sorted [of D m] ResolveNative_first [OF sorted [of D m], of nativeSymbol nativeID]
    by (auto simp: listed split: option.splits)
qed

theorem directory_serves_every_lookup_witness:
  "\<exists>c0 :: (dec, unit) Catalog. NewCatalog (\<lambda>_. Inr ()) = Inr c0 \<and>
     (let c = refreshMarkets dec_ops sample_load [sample_market] c0; i = project dec_ops sample_instrument in
      catalog_connector c sample_iid \<noteq> None \<and> i \<in> set (MarketInstruments dec_ops c sample_market) \<and>
      i \<in> set (catalog_List dec_ops c VenueBinance []))"
proof -
  obtain c0 :: "(dec, unit) Catalog" where c0: "NewCatalog (\<lambda>_. Inr ()) = Inr c0"
    by (simp add: NewCatalog_def Markets_def)
  let ?c = "refreshMarkets dec_ops sample_load [sample_market] c0" and ?i = "project dec_ops sample_instrument"
  have served: "sample_market \<in> set Markets" by (simp add: Markets_def)
  have owner: "\<And>m natives. sample_load m = Inr natives \<Longrightarrow> one_owner dec_ops (\<lambda>_. sample_market) m natives"
    by (auto simp: one_owner_def sample_load_def split: if_splits)
  have known: "catalog_Get ?c sample_iid = Inr ?i" "gi_ID ?i = sample_iid" "MarketOf (gi_native ?i) = Some sample_market"
    using refreshMarkets_spec [where catalog = c0 and load = sample_load and D = dec_ops and ms = "[sample_market]" and
        owner = "\<lambda>_. sample_market"] NewCatalog_spec(1) [OF c0] owner NewCatalog_spec(2) [OF c0 served]
    by (simp_all add: catalog_Get_def refreshed_def sample_load_def market_listing_def)
  note lookups = directory_serves_every_lookup [OF c0, of ?c dec_ops "[(sample_load, [sample_market])]"
      "\<lambda>_. sample_market" sample_iid sample_market VenueBinance "[]"]
  have "catalog_connector ?c sample_iid \<noteq> None" "?i \<in> set (MarketInstruments dec_ops ?c sample_market)"
      "?i \<in> set (catalog_List dec_ops ?c VenueBinance [])"
    using lookups known served owner by (auto simp: market_def)
  with c0 show ?thesis by (auto simp: Let_def)
qed

end
