(* ===== verification/Credentials.thy ===== *)
theory Credentials
  imports Errors
begin

text \<open>
  Account credentials (credential/bundle.go, credential/schema.go, credential/registry.go): the
  authentication kinds of the venues, the fields each kind asks for, and the strict decoding of a
  credential bundle. A JSON text is taken as the tree it denotes, with the members of an object in
  their order; reading a text is a parameter of the definitions, None for a text that is not one
  JSON value. What the decoder of encoding/json makes of a tree (member names matched by case
  folding, unknown members refused, null leaving a field alone, the ranges of the integer types) is
  defined here.
\<close>

section \<open>JSON values\<close>

datatype json =
    JNull
  | JBool bool
  | JNumber string
  | JString string
  | JArray "json list"
  | JObject "(string \<times> json) list"

text \<open>The kinds of struct fields the bundles and the request bodies have.\<close>

datatype slot = StringSlot | Int64Slot | Uint8Slot | BoolSlot | MapSlot | RawSlot

fun slot_accepts :: "slot \<Rightarrow> json \<Rightarrow> bool" where
  "slot_accepts RawSlot v \<longleftrightarrow> True"
| "slot_accepts _ JNull \<longleftrightarrow> True"
| "slot_accepts StringSlot (JString s) \<longleftrightarrow> True"
| "slot_accepts Int64Slot (JNumber t) \<longleftrightarrow> ParseInt 64 t \<noteq> None"
| "slot_accepts Uint8Slot (JNumber t) \<longleftrightarrow> ParseUint 8 t \<noteq> None"
| "slot_accepts BoolSlot (JBool b) \<longleftrightarrow> True"
| "slot_accepts MapSlot (JObject members) \<longleftrightarrow> True"
| "slot_accepts _ _ \<longleftrightarrow> False"

definition field_named :: "(string \<times> slot) list \<Rightarrow> string \<Rightarrow> (string \<times> slot) option" where
  "field_named slots key =
     (case find (\<lambda>f. fst f = key) slots of
        Some f \<Rightarrow> Some f
      | None \<Rightarrow> find (\<lambda>f. EqualFold (fst f) key) slots)"

fun decode_members ::
  "(string \<times> slot) list \<Rightarrow> (string \<times> json) list \<Rightarrow> (string \<rightharpoonup> json) \<Rightarrow> (string \<rightharpoonup> json) option" where
  "decode_members slots [] m = Some m"
| "decode_members slots ((key, v) # members) m =
     (case field_named slots key of
        None \<Rightarrow> None
      | Some (name, slot) \<Rightarrow>
          if \<not> slot_accepts slot v then None
          else decode_members slots members (if v = JNull then m else m(name \<mapsto> v)))"

definition decodeStrict :: "(string \<times> slot) list \<Rightarrow> json \<Rightarrow> (string \<rightharpoonup> json) option" where
  "decodeStrict slots v =
     (case v of
        JObject members \<Rightarrow> decode_members slots members Map.empty
      | JNull \<Rightarrow> Some Map.empty
      | _ \<Rightarrow> None)"

definition decodeNested :: "json option \<Rightarrow> (string \<times> slot) list \<Rightarrow> (string \<rightharpoonup> json) option" where
  "decodeNested raw slots =
     (case raw of Some (JObject members) \<Rightarrow> decodeStrict slots (JObject members) | _ \<Rightarrow> None)"

definition text_of :: "(string \<rightharpoonup> json) \<Rightarrow> string \<Rightarrow> string" where
  "text_of m name = (case m name of Some (JString s) \<Rightarrow> s | _ \<Rightarrow> [])"

definition int_of :: "(string \<rightharpoonup> json) \<Rightarrow> string \<Rightarrow> int" where
  "int_of m name = (case m name of Some (JNumber t) \<Rightarrow> (case ParseInt 64 t of Some i \<Rightarrow> i | None \<Rightarrow> 0) | _ \<Rightarrow> 0)"

definition uint8_of :: "(string \<rightharpoonup> json) \<Rightarrow> string \<Rightarrow> 8 word" where
  "uint8_of m name =
     (case m name of Some (JNumber t) \<Rightarrow> (case ParseUint 8 t of Some n \<Rightarrow> of_nat n | None \<Rightarrow> 0) | _ \<Rightarrow> 0)"

section \<open>Authentication kinds and their fields\<close>

type_synonym AuthKind = string

abbreviation "AuthAPIKeySecret \<equiv> ''api_key_secret''"
abbreviation "AuthAPIKeySecretPassphrase \<equiv> ''api_key_secret_passphrase''"
abbreviation "AuthLighterSigner \<equiv> ''lighter_signer''"
abbreviation "AuthEVMPrivateKey \<equiv> ''evm_private_key''"
abbreviation "AuthAsterAPIWallet \<equiv> ''aster_api_wallet''"
abbreviation "AuthNadoSigner \<equiv> ''nado_signer''"

record Field =
  fd_Key :: string
  fd_Label :: string
  fd_Metadata :: bool
  fd_Required :: bool
  fd_ValueType :: string

record Schema =
  sc_SchemaVersion :: int
  sc_AuthKind :: string
  sc_Fields :: "Field list"

definition secret_field :: "string \<Rightarrow> string \<Rightarrow> Field" where
  "secret_field key label =
     \<lparr>fd_Key = key, fd_Label = label, fd_Metadata = False, fd_Required = True, fd_ValueType = ''string''\<rparr>"

definition metadata_field :: "string \<Rightarrow> string \<Rightarrow> bool \<Rightarrow> string \<Rightarrow> Field" where
  "metadata_field key label required valueType =
     \<lparr>fd_Key = key, fd_Label = label, fd_Metadata = True, fd_Required = required, fd_ValueType = valueType\<rparr>"

definition schemaFields :: "AuthKind \<rightharpoonup> Field list" where
  "schemaFields kind =
     (if kind = AuthAPIKeySecret
      then Some [secret_field ''apiKey'' ''API key'', secret_field ''apiSecret'' ''API secret'']
      else if kind = AuthAPIKeySecretPassphrase
      then Some [secret_field ''apiKey'' ''API key'', secret_field ''apiSecret'' ''API secret'',
                 secret_field ''passphrase'' ''Passphrase'']
      else if kind = AuthLighterSigner
      then Some [metadata_field ''accountIndex'' ''Account index'' True ''integer'',
                 metadata_field ''keyIndex'' ''Key index'' True ''integer'',
                 secret_field ''privateKey'' ''Private key'']
      else if kind = AuthEVMPrivateKey
      then Some [metadata_field ''accountAddress'' ''Account address'' False ''string'',
                 secret_field ''privateKey'' ''Private key'']
      else if kind = AuthAsterAPIWallet
      then Some [metadata_field ''userAddress'' ''User address'' True ''string'',
                 metadata_field ''expectedSigner'' ''Expected signer'' False ''string'',
                 secret_field ''apiWalletPrivateKey'' ''API wallet private key'']
      else if kind = AuthNadoSigner
      then Some [metadata_field ''subaccount'' ''Subaccount'' True ''string'',
                 secret_field ''privateKey'' ''Private key'']
      else None)"

text \<open>credential.Registry and credential.DefaultRegistry.\<close>

type_synonym AuthRegistry = "string \<rightharpoonup> AuthKind"

definition defaultAuthKinds :: AuthRegistry where
  "defaultAuthKinds =
     [''binance'' \<mapsto> AuthAPIKeySecret, ''bybit'' \<mapsto> AuthAPIKeySecret, ''gate'' \<mapsto> AuthAPIKeySecret,
      ''okx'' \<mapsto> AuthAPIKeySecretPassphrase, ''bitget'' \<mapsto> AuthAPIKeySecretPassphrase,
      ''lighter'' \<mapsto> AuthLighterSigner, ''hyperliquid'' \<mapsto> AuthEVMPrivateKey,
      ''aster'' \<mapsto> AuthAsterAPIWallet, ''nado'' \<mapsto> AuthNadoSigner]"

abbreviation ErrInvalidBundle :: goerror where
  "ErrInvalidBundle \<equiv> SentinelError ''credential.ErrInvalidBundle'' ''invalid credential bundle''"

abbreviation invalidBundle :: "string \<Rightarrow> goerror" where
  "invalidBundle reason \<equiv> WrapError (error_text ErrInvalidBundle @ '': '' @ reason) [ErrInvalidBundle]"

definition registry_Schema :: "AuthRegistry \<Rightarrow> string \<Rightarrow> goerror + Schema" where
  "registry_Schema registry venue =
     (case registry venue of
        None \<Rightarrow> Inl (invalidBundle ''unknown venue'')
      | Some kind \<Rightarrow>
          (case schemaFields kind of
             None \<Rightarrow> Inl (invalidBundle ''unknown venue'')
           | Some fs \<Rightarrow> Inr \<lparr>sc_SchemaVersion = 1, sc_AuthKind = kind, sc_Fields = fs\<rparr>))"

section \<open>Decoding\<close>

datatype Credential =
    APIKeySecret string string
  | APIKeySecretPassphrase string string string
  | LighterSigner string int "8 word"
  | EVMPrivateKey string string
  | AsterAPIWallet string string string
  | NadoSigner string string

record Decoded =
  dd_Venue :: string
  dd_AuthKind :: AuthKind
  dd_Credentials :: Credential

text \<open>Clear: the secrets of a decoded bundle are overwritten.\<close>

fun credential_clear :: "Credential \<Rightarrow> Credential" where
  "credential_clear (APIKeySecret k s) = APIKeySecret [] []"
| "credential_clear (APIKeySecretPassphrase k s p) = APIKeySecretPassphrase [] [] []"
| "credential_clear (LighterSigner k a i) = LighterSigner [] a i"
| "credential_clear (EVMPrivateKey k a) = EVMPrivateKey [] []"
| "credential_clear (AsterAPIWallet k u e) = AsterAPIWallet [] [] []"
| "credential_clear (NadoSigner k s) = NadoSigner [] []"

definition decoded_Clear :: "Decoded \<Rightarrow> Decoded" where
  "decoded_Clear decoded = decoded\<lparr>dd_Credentials := credential_clear (dd_Credentials decoded)\<rparr>"

abbreviation maxBundleBytes :: nat where "maxBundleBytes \<equiv> 32 * 1024"
abbreviation maxStringBytes :: nat where "maxStringBytes \<equiv> 8 * 1024"

text \<open>scanJSONValue: strings of bounded length and objects without a repeated name.\<close>

fun scanJSONValue :: "json \<Rightarrow> bool" where
  "scanJSONValue (JString s) \<longleftrightarrow> length s \<le> maxStringBytes"
| "scanJSONValue (JObject members) \<longleftrightarrow>
     distinct (map fst members) \<and> list_all (\<lambda>key. length key \<le> maxStringBytes) (map fst members) \<and>
     list_all scanJSONValue (map snd members)"
| "scanJSONValue (JArray vs) \<longleftrightarrow> list_all scanJSONValue vs"
| "scanJSONValue _ \<longleftrightarrow> True"

text \<open>hex.DecodeString.\<close>

definition hex_val :: "char \<Rightarrow> nat option" where
  "hex_val c =
     (if is_digit c then Some (digit_val c)
      else if CHR ''a'' \<le> c \<and> c \<le> CHR ''f'' then Some (of_char c - 87)
      else if CHR ''A'' \<le> c \<and> c \<le> CHR ''F'' then Some (of_char c - 55)
      else None)"

fun hex_decode :: "string \<Rightarrow> nat list option" where
  "hex_decode [] = Some []"
| "hex_decode [c] = None"
| "hex_decode (c # d # s) =
     (case (hex_val c, hex_val d, hex_decode s) of
        (Some h, Some l, Some octets) \<Rightarrow> Some ((16 * h + l) # octets)
      | _ \<Rightarrow> None)"

definition validateEVMAddress :: "string \<Rightarrow> goerror option" where
  "validateEVMAddress value =
     (if length value \<noteq> 42 \<or> \<not> HasPrefix value ''0x'' then Some ErrInvalidBundle
      else (case hex_decode (drop 2 value) of
              None \<Rightarrow> Some ErrInvalidBundle
            | Some octets \<Rightarrow>
                if length octets \<noteq> 20 then Some ErrInvalidBundle
                else if list_ex (\<lambda>octet. octet \<noteq> 0) octets then None
                else Some ErrInvalidBundle))"

definition decodeCredentials :: "AuthKind \<Rightarrow> json option \<Rightarrow> json option \<Rightarrow> goerror + Credential" where
  "decodeCredentials kind metadata secrets =
     (if kind = AuthAPIKeySecret then
        (case (decodeNested metadata [], decodeNested secrets [(''apiKey'', StringSlot), (''apiSecret'', StringSlot)]) of
           (Some meta, Some secret) \<Rightarrow>
             if text_of secret ''apiKey'' = [] \<or> text_of secret ''apiSecret'' = [] then Inl ErrInvalidBundle
             else Inr (APIKeySecret (text_of secret ''apiKey'') (text_of secret ''apiSecret''))
         | _ \<Rightarrow> Inl ErrInvalidBundle)
      else if kind = AuthAPIKeySecretPassphrase then
        (case (decodeNested metadata [],
               decodeNested secrets [(''apiKey'', StringSlot), (''apiSecret'', StringSlot), (''passphrase'', StringSlot)]) of
           (Some meta, Some secret) \<Rightarrow>
             if text_of secret ''apiKey'' = [] \<or> text_of secret ''apiSecret'' = [] \<or> text_of secret ''passphrase'' = []
             then Inl ErrInvalidBundle
             else Inr (APIKeySecretPassphrase (text_of secret ''apiKey'') (text_of secret ''apiSecret'')
                         (text_of secret ''passphrase''))
         | _ \<Rightarrow> Inl ErrInvalidBundle)
      else if kind = AuthLighterSigner then
        (case (decodeNested metadata [(''accountIndex'', Int64Slot), (''keyIndex'', Uint8Slot)],
               decodeNested secrets [(''privateKey'', StringSlot)]) of
           (Some meta, Some secret) \<Rightarrow>
             if int_of meta ''accountIndex'' < 0 \<or> text_of secret ''privateKey'' = [] then Inl ErrInvalidBundle
             else Inr (LighterSigner (text_of secret ''privateKey'') (int_of meta ''accountIndex'')
                         (uint8_of meta ''keyIndex''))
         | _ \<Rightarrow> Inl ErrInvalidBundle)
      else if kind = AuthEVMPrivateKey then
        (case (decodeNested metadata [(''accountAddress'', StringSlot)],
               decodeNested secrets [(''privateKey'', StringSlot)]) of
           (Some meta, Some secret) \<Rightarrow>
             if text_of secret ''privateKey'' = [] \<or>
                (text_of meta ''accountAddress'' \<noteq> [] \<and> validateEVMAddress (text_of meta ''accountAddress'') \<noteq> None)
             then Inl ErrInvalidBundle
             else Inr (EVMPrivateKey (text_of secret ''privateKey'') (text_of meta ''accountAddress''))
         | _ \<Rightarrow> Inl ErrInvalidBundle)
      else if kind = AuthAsterAPIWallet then
        (case (decodeNested metadata [(''userAddress'', StringSlot), (''expectedSigner'', StringSlot)],
               decodeNested secrets [(''apiWalletPrivateKey'', StringSlot)]) of
           (Some meta, Some secret) \<Rightarrow>
             if text_of secret ''apiWalletPrivateKey'' = [] \<or>
                validateEVMAddress (text_of meta ''userAddress'') \<noteq> None \<or>
                (text_of meta ''expectedSigner'' \<noteq> [] \<and> validateEVMAddress (text_of meta ''expectedSigner'') \<noteq> None)
             then Inl ErrInvalidBundle
             else Inr (AsterAPIWallet (text_of secret ''apiWalletPrivateKey'') (text_of meta ''userAddress'')
                         (text_of meta ''expectedSigner''))
         | _ \<Rightarrow> Inl ErrInvalidBundle)
      else if kind = AuthNadoSigner then
        (case (decodeNested metadata [(''subaccount'', StringSlot)],
               decodeNested secrets [(''privateKey'', StringSlot)]) of
           (Some meta, Some secret) \<Rightarrow>
             if TrimSpace (text_of meta ''subaccount'') = [] \<or>
                text_of meta ''subaccount'' \<noteq> TrimSpace (text_of meta ''subaccount'') \<or>
                text_of secret ''privateKey'' = []
             then Inl ErrInvalidBundle
             else Inr (NadoSigner (text_of secret ''privateKey'') (text_of meta ''subaccount''))
         | _ \<Rightarrow> Inl ErrInvalidBundle)
      else Inl ErrInvalidBundle)"

definition BundleV1 :: "(string \<times> slot) list" where
  "BundleV1 =
     [(''schemaVersion'', Int64Slot), (''venue'', StringSlot), (''authKind'', StringSlot),
      (''metadata'', RawSlot), (''secrets'', RawSlot)]"

definition registry_Decode :: "(string \<Rightarrow> json option) \<Rightarrow> AuthRegistry \<Rightarrow> string \<Rightarrow> string \<Rightarrow> goerror + Decoded" where
  "registry_Decode parse registry venue payload =
     (if payload = [] \<or> length payload > maxBundleBytes then Inl (invalidBundle ''body size'')
      else (case parse payload of
              None \<Rightarrow> Inl (invalidBundle ''json shape'')
            | Some v \<Rightarrow>
      if \<not> scanJSONValue v then Inl (invalidBundle ''json shape'')
      else (case decodeStrict BundleV1 v of
              None \<Rightarrow> Inl (invalidBundle ''envelope'')
            | Some bundle \<Rightarrow>
      (let normalizedVenue = ToLower (TrimSpace venue) in
       case registry normalizedVenue of
         None \<Rightarrow> Inl (invalidBundle ''identity'')
       | Some kind \<Rightarrow>
           if venue \<noteq> normalizedVenue \<or> text_of bundle ''venue'' \<noteq> normalizedVenue \<or>
              int_of bundle ''schemaVersion'' \<noteq> 1 \<or> text_of bundle ''authKind'' \<noteq> kind
           then Inl (invalidBundle ''identity'')
           else (case decodeCredentials kind (bundle ''metadata'') (bundle ''secrets'') of
                   Inl err \<Rightarrow> Inl (invalidBundle ''credentials'')
                 | Inr credentials \<Rightarrow>
                     Inr \<lparr>dd_Venue = normalizedVenue, dd_AuthKind = kind, dd_Credentials = credentials\<rparr>)))))"

section \<open>What decoding guarantees\<close>

fun credential_kind :: "Credential \<Rightarrow> AuthKind" where
  "credential_kind (APIKeySecret k s) = AuthAPIKeySecret"
| "credential_kind (APIKeySecretPassphrase k s p) = AuthAPIKeySecretPassphrase"
| "credential_kind (LighterSigner k a i) = AuthLighterSigner"
| "credential_kind (EVMPrivateKey k a) = AuthEVMPrivateKey"
| "credential_kind (AsterAPIWallet k u e) = AuthAsterAPIWallet"
| "credential_kind (NadoSigner k s) = AuthNadoSigner"

lemma decodeCredentials_kind:
  "decodeCredentials kind metadata secrets = Inr credentials \<Longrightarrow> credential_kind credentials = kind"
  by (auto simp: decodeCredentials_def split: if_splits option.splits)

lemma registry_Decode_Inr:
  assumes "registry_Decode parse registry venue payload = Inr decoded"
  shows "dd_Venue decoded = venue" "registry venue = Some (dd_AuthKind decoded)"
    "credential_kind (dd_Credentials decoded) = dd_AuthKind decoded"
  using assms
  by (auto simp: registry_Decode_def Let_def split: if_splits option.splits sum.splits dest: decodeCredentials_kind)

end
