(* ===== verification/Account_Model.thy ===== *)
theory Account_Model
  imports Gateway_Catalog Credentials
begin

text \<open>
  What the gateway shows of an account (gateway/account/model.go) and the venue clients of an
  account (gateway/account/clients.go). A venue client is a value of the type \<open>'c\<close>; building one is
  an argument, and so is the digest that scopes the request budget of an account.
\<close>

section \<open>Records\<close>

record AccountPosition =
  ap_Instrument :: InstrumentID
  ap_Side :: string
  ap_Size :: string
  ap_EntryPrice :: string
  ap_MarkPrice :: string
  ap_UnrealizedPnL :: string
  ap_LiquidationPrice :: string
  ap_Leverage :: string
  ap_Margin :: string
  ap_slot :: PositionSlot

record AccountBalance =
  ab_Market :: string
  ab_Asset :: string
  ab_Total :: string
  ab_Available :: string
  ab_Locked :: string

record AccountOrder =
  ao_Instrument :: InstrumentID
  ao_OrderID :: string
  ao_ClientOrderID :: string
  ao_Side :: string
  ao_Type :: string
  ao_Price :: string
  ao_Quantity :: string
  ao_Filled :: string
  ao_AvgPrice :: string
  ao_TimeInForce :: string
  ao_ReduceOnly :: bool
  ao_Status :: string
  ao_CreatedAt :: int
  ao_UpdatedAt :: int

record AccountFill =
  af_Instrument :: InstrumentID
  af_FillID :: string
  af_OrderID :: string
  af_ClientOrderID :: string
  af_Side :: string
  af_Price :: string
  af_Quantity :: string
  af_Fee :: string
  af_FeeAsset :: string
  af_Liquidity :: string
  af_Time :: int

section \<open>Projections\<close>

definition positive_text :: "'d Decimals \<Rightarrow> 'd OptionalDecimal \<Rightarrow> string" where
  "positive_text D v = (if od_Valid v \<and> IsPositive D (od_Value v) then DString D (od_Value v) else [])"

definition position_side :: "'d Decimals \<Rightarrow> 'd Position \<Rightarrow> string" where
  "position_side D position =
     (if pn_PositionSlot position = PositionSlotShort then ''short''
      else if pn_PositionSlot position = PositionSlotLong then ''long''
      else if IsNegative D (pn_Quantity position) \<or> pn_Side position = SideSell then ''short''
      else ''long'')"

definition projectPosition :: "'d Decimals \<Rightarrow> InstrumentID \<Rightarrow> 'd Position \<Rightarrow> AccountPosition option" where
  "projectPosition D iid position =
     (if IsZero D (pn_Quantity position) then None
      else Some \<lparr>ap_Instrument = iid, ap_Side = position_side D position,
             ap_Size = DString D (DAbs D (pn_Quantity position)),
             ap_EntryPrice = DString D (pn_EntryPrice position),
             ap_MarkPrice = (if IsPositive D (pn_MarkPrice position) then DString D (pn_MarkPrice position) else []),
             ap_UnrealizedPnL = DString D (pn_UnrealizedPnL position),
             ap_LiquidationPrice = positive_text D (pn_LiquidationPrice position),
             ap_Leverage = positive_text D (pn_Leverage position),
             ap_Margin = (if od_Valid (pn_MarginUsed position) then DString D (od_Value (pn_MarginUsed position)) else []),
             ap_slot = pn_PositionSlot position\<rparr>)"

definition normalizeWord :: "string \<Rightarrow> string" where
  "normalizeWord value =
     map (\<lambda>c. if CHR ''A'' \<le> c \<and> c \<le> CHR ''Z'' then char_of (of_char c + 32 :: nat)
              else if c = CHR ''-'' \<or> c = CHR '' '' then CHR ''_'' else c) value"

definition containsWord :: "string \<Rightarrow> string \<Rightarrow> bool" where
  "containsWord value fragment \<longleftrightarrow>
     list_ex (\<lambda>i. take (length fragment) (drop i value) = fragment) [0..<Suc (length value) - length fragment]"

definition NormalizeStatus :: "string \<Rightarrow> string" where
  "NormalizeStatus raw =
     (let status = normalizeWord raw in
      if status \<in> {''new'', ''live'', ''open'', ''resting'', ''untriggered'', ''created''} then ''open''
      else if status \<in> {''partially_filled'', ''partiallyfilled'', ''partial'', ''partially_filled_canceled''}
      then (if status = ''partially_filled_canceled'' then ''canceled'' else ''partially_filled'')
      else if status \<in> {''filled'', ''closed'', ''finished''} then ''filled''
      else if status \<in> {''rejected'', ''failed''} then ''rejected''
      else if status \<in> {''accepted'', ''accepted_pending'', ''pending'', ''in_progress'', ''pending_new''}
      then ''pending''
      else if containsWord status ''cancel'' \<or> status = ''expired'' then ''canceled''
      else if containsWord status ''reject'' then ''rejected''
      else if status = [] then ''open''
      else status)"

definition tifFromPolicy :: "LimitPolicy \<Rightarrow> string" where
  "tifFromPolicy policy =
     (if policy = LimitPolicyIOC then ''ioc'' else if policy = LimitPolicyPostOnly then ''post_only''
      else if policy = LimitPolicyResting then ''gtc'' else [])"

definition unixMilli :: "Time \<Rightarrow> int" where
  "unixMilli value = (if value = 0 then 0 else UnixMilli value)"

definition projectOrder :: "'d Decimals \<Rightarrow> InstrumentID \<Rightarrow> 'd Order \<Rightarrow> AccountOrder" where
  "projectOrder D iid order =
     \<lparr>ao_Instrument = iid, ao_OrderID = or_OrderID order, ao_ClientOrderID = or_ClientOrderID order,
      ao_Side = or_Side order, ao_Type = or_Type order,
      ao_Price = (if IsPositive D (or_LimitPrice order) then DString D (or_LimitPrice order) else []),
      ao_Quantity = DString D (or_Quantity order), ao_Filled = DString D (or_Filled order),
      ao_AvgPrice = positive_text D (or_AverageFillPrice order),
      ao_TimeInForce = tifFromPolicy (or_LimitPolicy order), ao_ReduceOnly = or_ReduceOnly order,
      ao_Status = NormalizeStatus (or_Status order), ao_CreatedAt = unixMilli (or_CreatedAt order),
      ao_UpdatedAt = unixMilli (or_UpdatedAt order)\<rparr>"

definition projectFill :: "'d Decimals \<Rightarrow> InstrumentID \<Rightarrow> 'd Fill \<Rightarrow> AccountFill" where
  "projectFill D iid fill =
     \<lparr>af_Instrument = iid, af_FillID = fi_FillID fill, af_OrderID = fi_OrderID fill,
      af_ClientOrderID = fi_ClientOrderID fill, af_Side = fi_Side fill, af_Price = DString D (fi_Price fill),
      af_Quantity = DString D (fi_Quantity fill), af_Fee = DString D (fi_Fee fill), af_FeeAsset = fi_FeeAsset fill,
      af_Liquidity = fi_Liquidity fill, af_Time = unixMilli (fi_Time fill)\<rparr>"

section \<open>Venue clients\<close>

text \<open>A nil client is None; a value has a spot or a perpetual client.\<close>

record 'c routeClient =
  rc_market :: Market
  rc_spot :: "'c option"
  rc_perp :: "'c option"

text \<open>orders: the order interface of the client, None when it is nil.\<close>

definition client_orders :: "'c routeClient \<Rightarrow> 'c option" where
  "client_orders client = (case rc_perp client of Some perp \<Rightarrow> Some perp | None \<Rightarrow> rc_spot client)"

text \<open>socket: None is the nil dereference of a value without a client.\<close>

definition client_socket :: "('c \<Rightarrow> 's) \<Rightarrow> 'c routeClient \<Rightarrow> 's option" where
  "client_socket WebSocket client =
     (case rc_perp client of Some perp \<Rightarrow> Some (WebSocket perp) | None \<Rightarrow> map_option WebSocket (rc_spot client))"

text \<open>close: the venue clients it closes.\<close>

definition client_close :: "'c routeClient \<Rightarrow> 'c list" where
  "client_close client =
     (case rc_perp client of Some perp \<Rightarrow> [perp] | None \<Rightarrow> []) @ (case rc_spot client of Some spot \<Rightarrow> [spot] | None \<Rightarrow> [])"

text \<open>The configurations of exchange/factory that the gateway asks for, and their options.\<close>

datatype Config =
    BinanceSpotConfig string string | BinanceUSDPerpConfig string string
  | BybitSpotConfig string string | BybitUSDTPerpConfig string string | BybitUSDCPerpConfig string string
  | GateSpotConfig string string | GateUSDTPerpConfig string string
  | OKXSpotConfig string string string | OKXUSDTPerpConfig string string string
  | BitgetSpotConfig string string string | BitgetUSDTPerpConfig string string string
  | BitgetUSDCPerpConfig string string string
  | LighterSpotConfig string int "8 word" | LighterPerpConfig string int "8 word"
  | HyperliquidSpotConfig string | HyperliquidPerpConfig string

record Options =
  op_Environment :: Environment
  op_Principal :: string
  op_AccountAddress :: "string option"

text \<open>The switch of buildClients: which product's client of which configuration a market gets.\<close>

fun market_config :: "Credential \<Rightarrow> string \<Rightarrow> (bool \<times> Config) option" where
  "market_config (APIKeySecret key secret) m =
     (if m = ''binance:spot'' then Some (False, BinanceSpotConfig key secret)
      else if m = ''binance:perp:USDT'' then Some (True, BinanceUSDPerpConfig key secret)
      else if m = ''bybit:spot'' then Some (False, BybitSpotConfig key secret)
      else if m = ''bybit:perp:USDT'' then Some (True, BybitUSDTPerpConfig key secret)
      else if m = ''bybit:perp:USDC'' then Some (True, BybitUSDCPerpConfig key secret)
      else if m = ''gate:spot'' then Some (False, GateSpotConfig key secret)
      else if m = ''gate:perp:USDT'' then Some (True, GateUSDTPerpConfig key secret)
      else None)"
| "market_config (APIKeySecretPassphrase key secret passphrase) m =
     (if m = ''okx:spot'' then Some (False, OKXSpotConfig key secret passphrase)
      else if m = ''okx:perp:USDT'' then Some (True, OKXUSDTPerpConfig key secret passphrase)
      else if m = ''bitget:spot'' then Some (False, BitgetSpotConfig key secret passphrase)
      else if m = ''bitget:perp:USDT'' then Some (True, BitgetUSDTPerpConfig key secret passphrase)
      else if m = ''bitget:perp:USDC'' then Some (True, BitgetUSDCPerpConfig key secret passphrase)
      else None)"
| "market_config (LighterSigner key accountIndex keyIndex) m =
     (if m = ''lighter:spot'' then Some (False, LighterSpotConfig key accountIndex keyIndex)
      else if m = ''lighter:perp:USDC'' then Some (True, LighterPerpConfig key accountIndex keyIndex)
      else None)"
| "market_config (EVMPrivateKey key accountAddress) m =
     (if m = ''hyperliquid:spot'' then Some (False, HyperliquidSpotConfig key)
      else if m = ''hyperliquid:perp:USDC'' then Some (True, HyperliquidPerpConfig key)
      else None)"
| "market_config _ m = None"

abbreviation client_options :: "(string \<Rightarrow> string) \<Rightarrow> string \<Rightarrow> Credential \<Rightarrow> Options" where
  "client_options digest accountID credentials \<equiv>
     \<lparr>op_Environment = EnvironmentLive, op_Principal = digest accountID,
      op_AccountAddress =
        (case credentials of EVMPrivateKey key accountAddress \<Rightarrow> if accountAddress \<noteq> [] then Some accountAddress else None
         | _ \<Rightarrow> None)\<rparr>"

text \<open>The loop of buildClients; a failure also gives the venue clients that were closed again.\<close>

fun build_loop ::
  "(Config \<Rightarrow> Options \<Rightarrow> goerror + 'c) \<Rightarrow> Options \<Rightarrow> Credential \<Rightarrow> Market list \<Rightarrow> 'c routeClient list \<Rightarrow>
   (goerror \<times> 'c list) + 'c routeClient list" where
  "build_loop New options credentials [] clients = Inr clients"
| "build_loop New options credentials (m # ms) clients =
     (case market_config credentials (Market_String m) of
        None \<Rightarrow> build_loop New options credentials ms clients
      | Some (perp, config) \<Rightarrow>
          (case New config options of
             Inl err \<Rightarrow> Inl (WrapError (Market_String m @ '': '' @ error_text err) [err], concat (map client_close clients))
           | Inr c \<Rightarrow>
               build_loop New options credentials ms
                 (clients @ [if perp then \<lparr>rc_market = m, rc_spot = None, rc_perp = Some c\<rparr>
                             else \<lparr>rc_market = m, rc_spot = Some c, rc_perp = None\<rparr>])))"

definition buildClients ::
  "(string \<Rightarrow> string) \<Rightarrow> (Config \<Rightarrow> Options \<Rightarrow> goerror + 'c) \<Rightarrow> string \<Rightarrow> Decoded \<Rightarrow>
   (goerror \<times> 'c list) + 'c routeClient list" where
  "buildClients digest New accountID decoded =
     (case build_loop New (client_options digest accountID (dd_Credentials decoded)) (dd_Credentials decoded)
             (MarketsOf (dd_Venue decoded)) [] of
        Inl failed \<Rightarrow> Inl failed
      | Inr clients \<Rightarrow>
          if clients = [] then Inl (PlainError (''venue '' @ dd_Venue decoded @ '' is not supported''), [])
          else Inr clients)"

section \<open>The clients of an account\<close>

text \<open>Every served market of a venue has a configuration for the venue's kind of credentials.\<close>

lemma market_config_served:
  assumes "m \<in> set Markets" "defaultAuthKinds (mk_Venue m) = Some (credential_kind credentials)"
  shows "\<exists>config. market_config credentials (Market_String m) = Some (mk_Product m = ProductPerp, config)"
proof -
  have "list_all (\<lambda>m. defaultAuthKinds (mk_Venue m) = Some (credential_kind credentials) \<longrightarrow>
      (\<exists>config. market_config credentials (Market_String m) = Some (mk_Product m = ProductPerp, config))) Markets"
    by (cases credentials) (simp_all add: Markets_def defaultAuthKinds_def Market_String_def market_def)
  then show ?thesis using assms by (simp add: list_all_iff)
qed

lemma Markets_products: "m \<in> set Markets \<Longrightarrow> mk_Product m = ProductPerp \<or> mk_Product m = ProductSpot"
proof -
  have "list_all (\<lambda>m. mk_Product m = ProductPerp \<or> mk_Product m = ProductSpot) Markets"
    by (simp add: Markets_def market_def)
  then show "m \<in> set Markets \<Longrightarrow> mk_Product m = ProductPerp \<or> mk_Product m = ProductSpot" by (simp add: list_all_iff)
qed

text \<open>A client value that serves its market: the client of the market's product, and no other.\<close>

definition serves :: "'c routeClient \<Rightarrow> bool" where
  "serves client \<longleftrightarrow>
     (rc_perp client \<noteq> None \<longleftrightarrow> mk_Product (rc_market client) = ProductPerp) \<and>
     (rc_spot client \<noteq> None \<longleftrightarrow> mk_Product (rc_market client) = ProductSpot) \<and> client_orders client \<noteq> None"

lemma build_loop_serves:
  assumes "build_loop New options credentials ms clients = Inr clients'" "list_all serves clients"
    and "set ms \<subseteq> set Markets" "\<forall>m\<in>set ms. defaultAuthKinds (mk_Venue m) = Some (credential_kind credentials)"
  shows "map rc_market clients' = map rc_market clients @ ms \<and> list_all serves clients'"
  using assms
proof (induction ms arbitrary: clients)
  case (Cons m ms)
  have m: "m \<in> set Markets" and kind: "defaultAuthKinds (mk_Venue m) = Some (credential_kind credentials)"
    using Cons.prems(3,4) by simp_all
  obtain config where config: "market_config credentials (Market_String m) = Some (mk_Product m = ProductPerp, config)"
    using market_config_served [OF m kind] by blast
  obtain c where c: "New config options = Inr c"
    using Cons.prems(1) config by (cases "New config options") simp_all
  let ?client = "if mk_Product m = ProductPerp then \<lparr>rc_market = m, rc_spot = None, rc_perp = Some c\<rparr>
    else \<lparr>rc_market = m, rc_spot = Some c, rc_perp = None\<rparr>"
  have "serves ?client" "rc_market ?client = m"
    using Markets_products [OF m] by (auto simp: serves_def client_orders_def)
  moreover have "build_loop New options credentials ms (clients @ [?client]) = Inr clients'"
    using Cons.prems(1) config c by simp
  ultimately show ?case
    using Cons.IH [of "clients @ [?client]"] Cons.prems(2-4) by simp
qed simp

lemma buildClients_serves:
  assumes "buildClients digest New iid decoded = Inr clients"
    and "defaultAuthKinds (dd_Venue decoded) = Some (credential_kind (dd_Credentials decoded))"
  shows "map rc_market clients = MarketsOf (dd_Venue decoded)" "list_all serves clients"
proof -
  have "build_loop New (client_options digest iid (dd_Credentials decoded)) (dd_Credentials decoded)
      (MarketsOf (dd_Venue decoded)) [] = Inr clients"
    using assms(1) by (auto simp: buildClients_def split: sum.splits if_splits)
  from build_loop_serves [OF this]
  show "map rc_market clients = MarketsOf (dd_Venue decoded)" "list_all serves clients"
    using assms(2) by (auto simp: MarketsOf_def)
qed

text \<open>
  The venue clients the factory hands out for the markets of an account, up to its first failure. The
  loop keeps all of them or closes all of them.
\<close>

fun made_clients :: "(Config \<Rightarrow> Options \<Rightarrow> goerror + 'c) \<Rightarrow> Options \<Rightarrow> Credential \<Rightarrow> Market list \<Rightarrow> 'c list" where
  "made_clients New options credentials [] = []"
| "made_clients New options credentials (m # ms) =
     (case market_config credentials (Market_String m) of
        None \<Rightarrow> made_clients New options credentials ms
      | Some (perp, config) \<Rightarrow>
          (case New config options of Inl err \<Rightarrow> [] | Inr c \<Rightarrow> c # made_clients New options credentials ms))"

lemma build_loop_made:
  "case build_loop New options credentials ms clients of
     Inl (err, released) \<Rightarrow> released = concat (map client_close clients) @ made_clients New options credentials ms
   | Inr clients' \<Rightarrow>
       concat (map client_close clients') = concat (map client_close clients) @ made_clients New options credentials ms"
proof (induction ms arbitrary: clients)
  case (Cons m ms)
  show ?case
  proof (cases "market_config credentials (Market_String m)")
    case None
    then show ?thesis using Cons.IH [of clients] by (auto split: sum.splits)
  next
    case (Some pc)
    obtain perp config where pc: "pc = (perp, config)" by (cases pc)
    show ?thesis
    proof (cases "New config options")
      case (Inl err)
      then show ?thesis using Some pc by simp
    next
      case (Inr c)
      let ?client = "if perp then \<lparr>rc_market = m, rc_spot = None, rc_perp = Some c\<rparr>
        else \<lparr>rc_market = m, rc_spot = Some c, rc_perp = None\<rparr>"
      have "client_close ?client = [c]" by (simp add: client_close_def)
      then show ?thesis
        using Some pc Inr Cons.IH [of "clients @ [?client]"] by (auto split: sum.splits)
    qed
  qed
qed simp

lemma buildClients_made:
  defines "made digest New iid decoded \<equiv>
    made_clients New (client_options digest iid (dd_Credentials decoded)) (dd_Credentials decoded) (MarketsOf (dd_Venue decoded))"
  shows "buildClients digest New iid decoded = Inl (err, released) \<Longrightarrow> released = made digest New iid decoded"
    and "buildClients digest New iid decoded = Inr clients \<Longrightarrow> concat (map client_close clients) = made digest New iid decoded"
  using build_loop_made [where New = New and options = "client_options digest iid (dd_Credentials decoded)" and
      credentials = "dd_Credentials decoded" and ms = "MarketsOf (dd_Venue decoded)" and clients = "[]"]
  unfolding made_def by (auto simp: buildClients_def split: sum.splits if_splits)

end
