(* ===== verification/Order_Book.thy ===== *)
theory Order_Book
  imports Exchange_Model
begin

text \<open>
  The guard every venue's order-book stream passes
  (exchange/internal/factoryclient/order_book_contract.go): shape, identity and sequence checks,
  and the replay book a late subscriber starts from. The book it keeps refines a map from prices to
  quantities; the locale \<open>book_side\<close> states what a side of a book promises, and the gateway's own
  local book (gateway/market/feeds.go) is a second instance of it.
\<close>

section \<open>Events and state\<close>

record 'd BookEvent =
  bk_Kind :: string
  bk_Instrument :: "'d Instrument"
  bk_Sequence :: string
  bk_Previous :: string
  bk_Resync :: bool
  bk_Bids :: "'d BookLevel list"
  bk_Asks :: "'d BookLevel list"
  bk_Time :: Time

type_synonym 'd book_map = "(string, 'd BookLevel) gomap"

record 'd orderBookContract =
  oc_venue :: Venue
  oc_product :: Product
  oc_instrument :: "'d Instrument"
  oc_started :: bool
  oc_sequence :: string
  oc_observed :: Time
  oc_bids :: "'d book_map"
  oc_asks :: "'d book_map"

definition newOrderBookContract ::
  "Venue \<Rightarrow> Product \<Rightarrow> 'd Instrument \<Rightarrow> 'd orderBookContract" where
  "newOrderBookContract venue product instrument =
     \<lparr>oc_venue = venue, oc_product = product, oc_instrument = instrument, oc_started = False,
      oc_sequence = [], oc_observed = 0, oc_bids = [], oc_asks = []\<rparr>"

section \<open>Operations\<close>

definition websocketError :: "Venue \<Rightarrow> Product \<Rightarrow> string \<Rightarrow> ErrorKind \<Rightarrow> string \<Rightarrow> goerror" where
  "websocketError venue product operation kind message =
     ExchangeError kind
       (no_details\<lparr>ed_Venue := venue, ed_Product := product, ed_Operation := operation,
                   ed_SafeMessage := message\<rparr>)"

abbreviation violation :: "'d orderBookContract \<Rightarrow> string \<Rightarrow> goerror" where
  "violation contract message \<equiv>
     websocketError (oc_venue contract) (oc_product contract) ''WatchOrderBook'' KindMalformedResponse message"

definition sameOrderBookInstrument :: "'d Instrument \<Rightarrow> 'd Instrument \<Rightarrow> bool" where
  "sameOrderBookInstrument expected actual \<longleftrightarrow>
     (let left = ins_Identity expected; right = ins_Identity actual in
      if id_Venue left \<noteq> id_Venue right \<or> id_Product left \<noteq> id_Product right then False
      else if id_NativeID left \<noteq> [] \<or> id_NativeID right \<noteq> []
      then id_NativeID left \<noteq> [] \<and> id_NativeID left = id_NativeID right
      else id_NativeSymbol left \<noteq> [] \<and> id_NativeSymbol left = id_NativeSymbol right)"

fun validateOrderBookLevels ::
  "'d Decimals \<Rightarrow> string \<Rightarrow> string \<Rightarrow> 'd BookLevel list \<Rightarrow> goerror option" where
  "validateOrderBookLevels D kind side [] = None"
| "validateOrderBookLevels D kind side (level # levels) =
     (if \<not> IsPositive D (bl_Price level) then Some (PlainError (side @ '' price must be positive''))
      else if IsNegative D (bl_Quantity level)
      then Some (PlainError (side @ '' quantity must not be negative''))
      else if (kind = EventSnapshot \<or> kind = EventFull) \<and> IsZero D (bl_Quantity level)
      then Some (PlainError (side @ '' complete-book quantity must be positive''))
      else validateOrderBookLevels D kind side levels)"

text \<open>The comparison of two sequence tokens, None when either is not an unsigned 64-bit decimal.\<close>

definition compareOrderBookSequence :: "string \<Rightarrow> string \<Rightarrow> int option" where
  "compareOrderBookSequence left right =
     (case (ParseUint 64 left, ParseUint 64 right) of
        (Some l, Some r) \<Rightarrow> Some (if l < r then -1 else if l > r then 1 else 0)
      | _ \<Rightarrow> None)"

fun patchBookSide :: "'d Decimals \<Rightarrow> 'd book_map \<Rightarrow> 'd BookLevel list \<Rightarrow> 'd book_map" where
  "patchBookSide D current [] = current"
| "patchBookSide D current (level # levels) =
     (let key = DString D (bl_Price level) in
      if IsZero D (bl_Quantity level)
      then patchBookSide D (AList.delete key current) levels
      else patchBookSide D (AList.update key level current) levels)"

definition replaceBookSide :: "'d Decimals \<Rightarrow> 'd BookLevel list \<Rightarrow> 'd book_map" where
  "replaceBookSide D levels = patchBookSide D [] levels"

text \<open>Cmp of the decimal package, by its documented relation to LessThan and GreaterThan.\<close>

definition decimal_Cmp :: "'d Decimals \<Rightarrow> 'd \<Rightarrow> 'd \<Rightarrow> int" where
  "decimal_Cmp D x y = (if LessThan D x y then -1 else if GreaterThan D x y then 1 else 0)"

definition sortedBookSide :: "'d Decimals \<Rightarrow> 'd book_map \<Rightarrow> bool \<Rightarrow> 'd BookLevel list" where
  "sortedBookSide D current descending =
     slice_sort
       (\<lambda>x y. let comparison = decimal_Cmp D (bl_Price x) (bl_Price y)
               in if descending then comparison > 0 else comparison < 0)
       (map snd current)"

definition accept ::
  "'d Decimals \<Rightarrow> 'd BookEvent \<Rightarrow> 'd orderBookContract \<Rightarrow>
   (bool \<times> goerror option) \<times> 'd orderBookContract" where
  "accept D event contract =
     (let sequence = TrimSpace (bk_Sequence event); previous = TrimSpace (bk_Previous event) in
      if bk_Kind event \<noteq> EventSnapshot \<and> bk_Kind event \<noteq> EventDelta \<and> bk_Kind event \<noteq> EventFull
      then ((False, Some (violation contract ''event kind must be snapshot, delta, or full'')), contract)
      else if \<not> sameOrderBookInstrument (oc_instrument contract) (bk_Instrument event)
      then ((False, Some (violation contract ''event instrument does not match subscription'')), contract)
      else (case validateOrderBookLevels D (bk_Kind event) ''bid'' (bk_Bids event) of
              Some err \<Rightarrow> ((False, Some (violation contract (error_text err))), contract)
            | None \<Rightarrow>
      (case validateOrderBookLevels D (bk_Kind event) ''ask'' (bk_Asks event) of
         Some err \<Rightarrow> ((False, Some (violation contract (error_text err))), contract)
       | None \<Rightarrow>
      if previous \<noteq> [] \<and> sequence = []
      then ((False, Some (violation contract ''predecessor requires a sequence'')), contract)
      else if bk_Kind event = EventSnapshot \<or> bk_Kind event = EventFull
      then ((True, None), contract\<lparr>oc_started := True, oc_sequence := sequence, oc_observed := bk_Time event,
              oc_bids := replaceBookSide D (bk_Bids event), oc_asks := replaceBookSide D (bk_Asks event)\<rparr>)
      else if \<not> oc_started contract
      then ((False, Some (violation contract ''delta arrived before a snapshot or full book'')), contract)
      else if sequence \<noteq> [] \<and> oc_sequence contract \<noteq> [] \<and>
              (case compareOrderBookSequence sequence (oc_sequence contract) of
                 Some comparison \<Rightarrow> comparison \<le> 0 | None \<Rightarrow> False)
      then ((False, None), contract)
      else if previous \<noteq> [] \<and> oc_sequence contract \<noteq> [] \<and> previous \<noteq> oc_sequence contract
      then ((False, Some (violation contract ''delta predecessor does not match the last sequence'')), contract)
      else ((True, None), contract\<lparr>oc_started := True, oc_sequence := sequence, oc_observed := bk_Time event,
              oc_bids := patchBookSide D (oc_bids contract) (bk_Bids event),
              oc_asks := patchBookSide D (oc_asks contract) (bk_Asks event)\<rparr>))))"

definition contract_snapshot :: "'d Decimals \<Rightarrow> 'd orderBookContract \<Rightarrow> 'd BookEvent option" where
  "contract_snapshot D contract =
     (if \<not> oc_started contract then None
      else Some \<lparr>bk_Kind = EventSnapshot, bk_Instrument = oc_instrument contract,
                 bk_Sequence = oc_sequence contract, bk_Previous = [], bk_Resync = False,
                 bk_Bids = sortedBookSide D (oc_bids contract) True,
                 bk_Asks = sortedBookSide D (oc_asks contract) False, bk_Time = oc_observed contract\<rparr>)"

section \<open>A side of a book as a map from prices to quantities\<close>

definition apply_level :: "('d \<Rightarrow> rat) \<Rightarrow> (rat \<rightharpoonup> rat) \<Rightarrow> 'd BookLevel \<Rightarrow> (rat \<rightharpoonup> rat)" where
  "apply_level val book level =
     book(val (bl_Price level) := (if val (bl_Quantity level) = 0 then None else Some (val (bl_Quantity level))))"

definition apply_levels :: "('d \<Rightarrow> rat) \<Rightarrow> (rat \<rightharpoonup> rat) \<Rightarrow> 'd BookLevel list \<Rightarrow> (rat \<rightharpoonup> rat)" where
  "apply_levels val book levels = foldl (apply_level val) book levels"

definition side_abs :: "('d \<Rightarrow> rat) \<Rightarrow> 'd book_map \<Rightarrow> (rat \<rightharpoonup> rat)" where
  "side_abs val side = map_of (map (\<lambda>(key, level). (val (bl_Price level), val (bl_Quantity level))) side)"

definition side_ok :: "'d Decimals \<Rightarrow> ('d \<Rightarrow> rat) \<Rightarrow> 'd book_map \<Rightarrow> bool" where
  "side_ok D val side \<longleftrightarrow> gomap_ok side \<and>
     (\<forall>(key, level)\<in>set side. key = DString D (bl_Price level) \<and> 0 < val (bl_Price level) \<and>
        0 < val (bl_Quantity level))"

text \<open>
  The contract of a side: an invariant, an abstraction to prices and quantities, and a patch
  operation that refines the application of the levels one by one.
\<close>

locale book_side =
  fixes val :: "'d \<Rightarrow> rat"
    and ok :: "'s \<Rightarrow> bool"
    and abs_side :: "'s \<Rightarrow> (rat \<rightharpoonup> rat)"
    and empty_side :: 's
    and patch :: "'s \<Rightarrow> 'd BookLevel list \<Rightarrow> 's"
  assumes empty_ok: "ok empty_side"
    and empty_abs: "abs_side empty_side = Map.empty"
    and patch_ok: "ok s \<Longrightarrow> (\<And>l. l \<in> set ls \<Longrightarrow> 0 < val (bl_Price l) \<and> 0 \<le> val (bl_Quantity l)) \<Longrightarrow> ok (patch s ls)"
    and patch_abs: "ok s \<Longrightarrow> (\<And>l. l \<in> set ls \<Longrightarrow> 0 < val (bl_Price l) \<and> 0 \<le> val (bl_Quantity l)) \<Longrightarrow>
      abs_side (patch s ls) = apply_levels val (abs_side s) ls"
begin

text \<open>Levels with distinct prices and positive quantities rebuild the book they list, in any order.\<close>

lemma rebuild:
  assumes "distinct (map (\<lambda>l. val (bl_Price l)) ls)"
    and "\<And>l. l \<in> set ls \<Longrightarrow> 0 < val (bl_Price l) \<and> 0 < val (bl_Quantity l)"
  shows "abs_side (patch empty_side ls) = map_of (map (\<lambda>l. (val (bl_Price l), val (bl_Quantity l))) ls)"
proof -
  have "abs_side (patch empty_side ls) = apply_levels val Map.empty ls"
    using assms(2) by (subst patch_abs) (auto simp: empty_ok empty_abs intro: less_imp_le)
  also have "\<dots> = map_of (map (\<lambda>l. (val (bl_Price l), val (bl_Quantity l))) ls)"
    using assms
  proof (induction ls rule: rev_induct)
    case (snoc l ls)
    then have q: "val (bl_Quantity l) \<noteq> 0" and fresh: "val (bl_Price l) \<notin> (\<lambda>l. val (bl_Price l)) ` set ls"
      by (auto simp: less_le)
    have "map_of (map (\<lambda>l. (val (bl_Price l), val (bl_Quantity l))) ls) (val (bl_Price l)) = None"
      using fresh by (auto simp: map_of_eq_None_iff)
    with snoc q show ?case
      by (auto simp: apply_levels_def apply_level_def map_add_def fun_eq_iff split: option.split)
  qed (simp add: apply_levels_def)
  finally show ?thesis .
qed

text \<open>Two books that accept the same updates stay equal.\<close>

lemma patch_same:
  assumes "ok s" "ok t" "abs_side s = abs_side t"
    and "\<And>l. l \<in> set ls \<Longrightarrow> 0 < val (bl_Price l) \<and> 0 \<le> val (bl_Quantity l)"
  shows "abs_side (patch s ls) = abs_side (patch t ls)"
  using assms by (simp add: patch_abs)

end

context decimal_laws
begin

lemma side_abs_update:
  assumes "\<And>k l. (k, l) \<in> set side \<Longrightarrow> k = DString D (bl_Price l)"
  shows "side_abs val (AList.update (DString D (bl_Price x)) x side) =
    (side_abs val side)(val (bl_Price x) \<mapsto> val (bl_Quantity x))"
  using assms
proof (induction side)
  case (Cons kl side)
  obtain k l where kl: "kl = (k, l)" by (cases kl)
  with Cons.prems have k: "k = DString D (bl_Price l)" by simp
  have IH: "side_abs val (AList.update (DString D (bl_Price x)) x side) =
      (side_abs val side)(val (bl_Price x) \<mapsto> val (bl_Quantity x))"
    by (rule Cons.IH) (use Cons.prems in auto)
  show ?case
    using IH by (cases "val (bl_Price l) = val (bl_Price x)")
      (auto simp: kl k side_abs_def String_eq_iff fun_eq_iff)
qed (simp add: side_abs_def)

lemma side_abs_delete:
  assumes "\<And>k l. (k, l) \<in> set side \<Longrightarrow> k = DString D (bl_Price l)"
  shows "side_abs val (AList.delete (DString D x) side) = (side_abs val side)(val x := None)"
  using assms
proof (induction side)
  case (Cons kl side)
  obtain k l where kl: "kl = (k, l)" by (cases kl)
  with Cons.prems have k: "k = DString D (bl_Price l)" by simp
  have IH: "side_abs val (AList.delete (DString D x) side) = (side_abs val side)(val x := None)"
    by (rule Cons.IH) (use Cons.prems in auto)
  show ?case
    using IH by (cases "val (bl_Price l) = val x")
      (auto simp: kl k side_abs_def String_eq_iff fun_eq_iff)
qed (simp add: side_abs_def)

lemma side_Nil [simp]: "side_ok D val []" "side_abs val [] = Map.empty"
  by (simp_all add: side_ok_def side_abs_def)

lemma side_ok_key: "side_ok D val side \<Longrightarrow> (k, l) \<in> set side \<Longrightarrow> k = DString D (bl_Price l)"
  by (auto simp: side_ok_def)

lemma side_ok_update:
  assumes "side_ok D val side" "0 < val (bl_Price l)" "0 < val (bl_Quantity l)"
  shows "side_ok D val (AList.update (DString D (bl_Price l)) l side)"
proof -
  have "kl \<in> set (AList.update k x al) \<Longrightarrow> kl = (k, x) \<or> kl \<in> set al" for kl k x and al :: "'a book_map"
    by (induction al) (auto split: if_splits)
  then show ?thesis
    using assms by (fastforce simp: side_ok_def)
qed

lemma side_ok_delete: "side_ok D val side \<Longrightarrow> side_ok D val (AList.delete k side)"
  using gomap_ok_delete [of side k] by (auto simp: side_ok_def AList.delete_eq)

lemma patchBookSide_refines:
  assumes "side_ok D val side" "\<And>l. l \<in> set ls \<Longrightarrow> 0 < val (bl_Price l) \<and> 0 \<le> val (bl_Quantity l)"
  shows "side_ok D val (patchBookSide D side ls) \<and>
    side_abs val (patchBookSide D side ls) = apply_levels val (side_abs val side) ls"
  using assms
proof (induction ls arbitrary: side)
  case (Cons l ls)
  have p: "0 < val (bl_Price l)" and q: "val (bl_Quantity l) \<noteq> 0 \<Longrightarrow> 0 < val (bl_Quantity l)"
    using Cons.prems(2) [of l] by auto
  note key = side_ok_key [OF Cons.prems(1)]
  show ?case
  proof (cases "val (bl_Quantity l) = 0")
    case True
    have "side_ok D val (AList.delete (DString D (bl_Price l)) side)"
      by (rule side_ok_delete) (rule Cons.prems(1))
    then show ?thesis
      using Cons.IH [of "AList.delete (DString D (bl_Price l)) side"] Cons.prems(2) True
      by (simp add: Let_def apply_levels_def apply_level_def side_abs_delete [OF key] fun_upd_def)
  next
    case False
    have "side_ok D val (AList.update (DString D (bl_Price l)) l side)"
      by (rule side_ok_update) (use Cons.prems(1) p q False in auto)
    then show ?thesis
      using Cons.IH [of "AList.update (DString D (bl_Price l)) l side"] Cons.prems(2) False
      by (simp add: Let_def apply_levels_def apply_level_def side_abs_update [OF key] fun_upd_def)
  qed
qed (simp add: apply_levels_def)

end

sublocale decimal_laws \<subseteq> contract_book: book_side val "side_ok D val" "side_abs val" "[]" "patchBookSide D"
  by unfold_locales (auto simp: patchBookSide_refines)

context decimal_laws
begin

lemma Cmp_descending: "0 < decimal_Cmp D x y \<longleftrightarrow> val y < val x"
  and Cmp_ascending: "decimal_Cmp D x y < 0 \<longleftrightarrow> val x < val y"
  by (auto simp: decimal_Cmp_def)

lemma sortedBookSide_eq:
  "sortedBookSide D side descending =
     slice_sort (\<lambda>x y. if descending then val (bl_Price y) < val (bl_Price x)
                      else val (bl_Price x) < val (bl_Price y)) (map snd side)"
  by (simp add: sortedBookSide_def Let_def Cmp_descending Cmp_ascending)

lemma set_sortedBookSide [simp]: "set (sortedBookSide D side descending) = snd ` set side"
  by (simp add: sortedBookSide_eq)

lemma side_prices_distinct:
  assumes "side_ok D val side"
  shows "distinct (map (\<lambda>l. val (bl_Price l)) (map snd side))"
proof -
  have keys: "map fst side = map (DString D) (map (\<lambda>l. bl_Price l) (map snd side))"
    using assms by (auto simp: side_ok_def)
  have "distinct (map fst side)"
    using assms by (simp add: side_ok_def gomap_ok_def)
  then have "distinct (map (DString D) (map (\<lambda>l. bl_Price l) (map snd side)))"
    by (simp only: keys)
  then show ?thesis
    by (auto simp: distinct_map inj_on_def String_eq_iff)
qed

lemma sorted_prices_distinct:
  assumes "side_ok D val side"
  shows "distinct (map (\<lambda>l. val (bl_Price l)) (sortedBookSide D side descending))"
proof -
  have "mset (map (\<lambda>l. val (bl_Price l)) (sortedBookSide D side descending)) =
      mset (map (\<lambda>l. val (bl_Price l)) (map snd side))"
    by (simp only: mset_map sortedBookSide_eq mset_slice_sort)
  with side_prices_distinct [OF assms] show ?thesis
    by (metis mset_eq_imp_distinct_iff)
qed

text \<open>The two orders of a side: best bid first, best ask first, without ties.\<close>

lemma sortedBookSide_sorted:
  assumes "side_ok D val side"
  shows "sorted_wrt (\<lambda>x y. if descending then val (bl_Price y) < val (bl_Price x)
      else val (bl_Price x) < val (bl_Price y)) (sortedBookSide D side descending)"
proof -
  let ?lt = "\<lambda>x y. if descending then val (bl_Price y) < val (bl_Price x)
      else val (bl_Price x) < val (bl_Price y)"
  have "strict_weak ?lt" by unfold_locales auto
  then have "sorted_wrt (\<lambda>x y. \<not> ?lt y x) (sortedBookSide D side descending)"
    unfolding sortedBookSide_eq by (rule strict_weak.sorted_slice_sort)
  moreover have "sorted_wrt (\<lambda>x y. val (bl_Price x) \<noteq> val (bl_Price y)) (sortedBookSide D side descending)"
    using sorted_prices_distinct [OF assms, of descending]
    by (simp add: distinct_conv_nth sorted_wrt_iff_nth_less)
  ultimately have "sorted_wrt (\<lambda>x y. \<not> ?lt y x \<and> val (bl_Price x) \<noteq> val (bl_Price y))
      (sortedBookSide D side descending)"
    by (simp add: sorted_wrt_iff_nth_less)
  then show ?thesis
    by (rule sorted_wrt_mono_rel [rotated]) (auto split: if_splits)
qed

text \<open>A listed side has the same abstraction as the side.\<close>

lemma map_of_sortedBookSide:
  assumes "side_ok D val side"
  shows "map_of (map (\<lambda>l. (val (bl_Price l), val (bl_Quantity l))) (sortedBookSide D side descending)) =
    side_abs val side"
proof -
  let ?h = "\<lambda>l. (val (bl_Price l), val (bl_Quantity l))"
  have sa: "side_abs val side = map_of (map ?h (map snd side))"
    by (simp add: side_abs_def comp_def case_prod_unfold)
  have "set (map ?h (sortedBookSide D side descending)) = set (map ?h (map snd side))"
    by auto
  moreover have "distinct (map fst (map ?h (sortedBookSide D side descending)))"
    "distinct (map fst (map ?h (map snd side)))"
    using sorted_prices_distinct [OF assms] side_prices_distinct [OF assms] by (simp_all add: comp_def)
  ultimately show ?thesis
    unfolding sa by (simp only: map_of_inject_set)
qed

lemma validate_levels_iff:
  "validateOrderBookLevels D kind side ls = None \<longleftrightarrow>
   (\<forall>l\<in>set ls. 0 < val (bl_Price l) \<and> 0 \<le> val (bl_Quantity l) \<and>
      (kind \<in> {EventSnapshot, EventFull} \<longrightarrow> val (bl_Quantity l) \<noteq> 0))"
  by (induction ls) (auto simp: not_less)

end

section \<open>The contract\<close>

definition contract_ok :: "'d Decimals \<Rightarrow> ('d \<Rightarrow> rat) \<Rightarrow> 'd orderBookContract \<Rightarrow> bool" where
  "contract_ok D val contract \<longleftrightarrow>
     side_ok D val (oc_bids contract) \<and> side_ok D val (oc_asks contract) \<and>
     TrimSpace (oc_sequence contract) = oc_sequence contract"

text \<open>What an event makes of a pair of price maps: a complete book replaces, a delta updates.\<close>

definition book_after ::
  "('d \<Rightarrow> rat) \<Rightarrow> 'd BookEvent \<Rightarrow> (rat \<rightharpoonup> rat) \<times> (rat \<rightharpoonup> rat) \<Rightarrow> (rat \<rightharpoonup> rat) \<times> (rat \<rightharpoonup> rat)" where
  "book_after val event book =
     (let base = (if bk_Kind event = EventDelta then book else (Map.empty, Map.empty))
      in (apply_levels val (fst base) (bk_Bids event), apply_levels val (snd base) (bk_Asks event)))"

definition contract_book :: "('d \<Rightarrow> rat) \<Rightarrow> 'd orderBookContract \<Rightarrow> (rat \<rightharpoonup> rat) \<times> (rat \<rightharpoonup> rat)" where
  "contract_book val contract = (side_abs val (oc_bids contract), side_abs val (oc_asks contract))"

text \<open>The book a list of levels shows.\<close>

definition levels_map :: "('d \<Rightarrow> rat) \<Rightarrow> 'd BookLevel list \<Rightarrow> (rat \<rightharpoonup> rat)" where
  "levels_map val levels = map_of (map (\<lambda>l. (val (bl_Price l), val (bl_Quantity l))) levels)"

lemma newOrderBookContract_simps [simp]:
  "oc_started (newOrderBookContract v p i) = False" "oc_sequence (newOrderBookContract v p i) = []"
  "oc_bids (newOrderBookContract v p i) = []" "oc_asks (newOrderBookContract v p i) = []"
  "oc_instrument (newOrderBookContract v p i) = i"
  by (simp_all add: newOrderBookContract_def)

text \<open>The checks an accepted event has passed and the state it leaves.\<close>

lemma accept_True:
  assumes "accept D event contract = ((True, err), contract')"
  shows "err = None" "bk_Kind event \<in> {EventSnapshot, EventDelta, EventFull}"
    "validateOrderBookLevels D (bk_Kind event) ''bid'' (bk_Bids event) = None"
    "validateOrderBookLevels D (bk_Kind event) ''ask'' (bk_Asks event) = None"
    "contract' = contract\<lparr>oc_started := True, oc_sequence := TrimSpace (bk_Sequence event),
       oc_observed := bk_Time event,
       oc_bids := (if bk_Kind event = EventDelta then patchBookSide D (oc_bids contract) (bk_Bids event)
                   else replaceBookSide D (bk_Bids event)),
       oc_asks := (if bk_Kind event = EventDelta then patchBookSide D (oc_asks contract) (bk_Asks event)
                   else replaceBookSide D (bk_Asks event))\<rparr>"
    "bk_Kind event = EventDelta \<Longrightarrow> oc_started contract"
  using assms by (auto simp: accept_def Let_def split: if_splits option.splits)

lemma accept_False:
  "accept D event contract = ((False, err), contract') \<Longrightarrow> contract' = contract"
  by (auto simp: accept_def Let_def split: if_splits option.splits)

lemma accept_delta_sequence:
  assumes "accept D event contract = ((True, err), contract')" "bk_Kind event = EventDelta"
  shows "TrimSpace (bk_Previous event) \<noteq> [] \<Longrightarrow> oc_sequence contract \<noteq> [] \<Longrightarrow>
      TrimSpace (bk_Previous event) = oc_sequence contract"
    "TrimSpace (bk_Sequence event) \<noteq> [] \<Longrightarrow> oc_sequence contract \<noteq> [] \<Longrightarrow>
      (case compareOrderBookSequence (TrimSpace (bk_Sequence event)) (oc_sequence contract) of
         Some comparison \<Rightarrow> 0 < comparison | None \<Rightarrow> True)"
  using assms by (auto simp: accept_def Let_def split: if_splits option.splits)

context decimal_laws
begin

lemma accept_refines:
  assumes "contract_ok D val contract" "accept D event contract = ((True, err), contract')"
  shows "contract_ok D val contract'" "contract_book val contract' = book_after val event (contract_book val contract)"
proof -
  note a = accept_True [OF assms(2)]
  have b: "\<And>l. l \<in> set (bk_Bids event) \<Longrightarrow> 0 < val (bl_Price l) \<and> 0 \<le> val (bl_Quantity l)"
    and k: "\<And>l. l \<in> set (bk_Asks event) \<Longrightarrow> 0 < val (bl_Price l) \<and> 0 \<le> val (bl_Quantity l)"
    using a(3,4) by (auto simp: validate_levels_iff)
  have ok: "side_ok D val (oc_bids contract)" "side_ok D val (oc_asks contract)"
    using assms(1) by (simp_all add: contract_ok_def)
  note ref = patchBookSide_refines [OF ok(1) b] patchBookSide_refines [OF ok(2) k]
    patchBookSide_refines [OF side_Nil(1) b] patchBookSide_refines [OF side_Nil(1) k]
  show "contract_ok D val contract'"
    using ref by (simp add: a(5) contract_ok_def replaceBookSide_def)
  show "contract_book val contract' = book_after val event (contract_book val contract)"
    using ref by (simp add: a(5) contract_book_def book_after_def replaceBookSide_def Let_def)
qed

end

section \<open>Streams of events\<close>

text \<open>The events of a stream the contract lets through, and the contract after the stream.\<close>

fun accept_all ::
  "'d Decimals \<Rightarrow> 'd BookEvent list \<Rightarrow> 'd orderBookContract \<Rightarrow> 'd BookEvent list \<times> 'd orderBookContract" where
  "accept_all D [] contract = ([], contract)"
| "accept_all D (event # events) contract =
     (case accept D event contract of
        ((accepted, _), contract') \<Rightarrow>
          (case accept_all D events contract' of
             (rest, contract'') \<Rightarrow> ((if accepted then event # rest else rest), contract'')))"

lemma accept_all_snoc:
  "accept_all D (events @ [event]) contract =
     (case accept_all D events contract of (delivered, c1) \<Rightarrow>
        (case accept D event c1 of ((accepted, _), c2) \<Rightarrow> (if accepted then delivered @ [event] else delivered, c2)))"
  by (induction events arbitrary: contract) (auto split: prod.split)

lemma accept_all_started:
  "accept_all D events (newOrderBookContract venue product instrument) = (accepted, contract) \<Longrightarrow>
   oc_started contract \<longleftrightarrow> accepted \<noteq> []"
proof (induction events arbitrary: accepted contract rule: rev_induct)
  case (snoc event events)
  obtain delivered c1 a e c2 where c1: "accept_all D events (newOrderBookContract venue product instrument) = (delivered, c1)"
      and c2: "accept D event c1 = ((a, e), c2)"
    by (metis surj_pair)
  then show ?case
    using snoc.prems snoc.IH [OF c1] accept_True(5) [of D event c1 e c2] accept_False [of D event c1 e c2]
    by (cases a) (auto simp: accept_all_snoc)
qed simp

text \<open>Two contracts that differ at most in how their sides are laid out and in the last time.\<close>

definition contract_equiv ::
  "'d Decimals \<Rightarrow> ('d \<Rightarrow> rat) \<Rightarrow> 'd orderBookContract \<Rightarrow> 'd orderBookContract \<Rightarrow> bool" where
  "contract_equiv D val c1 c2 \<longleftrightarrow>
     contract_ok D val c1 \<and> contract_ok D val c2 \<and> contract_book val c1 = contract_book val c2 \<and>
     oc_instrument c1 = oc_instrument c2 \<and> oc_started c1 = oc_started c2 \<and> oc_sequence c1 = oc_sequence c2"

lemma accept_verdict_equiv:
  assumes "oc_instrument c1 = oc_instrument c2" "oc_started c1 = oc_started c2" "oc_sequence c1 = oc_sequence c2"
  shows "fst (fst (accept D event c1)) = fst (fst (accept D event c2))"
  by (cases "validateOrderBookLevels D (bk_Kind event) ''bid'' (bk_Bids event)";
      cases "validateOrderBookLevels D (bk_Kind event) ''ask'' (bk_Asks event)")
    (simp_all only: accept_def Let_def option.case assms fst_conv if_distrib [where f = fst] cong: if_cong)

context decimal_laws
begin

lemma accept_equiv:
  assumes "contract_equiv D val c1 c2"
  shows "fst (fst (accept D event c1)) = fst (fst (accept D event c2)) \<and>
    contract_equiv D val (snd (accept D event c1)) (snd (accept D event c2))"
proof -
  have same: "oc_instrument c1 = oc_instrument c2" "oc_started c1 = oc_started c2"
      "oc_sequence c1 = oc_sequence c2" "contract_book val c1 = contract_book val c2"
    and ok: "contract_ok D val c1" "contract_ok D val c2"
    using assms by (simp_all add: contract_equiv_def)
  obtain a1 e1 d1 a2 e2 d2 where acc: "accept D event c1 = ((a1, e1), d1)" "accept D event c2 = ((a2, e2), d2)"
    by (metis surj_pair)
  have a: "a1 = a2" using accept_verdict_equiv [OF same(1,2,3), of D event] acc by simp
  show ?thesis
  proof (cases a1)
    case True
    with acc a have t: "accept D event c1 = ((True, e1), d1)" "accept D event c2 = ((True, e2), d2)"
      by simp_all
    have "contract_equiv D val d1 d2"
      using accept_refines [OF ok(1) t(1)] accept_refines [OF ok(2) t(2)]
        accept_True(5) [OF t(1)] accept_True(5) [OF t(2)] same
      by (simp add: contract_equiv_def)
    with acc a show ?thesis by simp
  next
    case False
    with acc a accept_False [of D event c1 e1 d1] accept_False [of D event c2 e2 d2] assms show ?thesis
      by simp
  qed
qed

lemma accept_all_equiv:
  "contract_equiv D val c1 c2 \<Longrightarrow>
   fst (accept_all D events c1) = fst (accept_all D events c2) \<and>
   contract_equiv D val (snd (accept_all D events c1)) (snd (accept_all D events c2))"
proof (induction events arbitrary: c1 c2)
  case (Cons event events)
  from accept_equiv [OF Cons.prems, of event] Cons.IH
  show ?case by (fastforce split: prod.split)
qed simp

lemma accept_all_refines:
  "contract_ok D val contract \<Longrightarrow> accept_all D events contract = (accepted, contract') \<Longrightarrow>
   contract_ok D val contract' \<and>
   contract_book val contract' = foldl (\<lambda>book event. book_after val event book) (contract_book val contract) accepted"
proof (induction events arbitrary: contract accepted)
  case (Cons event events)
  obtain a e c1 where acc: "accept D event contract = ((a, e), c1)" by (metis surj_pair)
  obtain rest where rest: "accept_all D events c1 = (rest, contract')"
    and accepted: "accepted = (if a then event # rest else rest)"
    using Cons.prems(2) acc by (auto split: prod.splits)
  show ?case
  proof (cases a)
    case True
    with acc have t: "accept D event contract = ((True, e), c1)" by simp
    show ?thesis
      using Cons.IH [OF accept_refines(1) [OF Cons.prems(1) t] rest] accept_refines(2) [OF Cons.prems(1) t]
        accepted True by simp
  next
    case False
    with acc accept_False [of D event contract e c1] have "c1 = contract" by simp
    with Cons.IH [OF _ rest] Cons.prems(1) accepted False show ?thesis by simp
  qed
qed simp

text \<open>The replay event lists the book of its contract, best price first on both sides.\<close>

lemma snapshot_lists_book:
  assumes "contract_ok D val c" "contract_snapshot D c = Some event"
  shows "sorted_wrt (\<lambda>x y. val (bl_Price y) < val (bl_Price x)) (bk_Bids event)"
    "sorted_wrt (\<lambda>x y. val (bl_Price x) < val (bl_Price y)) (bk_Asks event)"
    "(levels_map val (bk_Bids event), levels_map val (bk_Asks event)) = contract_book val c"
proof -
  have b: "bk_Bids event = sortedBookSide D (oc_bids c) True" "bk_Asks event = sortedBookSide D (oc_asks c) False"
    using assms(2) by (auto simp: contract_snapshot_def split: if_splits)
  have ok: "side_ok D val (oc_bids c)" "side_ok D val (oc_asks c)"
    using assms(1) by (simp_all add: contract_ok_def)
  show "sorted_wrt (\<lambda>x y. val (bl_Price y) < val (bl_Price x)) (bk_Bids event)"
    "sorted_wrt (\<lambda>x y. val (bl_Price x) < val (bl_Price y)) (bk_Asks event)"
    using sortedBookSide_sorted [OF ok(1), of True] sortedBookSide_sorted [OF ok(2), of False] b by simp_all
  show "(levels_map val (bk_Bids event), levels_map val (bk_Asks event)) = contract_book val c"
    by (simp add: b levels_map_def contract_book_def map_of_sortedBookSide ok)
qed

text \<open>The replay event of a started contract passes the checks of a fresh one and rebuilds the book.\<close>

lemma replay_equiv:
  assumes "contract_ok D val c" "oc_started c"
    and "sameOrderBookInstrument (oc_instrument c) (oc_instrument c)"
    and "contract_snapshot D c = Some event"
  shows "\<exists>c'. accept D event (newOrderBookContract (oc_venue c) (oc_product c) (oc_instrument c)) = ((True, None), c') \<and>
    contract_equiv D val c c'"
proof -
  let ?new = "newOrderBookContract (oc_venue c) (oc_product c) (oc_instrument c)"
  have ok: "side_ok D val (oc_bids c)" "side_ok D val (oc_asks c)" "TrimSpace (oc_sequence c) = oc_sequence c"
    using assms(1) by (simp_all add: contract_ok_def)
  have ev: "event = \<lparr>bk_Kind = EventSnapshot, bk_Instrument = oc_instrument c, bk_Sequence = oc_sequence c,
      bk_Previous = [], bk_Resync = False, bk_Bids = sortedBookSide D (oc_bids c) True,
      bk_Asks = sortedBookSide D (oc_asks c) False, bk_Time = oc_observed c\<rparr>"
    using assms(2,4) by (simp add: contract_snapshot_def)
  have pos: "\<And>l. l \<in> snd ` set (oc_bids c) \<Longrightarrow> 0 < val (bl_Price l) \<and> 0 < val (bl_Quantity l)"
      "\<And>l. l \<in> snd ` set (oc_asks c) \<Longrightarrow> 0 < val (bl_Price l) \<and> 0 < val (bl_Quantity l)"
    using ok(1,2) by (fastforce simp: side_ok_def)+
  have v: "validateOrderBookLevels D EventSnapshot ''bid'' (sortedBookSide D (oc_bids c) True) = None"
      "validateOrderBookLevels D EventSnapshot ''ask'' (sortedBookSide D (oc_asks c) False) = None"
    using pos by (fastforce simp: validate_levels_iff)+
  obtain c' where acc: "accept D event ?new = ((True, None), c')"
    using v assms(3) by (auto simp: ev accept_def Let_def)
  have c': "oc_instrument c' = oc_instrument c" "oc_started c'" "oc_sequence c' = oc_sequence c"
    using accept_True(5) [OF acc] ok(3) by (simp_all add: ev)
  have new_ok: "contract_ok D val ?new" by (simp add: contract_ok_def)
  have rebuild: "side_abs val (patchBookSide D [] (sortedBookSide D side d)) = side_abs val side"
    if "side_ok D val side" "\<And>l. l \<in> snd ` set side \<Longrightarrow> 0 < val (bl_Price l) \<and> 0 < val (bl_Quantity l)" for side d
    using contract_book.rebuild [OF sorted_prices_distinct [OF that(1)], of d] that(2)
    by (simp add: map_of_sortedBookSide [OF that(1)])
  have "contract_book val c' = contract_book val c"
    using accept_True(5) [OF acc] rebuild [OF ok(1) pos(1)] rebuild [OF ok(2) pos(2)]
    by (simp add: contract_book_def ev replaceBookSide_def)
  with acc c' accept_refines(1) [OF new_ok acc] assms(1,2) show ?thesis
    by (simp add: contract_equiv_def)
qed

end

text \<open>What an accepted delta owes to the event accepted before it, and the runs of deltas this gives.\<close>

definition event_number :: "'d BookEvent \<Rightarrow> nat option" where
  "event_number event = ParseUint 64 (TrimSpace (bk_Sequence event))"

definition delta_follows :: "'d BookEvent \<Rightarrow> 'd BookEvent \<Rightarrow> bool" where
  "delta_follows e f \<longleftrightarrow> bk_Kind f = EventDelta \<longrightarrow>
     (TrimSpace (bk_Sequence e) \<noteq> [] \<longrightarrow> TrimSpace (bk_Previous f) \<in> {[], TrimSpace (bk_Sequence e)}) \<and>
     (\<forall>m n. event_number e = Some m \<longrightarrow> event_number f = Some n \<longrightarrow> m < n)"

lemma accepted_follows:
  assumes "accept D f c = ((True, err), c')" "oc_sequence c = TrimSpace (bk_Sequence e)"
  shows "delta_follows e f"
proof -
  have "m < n" if delta: "bk_Kind f = EventDelta" and mn: "event_number e = Some m" "event_number f = Some n" for m n
  proof -
    have "oc_sequence c \<noteq> []" "TrimSpace (bk_Sequence f) \<noteq> []"
      using mn assms(2) by (auto simp: event_number_def ParseUint_def)
    with accept_delta_sequence(2) [OF assms(1) delta] mn assms(2) show ?thesis
      by (auto simp: event_number_def compareOrderBookSequence_def split: if_splits)
  qed
  then show ?thesis
    using accept_delta_sequence(1) [OF assms(1)] assms(2) by (auto simp: delta_follows_def)
qed

lemma accepted_run:
  assumes "accept_all D events (newOrderBookContract venue product instrument) = (accepted, contract)"
  shows "accepted \<noteq> [] \<Longrightarrow> bk_Kind (hd accepted) \<noteq> EventDelta" "successively delta_follows accepted"
    "accepted \<noteq> [] \<Longrightarrow> oc_sequence contract = TrimSpace (bk_Sequence (last accepted))"
proof -
  have "(accepted \<noteq> [] \<longrightarrow> bk_Kind (hd accepted) \<noteq> EventDelta \<and> oc_sequence contract = TrimSpace (bk_Sequence (last accepted))) \<and>
      successively delta_follows accepted"
    using assms
  proof (induction events arbitrary: accepted contract rule: rev_induct)
    case (snoc event events)
    obtain delivered c1 a e c2 where c1: "accept_all D events (newOrderBookContract venue product instrument) = (delivered, c1)"
        and c2: "accept D event c1 = ((a, e), c2)"
      by (metis surj_pair)
    show ?case
    proof (cases a)
      case True
      then have acc: "accept D event c1 = ((True, e), c2)" and eq: "accepted = delivered @ [event]" "contract = c2"
        using c1 c2 snoc.prems by (auto simp: accept_all_snoc)
      have "delivered = [] \<Longrightarrow> bk_Kind event \<noteq> EventDelta"
        using accept_True(6) [OF acc] accept_all_started [OF c1] by auto
      then show ?thesis
        using snoc.IH [OF c1] accept_True(5) [OF acc] accepted_follows [OF acc, of "last delivered"] eq
        by (cases "delivered = []") (auto simp: successively_append_iff)
    next
      case False
      then show ?thesis
        using c1 c2 snoc accept_False [of D event c1 e c2] by (auto simp: accept_all_snoc)
    qed
  qed simp
  then show "accepted \<noteq> [] \<Longrightarrow> bk_Kind (hd accepted) \<noteq> EventDelta" "successively delta_follows accepted"
    "accepted \<noteq> [] \<Longrightarrow> oc_sequence contract = TrimSpace (bk_Sequence (last accepted))"
    by blast+
qed

lemma run_increases:
  assumes "successively delta_follows (base # deltas)" "\<forall>f\<in>set deltas. bk_Kind f = EventDelta"
    "\<forall>e\<in>set (base # deltas). event_number e \<noteq> None"
  shows "sorted_wrt (<) (map (\<lambda>e. the (event_number e)) (base # deltas))"
  using assms
proof (induction deltas arbitrary: base)
  case (Cons f deltas)
  have "the (event_number base) < the (event_number f)"
    using Cons.prems by (auto simp: delta_follows_def)
  moreover have "sorted_wrt (<) (map (\<lambda>e. the (event_number e)) (f # deltas))"
    using Cons.prems by (intro Cons.IH) auto
  ultimately show ?case
    by auto
qed simp

section \<open>Properties\<close>

text \<open>
  C1: after any stream of events the replay book is exactly the accepted events folded over an empty book,
  where a snapshot or full event replaces both sides and a delta sets the quantity of each of its prices,
  zero removing the price. Events that are not accepted leave no trace. The replay event exists as soon as
  one event was accepted; its bids fall and its asks rise strictly in price, and they list exactly that book.
\<close>

theorem order_book_refines_price_map:
  assumes "decimal_laws D val"
    and "accept_all D events (newOrderBookContract venue product instrument) = (accepted, contract)"
  shows "contract_book val contract =
      foldl (\<lambda>book event. book_after val event book) (Map.empty, Map.empty) accepted \<and>
    (contract_snapshot D contract = None \<longleftrightarrow> accepted = []) \<and>
    (\<forall>event. contract_snapshot D contract = Some event \<longrightarrow>
       sorted_wrt (\<lambda>x y. val (bl_Price y) < val (bl_Price x)) (bk_Bids event) \<and>
       sorted_wrt (\<lambda>x y. val (bl_Price x) < val (bl_Price y)) (bk_Asks event) \<and>
       (levels_map val (bk_Bids event), levels_map val (bk_Asks event)) =
         foldl (\<lambda>book event. book_after val event book) (Map.empty, Map.empty) accepted)"
proof -
  have run: "contract_ok D val contract"
      "contract_book val contract = foldl (\<lambda>book event. book_after val event book) (Map.empty, Map.empty) accepted"
    using decimal_laws.accept_all_refines [OF assms(1) _ assms(2)] decimal_laws.side_Nil [OF assms(1)]
    by (simp_all add: contract_ok_def contract_book_def)
  then show ?thesis
    using accept_all_started [OF assms(2)] decimal_laws.snapshot_lists_book [OF assms(1) run(1)]
    by (auto simp: contract_snapshot_def)
qed

definition sample_book_event :: "string \<Rightarrow> string \<Rightarrow> string \<Rightarrow> dec BookLevel list \<Rightarrow> dec BookEvent" where
  "sample_book_event kind sequence previous bids =
     \<lparr>bk_Kind = kind, bk_Instrument = sample_instrument, bk_Sequence = sequence, bk_Previous = previous,
      bk_Resync = False, bk_Bids = bids, bk_Asks = [\<lparr>bl_Price = Dec 101 0, bl_Quantity = Dec 3 0\<rparr>],
      bk_Time = unix_epoch\<rparr>"

definition sample_book_stream :: "dec BookEvent list" where
  "sample_book_stream =
     [sample_book_event EventSnapshot ''10'' [] [\<lparr>bl_Price = Dec 100 0, bl_Quantity = Dec 1 0\<rparr>],
      sample_book_event EventDelta ''11'' ''10'' [\<lparr>bl_Price = Dec 1000 1, bl_Quantity = Dec 0 0\<rparr>,
        \<lparr>bl_Price = Dec 99 0, bl_Quantity = Dec 2 0\<rparr>],
      sample_book_event EventDelta ''11'' ''10'' [\<lparr>bl_Price = Dec 98 0, bl_Quantity = Dec 5 0\<rparr>]]"

abbreviation sample_contract :: "dec orderBookContract" where
  "sample_contract \<equiv> newOrderBookContract VenueBinance ProductPerp sample_instrument"

lemma sample_sequences [simp]:
  "TrimSpace ''10'' = ''10''" "TrimSpace ''11'' = ''11''" "TrimSpace ''15'' = ''15''" "TrimSpace ''20'' = ''20''"
  "ParseUint 64 ''10'' = Some 10" "ParseUint 64 ''11'' = Some 11" "ParseUint 64 ''15'' = Some 15"
  "ParseUint 64 ''20'' = Some 20"
  by (simp_all add: go_str ParseUint_def is_digit_def digits_val_def digit_val_def)

lemma sample_same_instrument [simp]: "sameOrderBookInstrument sample_instrument sample_instrument"
  by (simp add: sameOrderBookInstrument_def sample_instrument_def)

lemma sample_price_strings [simp]:
  "dec_string (Dec 100 0) = dec_string (Dec 1000 1)" "dec_string (Dec 1000 1) \<noteq> dec_string (Dec 99 0)"
  by (simp_all only: dec_string_eq_iff) simp_all

lemmas accept_eval = accept_def compareOrderBookSequence_def replaceBookSide_def dec_ops_def
  newOrderBookContract_def sample_book_event_def

lemma sample_stream_accepted:
  "\<exists>contract. accept_all dec_ops sample_book_stream sample_contract = (take 2 sample_book_stream, contract)"
  by (simp add: sample_book_stream_def accept_eval Let_def del: dec_string.simps)

theorem order_book_refines_price_map_witness:
  "\<exists>contract event. accept_all dec_ops sample_book_stream sample_contract = (take 2 sample_book_stream, contract) \<and>
     fst (contract_book dec_val contract) = [99 \<mapsto> 2] \<and>
     contract_snapshot dec_ops contract = Some event \<and> levels_map dec_val (bk_Bids event) = [99 \<mapsto> 2]"
proof -
  obtain contract where c: "accept_all dec_ops sample_book_stream sample_contract = (take 2 sample_book_stream, contract)"
    using sample_stream_accepted by blast
  note book = order_book_refines_price_map [OF dec.decimal_laws_axioms c]
  obtain event where e: "contract_snapshot dec_ops contract = Some event"
    using book by (cases "contract_snapshot dec_ops contract") (auto simp: sample_book_stream_def)
  have "fst (contract_book dec_val contract) = [99 \<mapsto> 2]" "levels_map dec_val (bk_Bids event) = [99 \<mapsto> 2]"
    using book e
    by (simp_all add: sample_book_stream_def book_after_def apply_levels_def apply_level_def sample_book_event_def
        fun_upd_twist)
  with c e show ?thesis by blast
qed

text \<open>
  A subscriber that joins a running stream from the replay event sees the same book as everyone else
  from then on: the replay event lists bids by falling and asks by rising price, a fresh contract accepts
  it, and after any further events both contracts have accepted the same ones and hold the same book.
\<close>

theorem late_subscriber_agrees:
  assumes "decimal_laws D val" and "contract_ok D val c" and "contract_snapshot D c = Some event"
    and "sameOrderBookInstrument (oc_instrument c) (oc_instrument c)"
  shows "sorted_wrt (\<lambda>x y. val (bl_Price y) < val (bl_Price x)) (bk_Bids event) \<and>
    sorted_wrt (\<lambda>x y. val (bl_Price x) < val (bl_Price y)) (bk_Asks event) \<and>
    (\<exists>c'. accept D event (newOrderBookContract (oc_venue c) (oc_product c) (oc_instrument c)) = ((True, None), c') \<and>
       (\<forall>events. fst (accept_all D events c') = fst (accept_all D events c) \<and>
          contract_book val (snd (accept_all D events c')) = contract_book val (snd (accept_all D events c))))"
proof -
  have started: "oc_started c"
    using assms(3) by (auto simp: contract_snapshot_def split: if_splits)
  obtain c' where "accept D event (newOrderBookContract (oc_venue c) (oc_product c) (oc_instrument c)) = ((True, None), c')"
    and eq: "contract_equiv D val c c'"
    using decimal_laws.replay_equiv [OF assms(1,2) started assms(4,3)] by blast
  moreover have "fst (accept_all D events c') = fst (accept_all D events c) \<and>
      contract_book val (snd (accept_all D events c')) = contract_book val (snd (accept_all D events c))" for events
    using decimal_laws.accept_all_equiv [OF assms(1) eq, of events] by (simp add: contract_equiv_def)
  ultimately show ?thesis
    using decimal_laws.snapshot_lists_book(1,2) [OF assms(1-3)] by auto
qed

theorem late_subscriber_agrees_witness:
  "\<exists>event c'. contract_snapshot dec_ops (snd (accept_all dec_ops sample_book_stream sample_contract)) = Some event \<and>
     accept dec_ops event sample_contract = ((True, None), c') \<and>
     contract_book dec_val c' = contract_book dec_val (snd (accept_all dec_ops sample_book_stream sample_contract))"
proof -
  obtain c where c: "accept_all dec_ops sample_book_stream sample_contract = (take 2 sample_book_stream, c)"
    using sample_stream_accepted by blast
  have ok: "contract_ok dec_ops dec_val c"
    using dec.accept_all_refines [OF _ c] by (simp add: contract_ok_def)
  have c': "oc_started c" "oc_instrument c = sample_instrument" "oc_venue c = VenueBinance" "oc_product c = ProductPerp"
    using c by (auto simp: sample_book_stream_def accept_eval Let_def simp del: dec_string.simps)
  obtain event where e: "contract_snapshot dec_ops c = Some event"
    using c'(1) by (simp add: contract_snapshot_def)
  from late_subscriber_agrees [OF dec.decimal_laws_axioms ok e] c' obtain d
    where "accept dec_ops event sample_contract = ((True, None), d)"
      and "\<forall>events. contract_book dec_val (snd (accept_all dec_ops events d)) =
        contract_book dec_val (snd (accept_all dec_ops events c))"
    by auto
  then show ?thesis
    using c e by (intro exI [of _ event] exI [of _ d]) (auto dest: spec [of _ "[]"])
qed



text \<open>
  An accepted delta without a sequence makes the contract forget the last one, so the next delta is
  accepted whatever predecessor it names: after a snapshot at 10 and a delta without sequence, a delta
  from 15 to 20 is accepted although 10 is the last sequence that was.
\<close>

theorem unsequenced_delta_forgets_sequence:
  "fst (accept_all dec_ops
     [sample_book_event EventSnapshot ''10'' [] [], sample_book_event EventDelta [] [] [],
      sample_book_event EventDelta ''20'' ''15'' []] sample_contract) =
   [sample_book_event EventSnapshot ''10'' [] [], sample_book_event EventDelta [] [] [],
    sample_book_event EventDelta ''20'' ''15'' []]"
  by (simp add: accept_eval Let_def del: dec_string.simps)

end
