(* ===== verification/Hub.thy ===== *)
theory Hub
  imports Prelude
begin

text \<open>
  The fan-out of one upstream feed to many clients (gateway/hub/hub.go). A topic is opened by its
  first subscriber and closed a linger period after its last one leaves. Every method runs under the
  hub's mutex and is one step; a timer of time.AfterFunc has two steps, because its function runs in
  a goroutine of its own: it expires, and later its callback takes the mutex. Stop only prevents a
  timer that has not expired.
\<close>

section \<open>State\<close>

record Key =
  ky_Channel :: string
  ky_Instrument :: string
  ky_Interval :: string
  ky_Account :: string

text \<open>
  A topic: the identity of the object (and of its context), its sinks, the replay value of each
  channel, the channels in the order they were first retained, and the linger timer. \<open>'s\<close> is the
  type of sinks, \<open>'p\<close> of encoded messages.
\<close>

record ('s, 'p) topic =
  tp_id :: nat
  tp_sinks :: "'s list"
  tp_retained :: "string \<rightharpoonup> 'p"
  tp_order :: "string list"
  tp_linger :: "nat option"

record hub_timer =
  tm_id :: nat
  tm_key :: Key
  tm_topic :: nat
  tm_deadline :: Time

record ('s, 'p) Hub =
  hb_linger :: Duration
  hb_topics :: "Key \<rightharpoonup> ('s, 'p) topic"
  hb_closed :: bool
  hb_cancelled :: "nat set"
  hb_next :: nat
  hb_timers :: "hub_timer list"
  hb_callbacks :: "hub_timer list"
  hb_sent :: "('s \<times> 'p) list"

definition hub_New :: "Duration \<Rightarrow> ('s, 'p) Hub" where
  "hub_New linger =
     \<lparr>hb_linger = linger, hb_topics = Map.empty, hb_closed = False, hb_cancelled = {}, hb_next = 0,
      hb_timers = [], hb_callbacks = [], hb_sent = []\<rparr>"

section \<open>Operations\<close>

definition stop_timer :: "nat option \<Rightarrow> ('s, 'p) Hub \<Rightarrow> ('s, 'p) Hub" where
  "stop_timer timer hub =
     (case timer of
        None \<Rightarrow> hub
      | Some t \<Rightarrow> hub\<lparr>hb_timers := filter (\<lambda>tm. tm_id tm \<noteq> t) (hb_timers hub)\<rparr>)"

definition Subscribe :: "Key \<Rightarrow> 's \<Rightarrow> ('s, 'p) Hub \<Rightarrow> ('s, 'p) Hub" where
  "Subscribe key sink hub =
     (if hb_closed hub then hub
      else
        (let (current, hub1) =
           (case hb_topics hub key of
              Some t \<Rightarrow> (t, hub)
            | None \<Rightarrow>
                (\<lparr>tp_id = hb_next hub, tp_sinks = [], tp_retained = Map.empty, tp_order = [], tp_linger = None\<rparr>,
                 hub\<lparr>hb_next := Suc (hb_next hub)\<rparr>));
             hub2 = stop_timer (tp_linger current) hub1;
             current' = current\<lparr>tp_linger := None, tp_sinks := List.insert sink (tp_sinks current)\<rparr>
         in hub2\<lparr>hb_topics := (hb_topics hub2)(key \<mapsto> current'),
                 hb_sent := hb_sent hub2 @
                   map (\<lambda>channel. (sink, the (tp_retained current' channel))) (tp_order current')\<rparr>))"

definition Unsubscribe :: "Key \<Rightarrow> 's \<Rightarrow> Time \<Rightarrow> ('s, 'p) Hub \<Rightarrow> ('s, 'p) Hub" where
  "Unsubscribe key sink now hub =
     (case hb_topics hub key of
        None \<Rightarrow> hub
      | Some current \<Rightarrow>
          (let current1 = current\<lparr>tp_sinks := removeAll sink (tp_sinks current)\<rparr> in
           if tp_sinks current1 \<noteq> [] \<or> tp_linger current1 \<noteq> None
           then hub\<lparr>hb_topics := (hb_topics hub)(key \<mapsto> current1)\<rparr>
           else
             (let t = hb_next hub in
              hub\<lparr>hb_next := Suc t,
                  hb_topics := (hb_topics hub)(key \<mapsto> current1\<lparr>tp_linger := Some t\<rparr>),
                  hb_timers := hb_timers hub @
                    [\<lparr>tm_id = t, tm_key = key, tm_topic = tp_id current, tm_deadline = now + hb_linger hub\<rparr>]\<rparr>)))"

text \<open>A timer expires: its callback is started but has not taken the mutex yet.\<close>

definition timer_expires :: "nat \<Rightarrow> ('s, 'p) Hub \<Rightarrow> ('s, 'p) Hub" where
  "timer_expires t hub =
     hub\<lparr>hb_timers := filter (\<lambda>tm. tm_id tm \<noteq> t) (hb_timers hub),
         hb_callbacks := hb_callbacks hub @ filter (\<lambda>tm. tm_id tm = t) (hb_timers hub)\<rparr>"

text \<open>The callback of a linger timer.\<close>

definition linger_callback :: "nat \<Rightarrow> ('s, 'p) Hub \<Rightarrow> ('s, 'p) Hub" where
  "linger_callback t hub =
     (case find (\<lambda>tm. tm_id tm = t) (hb_callbacks hub) of
        None \<Rightarrow> hub
      | Some tm \<Rightarrow>
          (let hub1 = hub\<lparr>hb_callbacks := filter (\<lambda>tm. tm_id tm \<noteq> t) (hb_callbacks hub)\<rparr> in
           case hb_topics hub (tm_key tm) of
             None \<Rightarrow> hub1
           | Some current \<Rightarrow>
               if tp_id current = tm_topic tm \<and> tp_sinks current = []
               then hub1\<lparr>hb_cancelled := insert (tp_id current) (hb_cancelled hub1),
                         hb_topics := (hb_topics hub1)(tm_key tm := None)\<rparr>
               else hub1))"

definition hub_Close :: "('s, 'p) Hub \<Rightarrow> ('s, 'p) Hub" where
  "hub_Close hub =
     (let open_topics = ran (hb_topics hub) in
      hub\<lparr>hb_closed := True,
          hb_timers := filter (\<lambda>tm. Some (tm_id tm) \<notin> tp_linger ` open_topics) (hb_timers hub),
          hb_cancelled := hb_cancelled hub \<union> tp_id ` open_topics, hb_topics := Map.empty\<rparr>)"

definition Topics :: "('s, 'p) Hub \<Rightarrow> nat" where
  "Topics hub = card (dom (hb_topics hub))"

text \<open>
  emit, for the topic object \<open>tid\<close> of a key: an encoding failure (payload None) and a cancelled
  context drop the message.
\<close>

definition emit ::
  "Key \<Rightarrow> nat \<Rightarrow> string \<Rightarrow> 'p option \<Rightarrow> bool \<Rightarrow> ('s, 'p) Hub \<Rightarrow> ('s, 'p) Hub" where
  "emit key tid channel encoded retain hub =
     (case encoded of
        None \<Rightarrow> hub
      | Some payload \<Rightarrow>
          if tid \<in> hb_cancelled hub then hub
          else
            (case hb_topics hub key of
               None \<Rightarrow> hub
             | Some current \<Rightarrow>
                 if tp_id current \<noteq> tid then hub
                 else
                   (let current1 =
                      (if retain then
                         current\<lparr>tp_order := (if tp_retained current channel = None
                                              then tp_order current @ [channel] else tp_order current),
                                 tp_retained := (tp_retained current)(channel \<mapsto> payload)\<rparr>
                       else current)
                    in hub\<lparr>hb_topics := (hb_topics hub)(key \<mapsto> current1),
                           hb_sent := hb_sent hub @ map (\<lambda>sink. (sink, payload)) (tp_sinks current1)\<rparr>)))"

text \<open>
  The retry schedule of run: the backoff after a source ended that ran for \<open>elapsed\<close>, the wait with
  the jitter drawn below it, and the backoff of the next round.
\<close>

definition round_backoff :: "Duration \<Rightarrow> Duration \<Rightarrow> Duration" where
  "round_backoff elapsed backoff = (if elapsed > Minute then Second else backoff)"

definition round_wait :: "Duration \<Rightarrow> Duration \<Rightarrow> Duration" where
  "round_wait backoff draw = backoff + draw mod (backoff div 4 + 1)"

definition next_backoff :: "Duration \<Rightarrow> Duration" where
  "next_backoff backoff = (if backoff < 30 * Second then backoff * 2 else backoff)"

text \<open>The waits of a topic whose source ran for the given times and drew the given jitter.\<close>

fun retry_waits :: "Duration \<Rightarrow> (Duration \<times> Duration) list \<Rightarrow> Duration list" where
  "retry_waits backoff [] = []"
| "retry_waits backoff ((elapsed, draw) # rounds) =
     (let b = round_backoff elapsed backoff in round_wait b draw # retry_waits (next_backoff b) rounds)"

section \<open>Interleavings\<close>

inductive hub_reach :: "Duration \<Rightarrow> ('s, 'p) Hub \<Rightarrow> bool" for linger where
  hub_new: "hub_reach linger (hub_New linger)"
| hub_subscribe: "hub_reach linger h \<Longrightarrow> hub_reach linger (Subscribe key sink h)"
| hub_unsubscribe: "hub_reach linger h \<Longrightarrow> hub_reach linger (Unsubscribe key sink now h)"
| hub_emit: "hub_reach linger h \<Longrightarrow> hub_reach linger (emit key tid channel encoded retain h)"
| hub_expire: "hub_reach linger h \<Longrightarrow> hub_reach linger (timer_expires t h)"
| hub_callback: "hub_reach linger h \<Longrightarrow> hub_reach linger (linger_callback t h)"
| hub_close: "hub_reach linger h \<Longrightarrow> hub_reach linger (hub_Close h)"

definition topic_ok :: "('s, 'p) topic \<Rightarrow> bool" where
  "topic_ok t \<longleftrightarrow> distinct (tp_sinks t) \<and> distinct (tp_order t) \<and> set (tp_order t) = dom (tp_retained t)"

text \<open>
  The invariant: replay values and their order agree; a topic without subscribers has its linger
  timer running or expired, so it will close; topic objects are not shared between keys and a live
  one is not cancelled; a closed hub has no topics.
\<close>

definition pending :: "('s, 'p) Hub \<Rightarrow> hub_timer set" where
  "pending hub = set (hb_timers hub) \<union> set (hb_callbacks hub)"

definition linger_ok :: "('s, 'p) Hub \<Rightarrow> Key \<Rightarrow> ('s, 'p) topic \<Rightarrow> bool" where
  "linger_ok hub key t \<longleftrightarrow>
     (case tp_linger t of
        None \<Rightarrow> tp_sinks t \<noteq> []
      | Some x \<Rightarrow> tp_sinks t = [] \<and>
          (\<exists>tm\<in>pending hub. tm_id tm = x \<and> tm_key tm = key \<and> tm_topic tm = tp_id t))"

definition hub_ok :: "('s, 'p) Hub \<Rightarrow> bool" where
  "hub_ok hub \<longleftrightarrow>
     (\<forall>key t. hb_topics hub key = Some t \<longrightarrow>
        topic_ok t \<and> tp_id t \<notin> hb_cancelled hub \<and> tp_id t < hb_next hub \<and> linger_ok hub key t) \<and>
     (\<forall>k1 k2 t1 t2. hb_topics hub k1 = Some t1 \<longrightarrow> hb_topics hub k2 = Some t2 \<longrightarrow> tp_id t1 = tp_id t2 \<longrightarrow> k1 = k2) \<and>
     (\<forall>tm\<in>pending hub. tm_id tm < hb_next hub) \<and>
     (\<forall>tm\<in>pending hub. \<forall>tm'\<in>pending hub. tm_id tm = tm_id tm' \<longrightarrow> tm = tm') \<and>
     (\<forall>c\<in>hb_cancelled hub. c < hb_next hub) \<and>
     (hb_closed hub \<longrightarrow> hb_topics hub = Map.empty)"

section \<open>Every step keeps the invariant\<close>

lemma hub_okD:
  assumes "hub_ok hub" "hb_topics hub key = Some t"
  shows "topic_ok t" "tp_id t \<notin> hb_cancelled hub" "tp_id t < hb_next hub" "linger_ok hub key t"
  using assms by (simp_all add: hub_ok_def)

lemma hub_okI:
  assumes "\<And>key t. hb_topics hub key = Some t \<Longrightarrow>
      topic_ok t \<and> tp_id t \<notin> hb_cancelled hub \<and> tp_id t < hb_next hub \<and> linger_ok hub key t"
    and "\<And>k1 k2 t1 t2. hb_topics hub k1 = Some t1 \<Longrightarrow> hb_topics hub k2 = Some t2 \<Longrightarrow> tp_id t1 = tp_id t2 \<Longrightarrow> k1 = k2"
    and "\<And>tm. tm \<in> pending hub \<Longrightarrow> tm_id tm < hb_next hub"
    and "\<And>tm tm'. tm \<in> pending hub \<Longrightarrow> tm' \<in> pending hub \<Longrightarrow> tm_id tm = tm_id tm' \<Longrightarrow> tm = tm'"
    and "\<And>c. c \<in> hb_cancelled hub \<Longrightarrow> c < hb_next hub"
    and "hb_closed hub \<Longrightarrow> hb_topics hub = Map.empty"
  shows "hub_ok hub"
  unfolding hub_ok_def using assms by blast

lemma hub_ok_unique:
  "hub_ok hub \<Longrightarrow> tm \<in> pending hub \<Longrightarrow> tm' \<in> pending hub \<Longrightarrow> tm_id tm = tm_id tm' \<Longrightarrow> tm = tm'"
  by (simp add: hub_ok_def)

lemma hub_ok_keys:
  "hub_ok hub \<Longrightarrow> hb_topics hub k1 = Some t1 \<Longrightarrow> hb_topics hub k2 = Some t2 \<Longrightarrow> tp_id t1 = tp_id t2 \<Longrightarrow> k1 = k2"
  unfolding hub_ok_def by blast

text \<open>A topic keeps its linger timer while only timers of other topics disappear.\<close>

lemma linger_ok_mono:
  assumes "linger_ok hub key t"
    and "\<And>tm. tm \<in> pending hub \<Longrightarrow> tm_key tm = key \<Longrightarrow> tm_topic tm = tp_id t \<Longrightarrow> tp_linger t = Some (tm_id tm) \<Longrightarrow>
      tm \<in> pending hub'"
  shows "linger_ok hub' key t"
  using assms by (auto simp: linger_ok_def split: option.splits)

lemma topic_ok_sinks [simp]:
  "distinct ss \<Longrightarrow> topic_ok (t\<lparr>tp_sinks := ss\<rparr>) \<longleftrightarrow> distinct (tp_order t) \<and> set (tp_order t) = dom (tp_retained t)"
  "topic_ok (t\<lparr>tp_linger := l\<rparr>) \<longleftrightarrow> topic_ok t"
  by (simp_all add: topic_ok_def)

lemma pending_simps [simp]:
  "pending (h\<lparr>hb_topics := ts\<rparr>) = pending h" "pending (h\<lparr>hb_sent := snt\<rparr>) = pending h"
  "pending (h\<lparr>hb_next := n\<rparr>) = pending h" "pending (h\<lparr>hb_cancelled := c\<rparr>) = pending h"
  "pending (h\<lparr>hb_closed := b\<rparr>) = pending h"
  by (simp_all add: pending_def)

text \<open>Installing one topic: the other topics keep their timers, and its object is its own or fresh.\<close>

lemma hub_ok_put:
  assumes "hub_ok h" "hb_topics h' = (hb_topics h)(key \<mapsto> t')"
    and frame: "hb_cancelled h' = hb_cancelled h" "\<not> hb_closed h'" "hb_next h \<le> hb_next h'"
    and t': "topic_ok t'" "tp_id t' < hb_next h'" "linger_ok h' key t'"
    and object: "(\<exists>t. hb_topics h key = Some t \<and> tp_id t' = tp_id t) \<or> hb_next h \<le> tp_id t'"
    and kept: "\<And>tm. tm \<in> pending h \<Longrightarrow> tm_key tm \<noteq> key \<Longrightarrow> tm \<in> pending h'"
    and timers: "\<And>tm. tm \<in> pending h' \<Longrightarrow> tm_id tm < hb_next h'"
      "\<And>tm tm'. tm \<in> pending h' \<Longrightarrow> tm' \<in> pending h' \<Longrightarrow> tm_id tm = tm_id tm' \<Longrightarrow> tm = tm'"
  shows "hub_ok h'"
proof (rule hub_okI)
  have cancelled: "c \<in> hb_cancelled h \<Longrightarrow> c < hb_next h" for c
    using assms(1) by (simp add: hub_ok_def)
  have id': "tp_id t' \<notin> hb_cancelled h"
    using object hub_okD(2) [OF assms(1)] cancelled by (metis leD)
  fix k t assume k: "hb_topics h' k = Some t"
  show "topic_ok t \<and> tp_id t \<notin> hb_cancelled h' \<and> tp_id t < hb_next h' \<and> linger_ok h' k t"
  proof (cases "k = key")
    case True
    with k t' id' show ?thesis by (simp add: assms(2) frame(1))
  next
    case False
    with k have old: "hb_topics h k = Some t" by (simp add: assms(2))
    have "linger_ok h' k t"
      by (rule linger_ok_mono [OF hub_okD(4) [OF assms(1) old]]) (use False kept in auto)
    with hub_okD(1,2,3) [OF assms(1) old] frame show ?thesis by simp
  qed
next
  fix k1 k2 t1 t2 assume k: "hb_topics h' k1 = Some t1" "hb_topics h' k2 = Some t2" "tp_id t1 = tp_id t2"
  have other: "tp_id t \<noteq> tp_id t'" if "hb_topics h k = Some t" "k \<noteq> key" for k t
    using object hub_ok_keys [OF assms(1) that(1)] hub_okD(3) [OF assms(1) that(1)] that(2) by (metis leD)
  show "k1 = k2"
    using k other hub_ok_keys [OF assms(1)] by (cases "k1 = key"; cases "k2 = key") (auto simp: assms(2))
next
  fix c assume "c \<in> hb_cancelled h'"
  then show "c < hb_next h'"
    using assms(1) frame by (auto simp: hub_ok_def)
qed (use timers frame in auto)

lemma open_topic: "hub_ok h \<Longrightarrow> hb_topics h key = Some t \<Longrightarrow> \<not> hb_closed h"
  by (auto simp: hub_ok_def)

lemma hub_ok_timer: "hub_ok h \<Longrightarrow> tm \<in> pending h \<Longrightarrow> tm_id tm < hb_next h"
  by (simp add: hub_ok_def)

lemma linger_ok_cong:
  "pending h' = pending h \<Longrightarrow> tp_id t' = tp_id t \<Longrightarrow> tp_sinks t' = tp_sinks t \<Longrightarrow> tp_linger t' = tp_linger t \<Longrightarrow>
   linger_ok h' key t' = linger_ok h key t"
  by (simp add: linger_ok_def split: option.split)

lemma emit_ok:
  assumes "hub_ok h"
  shows "hub_ok (emit key tid channel encoded retain h)"
proof (cases "\<exists>payload current. encoded = Some payload \<and> tid \<notin> hb_cancelled h \<and>
    hb_topics h key = Some current \<and> tp_id current = tid")
  case False
  then have "emit key tid channel encoded retain h = h"
    by (auto simp: emit_def split: option.split)
  with assms show ?thesis by simp
next
  case True
  then obtain payload t where e: "encoded = Some payload" "tid \<notin> hb_cancelled h"
      "hb_topics h key = Some t" "tp_id t = tid" by blast
  define t' where "t' = (if retain then
      t\<lparr>tp_order := (if tp_retained t channel = None then tp_order t @ [channel] else tp_order t),
        tp_retained := (tp_retained t)(channel \<mapsto> payload)\<rparr> else t)"
  have h': "emit key tid channel encoded retain h =
      h\<lparr>hb_topics := (hb_topics h)(key \<mapsto> t'),
        hb_sent := hb_sent h @ map (\<lambda>sink. (sink, payload)) (tp_sinks t')\<rparr>"
    using e by (simp add: emit_def t'_def Let_def)
  have same: "tp_id t' = tp_id t" "tp_sinks t' = tp_sinks t" "tp_linger t' = tp_linger t"
    by (simp_all add: t'_def)
  note t = hub_okD [OF assms e(3)]
  have "topic_ok t'"
    using t(1) by (auto simp: t'_def topic_ok_def)
  then show ?thesis
    unfolding h'
    by (rule hub_ok_put [OF assms, rotated 4, where key = key])
      (use assms t same e(3) open_topic [OF assms e(3)] in
        \<open>auto simp: linger_ok_cong [of _ h t' t] hub_ok_timer intro: hub_ok_unique [OF assms]\<close>)
qed

lemma timer_expires_ok:
  assumes "hub_ok h"
  shows "hub_ok (timer_expires t h)"
proof -
  have "pending (timer_expires t h) = pending h"
    by (auto simp: pending_def timer_expires_def)
  moreover have "linger_ok (timer_expires t h) key tp = linger_ok h key tp" for key and tp :: "('a, 'b) topic"
    by (rule linger_ok_cong) (use calculation in simp_all)
  ultimately show ?thesis
    using assms by (simp add: hub_ok_def) (simp add: timer_expires_def)
qed

lemma hub_Close_ok:
  assumes "hub_ok h"
  shows "hub_ok (hub_Close h)"
proof -
  have sub: "tm \<in> pending (hub_Close h) \<Longrightarrow> tm \<in> pending h" for tm
    by (auto simp: pending_def hub_Close_def Let_def)
  have closed: "hb_topics (hub_Close h) = Map.empty" "hb_next (hub_Close h) = hb_next h"
      "hb_cancelled (hub_Close h) = hb_cancelled h \<union> tp_id ` ran (hb_topics h)"
    by (simp_all add: hub_Close_def Let_def)
  show ?thesis
  proof (rule hub_okI)
    show "c < hb_next (hub_Close h)" if "c \<in> hb_cancelled (hub_Close h)" for c
      using that assms hub_okD(3) [OF assms] by (auto simp: closed ran_def hub_ok_def)
    show "tm_id tm < hb_next (hub_Close h)" if "tm \<in> pending (hub_Close h)" for tm
      using hub_ok_timer [OF assms sub [OF that]] by (simp add: closed)
    show "tm = tm'" if "tm \<in> pending (hub_Close h)" "tm' \<in> pending (hub_Close h)" "tm_id tm = tm_id tm'" for tm tm'
      using hub_ok_unique [OF assms sub [OF that(1)] sub [OF that(2)] that(3)] .
  qed (simp_all add: closed)
qed

lemma stop_timer_simps [simp]:
  "hb_topics (stop_timer x h) = hb_topics h" "hb_cancelled (stop_timer x h) = hb_cancelled h"
  "hb_closed (stop_timer x h) = hb_closed h" "hb_next (stop_timer x h) = hb_next h"
  "hb_sent (stop_timer x h) = hb_sent h"
  by (simp_all add: stop_timer_def split: option.split)

lemma stop_timer_pending:
  "tm \<in> pending (stop_timer x h) \<Longrightarrow> tm \<in> pending h"
  "tm \<in> pending h \<Longrightarrow> x \<noteq> Some (tm_id tm) \<Longrightarrow> tm \<in> pending (stop_timer x h)"
  by (auto simp: stop_timer_def pending_def split: option.splits)

text \<open>The timer a topic points to is a timer of its own key.\<close>

lemma linger_timer_key:
  assumes "hub_ok h" "hb_topics h key = Some t" "tp_linger t = Some (tm_id tm)" "tm \<in> pending h"
  shows "tm_key tm = key"
proof -
  obtain tm' where "tm' \<in> pending h" "tm_id tm' = tm_id tm" "tm_key tm' = key"
    using hub_okD(4) [OF assms(1,2)] assms(3) by (auto simp: linger_ok_def)
  with hub_ok_unique [OF assms(1) this(1) assms(4)] show ?thesis by simp
qed

lemma Subscribe_ok:
  assumes "hub_ok h"
  shows "hub_ok (Subscribe key sink h)"
proof (cases "hb_closed h")
  case True
  with assms show ?thesis by (simp add: Subscribe_def)
next
  case opened: False
  show ?thesis
  proof (cases "hb_topics h key")
    case None
    show ?thesis
      by (rule hub_ok_put [OF assms, where key = key])
        (use assms None opened in \<open>auto simp: Subscribe_def Let_def stop_timer_def topic_ok_def linger_ok_def
          intro: less_SucI dest: hub_ok_timer hub_ok_unique [OF assms]\<close>)
  next
    case (Some t)
    note t = hub_okD [OF assms Some]
    define t' where "t' = t\<lparr>tp_linger := None, tp_sinks := List.insert sink (tp_sinks t)\<rparr>"
    have h': "Subscribe key sink h = (stop_timer (tp_linger t) h)\<lparr>hb_topics := (hb_topics h)(key \<mapsto> t'),
        hb_sent := hb_sent h @ map (\<lambda>channel. (sink, the (tp_retained t' channel))) (tp_order t')\<rparr>"
      using opened Some by (simp add: Subscribe_def Let_def t'_def)
    have p: "pending (Subscribe key sink h) = pending (stop_timer (tp_linger t) h)"
      by (simp add: h')
    show ?thesis
    proof (rule hub_ok_put [OF assms, where key = key and t' = t'])
      show "topic_ok t'" "linger_ok (Subscribe key sink h) key t'" "tp_id t' < hb_next (Subscribe key sink h)"
        using t by (auto simp: t'_def topic_ok_def linger_ok_def h' List.insert_def)
      show "tm \<in> pending (Subscribe key sink h)" if "tm \<in> pending h" "tm_key tm \<noteq> key" for tm
        using that linger_timer_key [OF assms Some] by (auto simp: p intro: stop_timer_pending(2))
      show "tm_id tm < hb_next (Subscribe key sink h)" if "tm \<in> pending (Subscribe key sink h)" for tm
        using that hub_ok_timer [OF assms] by (auto simp: p h' dest: stop_timer_pending(1))
      show "tm = tm'" if "tm \<in> pending (Subscribe key sink h)" "tm' \<in> pending (Subscribe key sink h)" "tm_id tm = tm_id tm'" for tm tm'
        using that hub_ok_unique [OF assms] by (auto simp: p dest: stop_timer_pending(1))
    qed (use Some opened in \<open>auto simp: h' t'_def\<close>)
  qed
qed

lemma Unsubscribe_ok:
  assumes "hub_ok h"
  shows "hub_ok (Unsubscribe key sink now h)"
proof (cases "hb_topics h key")
  case None
  with assms show ?thesis by (simp add: Unsubscribe_def)
next
  case (Some t)
  note t = hub_okD [OF assms Some]
  define t1 where "t1 = t\<lparr>tp_sinks := removeAll sink (tp_sinks t)\<rparr>"
  have t1: "topic_ok t1" "tp_id t1 = tp_id t" "tp_linger t1 = tp_linger t"
    using t(1) by (simp_all add: t1_def topic_ok_def distinct_removeAll)
  show ?thesis
  proof (cases "tp_sinks t1 \<noteq> [] \<or> tp_linger t1 \<noteq> None")
    case True
    then have h': "Unsubscribe key sink now h = h\<lparr>hb_topics := (hb_topics h)(key \<mapsto> t1)\<rparr>"
      using Some by (simp add: Unsubscribe_def t1_def Let_def)
    have "linger_ok h key t1"
      using True t(4) by (auto simp: linger_ok_def t1_def split: option.splits)
    then have "linger_ok (Unsubscribe key sink now h) key t1"
      using linger_ok_cong [of "Unsubscribe key sink now h" h t1 t1 key] by (simp add: h')
    then show ?thesis
      by (rule hub_ok_put [OF assms, rotated 6, where key = key])
        (use assms t t1 Some open_topic [OF assms Some] in
          \<open>auto simp: h' hub_ok_timer intro: hub_ok_unique [OF assms]\<close>)
  next
    case False
    define tm where "tm = \<lparr>tm_id = hb_next h, tm_key = key, tm_topic = tp_id t, tm_deadline = now + hb_linger h\<rparr>"
    have h': "Unsubscribe key sink now h = h\<lparr>hb_next := Suc (hb_next h),
        hb_topics := (hb_topics h)(key \<mapsto> t1\<lparr>tp_linger := Some (hb_next h)\<rparr>), hb_timers := hb_timers h @ [tm]\<rparr>"
      using False Some by (simp add: Unsubscribe_def t1_def Let_def tm_def)
    have p: "pending (Unsubscribe key sink now h) = insert tm (pending h)"
      by (auto simp: pending_def h')
    have fresh: "tm_id y \<noteq> hb_next h" if "y \<in> pending h" for y
      using hub_ok_timer [OF assms that] by simp
    have "linger_ok (Unsubscribe key sink now h) key (t1\<lparr>tp_linger := Some (hb_next h)\<rparr>)"
      using False t1(2) by (auto simp: linger_ok_def p tm_def)
    then show ?thesis
      by (rule hub_ok_put [OF assms, rotated 6, where key = key])
        (use assms t t1 Some open_topic [OF assms Some] hub_ok_timer [OF assms] in
          \<open>auto simp: p, auto simp: h' tm_def intro: less_SucI hub_ok_unique [OF assms] dest: fresh\<close>)
  qed
qed

lemma linger_callback_ok:
  assumes "hub_ok h"
  shows "hub_ok (linger_callback x h)"
proof (cases "find (\<lambda>tm. tm_id tm = x) (hb_callbacks h)")
  case None
  with assms show ?thesis by (simp add: linger_callback_def)
next
  case (Some tm)
  then have tm: "tm \<in> pending h" "tm_id tm = x"
    by (auto simp: pending_def find_Some_iff)
  define h1 where "h1 = h\<lparr>hb_callbacks := filter (\<lambda>tm. tm_id tm \<noteq> x) (hb_callbacks h)\<rparr>"
  have p: "pending h1 \<subseteq> pending h" "\<And>y. y \<in> pending h \<Longrightarrow> tm_id y \<noteq> x \<Longrightarrow> y \<in> pending h1"
    by (auto simp: pending_def h1_def)
  have stay: "linger_ok h1 k t" if k: "hb_topics h k = Some t" "tp_linger t \<noteq> Some x" for k t
    by (rule linger_ok_mono [OF hub_okD(4) [OF assms k(1)]]) (use k(2) p(2) in auto)
  have own: "k = tm_key tm \<and> tp_id t = tm_topic tm \<and> tp_sinks t = []"
    if k: "hb_topics h k = Some t" "tp_linger t = Some x" for k t
    using hub_okD(4) [OF assms k(1)] k(2) hub_ok_unique [OF assms _ tm(1)] tm(2)
    by (fastforce simp: linger_ok_def)
  have rest: "hb_topics h1 = hb_topics h" "hb_cancelled h1 = hb_cancelled h" "hb_next h1 = hb_next h"
      "hb_closed h1 = hb_closed h"
    by (simp_all add: h1_def)
  define closes where "closes \<longleftrightarrow> (\<exists>t. hb_topics h (tm_key tm) = Some t \<and> tp_id t = tm_topic tm \<and> tp_sinks t = [])"
  have h': "linger_callback x h = (if closes
      then h1\<lparr>hb_cancelled := insert (tm_topic tm) (hb_cancelled h1), hb_topics := (hb_topics h1)(tm_key tm := None)\<rparr>
      else h1)"
    using Some by (auto simp: linger_callback_def closes_def h1_def Let_def split: option.split)
  have cl: "tm_topic tm < hb_next h" if closes
    using that hub_okD(3) [OF assms] by (fastforce simp: closes_def)
  have lin: "linger_ok (linger_callback x h) k t" if "hb_topics (linger_callback x h) k = Some t" for k t
  proof -
    have k: "hb_topics h k = Some t" "tp_linger t \<noteq> Some x"
      using that own by (auto simp: h' rest closes_def split: if_splits)
    then show ?thesis
      using stay [OF k] linger_ok_cong [of "linger_callback x h" h1 t t k] by (simp add: h' split: if_splits)
  qed
  show ?thesis
  proof (rule hub_okI)
    fix k t assume k: "hb_topics (linger_callback x h) k = Some t"
    then have old: "hb_topics h k = Some t" by (auto simp: h' rest split: if_splits)
    have "tp_id t \<noteq> tm_topic tm" if c: closes
    proof
      assume "tp_id t = tm_topic tm"
      then have "k = tm_key tm"
        using c hub_ok_keys [OF assms old] by (metis closes_def)
      with k c show False by (simp add: h')
    qed
    then show "topic_ok t \<and> tp_id t \<notin> hb_cancelled (linger_callback x h) \<and>
        tp_id t < hb_next (linger_callback x h) \<and> linger_ok (linger_callback x h) k t"
      using hub_okD(1,2,3) [OF assms old] lin [OF k] by (auto simp: h' rest)
  next
    fix k1 k2 t1 t2
    assume "hb_topics (linger_callback x h) k1 = Some t1" "hb_topics (linger_callback x h) k2 = Some t2"
      "tp_id t1 = tp_id t2"
    then show "k1 = k2"
      using hub_ok_keys [OF assms] by (auto simp: h' rest split: if_splits)
  next
    have pend: "pending (linger_callback x h) \<subseteq> pending h"
      using p(1) by (simp add: h')
    show "tm_id y < hb_next (linger_callback x h)" if "y \<in> pending (linger_callback x h)" for y
      using hub_ok_timer [OF assms] pend that by (auto simp: h' rest)
    show "y = y'" if "y \<in> pending (linger_callback x h)" "y' \<in> pending (linger_callback x h)" "tm_id y = tm_id y'" for y y'
      using hub_ok_unique [OF assms _ _ that(3)] pend that(1,2) by blast
  qed (use assms cl in \<open>auto simp: h' rest hub_ok_def split: if_splits\<close>)
qed

lemma hub_reach_ok: "hub_reach linger h \<Longrightarrow> hub_ok h"
proof (induction rule: hub_reach.induct)
  case hub_new
  show ?case by (simp add: hub_ok_def hub_New_def pending_def)
qed (simp_all add: Subscribe_ok Unsubscribe_ok emit_ok timer_expires_ok linger_callback_ok hub_Close_ok)

section \<open>Properties\<close>

text \<open>
  C4: No topic leaks. In every state the hub can reach by interleaved subscriptions, emissions, timers
  and shutdown, an open topic has a subscriber or its linger callback is still to run, and running it
  closes the topic; a topic with subscribers survives any callback; a closed hub has no topics.
\<close>

theorem hub_topics_close:
  assumes "hub_reach linger h"
  shows "(hb_topics h key = Some t \<and> tp_sinks t = [] \<longrightarrow>
      (\<exists>x. hb_topics (linger_callback x (timer_expires x h)) key = None)) \<and>
    (hb_topics h key = Some t \<and> tp_sinks t \<noteq> [] \<longrightarrow>
      (\<forall>x. hb_topics (linger_callback x (timer_expires x h)) key = Some t)) \<and>
    (hb_closed h \<longrightarrow> Topics h = 0)"
proof (intro conjI impI)
  have ok: "hub_ok h" using assms by (rule hub_reach_ok)
  assume "hb_topics h key = Some t \<and> tp_sinks t = []"
  then have t: "hb_topics h key = Some t" "tp_sinks t = []" by auto
  then obtain tm where tm: "tm \<in> pending h" "tm_key tm = key" "tm_topic tm = tp_id t"
    using hub_okD(4) [OF ok t(1)] by (auto simp: linger_ok_def split: option.splits)
  define h' where "h' = timer_expires (tm_id tm) h"
  have same: "hub_ok h'" "pending h' = pending h" "hb_topics h' = hb_topics h"
    using timer_expires_ok [OF ok] by (auto simp: h'_def timer_expires_def pending_def)
  have "find (\<lambda>y. tm_id y = tm_id tm) (hb_callbacks h') \<noteq> None"
    using tm(1) by (auto simp: find_None_iff h'_def timer_expires_def pending_def)
  then obtain y where y: "find (\<lambda>y. tm_id y = tm_id tm) (hb_callbacks h') = Some y" by blast
  then have "y \<in> pending h'" "tm_id y = tm_id tm"
    by (auto simp: find_Some_iff pending_def)
  then have "y = tm"
    using hub_ok_unique [OF same(1)] tm(1) same(2) by simp
  then have "hb_topics (linger_callback (tm_id tm) h') key = None"
    using y tm(2,3) t same(3) by (simp add: linger_callback_def Let_def)
  then show "\<exists>x. hb_topics (linger_callback x (timer_expires x h)) key = None"
    by (auto simp: h'_def)
next
  assume "hb_topics h key = Some t \<and> tp_sinks t \<noteq> []"
  then show "\<forall>x. hb_topics (linger_callback x (timer_expires x h)) key = Some t"
    by (auto simp: linger_callback_def timer_expires_def Let_def split: option.split)
next
  assume "hb_closed h"
  then show "Topics h = 0"
    using hub_reach_ok [OF assms] by (simp add: hub_ok_def Topics_def)
qed

definition sample_key :: Key where
  "sample_key = \<lparr>ky_Channel = ''ticker'', ky_Instrument = ''binance:spot:BTC-USDT'', ky_Interval = [], ky_Account = []\<rparr>"

definition left_hub :: "(nat, nat) Hub" where
  "left_hub = Unsubscribe sample_key 1 0 (Subscribe sample_key 1 (hub_New (30 * Second)))"

lemma left_hub_reach: "hub_reach (30 * Second) left_hub"
  unfolding left_hub_def by (intro hub_reach.intros)

theorem hub_topics_close_witness:
  "hub_reach (30 * Second) left_hub \<and>
   (\<exists>x. hb_topics (linger_callback x (timer_expires x left_hub)) sample_key = None)"
proof -
  have "\<exists>t. hb_topics left_hub sample_key = Some t \<and> tp_sinks t = []"
    by (simp add: left_hub_def Subscribe_def Unsubscribe_def hub_New_def stop_timer_def Let_def)
  with hub_topics_close [OF left_hub_reach, of sample_key] left_hub_reach show ?thesis by blast
qed

text \<open>Retained emissions on an open topic: the last payload of each channel, in order of first emission.\<close>

definition retain_all :: "(string \<times> 'p) list \<Rightarrow> ('s, 'p) topic \<Rightarrow> ('s, 'p) topic" where
  "retain_all ms t = fold (\<lambda>(channel, payload) current.
     current\<lparr>tp_order := (if tp_retained current channel = None then tp_order current @ [channel] else tp_order current),
             tp_retained := (tp_retained current)(channel \<mapsto> payload)\<rparr>) ms t"

definition emit_all :: "Key \<Rightarrow> nat \<Rightarrow> (string \<times> 'p) list \<Rightarrow> ('s, 'p) Hub \<Rightarrow> ('s, 'p) Hub" where
  "emit_all key tid ms h = fold (\<lambda>(channel, payload). emit key tid channel (Some payload) True) ms h"

lemma emit_all_topic:
  assumes "hb_topics h key = Some t" "tp_id t \<notin> hb_cancelled h"
  shows "hb_topics (emit_all key (tp_id t) ms h) key = Some (retain_all ms t) \<and>
    hb_closed (emit_all key (tp_id t) ms h) = hb_closed h"
  using assms
proof (induction ms arbitrary: h t)
  case Nil
  then show ?case by (simp add: emit_all_def retain_all_def)
next
  case (Cons m ms)
  obtain c p where m: "m = (c, p)" by force
  define t1 where "t1 = t\<lparr>tp_order := (if tp_retained t c = None then tp_order t @ [c] else tp_order t),
      tp_retained := (tp_retained t)(c \<mapsto> p)\<rparr>"
  have e: "hb_topics (emit key (tp_id t) c (Some p) True h) key = Some t1"
      "hb_cancelled (emit key (tp_id t) c (Some p) True h) = hb_cancelled h"
      "hb_closed (emit key (tp_id t) c (Some p) True h) = hb_closed h"
    using Cons.prems by (simp_all add: emit_def t1_def Let_def)
  have "tp_id t1 = tp_id t" by (simp add: t1_def)
  with Cons.IH [OF e(1)] Cons.prems(2) e(2,3) show ?case
    by (simp add: emit_all_def retain_all_def m t1_def)
qed

lemma retain_all_retained: "tp_retained (retain_all ms t) = tp_retained t ++ map_of (rev ms)"
  by (induction ms rule: rev_induct) (auto simp: retain_all_def map_add_def fun_eq_iff)

lemma retain_all_simps:
  "set (tp_order t) = dom (tp_retained t) \<Longrightarrow>
   tp_order (retain_all ms t) = tp_order t @ rev (remdups (rev (filter (\<lambda>c. c \<notin> set (tp_order t)) (map fst ms))))"
  "tp_linger (retain_all ms t) = tp_linger t" "tp_sinks (retain_all ms t) = tp_sinks t"
proof -
  show "tp_linger (retain_all ms t) = tp_linger t" "tp_sinks (retain_all ms t) = tp_sinks t"
    by (induction ms rule: rev_induct) (auto simp: retain_all_def)
  assume d: "set (tp_order t) = dom (tp_retained t)"
  have seen: "tp_retained (retain_all ms t) c = None \<longleftrightarrow> c \<notin> set (tp_order t) \<and> c \<notin> fst ` set ms" for ms c
    unfolding retain_all_retained using d by (auto simp: map_of_eq_None_iff)
  show "tp_order (retain_all ms t) =
      tp_order t @ rev (remdups (rev (filter (\<lambda>c. c \<notin> set (tp_order t)) (map fst ms))))"
  proof (induction ms rule: rev_induct)
    case Nil
    then show ?case by (simp add: retain_all_def)
  next
    case (snoc m ms)
    obtain c p where m: "m = (c, p)" by force
    have "tp_order (retain_all (ms @ [m]) t) =
        (if tp_retained (retain_all ms t) c = None then tp_order (retain_all ms t) @ [c] else tp_order (retain_all ms t))"
      by (simp add: retain_all_def m)
    then show ?case
      unfolding seen snoc.IH by (auto simp: m)
  qed
qed

text \<open>
  A late joiner is brought up to date. When a topic is opened and any retained messages are then
  emitted on it, the next subscriber receives, before anything else, exactly one message per channel:
  the last payload of that channel, in the order in which the channels were first emitted.
\<close>

theorem late_joiner_replay:
  assumes "hub_reach linger h" "\<not> hb_closed h" "hb_topics h key = None"
    and "h1 = emit_all key (hb_next h) ms (Subscribe key first h)"
  shows "hb_sent (Subscribe key late h1) =
    hb_sent h1 @ map (\<lambda>channel. (late, the (map_of (rev ms) channel))) (rev (remdups (rev (map fst ms))))"
proof -
  define t where "t = \<lparr>tp_id = hb_next h, tp_sinks = [first], tp_retained = (Map.empty :: string \<rightharpoonup> 'b), tp_order = [], tp_linger = None\<rparr>"
  have t: "hb_topics (Subscribe key first h) key = Some t" "\<not> hb_closed (Subscribe key first h)"
    using assms(2,3) by (simp_all add: Subscribe_def Let_def t_def stop_timer_def)
  have id: "tp_id t = hb_next h" by (simp add: t_def)
  have "tp_id t \<notin> hb_cancelled (Subscribe key first h)"
    using hub_okD(2) [OF Subscribe_ok [OF hub_reach_ok [OF assms(1)]] t(1)] .
  note e = emit_all_topic [OF t(1) this, unfolded id, of ms, folded assms(4)]
  have "hb_sent (Subscribe key late h1) =
      hb_sent h1 @ map (\<lambda>channel. (late, the (tp_retained (retain_all ms t) channel))) (tp_order (retain_all ms t))"
    using e t(2) by (simp add: Subscribe_def Let_def)
  then show ?thesis
    by (simp add: retain_all_simps retain_all_retained t_def)
qed

theorem late_joiner_replay_witness:
  "hub_reach Second (hub_New Second :: (nat, string) Hub) \<and>
   hb_sent (Subscribe sample_key 2 (emit_all sample_key 0 [(''book'', ''b1''), (''trade'', ''t1''), (''book'', ''b2'')]
     (Subscribe sample_key 1 (hub_New Second)))) =
   [(1, ''b1''), (1, ''t1''), (1, ''b2''), (2 :: nat, ''b2''), (2, ''t1'')]"
proof -
  have r: "hub_reach Second (hub_New Second :: (nat, string) Hub)" by (rule hub_reach.hub_new)
  have "hb_sent (emit_all sample_key 0 [(''book'', ''b1''), (''trade'', ''t1''), (''book'', ''b2'')]
     (Subscribe sample_key 1 (hub_New Second))) = [(1 :: nat, ''b1''), (1, ''t1''), (1, ''b2'')]"
    by (simp add: emit_all_def emit_def Subscribe_def hub_New_def stop_timer_def Let_def)
  with late_joiner_replay [OF r, where key = sample_key and late = 2 and first = 1 and
      ms = "[(''book'', ''b1''), (''trade'', ''t1''), (''book'', ''b2'')]"] r
  show ?thesis by (simp add: hub_New_def)
qed

lemma retry_waits_paced_from:
  assumes "Second \<le> backoff" "backoff \<le> 32 * Second" "\<exists>n. backoff = 2 ^ n * Second"
  shows "set (retry_waits backoff rounds) \<subseteq> {Second .. 40 * Second}"
  using assms
proof (induction rounds arbitrary: backoff)
  case (Cons r rounds)
  obtain elapsed draw where r: "r = (elapsed, draw)" by force
  define b where "b = round_backoff elapsed backoff"
  have b: "Second \<le> b" "b \<le> 32 * Second" "\<exists>n. b = 2 ^ n * Second"
    using Cons.prems by (auto simp: b_def round_backoff_def intro: exI [of _ "0 :: nat"])
  have pos: "0 \<le> b div 4" "0 < b div 4 + 1" using b(1) by simp_all
  define d where "d = draw mod (b div 4 + 1)"
  have "0 \<le> d" "d \<le> b div 4"
    unfolding d_def using pos_mod_bound [OF pos(2), of draw] pos_mod_sign [OF pos(2), of draw] by linarith+
  with b(1,2) have wait: "round_wait b draw \<in> {Second .. 40 * Second}"
    by (simp add: round_wait_def flip: d_def)
  obtain n where n: "b = 2 ^ n * Second" using b(3) by blast
  have "next_backoff b \<le> 32 * Second"
  proof (cases "b < 30 * Second")
    case True
    then have "(2 :: int) ^ n < 2 ^ 5" using n by simp
    then have "n < 5" by (rule power_less_imp_less_exp [rotated]) simp
    then have "n \<le> 4" by simp
    then have "(2 :: int) ^ n \<le> 2 ^ 4" by (intro power_increasing) simp_all
    with n show ?thesis by (simp add: next_backoff_def)
  qed (use b(2) in \<open>simp add: next_backoff_def\<close>)
  moreover have "Second \<le> next_backoff b" using b(1) by (simp add: next_backoff_def)
  moreover have "\<exists>m. next_backoff b = 2 ^ m * Second"
    using n by (auto simp: next_backoff_def intro: exI [of _ "Suc n"])
  ultimately show ?case
    using Cons.IH wait by (simp add: r b_def Let_def)
qed simp

text \<open>
  The retries of a failing feed are paced: whatever the run times of the source and the jitter
  drawn, every wait is at least one second and at most forty.
\<close>

theorem retry_waits_paced: "set (retry_waits Second rounds) \<subseteq> {Second .. 40 * Second}"
  by (rule retry_waits_paced_from) (auto intro: exI [of _ "0 :: nat"])

text \<open>
  A callback that has expired but not yet taken the mutex survives a new subscription: when that
  subscriber leaves again before the callback runs, the topic is closed at once although the new
  linger timer is still running.
\<close>

theorem stale_linger_callback_closes_early:
  "\<exists>h :: (nat, nat) Hub. hub_reach linger h \<and>
     (\<exists>t. hb_topics h sample_key = Some t \<and> tp_linger t = Some 2) \<and>
     map tm_deadline (hb_timers h) = [now + linger] \<and> map tm_id (hb_timers h) = [2] \<and>
     hb_topics (linger_callback 1 h) sample_key = None"
proof -
  define h :: "(nat, nat) Hub" where "h = Unsubscribe sample_key 7 now (Subscribe sample_key 7
    (timer_expires 1 (Unsubscribe sample_key 7 0 (Subscribe sample_key 7 (hub_New linger)))))"
  have "hub_reach linger h"
    unfolding h_def by (intro hub_reach.intros)
  then show ?thesis
    by (intro exI [of _ h])
      (simp add: h_def Subscribe_def Unsubscribe_def timer_expires_def hub_New_def stop_timer_def linger_callback_def Let_def)
qed

end
