(* ===== verification/Market_Feeds.thy ===== *)
theory Market_Feeds
  imports Gateway_Catalog Order_Book Hub
begin

text \<open>
  The public channels of the gateway (gateway/market/feeds.go, warmup.go): which topics exist, the
  pumps that turn a venue subscription into messages, and the REST snapshots. What a select receives
  is a list of inputs in the order they are received; what a client answered is an argument. The local
  book of a topic is a second instance of the locale \<open>book_side\<close>.
\<close>

section \<open>Data\<close>

abbreviation "ChannelBook \<equiv> ''book''"
abbreviation "ChannelTrades \<equiv> ''trades''"
abbreviation "ChannelCandle \<equiv> ''candle''"
abbreviation "ChannelTicker \<equiv> ''ticker''"

abbreviation bookDepth :: nat where "bookDepth \<equiv> 50"

type_synonym Level = "string \<times> string"

record Book =
  fb_Bids :: "Level list"
  fb_Asks :: "Level list"
  fb_Time :: int

record Trade =
  ft_Price :: string
  ft_Quantity :: string
  ft_Side :: string
  ft_Time :: int

record FeedCandle =
  fc_Time :: int
  fc_Open :: string
  fc_High :: string
  fc_Low :: string
  fc_Close :: string
  fc_Volume :: string

record Ticker =
  tk_Mark :: string
  tk_Index :: string
  tk_Funding :: string
  tk_NextFunding :: int
  tk_OpenInterest :: string
  tk_Time :: int

datatype FeedData = BookData Book | TradesData "Trade list" | CandleData FeedCandle | TickerData Ticker

record Message =
  ms_Channel :: string
  ms_Instrument :: string
  ms_Interval :: string
  ms_Data :: FeedData

text \<open>A call of emit: the message and whether it is retained.\<close>

type_synonym Emission = "Message \<times> bool"

record 'd PublicTradeEvent =
  pt_Side :: Side
  pt_Price :: 'd
  pt_Quantity :: 'd
  pt_Time :: Time

record 'd DerivativeReferenceEvent =
  dr_MarkPrice :: "'d OptionalDecimal"
  dr_IndexPrice :: "'d OptionalDecimal"
  dr_FundingRate :: "'d OptionalDecimal"
  dr_NextFundingTime :: Time
  dr_OpenInterest :: "'d OptionalDecimal"

section \<open>Topics\<close>

definition validInterval :: "string \<Rightarrow> bool" where
  "validInterval interval \<longleftrightarrow> interval \<in> {''1m'', ''5m'', ''15m'', ''30m'', ''1h'', ''4h'', ''12h'', ''1d''}"

definition ValidKey :: "('d, 'c) Catalog \<Rightarrow> Key \<Rightarrow> goerror option" where
  "ValidKey catalog key =
     (case catalog_Get catalog (ky_Instrument key) of
        Inl err \<Rightarrow> Some err
      | Inr instrument \<Rightarrow>
          if ky_Channel key = ChannelBook \<or> ky_Channel key = ChannelTrades then None
          else if ky_Channel key = ChannelCandle
          then (if validInterval (ky_Interval key) then None else Some (PlainError ''unsupported candle interval''))
          else if ky_Channel key = ChannelTicker
          then (if gi_Product instrument = ProductPerp then None
                else Some (PlainError ''ticker is available for perpetuals only''))
          else Some (PlainError ''unknown channel''))"

text \<open>
  Source up to the pump. A client's socket may be missing; the ticker needs a socket with the
  derivative reference stream; opening a stream may fail. The result is the channel to pump.
\<close>

record Socket =
  sk_reference :: bool
  sk_watch :: "string \<Rightarrow> goerror option"

text \<open>The outer option is the nil dereference of a market without a connector; \<open>quoted\<close> is fmt's \<open>%q\<close>.\<close>

definition source_open ::
  "(string \<Rightarrow> string) \<Rightarrow> ('d, 'c) Catalog \<Rightarrow> ('c \<Rightarrow> Socket option) \<Rightarrow> Key \<Rightarrow> (goerror + string) option" where
  "source_open quoted catalog websocket key =
     (case catalog_connector catalog (ky_Instrument key) of
        None \<Rightarrow> None
      | Some (Inl err) \<Rightarrow> Some (Inl err)
      | Some (Inr (instrument, client)) \<Rightarrow>
          (case websocket client of
             None \<Rightarrow> Some (Inl (PlainError ''market websocket unavailable''))
           | Some socket \<Rightarrow>
               (let channel = ky_Channel key;
                    opened = (case sk_watch socket channel of Some err \<Rightarrow> Some (Inl err) | None \<Rightarrow> Some (Inr channel))
                in if channel \<in> {ChannelBook, ChannelTrades, ChannelCandle} then opened
                   else if channel = ChannelTicker
                   then (if \<not> sk_reference socket
                         then Some (Inl (PlainError (''ticker stream unavailable for '' @ gi_Venue instrument)))
                         else opened)
                   else Some (Inl (PlainError (''unknown channel '' @ quoted channel))))))"

section \<open>Pumps\<close>

text \<open>
  What a select of a pump receives: the end of the context, a tick of the book's ticker, an error (nil
  included) or the end of the error channel, a status or the end of its channel, an event with the
  clock reading its handling may take, or the end of the events.
\<close>

datatype 'e PumpInput =
    CtxDone
  | Tick
  | Failure "goerror option"
  | FailuresClosed
  | Status string
  | StatusesClosed
  | Event 'e Time
  | EventsClosed

abbreviation "SubscriptionClosed \<equiv> ''closed''"

text \<open>pump: the state after the inputs, and what it returned if it did (nil is \<open>Some None\<close>).\<close>

fun pump :: "('e \<Rightarrow> Time \<Rightarrow> 's \<Rightarrow> 's) \<Rightarrow> 'e PumpInput list \<Rightarrow> 's \<Rightarrow> goerror option option \<times> 's" where
  "pump handle [] s = (None, s)"
| "pump handle (CtxDone # ins) s = (Some None, s)"
| "pump handle (Tick # ins) s = pump handle ins s"
| "pump handle (Failure err # ins) s = (if err \<noteq> None then (Some err, s) else pump handle ins s)"
| "pump handle (FailuresClosed # ins) s = pump handle ins s"
| "pump handle (Status st # ins) s =
     (if st = SubscriptionClosed then (Some (Some (PlainError ''subscription closed'')), s) else pump handle ins s)"
| "pump handle (StatusesClosed # ins) s = pump handle ins s"
| "pump handle (Event e now # ins) s = pump handle ins (handle e now s)"
| "pump handle (EventsClosed # ins) s = (Some (Some (PlainError ''subscription ended'')), s)"

text \<open>The handlers of the trades, candle and ticker channels.\<close>

definition trade_handler ::
  "'d Decimals \<Rightarrow> Key \<Rightarrow> 'd PublicTradeEvent \<Rightarrow> Time \<Rightarrow> Emission list \<Rightarrow> Emission list" where
  "trade_handler D key event now out =
     out @ [(\<lparr>ms_Channel = ChannelTrades, ms_Instrument = ky_Instrument key, ms_Interval = [],
              ms_Data = TradesData [\<lparr>ft_Price = DString D (pt_Price event), ft_Quantity = DString D (pt_Quantity event),
                                     ft_Side = pt_Side event, ft_Time = UnixMilli (pt_Time event)\<rparr>]\<rparr>, False)]"

definition projectCandle :: "'d Decimals \<Rightarrow> 'd Candle \<Rightarrow> FeedCandle" where
  "projectCandle D candle =
     \<lparr>fc_Time = UnixMilli (cd_OpenTime candle), fc_Open = DString D (cd_Open candle),
      fc_High = DString D (cd_High candle), fc_Low = DString D (cd_Low candle),
      fc_Close = DString D (cd_Close candle), fc_Volume = DString D (cd_Volume candle)\<rparr>"

definition candle_handler ::
  "'d Decimals \<Rightarrow> Key \<Rightarrow> 'd Candle \<Rightarrow> Time \<Rightarrow> Emission list \<Rightarrow> Emission list" where
  "candle_handler D key candle now out =
     out @ [(\<lparr>ms_Channel = ChannelCandle, ms_Instrument = ky_Instrument key, ms_Interval = ky_Interval key,
              ms_Data = CandleData (projectCandle D candle)\<rparr>, True)]"

definition zero_ticker :: Ticker where
  "zero_ticker = \<lparr>tk_Mark = [], tk_Index = [], tk_Funding = [], tk_NextFunding = 0, tk_OpenInterest = [], tk_Time = 0\<rparr>"

definition set_text :: "'d Decimals \<Rightarrow> 'd OptionalDecimal \<Rightarrow> string \<Rightarrow> string" where
  "set_text D value target = (if od_Valid value then DString D (od_Value value) else target)"

definition mergeTicker :: "'d Decimals \<Rightarrow> 'd DerivativeReferenceEvent \<Rightarrow> Time \<Rightarrow> Ticker \<Rightarrow> Ticker" where
  "mergeTicker D event now current =
     \<lparr>tk_Mark = set_text D (dr_MarkPrice event) (tk_Mark current),
      tk_Index = set_text D (dr_IndexPrice event) (tk_Index current),
      tk_Funding = set_text D (dr_FundingRate event) (tk_Funding current),
      tk_NextFunding = (if dr_NextFundingTime event \<noteq> 0 then UnixMilli (dr_NextFundingTime event) else tk_NextFunding current),
      tk_OpenInterest = set_text D (dr_OpenInterest event) (tk_OpenInterest current),
      tk_Time = UnixMilli now\<rparr>"

definition ticker_handler ::
  "'d Decimals \<Rightarrow> Key \<Rightarrow> 'd DerivativeReferenceEvent \<Rightarrow> Time \<Rightarrow> Ticker \<times> Emission list \<Rightarrow> Ticker \<times> Emission list" where
  "ticker_handler D key event now s =
     (let current = mergeTicker D event now (fst s)
      in (current, snd s @ [(\<lparr>ms_Channel = ChannelTicker, ms_Instrument = ky_Instrument key, ms_Interval = [],
                              ms_Data = TickerData current\<rparr>, True)]))"

section \<open>The local book\<close>

fun patchSide :: "'d Decimals \<Rightarrow> 'd book_map \<Rightarrow> 'd BookLevel list \<Rightarrow> 'd book_map" where
  "patchSide D side [] = side"
| "patchSide D side (level # levels) =
     (let key = DString D (bl_Price level) in
      if IsZero D (bl_Quantity level) then patchSide D (AList.delete key side) levels
      else patchSide D (AList.update key level side) levels)"

definition replaceSide :: "'d Decimals \<Rightarrow> 'd BookLevel list \<Rightarrow> 'd book_map" where
  "replaceSide D levels = patchSide D [] levels"

definition level_text :: "'d Decimals \<Rightarrow> 'd BookLevel \<Rightarrow> Level" where
  "level_text D level = (DString D (bl_Price level), DString D (bl_Quantity level))"

definition topLevels :: "'d Decimals \<Rightarrow> 'd book_map \<Rightarrow> bool \<Rightarrow> Level list" where
  "topLevels D side descending =
     (let levels = slice_sort (\<lambda>x y. if descending then GreaterThan D (bl_Price x) (bl_Price y)
                                    else LessThan D (bl_Price x) (bl_Price y)) (map snd side)
      in map (level_text D) (take bookDepth levels))"

record 'd bookPump =
  bp_bids :: "'d book_map"
  bp_asks :: "'d book_map"
  bp_observed :: Time
  bp_started :: bool
  bp_dirty :: bool
  bp_out :: "Emission list"

definition new_pump :: "'d bookPump" where
  "new_pump = \<lparr>bp_bids = [], bp_asks = [], bp_observed = 0, bp_started = False, bp_dirty = False, bp_out = []\<rparr>"

definition current_book :: "'d Decimals \<Rightarrow> 'd bookPump \<Rightarrow> Book" where
  "current_book D s =
     \<lparr>fb_Bids = topLevels D (bp_bids s) True, fb_Asks = topLevels D (bp_asks s) False, fb_Time = UnixMilli (bp_observed s)\<rparr>"

definition flush :: "'d Decimals \<Rightarrow> Key \<Rightarrow> 'd bookPump \<Rightarrow> 'd bookPump" where
  "flush D key s =
     (if \<not> bp_started s \<or> \<not> bp_dirty s then s
      else s\<lparr>bp_dirty := False,
             bp_out := bp_out s @ [(\<lparr>ms_Channel = ChannelBook, ms_Instrument = ky_Instrument key, ms_Interval = [],
                                     ms_Data = BookData (current_book D s)\<rparr>, True)]\<rparr>)"

text \<open>The event branch of pumpBook.\<close>

definition book_event :: "'d Decimals \<Rightarrow> Key \<Rightarrow> 'd BookEvent \<Rightarrow> Time \<Rightarrow> 'd bookPump \<Rightarrow> 'd bookPump" where
  "book_event D key event now s =
     (if bk_Kind event = EventDelta \<and> \<not> bp_started s then s
      else
        (let s1 = (if bk_Kind event = EventSnapshot \<or> bk_Kind event = EventFull
                   then s\<lparr>bp_bids := replaceSide D (bk_Bids event), bp_asks := replaceSide D (bk_Asks event), bp_started := True\<rparr>
                   else if bk_Kind event = EventDelta
                   then s\<lparr>bp_bids := patchSide D (bp_bids s) (bk_Bids event), bp_asks := patchSide D (bp_asks s) (bk_Asks event)\<rparr>
                   else s);
             s2 = s1\<lparr>bp_observed := (if bk_Time event \<noteq> 0 then bk_Time event else now), bp_dirty := True\<rparr>
         in if bk_Kind event \<noteq> EventDelta then flush D key s2 else s2))"

fun pumpBook ::
  "'d Decimals \<Rightarrow> Key \<Rightarrow> 'd BookEvent PumpInput list \<Rightarrow> 'd bookPump \<Rightarrow> goerror option option \<times> 'd bookPump" where
  "pumpBook D key [] s = (None, s)"
| "pumpBook D key (CtxDone # ins) s = (Some None, s)"
| "pumpBook D key (Tick # ins) s = pumpBook D key ins (flush D key s)"
| "pumpBook D key (Failure err # ins) s = (if err \<noteq> None then (Some err, s) else pumpBook D key ins s)"
| "pumpBook D key (FailuresClosed # ins) s = pumpBook D key ins s"
| "pumpBook D key (Status st # ins) s =
     (if st = SubscriptionClosed then (Some (Some (PlainError ''book subscription closed'')), s) else pumpBook D key ins s)"
| "pumpBook D key (StatusesClosed # ins) s = pumpBook D key ins s"
| "pumpBook D key (Event e now # ins) s = pumpBook D key ins (book_event D key e now s)"
| "pumpBook D key (EventsClosed # ins) s = (Some (Some (PlainError ''book subscription ended'')), s)"

section \<open>REST snapshots\<close>

abbreviation clamp_depth :: "int \<Rightarrow> int" where
  "clamp_depth depth \<equiv> (if depth \<le> 0 \<or> depth > int bookDepth then 20 else depth)"

abbreviation clamp_candles :: "int \<Rightarrow> int" where
  "clamp_candles limit \<equiv> (if limit \<le> 0 \<or> limit > 1000 then 500 else limit)"

record 'd RestBook =
  rb_Bids :: "'d BookLevel list"
  rb_Asks :: "'d BookLevel list"
  rb_Time :: Time

text \<open>OrderBook; \<open>fetch\<close> is the client's OrderBook for the instrument and the limit.\<close>

definition OrderBook ::
  "'d Decimals \<Rightarrow> ('d, 'c) Catalog \<Rightarrow> ('c \<Rightarrow> 'd Instrument \<Rightarrow> int \<Rightarrow> goerror + 'd RestBook) \<Rightarrow> InstrumentID \<Rightarrow> int \<Rightarrow>
   (goerror + Book) option" where
  "OrderBook D catalog fetch iid depth =
     (case catalog_connector catalog iid of
        None \<Rightarrow> None
      | Some (Inl err) \<Rightarrow> Some (Inl err)
      | Some (Inr (instrument, client)) \<Rightarrow>
          (case fetch client (gi_native instrument) (clamp_depth depth) of
             Inl err \<Rightarrow> Some (Inl err)
           | Inr book \<Rightarrow>
               Some (Inr \<lparr>fb_Bids = map (level_text D) (rb_Bids book), fb_Asks = map (level_text D) (rb_Asks book),
                          fb_Time = UnixMilli (rb_Time book)\<rparr>)))"

definition Candles ::
  "'d Decimals \<Rightarrow> ('d, 'c) Catalog \<Rightarrow>
   ('c \<Rightarrow> 'd Instrument \<Rightarrow> string \<Rightarrow> Time \<Rightarrow> Time \<Rightarrow> int \<Rightarrow> goerror + 'd Candle list) \<Rightarrow>
   InstrumentID \<Rightarrow> string \<Rightarrow> Time \<Rightarrow> Time \<Rightarrow> int \<Rightarrow> (goerror + FeedCandle list) option" where
  "Candles D catalog fetch iid interval start finish limit =
     (if \<not> validInterval interval then Some (Inl (PlainError ''unsupported candle interval''))
      else
        (case catalog_connector catalog iid of
           None \<Rightarrow> None
         | Some (Inl err) \<Rightarrow> Some (Inl err)
         | Some (Inr (instrument, client)) \<Rightarrow>
             (case fetch client (gi_native instrument) interval start finish (clamp_candles limit) of
                Inl err \<Rightarrow> Some (Inl err)
              | Inr candles \<Rightarrow>
                  Some (Inr (slice_sort (\<lambda>x y. fc_Time x < fc_Time y) (map (projectCandle D) candles))))))"

record Stats24h =
  s24_Last :: string
  s24_Open24h :: string
  s24_High24h :: string
  s24_Low24h :: string
  s24_Volume24h :: string
  s24_Funding :: string
  s24_NextFunding :: int
  s24_Mark :: string

definition no_stats :: Stats24h where
  "no_stats = \<lparr>s24_Last = [], s24_Open24h = [], s24_High24h = [], s24_Low24h = [], s24_Volume24h = [],
     s24_Funding = [], s24_NextFunding = 0, s24_Mark = []\<rparr>"

record 'd FundingRate =
  fr_Rate :: 'd
  fr_MarkPrice :: "'d OptionalDecimal"
  fr_NextFundingTime :: Time

text \<open>The window of Stats: the candles in time order, at most the last 24.\<close>

definition last_day :: "'d Candle list \<Rightarrow> 'd Candle list" where
  "last_day candles =
     (let s = slice_sort (\<lambda>x y. cd_OpenTime x < cd_OpenTime y) candles in
      if length s > 24 then drop (length s - 24) s else s)"

definition day_stats :: "'d Decimals \<Rightarrow> 'd Candle list \<Rightarrow> Stats24h" where
  "day_stats D candles =
     (case candles of
        [] \<Rightarrow> no_stats
      | c # _ \<Rightarrow>
          (let high = foldl (\<lambda>h x. DMax D h (cd_High x)) (cd_High c) candles;
               low = foldl (\<lambda>l x. DMin D l (cd_Low x)) (cd_Low c) candles;
               volume = foldl (\<lambda>v x. DAdd D v (cd_Volume x)) (DZero D) candles
           in no_stats\<lparr>s24_Last := DString D (cd_Close (last candles)), s24_Open24h := DString D (cd_Open c),
                       s24_High24h := DString D high, s24_Low24h := DString D low, s24_Volume24h := DString D volume\<rparr>))"

definition with_funding :: "'d Decimals \<Rightarrow> 'd FundingRate \<Rightarrow> Stats24h \<Rightarrow> Stats24h" where
  "with_funding D rate stats =
     stats\<lparr>s24_Funding := DString D (fr_Rate rate),
           s24_NextFunding := (if fr_NextFundingTime rate \<noteq> 0 then UnixMilli (fr_NextFundingTime rate) else s24_NextFunding stats),
           s24_Mark := (if od_Valid (fr_MarkPrice rate) then DString D (od_Value (fr_MarkPrice rate)) else s24_Mark stats)\<rparr>"

text \<open>Stats; \<open>funding\<close> answers None where the client does not support it or failed.\<close>

definition Stats ::
  "'d Decimals \<Rightarrow> ('d, 'c) Catalog \<Rightarrow>
   ('c \<Rightarrow> 'd Instrument \<Rightarrow> string \<Rightarrow> Time \<Rightarrow> Time \<Rightarrow> int \<Rightarrow> goerror + 'd Candle list) \<Rightarrow>
   ('c \<Rightarrow> 'd Instrument \<Rightarrow> 'd FundingRate option) \<Rightarrow> Time \<Rightarrow> InstrumentID \<Rightarrow> (goerror + Stats24h) option" where
  "Stats D catalog fetch funding now iid =
     (case catalog_connector catalog iid of
        None \<Rightarrow> None
      | Some (Inl err) \<Rightarrow> Some (Inl err)
      | Some (Inr (instrument, client)) \<Rightarrow>
          (case fetch client (gi_native instrument) ''1h'' (now - 24 * Hour) now 25 of
             Inl err \<Rightarrow> Some (Inl err)
           | Inr candles \<Rightarrow>
               (let stats = day_stats D (last_day candles) in
                Some (Inr (if gi_Product instrument = ProductPerp
                           then (case funding client (gi_native instrument) of
                                   Some rate \<Rightarrow> with_funding D rate stats | None \<Rightarrow> stats)
                           else stats)))))"

section \<open>Warm-up\<close>

abbreviation warm_candidate :: "string \<Rightarrow> 'd GatewayInstrument \<Rightarrow> bool" where
  "warm_candidate base instrument \<equiv>
     EqualFold (gi_Base instrument) base \<and> \<not> Contains (gi_Symbol instrument) '':''"

definition warmInstrument :: "'d Decimals \<Rightarrow> ('d, 'c) Catalog \<Rightarrow> Market \<Rightarrow> InstrumentID option" where
  "warmInstrument D catalog m =
     (let instruments = MarketInstruments D catalog m in
      case first_some (map (\<lambda>base. find (warm_candidate base) instruments) [''BTC'', ''UBTC'', ''ETH'']) of
        Some instrument \<Rightarrow> Some (gi_ID instrument)
      | None \<Rightarrow> (case instruments of [] \<Rightarrow> None | i # _ \<Rightarrow> Some (gi_ID i)))"

text \<open>The topics Warm subscribes to, each for as long as its first message takes (at most 20 seconds).\<close>

definition warm_keys :: "'d Decimals \<Rightarrow> ('d, 'c) Catalog \<Rightarrow> Key list" where
  "warm_keys D catalog =
     map (\<lambda>iid. \<lparr>ky_Channel = ChannelBook, ky_Instrument = iid, ky_Interval = [], ky_Account = []\<rparr>)
       (List.map_filter (warmInstrument D catalog) Markets)"

section \<open>The local book as an instance of a book side\<close>

lemma patchSide_eq: "patchSide D side levels = patchBookSide D side levels"
  by (induction D side levels rule: patchSide.induct) (simp_all add: Let_def)

lemma replaceSide_eq: "replaceSide D levels = replaceBookSide D levels"
  by (simp add: replaceSide_def replaceBookSide_def patchSide_eq)

sublocale decimal_laws \<subseteq> feed_book: book_side val "side_ok D val" "side_abs val" "[]" "patchSide D"
  by unfold_locales (auto simp: patchSide_eq patchBookSide_refines)

context decimal_laws
begin

lemma topLevels_eq: "topLevels D side descending = map (level_text D) (take bookDepth (sortedBookSide D side descending))"
  by (simp add: topLevels_def sortedBookSide_eq Let_def)

end

section \<open>The topic follows the contract\<close>

text \<open>The sides a list of accepted events describes.\<close>

definition sides_of :: "'d Decimals \<Rightarrow> 'd BookEvent list \<Rightarrow> 'd book_map \<times> 'd book_map" where
  "sides_of D events = foldl (\<lambda>(bids, asks) event.
     if bk_Kind event = EventDelta then (patchBookSide D bids (bk_Bids event), patchBookSide D asks (bk_Asks event))
     else (replaceBookSide D (bk_Bids event), replaceBookSide D (bk_Asks event))) ([], []) events"

lemma sides_of_snoc:
  "sides_of D (events @ [event]) =
     (if bk_Kind event = EventDelta
      then (patchBookSide D (fst (sides_of D events)) (bk_Bids event), patchBookSide D (snd (sides_of D events)) (bk_Asks event))
      else (replaceBookSide D (bk_Bids event), replaceBookSide D (bk_Asks event)))"
  by (simp add: sides_of_def case_prod_unfold)

text \<open>A stream that starts with a complete book and knows no other kinds.\<close>

definition deliverable :: "'d BookEvent list \<Rightarrow> bool" where
  "deliverable events \<longleftrightarrow>
     list_all (\<lambda>e. bk_Kind e \<in> {EventSnapshot, EventDelta, EventFull}) events \<and>
     (events \<noteq> [] \<longrightarrow> bk_Kind (hd events) \<noteq> EventDelta)"

lemma accept_all_sides:
  assumes "accept_all D events (newOrderBookContract v p i) = (delivered, contract)"
  shows "sides_of D delivered = (oc_bids contract, oc_asks contract)" "deliverable delivered"
    "oc_started contract \<longleftrightarrow> delivered \<noteq> []"
  using assms
proof (induction events arbitrary: delivered contract rule: rev_induct)
  case Nil
  {
    case 1
    then show ?case by (auto simp: sides_of_def)
  next
    case 2
    then show ?case by (auto simp: deliverable_def)
  next
    case 3
    then show ?case by auto
  }
next
  case (snoc event events)
  obtain d1 c1 where one: "accept_all D events (newOrderBookContract v p i) = (d1, c1)" by force
  obtain acc err c2 where two: "accept D event c1 = ((acc, err), c2)" by (metis prod.exhaust)
  note IH = snoc.IH [OF one]
  have all: "accept_all D (events @ [event]) (newOrderBookContract v p i) = (if acc then d1 @ [event] else d1, c2)"
    by (simp add: accept_all_snoc one two)
  have result: "sides_of D (if acc then d1 @ [event] else d1) = (oc_bids c2, oc_asks c2) \<and>
      deliverable (if acc then d1 @ [event] else d1) \<and> (oc_started c2 \<longleftrightarrow> (if acc then d1 @ [event] else d1) \<noteq> [])"
  proof (cases acc)
    case True
    then have "accept D event c1 = ((True, err), c2)" using two by simp
    note a = accept_True [OF this]
    have "deliverable (d1 @ [event])"
      using IH(2,3) a(2,6) by (auto simp: deliverable_def hd_append)
    with True IH(1) a(2) show ?thesis
      by (auto simp: sides_of_snoc a(5))
  next
    case False
    then have "accept D event c1 = ((False, err), c2)" using two by simp
    from accept_False [OF this] False IH show ?thesis by simp
  qed
  {
    case 1
    with all result show ?case by auto
  next
    case 2
    with all result show ?case by auto
  next
    case 3
    with all result show ?case by auto
  }
qed

text \<open>Inputs that do not end the pump, and the events among them.\<close>

fun running :: "'e PumpInput \<Rightarrow> bool" where
  "running CtxDone \<longleftrightarrow> False"
| "running (Failure err) \<longleftrightarrow> err = None"
| "running (Status st) \<longleftrightarrow> st \<noteq> SubscriptionClosed"
| "running EventsClosed \<longleftrightarrow> False"
| "running _ \<longleftrightarrow> True"

fun event_of :: "'e PumpInput \<Rightarrow> 'e list" where
  "event_of (Event e now) = [e]"
| "event_of _ = []"

definition events_of :: "'e PumpInput list \<Rightarrow> 'e list" where
  "events_of ins = concat (map event_of ins)"

lemma pumpBook_append:
  "list_all running ins \<Longrightarrow> pumpBook D key (ins @ ins') s = pumpBook D key ins' (snd (pumpBook D key ins s))"
  by (induction D key ins s rule: pumpBook.induct) auto

lemma pumpBook_running: "list_all running ins \<Longrightarrow> fst (pumpBook D key ins s) = None"
  by (induction D key ins s rule: pumpBook.induct) auto

text \<open>The state of a running pump: its sides are those of the events, and unless an update is still pending the last message shows them.\<close>

definition shows_book :: "'d Decimals \<Rightarrow> Key \<Rightarrow> 'd bookPump \<Rightarrow> bool" where
  "shows_book D key s \<longleftrightarrow> bp_out s \<noteq> [] \<and>
     last (bp_out s) = (\<lparr>ms_Channel = ChannelBook, ms_Instrument = ky_Instrument key, ms_Interval = [],
       ms_Data = BookData (current_book D s)\<rparr>, True)"

definition pump_ok :: "'d Decimals \<Rightarrow> Key \<Rightarrow> 'd BookEvent list \<Rightarrow> 'd bookPump \<Rightarrow> bool" where
  "pump_ok D key events s \<longleftrightarrow>
     sides_of D events = (bp_bids s, bp_asks s) \<and> (bp_started s \<longleftrightarrow> events \<noteq> []) \<and>
     (bp_started s \<and> \<not> bp_dirty s \<longrightarrow> shows_book D key s)"

lemma flush_simps [simp]:
  "bp_bids (flush D key s) = bp_bids s" "bp_asks (flush D key s) = bp_asks s" "bp_started (flush D key s) = bp_started s"
  "bp_observed (flush D key s) = bp_observed s"
  by (simp_all add: flush_def)

lemma flush_shows: "bp_started s \<Longrightarrow> (\<not> bp_dirty s \<Longrightarrow> shows_book D key s) \<Longrightarrow> shows_book D key (flush D key s) \<and> \<not> bp_dirty (flush D key s)"
  by (auto simp: flush_def shows_book_def current_book_def)

lemma pump_ok_flush: "pump_ok D key events s \<Longrightarrow> pump_ok D key events (flush D key s)"
  using flush_shows [of s D key] by (auto simp: pump_ok_def)

lemma pump_ok_event:
  assumes "pump_ok D key events s" "deliverable (events @ [event])"
  shows "pump_ok D key (events @ [event]) (book_event D key event now s)"
proof -
  have kind: "bk_Kind event \<in> {EventSnapshot, EventDelta, EventFull}" "bk_Kind event = EventDelta \<longrightarrow> events \<noteq> []"
    using assms(2) by (auto simp: deliverable_def)
  show ?thesis
  proof (cases "bk_Kind event = EventDelta")
    case True
    with assms(1) kind(2) show ?thesis
      by (simp add: pump_ok_def book_event_def sides_of_snoc patchSide_eq Let_def)
  next
    case False
    define s2 where "s2 = s\<lparr>bp_bids := replaceSide D (bk_Bids event), bp_asks := replaceSide D (bk_Asks event), bp_started := True,
        bp_observed := (if bk_Time event \<noteq> 0 then bk_Time event else now), bp_dirty := True\<rparr>"
    have "book_event D key event now s = flush D key s2"
      using False kind(1) by (auto simp: book_event_def s2_def Let_def)
    moreover have "pump_ok D key (events @ [event]) s2"
      using False by (simp add: pump_ok_def s2_def sides_of_snoc replaceSide_eq)
    ultimately show ?thesis by (simp add: pump_ok_flush)
  qed
qed

lemma deliverable_prefix: "deliverable (events @ rest) \<Longrightarrow> deliverable events"
  by (cases events) (auto simp: deliverable_def)

lemma pumpBook_ok:
  assumes "list_all running ins" "deliverable (events_of ins)"
  shows "pump_ok D key (events_of ins) (snd (pumpBook D key ins new_pump))"
  using assms
proof (induction ins rule: rev_induct)
  case Nil
  show ?case by (simp add: pump_ok_def new_pump_def events_of_def sides_of_def)
next
  case (snoc i ins)
  have split: "events_of (ins @ [i]) = events_of ins @ event_of i" by (simp add: events_of_def)
  define s where "s = snd (pumpBook D key ins new_pump)"
  have s: "pump_ok D key (events_of ins) s"
    unfolding s_def using snoc.prems deliverable_prefix split by (intro snoc.IH) auto
  have app: "pumpBook D key (ins @ [i]) new_pump = pumpBook D key [i] s"
    using snoc.prems(1) by (simp add: pumpBook_append s_def)
  show ?case
  proof (cases i)
    case (Event e now)
    with s snoc.prems(2) app split show ?thesis by (simp add: pump_ok_event)
  qed (use s snoc.prems app split pump_ok_flush in auto)
qed

section \<open>Properties\<close>

text \<open>
  C32: The book a topic publishes is the book of the venue stream. Whatever events the order-book
  contract of a subscription lets through, in whatever rhythm they, the ticker and status messages
  arrive, the message after the next tick shows the contract's book: its best fifty bids, highest
  price first, and its best fifty asks, lowest price first, without equal prices.
\<close>

theorem topic_shows_contract_book:
  assumes "decimal_laws D val"
    and "accept_all D events (newOrderBookContract v p i) = (delivered, contract)" "delivered \<noteq> []"
    and "list_all running ins" "events_of ins = delivered"
  shows "\<exists>s book. pumpBook D key (ins @ [Tick]) new_pump = (None, s) \<and> bp_out s \<noteq> [] \<and>
    ms_Data (fst (last (bp_out s))) = BookData book \<and> snd (last (bp_out s)) \<and>
    fb_Bids book = map (level_text D) (take 50 (sortedBookSide D (oc_bids contract) True)) \<and>
    fb_Asks book = map (level_text D) (take 50 (sortedBookSide D (oc_asks contract) False)) \<and>
    sorted_wrt (\<lambda>x y. val (bl_Price y) < val (bl_Price x)) (take 50 (sortedBookSide D (oc_bids contract) True)) \<and>
    sorted_wrt (\<lambda>x y. val (bl_Price x) < val (bl_Price y)) (take 50 (sortedBookSide D (oc_asks contract) False))"
proof -
  note sides = accept_all_sides [OF assms(2)]
  define s where "s = snd (pumpBook D key (ins @ [Tick]) new_pump)"
  have run: "list_all running (ins @ [Tick])" "events_of (ins @ [Tick]) = delivered"
    using assms(4,5) by (simp_all add: events_of_def)
  have ok: "pump_ok D key delivered s"
    using pumpBook_ok [OF run(1), of D key] sides(2) run(2) by (simp add: s_def)
  have "s = flush D key (snd (pumpBook D key ins new_pump))"
    using assms(4) by (simp add: s_def pumpBook_append)
  moreover have "pump_ok D key delivered (snd (pumpBook D key ins new_pump))"
    using pumpBook_ok [OF assms(4), of D key] sides(2) assms(5) by simp
  ultimately have shown: "shows_book D key s"
    using flush_shows [of "snd (pumpBook D key ins new_pump)" D key] assms(3) by (simp add: pump_ok_def)
  have none: "pumpBook D key (ins @ [Tick]) new_pump = (None, s)"
    using pumpBook_running [OF run(1)] by (simp add: s_def prod_eq_iff)
  have books: "bp_bids s = oc_bids contract" "bp_asks s = oc_asks contract"
    using ok sides(1) by (auto simp: pump_ok_def)
  have refined: "contract_ok D val contract"
    using decimal_laws.accept_all_refines [OF assms(1) _ assms(2)]
    by (simp add: decimal_laws.side_Nil [OF assms(1)] contract_ok_def)
  have side: "side_ok D val (oc_bids contract)" "side_ok D val (oc_asks contract)"
    using refined by (simp_all add: contract_ok_def)
  note sorted = decimal_laws.sortedBookSide_sorted [OF assms(1) side(1), of True]
    decimal_laws.sortedBookSide_sorted [OF assms(1) side(2), of False]
  show ?thesis
    using none shown sorted_wrt_take [OF sorted(1), of 50] sorted_wrt_take [OF sorted(2), of 50]
    by (simp add: shows_book_def current_book_def books decimal_laws.topLevels_eq [OF assms(1)])
qed

definition sample_inputs :: "dec BookEvent PumpInput list" where
  "sample_inputs = [Status ''active'', Event (sample_book_stream ! 0) 5, Tick, Failure None,
     Event (sample_book_stream ! 1) 6, StatusesClosed]"

theorem topic_shows_contract_book_witness:
  "\<exists>s book contract. accept_all dec_ops sample_book_stream sample_contract = (take 2 sample_book_stream, contract) \<and>
     pumpBook dec_ops sample_key (sample_inputs @ [Tick]) new_pump = (None, s) \<and>
     ms_Data (fst (last (bp_out s))) = BookData book \<and>
     fb_Bids book = map (level_text dec_ops) (take 50 (sortedBookSide dec_ops (oc_bids contract) True))"
proof -
  obtain contract where c: "accept_all dec_ops sample_book_stream sample_contract = (take 2 sample_book_stream, contract)"
    using sample_stream_accepted by blast
  have ins: "take 2 sample_book_stream \<noteq> []" "list_all running sample_inputs" "events_of sample_inputs = take 2 sample_book_stream"
    by (simp_all add: sample_inputs_def sample_book_stream_def events_of_def)
  from topic_shows_contract_book [OF dec.decimal_laws_axioms c ins, of sample_key] c show ?thesis by blast
qed

section \<open>Snapshots\<close>

lemma candle_order: "strict_weak (\<lambda>x y. fc_Time x < fc_Time y)" "strict_weak (\<lambda>x y. cd_OpenTime x < cd_OpenTime y)"
  by (rule strict_weak_key)+

lemma last_day_window:
  "length (last_day candles) = min 24 (length candles)" "set (last_day candles) \<subseteq> set candles"
  "sorted_wrt (\<lambda>x y. cd_OpenTime x \<le> cd_OpenTime y) (last_day candles)"
  "x \<in> set candles \<Longrightarrow> x \<notin> set (last_day candles) \<Longrightarrow> y \<in> set (last_day candles) \<Longrightarrow> cd_OpenTime x \<le> cd_OpenTime y"
proof -
  define s where "s = slice_sort (\<lambda>x y. cd_OpenTime x < cd_OpenTime y) candles"
  have sorted: "sorted_wrt (\<lambda>x y. cd_OpenTime x \<le> cd_OpenTime y) s"
    using strict_weak.sorted_slice_sort [OF candle_order(2), of candles] by (simp add: s_def not_less)
  have set: "set s = set candles" "length s = length candles"
    by (simp_all add: s_def)
  have day: "last_day candles = drop (length s - 24) s"
    by (simp add: last_day_def Let_def s_def)
  show "length (last_day candles) = min 24 (length candles)"
    by (simp add: day set)
  show "set (last_day candles) \<subseteq> set candles"
    using set_drop_subset [of "length s - 24" s] by (simp add: day set)
  show "sorted_wrt (\<lambda>x y. cd_OpenTime x \<le> cd_OpenTime y) (last_day candles)"
    unfolding day by (rule sorted_wrt_drop) (rule sorted)
  have parts: "sorted_wrt (\<lambda>x y. cd_OpenTime x \<le> cd_OpenTime y) (take (length s - 24) s @ drop (length s - 24) s)"
    using sorted by simp
  assume "x \<in> set candles" "x \<notin> set (last_day candles)" "y \<in> set (last_day candles)"
  moreover have "set s = set (take (length s - 24) s) \<union> set (drop (length s - 24) s)"
    by (metis append_take_drop_id set_append)
  ultimately show "cd_OpenTime x \<le> cd_OpenTime y"
    using parts set unfolding sorted_wrt_append day by auto
qed

context decimal_laws
begin

lemma foldl_Max: "val (foldl (\<lambda>h x. DMax D h (f x)) h xs) = Max (insert (val h) ((\<lambda>x. val (f x)) ` set xs))"
proof (induction xs rule: rev_induct)
  case (snoc x xs)
  have "insert (val h) ((\<lambda>x. val (f x)) ` set (xs @ [x])) = insert (val (f x)) (insert (val h) ((\<lambda>x. val (f x)) ` set xs))"
    by auto
  then show ?case
    using snoc Max_insert [of "insert (val h) ((\<lambda>x. val (f x)) ` set xs)" "val (f x)"] by (simp add: max.commute)
qed simp

lemma foldl_Min: "val (foldl (\<lambda>h x. DMin D h (f x)) h xs) = Min (insert (val h) ((\<lambda>x. val (f x)) ` set xs))"
proof (induction xs rule: rev_induct)
  case (snoc x xs)
  have "insert (val h) ((\<lambda>x. val (f x)) ` set (xs @ [x])) = insert (val (f x)) (insert (val h) ((\<lambda>x. val (f x)) ` set xs))"
    by auto
  then show ?case
    using snoc Min_insert [of "insert (val h) ((\<lambda>x. val (f x)) ` set xs)" "val (f x)"] by (simp add: min.commute)
qed simp

lemma foldl_Add: "val (foldl (\<lambda>v x. DAdd D v (f x)) v xs) = val v + (\<Sum>x \<leftarrow> xs. val (f x))"
  by (induction xs arbitrary: v) auto

end

text \<open>
  The day statistics are those of the last day: the newest hourly candles, at most twenty-four, give the
  open of the first, the close of the last, the highest high, the lowest low and the sum of the volumes.
\<close>

theorem day_stats_of_last_day:
  assumes "decimal_laws D val" "candles \<noteq> []"
  shows "\<exists>high low volume. let day = last_day candles; stats = day_stats D day in
    length day = min 24 (length candles) \<and> day \<noteq> [] \<and>
    s24_Open24h stats = DString D (cd_Open (hd day)) \<and> s24_Last stats = DString D (cd_Close (last day)) \<and>
    s24_High24h stats = DString D high \<and> val high = Max ((\<lambda>c. val (cd_High c)) ` set day) \<and>
    s24_Low24h stats = DString D low \<and> val low = Min ((\<lambda>c. val (cd_Low c)) ` set day) \<and>
    s24_Volume24h stats = DString D volume \<and> val volume = (\<Sum>c \<leftarrow> day. val (cd_Volume c))"
proof -
  have len: "length (last_day candles) = min 24 (length candles)" by (rule last_day_window)
  moreover have "0 < length candles" using assms(2) by simp
  ultimately have "0 < length (last_day candles)" by linarith
  then obtain c cs where day: "last_day candles = c # cs"
    by (cases "last_day candles") auto
  have ins: "insert (f c) (f ` set (c # cs)) = f ` set (c # cs)" for f :: "'a Candle \<Rightarrow> rat" by auto
  show ?thesis
    unfolding day
    by (rule exI [of _ "foldl (\<lambda>h x. DMax D h (cd_High x)) (cd_High c) (c # cs)"],
        rule exI [of _ "foldl (\<lambda>h x. DMin D h (cd_Low x)) (cd_Low c) (c # cs)"],
        rule exI [of _ "foldl (\<lambda>v x. DAdd D v (cd_Volume x)) (DZero D) (c # cs)"])
      (use len [unfolded day] in \<open>simp only: Let_def decimal_laws.foldl_Max [OF assms(1)] decimal_laws.foldl_Min [OF assms(1)]
        decimal_laws.foldl_Add [OF assms(1)] ins decimal_laws.val_Zero [OF assms(1)], simp add: day_stats_def no_stats_def Let_def\<close>)
qed

definition sample_candle :: "int \<Rightarrow> int \<Rightarrow> dec Candle" where
  "sample_candle hour high = \<lparr>cd_OpenTime = hour * Hour, cd_CloseTime = (hour + 1) * Hour, cd_Open = Dec 10 0,
     cd_High = Dec high 0, cd_Low = Dec 9 0, cd_Close = Dec 11 0, cd_Volume = Dec 2 0, cd_Complete = True\<rparr>"

theorem day_stats_of_last_day_witness:
  "\<exists>high. s24_High24h (day_stats dec_ops (last_day [sample_candle 2 12, sample_candle 1 15])) = DString dec_ops high \<and>
     dec_val high = 15"
proof -
  have "set (last_day [sample_candle 2 12, sample_candle 1 15]) = {sample_candle 2 12, sample_candle 1 15}"
    by (auto simp: last_day_def Let_def sample_candle_def)
  with day_stats_of_last_day [OF dec.decimal_laws_axioms, of "[sample_candle 2 12, sample_candle 1 15]"]
  show ?thesis by (auto simp: Let_def sample_candle_def)
qed

end
