(* ===== verification/Instrument_Catalog.thy ===== *)
theory Instrument_Catalog
  imports Exchange_Model
begin

text \<open>
  The in-memory instrument catalog of exchange/catalog.go: source registration, the indexes of a
  snapshot, resolution, publication with its generation counter and the last-known-good fallback.
  Instrument loaders and the optional store are interfaces, so their answers are arguments of the
  operations (\<open>CatalogEnv\<close>). singleflight only collapses concurrent loads of one scope into one
  call; the step relation at the end interleaves the critical sections freely instead.
\<close>

section \<open>Data\<close>

record CatalogScope =
  sc_Venue :: Venue
  sc_Environment :: Environment
  sc_Product :: Product
  sc_Settlement :: string
  sc_Namespace :: string
  sc_EndpointFingerprint :: string

record InstrumentQuery =
  iq_Symbol :: string
  iq_NativeSymbol :: string
  iq_NativeID :: string

record CatalogIndexes =
  ix_BySymbol :: "string \<rightharpoonup> nat"
  ix_ByNativeSymbol :: "string \<rightharpoonup> nat"
  ix_ByNativeID :: "string \<rightharpoonup> nat"

record 'd InstrumentSnapshot =
  sn_SchemaVersion :: int
  sn_Scope :: CatalogScope
  sn_Revision :: string
  sn_Generation :: "64 word"
  sn_LoadedAt :: Time
  sn_Instruments :: "'d Instrument list"
  sn_Indexes :: CatalogIndexes

record CatalogStatus =
  st_Scope :: CatalogScope
  st_Revision :: string
  st_Generation :: "64 word"
  st_LoadedAt :: Time
  st_LastError :: string

record SourceDescriptor =
  sd_Name :: string
  sd_Endpoint :: string
  sd_WebSocketEndpoint :: string
  sd_Transport :: string

text \<open>A registered source; \<open>'l\<close> is the type of instrument loaders.\<close>

record 'l registeredInstrumentSource =
  rs_descriptor :: SourceDescriptor
  rs_fingerprint :: string
  rs_loader :: 'l

record ('d, 'l) MemoryCatalog =
  mc_loader :: "'l option"
  mc_data :: "CatalogScope \<rightharpoonup> 'd InstrumentSnapshot"
  mc_errs :: "CatalogScope \<rightharpoonup> string"
  mc_srcs :: "CatalogScope \<rightharpoonup> 'l registeredInstrumentSource"
  mc_next :: "64 word"

definition no_indexes :: CatalogIndexes where
  "no_indexes = \<lparr>ix_BySymbol = Map.empty, ix_ByNativeSymbol = Map.empty, ix_ByNativeID = Map.empty\<rparr>"

definition no_scope :: CatalogScope where
  "no_scope = \<lparr>sc_Venue = [], sc_Environment = [], sc_Product = [], sc_Settlement = [],
                sc_Namespace = [], sc_EndpointFingerprint = []\<rparr>"

definition no_snapshot :: "'d InstrumentSnapshot" where
  "no_snapshot =
     \<lparr>sn_SchemaVersion = 0, sn_Scope = no_scope, sn_Revision = [], sn_Generation = 0,
      sn_LoadedAt = 0, sn_Instruments = [], sn_Indexes = no_indexes\<rparr>"

definition NewMemoryCatalog :: "'l option \<Rightarrow> ('d, 'l) MemoryCatalog" where
  "NewMemoryCatalog loader =
     \<lparr>mc_loader = loader, mc_data = Map.empty, mc_errs = Map.empty, mc_srcs = Map.empty, mc_next = 0\<rparr>"

text \<open>
  What a call sees of its surroundings: the loaders, the store if there is one, the clock, and
  three functions of the standard library, url.Parse and the SHA-256 digests of the JSON renderings
  of a descriptor and of a snapshot.
\<close>

record ParsedURL =
  url_Scheme :: string
  url_Host :: string
  url_HasUser :: bool
  url_RawQuery :: string
  url_Fragment :: string
  url_String :: string

record 'd InstrumentStore =
  store_Load :: "CatalogScope \<Rightarrow> goerror + 'd InstrumentSnapshot option"
  store_Save :: "'d InstrumentSnapshot \<Rightarrow> goerror option"

record ('d, 'l) CatalogEnv =
  env_LoadInstruments :: "'l \<Rightarrow> CatalogScope \<Rightarrow> goerror + 'd InstrumentSnapshot"
  env_store :: "'d InstrumentStore option"
  env_Now :: Time
  env_url_Parse :: "string \<Rightarrow> ParsedURL option"
  env_descriptor_hash :: "SourceDescriptor \<Rightarrow> string"
  env_snapshot_hash :: "int \<Rightarrow> CatalogScope \<Rightarrow> 'd Instrument list \<Rightarrow> string"

section \<open>Errors\<close>

definition invalidCatalog :: "string \<Rightarrow> goerror" where
  "invalidCatalog message =
     ExchangeError KindInvalidConfig
       (no_details\<lparr>ed_Operation := ''InstrumentCatalog'', ed_SafeMessage := message\<rparr>)"

definition metadataResolutionError :: "CatalogScope \<Rightarrow> string \<Rightarrow> goerror" where
  "metadataResolutionError scope message =
     ExchangeError KindMetadataResolution
       (no_details\<lparr>ed_Venue := sc_Venue scope, ed_Product := sc_Product scope,
          ed_Operation := ''InstrumentCatalog.Resolve'', ed_SafeMessage := message\<rparr>)"

text \<open>The name fmt prints for the dynamic type of an error.\<close>

fun sdk_error_type :: "SdkErrorType \<Rightarrow> string" where
  "sdk_error_type BinancePerpAPIError = ''*perp.APIError''"
| "sdk_error_type BinanceSpotAPIError = ''*spot.APIError''"
| "sdk_error_type OkxAPIError = ''*okx.APIError''"
| "sdk_error_type BybitResponseError = ''*sdk.ResponseError''"
| "sdk_error_type BitgetResponseError = ''*sdk.ResponseError''"
| "sdk_error_type GateAPIError = ''*sdk.APIError''"
| "sdk_error_type HyperliquidOrderRejectedError = ''*hyperliquid.OrderRejectedError''"
| "sdk_error_type HyperliquidAPIErrorValue = ''hyperliquid.APIError''"
| "sdk_error_type HyperliquidAPIErrorPointer = ''*hyperliquid.APIError''"
| "sdk_error_type LighterAPIError = ''*lighter.APIError''"
| "sdk_error_type NadoGatewayApplicationError = ''*nado.GatewayApplicationError''"
| "sdk_error_type AsterVenueError = ''*common.VenueError''"

fun error_type :: "goerror \<Rightarrow> string" where
  "error_type (ExchangeError _ _) = ''*exchange.Error''"
| "error_type (KindSentinel _) = ''exchange.errorSentinel''"
| "error_type ContextCanceled = ''*errors.errorString''"
| "error_type ContextDeadlineExceeded = ''context.deadlineExceededError''"
| "error_type (NetError _) = ''*net.OpError''"
| "error_type (FailureError _) = ''*account.VenueFailure''"
| "error_type (SentinelError _ _) = ''*errors.errorString''"
| "error_type (PlainError _) = ''*errors.errorString''"
| "error_type (HTTPError _ _) = ''*venuehttp.HTTPError''"
| "error_type (LocalRateLimitError _ _) = ''*venuehttp.LocalRateLimitError''"
| "error_type (TransportError _) = ''*venuehttp.httpTransportError''"
| "error_type (MappedError _ _ _ _) = ''*errs.ExchangeError''"
| "error_type (JsonSyntaxError _) = ''*json.SyntaxError''"
| "error_type (JsonTypeError _) = ''*json.UnmarshalTypeError''"
| "error_type (SdkError t _ _ _) = sdk_error_type t"
| "error_type (WrapError _ es) = (if length es > 1 then ''*fmt.wrapErrors'' else ''*fmt.wrapError'')"
| "error_type (JoinError _) = ''*errors.joinError''"

definition safeCatalogError :: "goerror \<Rightarrow> string" where
  "safeCatalogError err =
     (case as_exchange err of
        Some (kind, details) \<Rightarrow> exchange_Error_text kind details
      | None \<Rightarrow> error_type err)"

section \<open>Source registration\<close>

definition normalized_descriptor :: "SourceDescriptor \<Rightarrow> SourceDescriptor" where
  "normalized_descriptor descriptor =
     \<lparr>sd_Name = TrimSpace (sd_Name descriptor),
      sd_Endpoint = TrimRightChar (CHR ''/'') (TrimSpace (sd_Endpoint descriptor)),
      sd_WebSocketEndpoint = TrimRightChar (CHR ''/'') (TrimSpace (sd_WebSocketEndpoint descriptor)),
      sd_Transport = TrimSpace (sd_Transport descriptor)\<rparr>"

definition Fingerprint :: "('d, 'l) CatalogEnv \<Rightarrow> SourceDescriptor \<Rightarrow> string" where
  "Fingerprint env descriptor =
     (let normalized = normalized_descriptor descriptor;
          normalized' = (if sd_Transport normalized = [] then normalized\<lparr>sd_Transport := ''default''\<rparr>
                         else normalized)
      in env_descriptor_hash env normalized')"

definition normalizeCatalogURL ::
  "('d, 'l) CatalogEnv \<Rightarrow> string \<Rightarrow> string list \<Rightarrow> goerror + string" where
  "normalizeCatalogURL env raw schemes =
     (case env_url_Parse env raw of
        None \<Rightarrow> Inl (invalidCatalog ''instrument source endpoint must be absolute'')
      | Some parsed \<Rightarrow>
          if url_Scheme parsed = [] \<or> url_Host parsed = []
          then Inl (invalidCatalog ''instrument source endpoint must be absolute'')
          else if url_Scheme parsed \<notin> set schemes
          then Inl (invalidCatalog ''instrument source endpoint has unsupported scheme'')
          else if url_HasUser parsed \<or> url_RawQuery parsed \<noteq> [] \<or> url_Fragment parsed \<noteq> []
          then Inl (invalidCatalog
                 ''instrument source endpoint must not include user info, query, or fragment'')
          else Inr (TrimRightChar (CHR ''/'') (url_String parsed)))"

text \<open>One optional endpoint: an empty one is left alone.\<close>

definition normalize_endpoint ::
  "('d, 'l) CatalogEnv \<Rightarrow> string \<Rightarrow> string list \<Rightarrow> goerror + string" where
  "normalize_endpoint env raw schemes =
     (if raw \<noteq> [] then normalizeCatalogURL env raw schemes else Inr raw)"

definition normalizeSourceDescriptor ::
  "('d, 'l) CatalogEnv \<Rightarrow> CatalogScope \<Rightarrow> SourceDescriptor \<Rightarrow> goerror + SourceDescriptor" where
  "normalizeSourceDescriptor env scope descriptor =
     (let normalized = normalized_descriptor descriptor in
      if sd_Name normalized = [] then Inl (invalidCatalog ''instrument source name is required'')
      else if sd_Transport normalized = []
      then Inl (invalidCatalog ''instrument source transport is required'')
      else
        (case normalize_endpoint env (sd_Endpoint normalized) [''http'', ''https''] of
           Inl err \<Rightarrow> Inl err
         | Inr endpoint \<Rightarrow>
             (case normalize_endpoint env (sd_WebSocketEndpoint normalized) [''ws'', ''wss''] of
                Inl err \<Rightarrow> Inl err
              | Inr ws \<Rightarrow>
                  (let result = normalized\<lparr>sd_Endpoint := endpoint, sd_WebSocketEndpoint := ws\<rparr> in
                   if endpoint = [] \<and> ws = []
                   then Inl (invalidCatalog ''instrument source endpoint is required'')
                   else if sc_EndpointFingerprint scope \<noteq> [] \<and>
                           sc_EndpointFingerprint scope \<noteq> Fingerprint env result
                   then Inl (invalidCatalog
                     ''catalog scope endpoint fingerprint does not match source descriptor'')
                   else Inr result))))"

definition RegisterSource ::
  "('d, 'l) CatalogEnv \<Rightarrow> CatalogScope \<Rightarrow> SourceDescriptor \<Rightarrow> 'l option \<Rightarrow>
   ('d, 'l) MemoryCatalog \<Rightarrow> goerror option \<times> ('d, 'l) MemoryCatalog" where
  "RegisterSource env scope descriptor loader catalog =
     (case loader of
        None \<Rightarrow> (Some (invalidCatalog ''instrument source loader is required''), catalog)
      | Some l \<Rightarrow>
          (case normalizeSourceDescriptor env scope descriptor of
             Inl err \<Rightarrow> (Some err, catalog)
           | Inr normalized \<Rightarrow>
               (let fingerprint = Fingerprint env normalized in
                case mc_srcs catalog scope of
                  Some current \<Rightarrow>
                    if rs_fingerprint current = fingerprint then (None, catalog)
                    else (Some (invalidCatalog
                            ''instrument source registration conflicts with existing scope''), catalog)
                | None \<Rightarrow>
                    (None, catalog\<lparr>mc_srcs := (mc_srcs catalog)(scope \<mapsto>
                       \<lparr>rs_descriptor = normalized, rs_fingerprint = fingerprint, rs_loader = l\<rparr>)\<rparr>))))"

section \<open>Indexes and resolution\<close>

definition addCatalogIndex ::
  "(string \<rightharpoonup> nat) \<Rightarrow> string \<Rightarrow> nat \<Rightarrow> string \<Rightarrow> goerror + (string \<rightharpoonup> nat)" where
  "addCatalogIndex index key value message =
     (let key = TrimSpace key in
      if key = [] then Inl (invalidCatalog ''empty catalog index key'')
      else if index key \<noteq> None then Inl (invalidCatalog message)
      else Inr (index(key \<mapsto> value)))"

text \<open>One iteration of the loop of buildCatalogIndexes.\<close>

definition index_instrument ::
  "'d Decimals \<Rightarrow> CatalogScope \<Rightarrow> nat \<Rightarrow> 'd Instrument \<Rightarrow> CatalogIndexes \<Rightarrow> goerror + CatalogIndexes" where
  "index_instrument D scope index instrument indexes =
     (let identity = ins_Identity instrument in
      case Instrument_Validate D instrument of
        Some err \<Rightarrow> Inl err
      | None \<Rightarrow>
          if id_Venue identity \<noteq> sc_Venue scope \<or> id_Product identity \<noteq> sc_Product scope
          then Inl (invalidCatalog ''instrument identity does not match catalog scope'')
          else if sc_Settlement scope \<noteq> [] \<and> id_SettleAsset identity \<noteq> [] \<and>
                  id_SettleAsset identity \<noteq> sc_Settlement scope
          then Inl (invalidCatalog ''instrument settlement does not match catalog scope'')
          else
            (case addCatalogIndex (ix_BySymbol indexes) (id_Symbol identity) index
                    ''duplicate canonical symbol'' of
               Inl err \<Rightarrow> Inl err
             | Inr bySymbol \<Rightarrow>
                 (case addCatalogIndex (ix_ByNativeSymbol indexes) (id_NativeSymbol identity) index
                         ''duplicate native symbol'' of
                    Inl err \<Rightarrow> Inl err
                  | Inr byNative \<Rightarrow>
                      (let indexes' = indexes\<lparr>ix_BySymbol := bySymbol, ix_ByNativeSymbol := byNative\<rparr> in
                       if id_NativeID identity \<noteq> [] then
                         (case addCatalogIndex (ix_ByNativeID indexes) (id_NativeID identity) index
                                 ''duplicate native id'' of
                            Inl err \<Rightarrow> Inl err
                          | Inr byID \<Rightarrow> Inr (indexes'\<lparr>ix_ByNativeID := byID\<rparr>))
                       else Inr indexes'))))"

fun index_instruments ::
  "'d Decimals \<Rightarrow> CatalogScope \<Rightarrow> nat \<Rightarrow> 'd Instrument list \<Rightarrow> CatalogIndexes \<Rightarrow>
   goerror + CatalogIndexes" where
  "index_instruments D scope index [] indexes = Inr indexes"
| "index_instruments D scope index (instrument # rest) indexes =
     (case index_instrument D scope index instrument indexes of
        Inl err \<Rightarrow> Inl err
      | Inr indexes' \<Rightarrow> index_instruments D scope (Suc index) rest indexes')"

definition buildCatalogIndexes ::
  "'d Decimals \<Rightarrow> CatalogScope \<Rightarrow> 'd Instrument list \<Rightarrow> goerror + CatalogIndexes" where
  "buildCatalogIndexes D scope instruments = index_instruments D scope 0 instruments no_indexes"

text \<open>A lookup in one index that the two other indexes must not contradict.\<close>

definition resolve_in ::
  "CatalogScope \<Rightarrow> (string \<rightharpoonup> nat) \<Rightarrow> (string \<rightharpoonup> nat) \<Rightarrow> (string \<rightharpoonup> nat) \<Rightarrow> string \<Rightarrow> goerror + nat" where
  "resolve_in scope primary other1 other2 key =
     (case primary key of
        None \<Rightarrow> Inl (metadataResolutionError scope ''instrument metadata not found'')
      | Some index \<Rightarrow>
          if other1 key \<noteq> None \<and> other1 key \<noteq> Some index
          then Inl (metadataResolutionError scope ''instrument query key is ambiguous across indexes'')
          else if other2 key \<noteq> None \<and> other2 key \<noteq> Some index
          then Inl (metadataResolutionError scope ''instrument query key is ambiguous across indexes'')
          else Inr index)"

definition resolveIndex ::
  "CatalogScope \<Rightarrow> CatalogIndexes \<Rightarrow> InstrumentQuery \<Rightarrow> goerror + nat" where
  "resolveIndex scope indexes query =
     (let symbol = TrimSpace (iq_Symbol query);
          nativeSymbol = TrimSpace (iq_NativeSymbol query);
          nativeID = TrimSpace (iq_NativeID query);
          keys = (if symbol \<noteq> [] then 1 else 0 :: nat) + (if nativeSymbol \<noteq> [] then 1 else 0) +
                 (if nativeID \<noteq> [] then 1 else 0) in
      if keys = 0 then Inl (invalidRequest ''instrument query requires exactly one identity key'')
      else if keys > 1 then Inl (invalidRequest ''instrument query is ambiguous'')
      else if symbol \<noteq> []
      then resolve_in scope (ix_BySymbol indexes) (ix_ByNativeSymbol indexes) (ix_ByNativeID indexes) symbol
      else if nativeSymbol \<noteq> []
      then resolve_in scope (ix_ByNativeSymbol indexes) (ix_BySymbol indexes) (ix_ByNativeID indexes) nativeSymbol
      else resolve_in scope (ix_ByNativeID indexes) (ix_BySymbol indexes) (ix_ByNativeSymbol indexes) nativeID)"

section \<open>Publication and loading\<close>

text \<open>Values are copied in HOL as they are in Go; a clone of a slice or of a map is the same value.\<close>

definition cloneInstrument :: "'d Instrument \<Rightarrow> 'd Instrument" where
  "cloneInstrument instrument = instrument"

definition cloneInstruments :: "'d Instrument list \<Rightarrow> 'd Instrument list" where
  "cloneInstruments instruments = map cloneInstrument instruments"

definition cloneIndex :: "(string \<rightharpoonup> nat) \<Rightarrow> (string \<rightharpoonup> nat)" where
  "cloneIndex index = (\<lambda>key. case index key of None \<Rightarrow> None | Some value \<Rightarrow> Some value)"

definition cloneIndexes :: "CatalogIndexes \<Rightarrow> CatalogIndexes" where
  "cloneIndexes indexes =
     \<lparr>ix_BySymbol = cloneIndex (ix_BySymbol indexes),
      ix_ByNativeSymbol = cloneIndex (ix_ByNativeSymbol indexes),
      ix_ByNativeID = cloneIndex (ix_ByNativeID indexes)\<rparr>"

definition cloneSnapshot :: "'d InstrumentSnapshot \<Rightarrow> 'd InstrumentSnapshot" where
  "cloneSnapshot snapshot =
     snapshot\<lparr>sn_Instruments := cloneInstruments (sn_Instruments snapshot),
              sn_Indexes := cloneIndexes (sn_Indexes snapshot)\<rparr>"

definition snapshotRevision :: "('d, 'l) CatalogEnv \<Rightarrow> 'd InstrumentSnapshot \<Rightarrow> string" where
  "snapshotRevision env snapshot =
     env_snapshot_hash env (sn_SchemaVersion snapshot) (sn_Scope snapshot) (sn_Instruments snapshot)"

text \<open>publish up to its critical section: the snapshot to install.\<close>

definition prepare_snapshot ::
  "'d Decimals \<Rightarrow> ('d, 'l) CatalogEnv \<Rightarrow> CatalogScope \<Rightarrow> 'd InstrumentSnapshot \<Rightarrow>
   goerror + 'd InstrumentSnapshot" where
  "prepare_snapshot D env scope snapshot =
     (if sn_Scope snapshot \<noteq> scope
      then Inl (invalidCatalog ''snapshot scope does not match requested scope'')
      else
        (let s1 = (if sn_SchemaVersion snapshot = 0 then snapshot\<lparr>sn_SchemaVersion := 1\<rparr> else snapshot) in
         case buildCatalogIndexes D scope (sn_Instruments s1) of
           Inl err \<Rightarrow> Inl err
         | Inr indexes \<Rightarrow>
             (let s2 = s1\<lparr>sn_Indexes := indexes, sn_Instruments := cloneInstruments (sn_Instruments s1)\<rparr>;
                  s3 = (if sn_LoadedAt s2 = 0 then s2\<lparr>sn_LoadedAt := env_Now env\<rparr> else s2)
              in Inr (s3\<lparr>sn_Revision := snapshotRevision env s3\<rparr>))))"

text \<open>The critical section of publish.\<close>

definition install_snapshot ::
  "CatalogScope \<Rightarrow> 'd InstrumentSnapshot \<Rightarrow> ('d, 'l) MemoryCatalog \<Rightarrow>
   'd InstrumentSnapshot \<times> ('d, 'l) MemoryCatalog" where
  "install_snapshot scope snapshot catalog =
     (let nxt = mc_next catalog + 1; snapshot' = snapshot\<lparr>sn_Generation := nxt\<rparr>
      in (snapshot', catalog\<lparr>mc_next := nxt,
            mc_data := (mc_data catalog)(scope \<mapsto> cloneSnapshot snapshot'),
            mc_errs := (mc_errs catalog)(scope := None)\<rparr>))"

definition publish ::
  "'d Decimals \<Rightarrow> ('d, 'l) CatalogEnv \<Rightarrow> CatalogScope \<Rightarrow> 'd InstrumentSnapshot \<Rightarrow>
   ('d, 'l) MemoryCatalog \<Rightarrow> (goerror + 'd InstrumentSnapshot) \<times> ('d, 'l) MemoryCatalog" where
  "publish D env scope snapshot catalog =
     (case prepare_snapshot D env scope snapshot of
        Inl err \<Rightarrow> (Inl err, catalog)
      | Inr prepared \<Rightarrow>
          (case install_snapshot scope prepared catalog of
             (published, catalog') \<Rightarrow> (Inr published, catalog')))"

definition rememberError ::
  "CatalogScope \<Rightarrow> goerror \<Rightarrow> ('d, 'l) MemoryCatalog \<Rightarrow> ('d, 'l) MemoryCatalog" where
  "rememberError scope err catalog =
     catalog\<lparr>mc_errs := (mc_errs catalog)(scope \<mapsto> safeCatalogError err)\<rparr>"

text \<open>A snapshot together with an error: Go returns both values.\<close>

definition lastKnownGoodOrError ::
  "CatalogScope \<Rightarrow> goerror \<Rightarrow> ('d, 'l) MemoryCatalog \<Rightarrow> 'd InstrumentSnapshot \<times> goerror option" where
  "lastKnownGoodOrError scope err catalog =
     (case mc_data catalog scope of
        Some snapshot \<Rightarrow> (cloneSnapshot snapshot, Some err)
      | None \<Rightarrow> (no_snapshot, Some err))"

definition load_failed ::
  "CatalogScope \<Rightarrow> goerror \<Rightarrow> ('d, 'l) MemoryCatalog \<Rightarrow>
   ('d InstrumentSnapshot \<times> goerror option) \<times> ('d, 'l) MemoryCatalog" where
  "load_failed scope err catalog =
     (let catalog' = rememberError scope err catalog in (lastKnownGoodOrError scope err catalog', catalog'))"

text \<open>The part of loadAndPublish after the store was consulted.\<close>

definition load_from_source ::
  "'d Decimals \<Rightarrow> ('d, 'l) CatalogEnv \<Rightarrow> CatalogScope \<Rightarrow> ('d, 'l) MemoryCatalog \<Rightarrow>
   ('d InstrumentSnapshot \<times> goerror option) \<times> ('d, 'l) MemoryCatalog" where
  "load_from_source D env scope catalog =
     (let loader = (case mc_loader catalog of
                      Some l \<Rightarrow> Some l
                    | None \<Rightarrow> map_option rs_loader (mc_srcs catalog scope)) in
      case loader of
        None \<Rightarrow>
          load_failed scope (metadataResolutionError scope ''instrument loader is not configured'') catalog
      | Some l \<Rightarrow>
          (case env_LoadInstruments env l scope of
             Inl err \<Rightarrow> load_failed scope err catalog
           | Inr loaded \<Rightarrow>
               (case publish D env scope loaded catalog of
                  (Inl err, catalog1) \<Rightarrow> load_failed scope err catalog1
                | (Inr published, catalog1) \<Rightarrow>
                    (case env_store env of
                       None \<Rightarrow> ((published, None), catalog1)
                     | Some store \<Rightarrow>
                         (case store_Save store published of
                            None \<Rightarrow> ((published, None), catalog1)
                          | Some err \<Rightarrow> ((published, None), rememberError scope err catalog1))))))"

definition loadAndPublish ::
  "'d Decimals \<Rightarrow> ('d, 'l) CatalogEnv \<Rightarrow> CatalogScope \<Rightarrow> bool \<Rightarrow> ('d, 'l) MemoryCatalog \<Rightarrow>
   ('d InstrumentSnapshot \<times> goerror option) \<times> ('d, 'l) MemoryCatalog" where
  "loadAndPublish D env scope force catalog =
     (case env_store env of
        None \<Rightarrow> load_from_source D env scope catalog
      | Some store \<Rightarrow>
          if force then load_from_source D env scope catalog
          else
            (case store_Load store scope of
               Inl err \<Rightarrow> load_from_source D env scope (rememberError scope err catalog)
             | Inr None \<Rightarrow> load_from_source D env scope catalog
             | Inr (Some stored) \<Rightarrow>
                 (case publish D env scope stored catalog of
                    (Inl err, catalog1) \<Rightarrow> ((no_snapshot, Some err), catalog1)
                  | (Inr published, catalog1) \<Rightarrow> ((published, None), catalog1))))"

definition catalog_Snapshot ::
  "'d Decimals \<Rightarrow> ('d, 'l) CatalogEnv \<Rightarrow> CatalogScope \<Rightarrow> ('d, 'l) MemoryCatalog \<Rightarrow>
   (goerror + 'd InstrumentSnapshot) \<times> ('d, 'l) MemoryCatalog" where
  "catalog_Snapshot D env scope catalog =
     (case mc_data catalog scope of
        Some snapshot \<Rightarrow> (Inr (cloneSnapshot snapshot), catalog)
      | None \<Rightarrow>
          (case loadAndPublish D env scope False catalog of
             ((_, Some err), catalog1) \<Rightarrow> (Inl err, catalog1)
           | ((value, None), catalog1) \<Rightarrow> (Inr (cloneSnapshot value), catalog1)))"

definition catalog_Refresh ::
  "'d Decimals \<Rightarrow> ('d, 'l) CatalogEnv \<Rightarrow> CatalogScope \<Rightarrow> ('d, 'l) MemoryCatalog \<Rightarrow>
   ('d InstrumentSnapshot \<times> goerror option) \<times> ('d, 'l) MemoryCatalog" where
  "catalog_Refresh D env scope catalog =
     (case loadAndPublish D env scope True catalog of
        ((snapshot, err), catalog1) \<Rightarrow> ((cloneSnapshot snapshot, err), catalog1))"

definition catalog_Resolve ::
  "'d Decimals \<Rightarrow> ('d, 'l) CatalogEnv \<Rightarrow> CatalogScope \<Rightarrow> InstrumentQuery \<Rightarrow>
   ('d, 'l) MemoryCatalog \<Rightarrow> (goerror + 'd Instrument) \<times> ('d, 'l) MemoryCatalog" where
  "catalog_Resolve D env scope query catalog =
     (case catalog_Snapshot D env scope catalog of
        (Inl err, catalog1) \<Rightarrow> (Inl err, catalog1)
      | (Inr snapshot, catalog1) \<Rightarrow>
          (case resolveIndex scope (sn_Indexes snapshot) query of
             Inl err \<Rightarrow> (Inl err, catalog1)
           | Inr index \<Rightarrow> (Inr (cloneInstrument (sn_Instruments snapshot ! index)), catalog1)))"

definition catalog_Status :: "CatalogScope \<Rightarrow> ('d, 'l) MemoryCatalog \<Rightarrow> CatalogStatus" where
  "catalog_Status scope catalog =
     (let snapshot = (case mc_data catalog scope of Some s \<Rightarrow> s | None \<Rightarrow> no_snapshot) in
      \<lparr>st_Scope = scope, st_Revision = sn_Revision snapshot, st_Generation = sn_Generation snapshot,
       st_LoadedAt = sn_LoadedAt snapshot,
       st_LastError = (case mc_errs catalog scope of Some e \<Rightarrow> e | None \<Rightarrow> [])\<rparr>)"

text \<open>
  Concurrent callers: every critical section of the catalog is one step, in any order. The index
  counts the snapshots installed so far.
\<close>

inductive catalog_reach ::
  "'d Decimals \<Rightarrow> nat \<Rightarrow> ('d, 'l) MemoryCatalog \<Rightarrow> bool" for D :: "'d Decimals" where
  reach_new: "catalog_reach D 0 (NewMemoryCatalog loader)"
| reach_register: "catalog_reach D n catalog \<Longrightarrow>
    catalog_reach D n (snd (RegisterSource env scope descriptor loader catalog))"
| reach_install: "catalog_reach D n catalog \<Longrightarrow>
    prepare_snapshot D (env :: ('d, 'l) CatalogEnv) scope snapshot = Inr prepared \<Longrightarrow>
    catalog_reach D (Suc n) (snd (install_snapshot scope prepared catalog))"
| reach_error: "catalog_reach D n catalog \<Longrightarrow> catalog_reach D n (rememberError scope err catalog)"

section \<open>Clones\<close>

lemma cloneInstrument_id [simp]: "cloneInstrument i = i"
  by (simp add: cloneInstrument_def)

lemma cloneInstruments_id [simp]: "cloneInstruments xs = xs"
  by (simp add: cloneInstruments_def map_idI)

lemma cloneIndexes_id [simp]: "cloneIndexes ix = ix"
proof -
  have "cloneIndex m = m" for m
    by (auto simp: cloneIndex_def split: option.split)
  then show ?thesis by (simp add: cloneIndexes_def)
qed

lemma cloneSnapshot_id [simp]: "cloneSnapshot snapshot = snapshot"
  by (simp add: cloneSnapshot_def)

section \<open>Indexes are exact\<close>

text \<open>An index maps a non-empty key to the position of the instrument that carries it.\<close>

definition index_ok :: "('d Instrument \<Rightarrow> string) \<Rightarrow> 'd Instrument list \<Rightarrow> (string \<rightharpoonup> nat) \<Rightarrow> bool" where
  "index_ok key is m \<longleftrightarrow> (\<forall>k i. m k = Some i \<longleftrightarrow> i < length is \<and> k \<noteq> [] \<and> key (is ! i) = k)"

abbreviation "symbol_of instrument \<equiv> id_Symbol (ins_Identity instrument)"
abbreviation "native_symbol_of instrument \<equiv> id_NativeSymbol (ins_Identity instrument)"
abbreviation "native_id_of instrument \<equiv> id_NativeID (ins_Identity instrument)"

definition indexes_ok :: "'d Instrument list \<Rightarrow> CatalogIndexes \<Rightarrow> bool" where
  "indexes_ok is ix \<longleftrightarrow> index_ok symbol_of is (ix_BySymbol ix) \<and>
     index_ok native_symbol_of is (ix_ByNativeSymbol ix) \<and> index_ok native_id_of is (ix_ByNativeID ix)"

definition in_scope :: "CatalogScope \<Rightarrow> 'd Instrument \<Rightarrow> bool" where
  "in_scope scope instrument \<longleftrightarrow>
     id_Venue (ins_Identity instrument) = sc_Venue scope \<and>
     id_Product (ins_Identity instrument) = sc_Product scope \<and>
     (sc_Settlement scope = [] \<or> id_SettleAsset (ins_Identity instrument) \<in> {[], sc_Settlement scope})"

lemma index_ok_Nil [simp]: "index_ok key [] Map.empty"
  by (simp add: index_ok_def)

lemma index_ok_add:
  assumes "index_ok key is m" "TrimSpace (key x) = key x"
    and "addCatalogIndex m (key x) (length is) message = Inr m'"
  shows "index_ok key (is @ [x]) m'"
proof -
  have m': "m' = m(key x \<mapsto> length is)" "key x \<noteq> []" "m (key x) = None"
    using assms(2,3) by (auto simp: addCatalogIndex_def Let_def split: if_splits)
  have iff: "m k = Some i \<longleftrightarrow> i < length is \<and> k \<noteq> [] \<and> key (is ! i) = k" for k i
    using assms(1) by (simp add: index_ok_def)
  have fresh: "key (is ! i) \<noteq> key x" if "i < length is" for i
    using iff [of "key x" i] m'(2,3) that by auto
  have "m' k = Some i \<longleftrightarrow> i < length (is @ [x]) \<and> k \<noteq> [] \<and> key ((is @ [x]) ! i) = k" for k i
    using m' fresh [of i] iff [of k i] by (cases "k = key x"; cases "i < length is") (auto simp: nth_append)
  then show ?thesis by (simp add: index_ok_def)
qed

lemma index_ok_skip:
  assumes "index_ok key is m" "key x = []"
  shows "index_ok key (is @ [x]) m"
proof -
  have "m k = Some i \<longleftrightarrow> i < length (is @ [x]) \<and> k \<noteq> [] \<and> key ((is @ [x]) ! i) = k" for k i
    using assms by (cases "i < length is") (auto simp: index_ok_def nth_append)
  then show ?thesis by (simp add: index_ok_def)
qed

lemma Instrument_Validate_trimmed:
  "Instrument_Validate D instrument = None \<Longrightarrow>
   TrimSpace (symbol_of instrument) = symbol_of instrument \<and>
   TrimSpace (native_symbol_of instrument) = native_symbol_of instrument \<and>
   TrimSpace (native_id_of instrument) = native_id_of instrument"
  by (simp only: Instrument_Validate_def Let_def early_return_None de_Morgan_disj not_not)

lemma index_instrument_ok:
  assumes "indexes_ok is ix" "index_instrument D scope (length is) x ix = Inr ix'"
  shows "indexes_ok (is @ [x]) ix' \<and> Instrument_Validate D x = None \<and> in_scope scope x"
proof -
  have v: "Instrument_Validate D x = None"
    using assms(2) by (cases "Instrument_Validate D x") (auto simp: index_instrument_def Let_def)
  note t = Instrument_Validate_trimmed [OF v]
  obtain s n where s: "addCatalogIndex (ix_BySymbol ix) (symbol_of x) (length is)
        ''duplicate canonical symbol'' = Inr s"
    and n: "addCatalogIndex (ix_ByNativeSymbol ix) (native_symbol_of x) (length is)
        ''duplicate native symbol'' = Inr n"
    using assms(2) v by (auto simp: index_instrument_def Let_def split: if_splits sum.splits)
  have scope: "in_scope scope x"
    using assms(2) v by (auto simp: index_instrument_def in_scope_def Let_def split: if_splits)
  have sn: "index_ok symbol_of (is @ [x]) s" "index_ok native_symbol_of (is @ [x]) n"
    using assms(1) t s n by (auto simp: indexes_ok_def intro: index_ok_add)
  show ?thesis
  proof (cases "native_id_of x = []")
    case True
    then have "ix' = ix\<lparr>ix_BySymbol := s, ix_ByNativeSymbol := n\<rparr>"
      using assms(2) v s n by (auto simp: index_instrument_def Let_def split: if_splits)
    with True sn assms(1) v scope show ?thesis
      by (simp add: indexes_ok_def index_ok_skip)
  next
    case False
    then obtain d where d: "addCatalogIndex (ix_ByNativeID ix) (native_id_of x) (length is)
        ''duplicate native id'' = Inr d"
      and "ix' = ix\<lparr>ix_BySymbol := s, ix_ByNativeSymbol := n, ix_ByNativeID := d\<rparr>"
      using assms(2) v s n by (auto simp: index_instrument_def Let_def split: if_splits sum.splits)
    with sn assms(1) v scope t show ?thesis
      by (auto simp: indexes_ok_def intro: index_ok_add)
  qed
qed

lemma index_instruments_ok:
  "index_instruments D scope (length pre) rest ix = Inr ix' \<Longrightarrow> indexes_ok pre ix \<Longrightarrow>
   indexes_ok (pre @ rest) ix' \<and>
   (\<forall>x\<in>set rest. Instrument_Validate D x = None \<and> in_scope scope x)"
proof (induction rest arbitrary: pre ix)
  case (Cons x rest)
  then obtain ix1 where 1: "index_instrument D scope (length pre) x ix = Inr ix1"
    and 2: "index_instruments D scope (length (pre @ [x])) rest ix1 = Inr ix'"
    by (auto split: sum.splits)
  from index_instrument_ok [OF Cons.prems(2) 1] Cons.IH [OF 2] show ?case by auto
qed auto

lemma buildCatalogIndexes_ok:
  assumes "buildCatalogIndexes D scope is = Inr ix"
  shows "indexes_ok is ix" "\<forall>x\<in>set is. Instrument_Validate D x = None \<and> in_scope scope x"
  using index_instruments_ok [of D scope "[]" "is" no_indexes ix] assms
  by (auto simp: buildCatalogIndexes_def indexes_ok_def no_indexes_def)

section \<open>The catalog invariant\<close>

definition snapshot_ok :: "'d Decimals \<Rightarrow> CatalogScope \<Rightarrow> 'd InstrumentSnapshot \<Rightarrow> bool" where
  "snapshot_ok D scope snapshot \<longleftrightarrow>
     sn_Scope snapshot = scope \<and> sn_SchemaVersion snapshot \<noteq> 0 \<and>
     indexes_ok (sn_Instruments snapshot) (sn_Indexes snapshot) \<and>
     (\<forall>x\<in>set (sn_Instruments snapshot). Instrument_Validate D x = None \<and> in_scope scope x)"

lemma prepare_snapshot_ok:
  "prepare_snapshot D env scope snapshot = Inr prepared \<Longrightarrow>
   snapshot_ok D scope prepared \<and> sn_Instruments prepared = sn_Instruments snapshot"
  by (auto simp: prepare_snapshot_def snapshot_ok_def Let_def buildCatalogIndexes_ok
      dest: buildCatalogIndexes_ok split: if_splits sum.splits)

lemma snapshot_ok_generation [simp]:
  "snapshot_ok D scope (snapshot\<lparr>sn_Generation := g\<rparr>) \<longleftrightarrow> snapshot_ok D scope snapshot"
  by (simp add: snapshot_ok_def)

lemma RegisterSource_frame [simp]:
  "mc_data (snd (RegisterSource env scope descriptor loader catalog)) = mc_data catalog"
  "mc_next (snd (RegisterSource env scope descriptor loader catalog)) = mc_next catalog"
  by (auto simp: RegisterSource_def Let_def split: option.split sum.split)

lemma rememberError_frame [simp]:
  "mc_data (rememberError scope err catalog) = mc_data catalog"
  "mc_next (rememberError scope err catalog) = mc_next catalog"
  by (simp_all add: rememberError_def)

text \<open>Every published snapshot is well formed for its scope.\<close>

lemma reach_snapshots_ok:
  "catalog_reach D n catalog \<Longrightarrow> mc_data catalog scope = Some snapshot \<Longrightarrow> snapshot_ok D scope snapshot"
  by (induction arbitrary: scope snapshot rule: catalog_reach.induct)
    (auto simp: NewMemoryCatalog_def install_snapshot_def Let_def split: if_splits dest: prepare_snapshot_ok)

text \<open>Until the counter wraps, generations number the installations: distinct, and at most the counter.\<close>

lemma reach_generations:
  assumes "catalog_reach D n catalog" "n < 2 ^ 64"
  shows "unat (mc_next catalog) = n \<and>
    (\<forall>scope s. mc_data catalog scope = Some s \<longrightarrow> 0 < unat (sn_Generation s) \<and> unat (sn_Generation s) \<le> n) \<and>
    (\<forall>scope1 scope2 s1 s2. mc_data catalog scope1 = Some s1 \<longrightarrow> mc_data catalog scope2 = Some s2 \<longrightarrow>
       sn_Generation s1 = sn_Generation s2 \<longrightarrow> scope1 = scope2)"
  using assms
proof (induction rule: catalog_reach.induct)
  case (reach_install n catalog env scope snapshot prepared)
  then have IH: "unat (mc_next catalog) = n"
      "\<And>scope s. mc_data catalog scope = Some s \<Longrightarrow> 0 < unat (sn_Generation s) \<and> unat (sn_Generation s) \<le> n"
      "\<And>scope1 scope2 s1 s2. mc_data catalog scope1 = Some s1 \<Longrightarrow> mc_data catalog scope2 = Some s2 \<Longrightarrow>
         sn_Generation s1 = sn_Generation s2 \<Longrightarrow> scope1 = scope2"
    by auto
  have nxt: "unat (mc_next catalog + 1) = Suc n"
    using IH(1) reach_install.prems by (simp add: unat_word_ariths)
  have fresh: "sn_Generation s \<noteq> mc_next catalog + 1" if "mc_data catalog sc = Some s" for sc s
    using IH(2) [OF that] nxt by auto
  show ?case
    using IH nxt fresh fresh [symmetric]
    by (auto simp: install_snapshot_def Let_def le_Suc_eq split: if_splits)
qed (auto simp: NewMemoryCatalog_def)

section \<open>Resolution\<close>

text \<open>
  A text identifies one instrument: it is that instrument's key, and no other instrument carries
  it as symbol, native symbol or native id.
\<close>

definition identifies :: "('d Instrument \<Rightarrow> string) \<Rightarrow> 'd Instrument list \<Rightarrow> string \<Rightarrow> nat \<Rightarrow> bool" where
  "identifies key is k i \<longleftrightarrow> k \<noteq> [] \<and> i < length is \<and> key (is ! i) = k \<and>
     (\<forall>j<length is. j \<noteq> i \<longrightarrow> k \<notin> {symbol_of (is ! j), native_symbol_of (is ! j), native_id_of (is ! j)})"

lemma index_ok_conflict:
  assumes "index_ok key is m" "k \<noteq> []"
  shows "\<not> (m k \<noteq> None \<and> m k \<noteq> Some i) \<longleftrightarrow> (\<forall>j<length is. j \<noteq> i \<longrightarrow> k \<noteq> key (is ! j))"
proof -
  have iff: "m k = Some j \<longleftrightarrow> j < length is \<and> key (is ! j) = k" for j
    using assms by (simp add: index_ok_def)
  show ?thesis
  proof (cases "m k")
    case None
    then show ?thesis using iff by auto
  next
    case (Some j)
    then show ?thesis using iff by (metis option.inject option.distinct(1))
  qed
qed

lemma resolve_in_iff:
  assumes "index_ok k1 is p" "index_ok k2 is o1" "index_ok k3 is o2" "k \<noteq> []"
    and "\<And>x. {k1 x, k2 x, k3 x} = {symbol_of x, native_symbol_of x, native_id_of x}"
  shows "resolve_in scope p o1 o2 k = Inr i \<longleftrightarrow> identifies k1 is k i"
proof -
  have p: "p k = Some j \<longleftrightarrow> j < length is \<and> k1 (is ! j) = k" for j
    using assms(1,4) by (simp add: index_ok_def)
  have r: "resolve_in scope p o1 o2 k = Inr i \<longleftrightarrow>
      p k = Some i \<and> \<not> (o1 k \<noteq> None \<and> o1 k \<noteq> Some i) \<and> \<not> (o2 k \<noteq> None \<and> o2 k \<noteq> Some i)"
    by (cases "p k") (auto simp: resolve_in_def)
  have own: "\<forall>j<length is. j \<noteq> i \<longrightarrow> k \<noteq> k1 (is ! j)" if "p k = Some i"
    using p that by (metis option.inject)
  show ?thesis
    unfolding r index_ok_conflict [OF assms(2,4)] index_ok_conflict [OF assms(3,4)]
      identifies_def assms(5) [symmetric]
    using own p [of i] assms(4) by (cases "p k = Some i") auto
qed

lemma resolveIndex_iff:
  assumes "indexes_ok is ix"
  shows "resolveIndex scope ix query = Inr i \<longleftrightarrow>
    (TrimSpace (iq_NativeSymbol query) = [] \<and> TrimSpace (iq_NativeID query) = [] \<and>
       identifies symbol_of is (TrimSpace (iq_Symbol query)) i) \<or>
    (TrimSpace (iq_Symbol query) = [] \<and> TrimSpace (iq_NativeID query) = [] \<and>
       identifies native_symbol_of is (TrimSpace (iq_NativeSymbol query)) i) \<or>
    (TrimSpace (iq_Symbol query) = [] \<and> TrimSpace (iq_NativeSymbol query) = [] \<and>
       identifies native_id_of is (TrimSpace (iq_NativeID query)) i)"
proof -
  have ok: "index_ok symbol_of is (ix_BySymbol ix)" "index_ok native_symbol_of is (ix_ByNativeSymbol ix)"
      "index_ok native_id_of is (ix_ByNativeID ix)"
    using assms by (simp_all add: indexes_ok_def)
  have 1: "k \<noteq> [] \<Longrightarrow> resolve_in scope (ix_BySymbol ix) (ix_ByNativeSymbol ix) (ix_ByNativeID ix) k = Inr i
      \<longleftrightarrow> identifies symbol_of is k i" for k
    by (rule resolve_in_iff [OF ok(1) ok(2) ok(3)]) auto
  have 2: "k \<noteq> [] \<Longrightarrow> resolve_in scope (ix_ByNativeSymbol ix) (ix_BySymbol ix) (ix_ByNativeID ix) k = Inr i
      \<longleftrightarrow> identifies native_symbol_of is k i" for k
    by (rule resolve_in_iff [OF ok(2) ok(1) ok(3)]) auto
  have 3: "k \<noteq> [] \<Longrightarrow> resolve_in scope (ix_ByNativeID ix) (ix_BySymbol ix) (ix_ByNativeSymbol ix) k = Inr i
      \<longleftrightarrow> identifies native_id_of is k i" for k
    by (rule resolve_in_iff [OF ok(3) ok(1) ok(2)]) auto
  have ne: "\<not> identifies key is [] i" for key
    by (simp add: identifies_def)
  show ?thesis
    by (cases "TrimSpace (iq_Symbol query) = []"; cases "TrimSpace (iq_NativeSymbol query) = []";
        cases "TrimSpace (iq_NativeID query) = []") (simp_all add: resolveIndex_def Let_def 1 2 3 ne)
qed

section \<open>Whole operations stay within the steps\<close>

lemma publish_reach:
  assumes "catalog_reach D n catalog"
  shows "\<exists>m. m \<le> Suc n \<and> catalog_reach D m (snd (publish D env scope snapshot catalog))"
proof (cases "prepare_snapshot D env scope snapshot")
  case (Inl err)
  with assms show ?thesis by (auto simp: publish_def intro: exI [of _ n])
next
  case (Inr prepared)
  then show ?thesis
    using reach_install [OF assms Inr]
    by (intro exI [of _ "Suc n"]) (simp add: publish_def split_beta)
qed

lemma load_failed_reach: "catalog_reach D n catalog \<Longrightarrow> catalog_reach D n (snd (load_failed scope err catalog))"
  by (simp add: load_failed_def Let_def reach_error)

lemma load_from_source_reach:
  assumes "catalog_reach D n catalog"
  shows "\<exists>m. m \<le> Suc n \<and> catalog_reach D m (snd (load_from_source D env scope catalog))"
proof -
  have p: "\<exists>m. m \<le> Suc n \<and> catalog_reach D m (snd (publish D env scope loaded catalog))" for loaded
    by (rule publish_reach [OF assms])
  have stay: "\<exists>m. m \<le> Suc n \<and> catalog_reach D m (snd (load_failed scope err catalog))" for err
    using load_failed_reach [OF assms] le_SucI by blast
  have "\<exists>m. m \<le> Suc n \<and> catalog_reach D m
      (snd (case publish D env scope loaded catalog of
              (Inl err, catalog1) \<Rightarrow> load_failed scope err catalog1
            | (Inr published, catalog1) \<Rightarrow>
                (case env_store env of
                   None \<Rightarrow> ((published, None), catalog1)
                 | Some store \<Rightarrow>
                     (case store_Save store published of
                        None \<Rightarrow> ((published, None), catalog1)
                      | Some err \<Rightarrow> ((published, None), rememberError scope err catalog1)))))" for loaded
  proof -
    obtain m where "m \<le> Suc n" "catalog_reach D m (snd (publish D env scope loaded catalog))"
      using p by blast
    then show ?thesis
      by (intro exI [of _ m])
        (auto split: prod.split sum.split option.split intro: load_failed_reach reach_error)
  qed
  with stay show ?thesis
    by (simp add: load_from_source_def Let_def split: option.split sum.split)
qed

lemma loadAndPublish_reach:
  assumes "catalog_reach D n catalog"
  shows "\<exists>m. m \<le> Suc n \<and> catalog_reach D m (snd (loadAndPublish D env scope force catalog))"
proof -
  have "\<exists>m. m \<le> Suc n \<and> catalog_reach D m
      (snd (case publish D env scope stored catalog of
              (Inl err, catalog1) \<Rightarrow> ((no_snapshot, Some err), catalog1)
            | (Inr published, catalog1) \<Rightarrow> ((published, None), catalog1)))" for stored
    using publish_reach [OF assms, of env scope stored] by (auto split: prod.split sum.split)
  then show ?thesis
    using load_from_source_reach [OF assms] load_from_source_reach [OF reach_error [OF assms]]
    by (simp add: loadAndPublish_def split: option.split sum.split)
qed

lemma catalog_Snapshot_reach:
  assumes "catalog_reach D n catalog"
  shows "\<exists>m. m \<le> Suc n \<and> catalog_reach D m (snd (catalog_Snapshot D env scope catalog))"
proof (cases "mc_data catalog scope")
  case None
  then show ?thesis
    using loadAndPublish_reach [OF assms, of env scope False]
    by (auto simp: catalog_Snapshot_def split: option.split prod.split)
next
  case (Some snapshot)
  with assms show ?thesis
    by (intro exI [of _ n]) (simp add: catalog_Snapshot_def)
qed

text \<open>What a load without error returns is what the catalog now holds.\<close>

lemma publish_installed:
  "publish D env scope snapshot catalog = (Inr published, catalog1) \<Longrightarrow>
   mc_data catalog1 scope = Some published"
  by (auto simp: publish_def install_snapshot_def Let_def split: sum.splits)

lemma load_from_source_installed:
  "load_from_source D env scope catalog = ((published, None), catalog1) \<Longrightarrow>
   mc_data catalog1 scope = Some published"
  by (auto simp: load_from_source_def Let_def load_failed_def lastKnownGoodOrError_def
      dest: publish_installed split: option.splits sum.splits prod.splits)

lemma loadAndPublish_installed:
  "loadAndPublish D env scope force catalog = ((published, None), catalog1) \<Longrightarrow>
   mc_data catalog1 scope = Some published"
  by (auto simp: loadAndPublish_def dest: publish_installed load_from_source_installed
      split: option.splits sum.splits prod.splits if_splits)

lemma catalog_Snapshot_installed:
  "catalog_Snapshot D env scope catalog = (Inr snapshot, catalog1) \<Longrightarrow> mc_data catalog1 scope = Some snapshot"
  by (auto simp: catalog_Snapshot_def dest: loadAndPublish_installed split: option.splits prod.splits)

lemma catalog_Snapshot_ok:
  assumes "catalog_reach D n catalog" "catalog_Snapshot D env scope catalog = (Inr snapshot, catalog1)"
  shows "snapshot_ok D scope snapshot"
  using catalog_Snapshot_reach [OF assms(1), of env scope] assms(2) catalog_Snapshot_installed [OF assms(2)]
    reach_snapshots_ok by fastforce

text \<open>A failed load leaves the published snapshots, the counter and the sources alone.\<close>

lemma publish_failed: "publish D env scope snapshot catalog = (Inl err, catalog1) \<Longrightarrow> catalog1 = catalog"
  by (auto simp: publish_def install_snapshot_def Let_def split: sum.splits)

lemma load_from_source_failed:
  "load_from_source D env scope catalog = ((snapshot, Some err), catalog1) \<Longrightarrow>
   catalog1 = rememberError scope err catalog \<and>
   snapshot = (case mc_data catalog scope of Some s \<Rightarrow> s | None \<Rightarrow> no_snapshot)"
  by (auto simp: load_from_source_def Let_def load_failed_def lastKnownGoodOrError_def rememberError_def
      dest!: publish_failed split: option.splits sum.splits prod.splits)

section \<open>Properties\<close>

text \<open>
  C36: over the indexes built from a list of instruments, a query resolves to a position exactly when it
  names one key, that key is carried by the instrument at the position in the queried field, and no other
  instrument of the list carries the same text in any of its three identity fields.
\<close>

theorem catalog_resolution_exact:
  assumes "buildCatalogIndexes D scope is = Inr ix"
  shows "resolveIndex scope ix query = Inr i \<longleftrightarrow>
    (TrimSpace (iq_NativeSymbol query) = [] \<and> TrimSpace (iq_NativeID query) = [] \<and>
       identifies symbol_of is (TrimSpace (iq_Symbol query)) i) \<or>
    (TrimSpace (iq_Symbol query) = [] \<and> TrimSpace (iq_NativeID query) = [] \<and>
       identifies native_symbol_of is (TrimSpace (iq_NativeSymbol query)) i) \<or>
    (TrimSpace (iq_Symbol query) = [] \<and> TrimSpace (iq_NativeSymbol query) = [] \<and>
       identifies native_id_of is (TrimSpace (iq_NativeID query)) i)"
  by (rule resolveIndex_iff [OF buildCatalogIndexes_ok(1) [OF assms]])

definition sample_scope :: CatalogScope where
  "sample_scope = \<lparr>sc_Venue = VenueBinance, sc_Environment = EnvironmentLive, sc_Product = ProductPerp,
     sc_Settlement = ''USDT'', sc_Namespace = [], sc_EndpointFingerprint = []\<rparr>"

definition sample_indexes :: CatalogIndexes where
  "sample_indexes = \<lparr>ix_BySymbol = [''BTC/USDT'' \<mapsto> 0], ix_ByNativeSymbol = [''BTCUSDT'' \<mapsto> 0],
     ix_ByNativeID = Map.empty\<rparr>"

lemma sample_indexes_built: "buildCatalogIndexes dec_ops sample_scope [sample_instrument] = Inr sample_indexes"
  using sample_instrument_valid
  by (simp add: buildCatalogIndexes_def index_instrument_def addCatalogIndex_def no_indexes_def
      sample_instrument_def sample_scope_def sample_indexes_def)

theorem catalog_resolution_exact_witness:
  "resolveIndex sample_scope sample_indexes
     \<lparr>iq_Symbol = ''BTC/USDT'', iq_NativeSymbol = [], iq_NativeID = []\<rparr> = Inr 0"
  unfolding catalog_resolution_exact [OF sample_indexes_built]
  by (simp add: identifies_def sample_instrument_def)

text \<open>
  C2: in every state the interleaved critical sections of concurrent callers can reach, each published
  snapshot is filed under its own scope with instruments that all validate and belong to that scope and
  with exact indexes; and before the 64-bit counter wraps, generations are positive, at most the number
  of publications, and never shared by two scopes.
\<close>

theorem catalog_invariant:
  assumes "catalog_reach D n catalog" and "mc_data catalog scope = Some snapshot" and "n < 2 ^ 64"
  shows "snapshot_ok D scope snapshot \<and> 0 < unat (sn_Generation snapshot) \<and>
    unat (sn_Generation snapshot) \<le> n \<and>
    (\<forall>scope' snapshot'. mc_data catalog scope' = Some snapshot' \<longrightarrow>
       sn_Generation snapshot' = sn_Generation snapshot \<longrightarrow> scope' = scope)"
  using reach_snapshots_ok [OF assms(1,2)] reach_generations [OF assms(1,3)] assms(2) by blast

definition sample_env :: "(dec, nat) CatalogEnv" where
  "sample_env =
     \<lparr>env_LoadInstruments = (\<lambda>l scope. Inl (NetError ''dial tcp: timeout'')), env_store = None,
      env_Now = unix_epoch, env_url_Parse = (\<lambda>_. None), env_descriptor_hash = sd_Name,
      env_snapshot_hash = (\<lambda>_ _ _. ''rev'')\<rparr>"

definition sample_loaded :: "dec InstrumentSnapshot" where
  "sample_loaded = no_snapshot\<lparr>sn_Scope := sample_scope, sn_Instruments := [sample_instrument]\<rparr>"

lemma sample_loaded_instruments [simp]: "sn_Instruments sample_loaded = [sample_instrument]"
  by (simp add: sample_loaded_def)

definition sample_catalog :: "(dec, nat) MemoryCatalog" where
  "sample_catalog = snd (publish dec_ops sample_env sample_scope sample_loaded (NewMemoryCatalog (Some 0)))"

lemma sample_publish:
  "publish dec_ops sample_env sample_scope sample_loaded (NewMemoryCatalog (Some 0)) =
     (let snapshot = sample_loaded\<lparr>sn_SchemaVersion := 1, sn_Indexes := sample_indexes,
            sn_LoadedAt := unix_epoch, sn_Revision := ''rev'', sn_Generation := 1\<rparr>
      in (Inr snapshot, (NewMemoryCatalog (Some 0))\<lparr>mc_next := 1,
            mc_data := [sample_scope \<mapsto> snapshot]\<rparr>))"
  using sample_indexes_built
  by (simp add: publish_def prepare_snapshot_def install_snapshot_def sample_loaded_def no_snapshot_def
      snapshotRevision_def sample_env_def NewMemoryCatalog_def fun_upd_def Let_def)

lemma sample_catalog_reach: "catalog_reach dec_ops 1 sample_catalog"
proof -
  obtain prepared where p: "prepare_snapshot dec_ops sample_env sample_scope sample_loaded = Inr prepared"
    using sample_publish by (auto simp: publish_def Let_def split: sum.splits)
  have "sample_catalog = snd (install_snapshot sample_scope prepared (NewMemoryCatalog (Some 0)))"
    by (simp add: sample_catalog_def publish_def p split_beta)
  then show ?thesis
    using reach_install [OF reach_new p, of "Some 0"] by simp
qed

lemma sample_catalog_data:
  "\<exists>snapshot. mc_data sample_catalog sample_scope = Some snapshot \<and>
     sn_Instruments snapshot = [sample_instrument]"
  by (simp add: sample_catalog_def sample_publish Let_def)

theorem catalog_invariant_witness:
  "\<exists>snapshot. mc_data sample_catalog sample_scope = Some snapshot \<and>
     snapshot_ok dec_ops sample_scope snapshot \<and> unat (sn_Generation snapshot) \<le> 1"
proof -
  obtain snapshot where s: "mc_data sample_catalog sample_scope = Some snapshot"
    using sample_catalog_data by blast
  with catalog_invariant [OF sample_catalog_reach s] show ?thesis by simp
qed

text \<open>
  A Refresh that fails, for whatever reason, keeps the last known good data: every published snapshot,
  the generation counter and the registered sources are unchanged, the snapshot returned beside the error
  is the one already published for the scope (the zero snapshot if there is none), and Status reports the
  redacted error.
\<close>

theorem refresh_keeps_last_known_good:
  assumes "catalog_Refresh D env scope catalog = ((snapshot, Some err), catalog')"
  shows "mc_data catalog' = mc_data catalog \<and> mc_next catalog' = mc_next catalog \<and>
    mc_srcs catalog' = mc_srcs catalog \<and>
    snapshot = (case mc_data catalog scope of Some s \<Rightarrow> s | None \<Rightarrow> no_snapshot) \<and>
    st_LastError (catalog_Status scope catalog') = safeCatalogError err"
proof -
  have "load_from_source D env scope catalog = ((snapshot, Some err), catalog')"
    using assms by (auto simp: catalog_Refresh_def loadAndPublish_def split: option.splits prod.splits)
  from load_from_source_failed [OF this] show ?thesis
    by (simp add: rememberError_def catalog_Status_def Let_def)
qed

theorem refresh_keeps_last_known_good_witness:
  "\<exists>snapshot catalog'. catalog_Refresh dec_ops sample_env sample_scope sample_catalog =
     ((snapshot, Some (NetError ''dial tcp: timeout'')), catalog') \<and>
     sn_Instruments snapshot = [sample_instrument] \<and> mc_data catalog' = mc_data sample_catalog"
proof -
  have l: "mc_loader sample_catalog = Some 0"
    by (simp add: sample_catalog_def sample_publish Let_def) (simp add: NewMemoryCatalog_def)
  obtain snapshot catalog' where r: "catalog_Refresh dec_ops sample_env sample_scope sample_catalog =
      ((snapshot, Some (NetError ''dial tcp: timeout'')), catalog')"
    using sample_catalog_data
    by (auto simp: catalog_Refresh_def loadAndPublish_def load_from_source_def load_failed_def
        lastKnownGoodOrError_def sample_env_def l)
  from refresh_keeps_last_known_good [OF r] sample_catalog_data r show ?thesis by auto
qed

text \<open>
  Whatever loaders, store and clock answer, an instrument that Resolve returns from a reachable
  catalog validates, belongs to the scope, and carries the queried text in the queried field, which no
  other instrument of the published snapshot carries.
\<close>

theorem catalog_resolve_sound:
  assumes "catalog_reach D n catalog"
    and "catalog_Resolve D env scope query catalog = (Inr instrument, catalog')"
  shows "Instrument_Validate D instrument = None \<and> in_scope scope instrument \<and>
    TrimSpace (iq_Symbol query) \<in> {[], symbol_of instrument} \<and>
    TrimSpace (iq_NativeSymbol query) \<in> {[], native_symbol_of instrument} \<and>
    TrimSpace (iq_NativeID query) \<in> {[], native_id_of instrument} \<and>
    (\<exists>snapshot. mc_data catalog' scope = Some snapshot \<and> instrument \<in> set (sn_Instruments snapshot))"
proof -
  obtain snapshot index where s: "catalog_Snapshot D env scope catalog = (Inr snapshot, catalog')"
    and r: "resolveIndex scope (sn_Indexes snapshot) query = Inr index"
    and i: "instrument = sn_Instruments snapshot ! index"
    using assms(2) by (auto simp: catalog_Resolve_def split: prod.splits sum.splits)
  have ok: "snapshot_ok D scope snapshot"
    by (rule catalog_Snapshot_ok [OF assms(1) s])
  then have ix: "indexes_ok (sn_Instruments snapshot) (sn_Indexes snapshot)"
    by (simp add: snapshot_ok_def)
  note r' = r [unfolded resolveIndex_iff [OF ix]]
  then have "index < length (sn_Instruments snapshot)"
    by (auto simp: identifies_def)
  then have mem: "instrument \<in> set (sn_Instruments snapshot)"
    using i by simp
  with ok catalog_Snapshot_installed [OF s] r' i show ?thesis
    by (auto simp: snapshot_ok_def identifies_def)
qed

theorem catalog_resolve_sound_witness:
  "\<exists>catalog'. catalog_Resolve dec_ops sample_env sample_scope
     \<lparr>iq_Symbol = [], iq_NativeSymbol = ''BTCUSDT'', iq_NativeID = []\<rparr> sample_catalog =
     (Inr sample_instrument, catalog') \<and> in_scope sample_scope sample_instrument"
proof -
  have r: "catalog_Resolve dec_ops sample_env sample_scope
     \<lparr>iq_Symbol = [], iq_NativeSymbol = ''BTCUSDT'', iq_NativeID = []\<rparr> sample_catalog =
     (Inr sample_instrument, sample_catalog)"
    by (simp add: catalog_Resolve_def catalog_Snapshot_def sample_catalog_def sample_publish Let_def
        resolveIndex_def resolve_in_def sample_indexes_def)
  with catalog_resolve_sound [OF sample_catalog_reach r] show ?thesis by auto
qed

end
