(* ===== verification/Market_Data.thy ===== *)
theory Market_Data
  imports Instrument_Catalog
begin

text \<open>
  Reusable market facts: the capability descriptions, derivative facts with a separate clock per
  field group, masked patches and freshness (exchange/market_data.go), and settled funding histories
  (exchange/funding_history.go). The field mask is the 32-bit word it is in Go.
\<close>

unbundle bit_operations_syntax

section \<open>Capabilities\<close>

type_synonym MarketDataset = string
type_synonym MarketTransport = string
type_synonym MarketGranularity = string

abbreviation "DatasetCatalog \<equiv> ''catalog''"
abbreviation "DatasetBBO \<equiv> ''bbo''"
abbreviation "DatasetDepth \<equiv> ''depth''"
abbreviation "DatasetCandle \<equiv> ''candle''"
abbreviation "DatasetMark \<equiv> ''mark''"
abbreviation "DatasetIndex \<equiv> ''index''"
abbreviation "DatasetFunding \<equiv> ''funding''"
abbreviation "DatasetOpenInterest \<equiv> ''open_interest''"
abbreviation "TransportWebSocket \<equiv> ''websocket''"
abbreviation "TransportREST \<equiv> ''rest''"
abbreviation "GranularityAllMarket \<equiv> ''all_market''"
abbreviation "GranularityMultiSymbol \<equiv> ''multi_symbol''"
abbreviation "GranularitySingleInstrument \<equiv> ''single_instrument''"
abbreviation "GranularityPollOnly \<equiv> ''poll_only''"
abbreviation "GranularityUnsupported \<equiv> ''unsupported''"

definition knownMarketDataset :: "MarketDataset \<Rightarrow> bool" where
  "knownMarketDataset dataset \<longleftrightarrow>
     dataset \<in> {DatasetCatalog, DatasetBBO, DatasetDepth, DatasetCandle, DatasetMark, DatasetIndex,
                DatasetFunding, DatasetOpenInterest}"

record MarketCapability =
  cap_Venue :: Venue
  cap_NativeMarketFamily :: string
  cap_Dataset :: MarketDataset
  cap_Transport :: MarketTransport
  cap_Granularity :: MarketGranularity
  cap_NominalCadence :: Duration
  cap_MaxTopicsPerConnection :: int
  cap_HasSnapshot :: bool
  cap_HasSourceSequence :: bool
  cap_RateLimitOperation :: string

definition MarketCapability_Validate :: "MarketCapability \<Rightarrow> goerror option" where
  "MarketCapability_Validate capability =
     (if \<not> knownVenue (cap_Venue capability) \<or> TrimSpace (cap_NativeMarketFamily capability) = [] \<or>
         \<not> knownMarketDataset (cap_Dataset capability)
      then Some (PlainError ''market capability identity is invalid'')
      else if cap_Transport capability \<noteq> TransportWebSocket \<and> cap_Transport capability \<noteq> TransportREST
      then Some (PlainError ''market capability transport is invalid'')
      else if cap_Granularity capability \<notin>
              {GranularityAllMarket, GranularityMultiSymbol, GranularitySingleInstrument,
               GranularityPollOnly, GranularityUnsupported}
      then Some (PlainError ''market capability granularity is invalid'')
      else if cap_NominalCadence capability < 0 \<or> cap_MaxTopicsPerConnection capability < 0
      then Some (PlainError ''market capability limits are invalid'')
      else None)"

section \<open>Derivative facts\<close>

record 'd DerivativeFact =
  df_InstrumentID :: string
  df_RouteProfileID :: string
  df_Instrument :: InstrumentIdentity
  df_Environment :: Environment
  df_FundingRate :: "'d OptionalDecimal"
  df_FundingIntervalHours :: OptionalInt
  df_NextFundingTime :: Time
  df_MarkPrice :: "'d OptionalDecimal"
  df_IndexPrice :: "'d OptionalDecimal"
  df_OpenInterest :: "'d OptionalDecimal"
  df_OpenInterestNotional :: "'d OptionalDecimal"
  df_OpenInterestNotionalAsset :: string
  df_FundingObservedAt :: Time
  df_MarkObservedAt :: Time
  df_IndexObservedAt :: Time
  df_OpenInterestObservedAt :: Time

definition DerivativeFact_Validate :: "'d DerivativeFact \<Rightarrow> goerror option" where
  "DerivativeFact_Validate fct =
     (let identity = df_Instrument fct;
          fundingPresent = (od_Valid (df_FundingRate fct) \<or> oi_Valid (df_FundingIntervalHours fct) \<or>
                            df_NextFundingTime fct \<noteq> 0) in
      if TrimSpace (df_InstrumentID fct) = [] \<or> TrimSpace (df_RouteProfileID fct) = [] \<or>
         df_Environment fct \<noteq> EnvironmentLive
      then Some (PlainError ''derivative fact identity is invalid'')
      else if id_Product identity \<noteq> ProductPerp \<or> \<not> knownVenue (id_Venue identity) \<or>
              TrimSpace (id_NativeSymbol identity) = []
      then Some (PlainError ''derivative fact instrument is invalid'')
      else if fundingPresent \<noteq> (df_FundingObservedAt fct \<noteq> 0)
      then Some (PlainError ''derivative funding value and clock disagree'')
      else if od_Valid (df_MarkPrice fct) \<noteq> (df_MarkObservedAt fct \<noteq> 0)
      then Some (PlainError ''derivative mark value and clock disagree'')
      else if od_Valid (df_IndexPrice fct) \<noteq> (df_IndexObservedAt fct \<noteq> 0)
      then Some (PlainError ''derivative index value and clock disagree'')
      else if (od_Valid (df_OpenInterest fct) \<or> od_Valid (df_OpenInterestNotional fct)) \<noteq>
              (df_OpenInterestObservedAt fct \<noteq> 0)
      then Some (PlainError ''derivative open-interest value and clock disagree'')
      else if od_Valid (df_OpenInterestNotional fct) \<and> TrimSpace (df_OpenInterestNotionalAsset fct) = []
      then Some (PlainError ''derivative open-interest notional asset is missing'')
      else None)"

type_synonym DerivativeField = "32 word"

abbreviation DerivativeFieldIdentity :: DerivativeField where "DerivativeFieldIdentity \<equiv> 1"
abbreviation DerivativeFieldFunding :: DerivativeField where "DerivativeFieldFunding \<equiv> 2"
abbreviation DerivativeFieldFundingInterval :: DerivativeField where "DerivativeFieldFundingInterval \<equiv> 4"
abbreviation DerivativeFieldNextFundingTime :: DerivativeField where "DerivativeFieldNextFundingTime \<equiv> 8"
abbreviation DerivativeFieldMark :: DerivativeField where "DerivativeFieldMark \<equiv> 16"
abbreviation DerivativeFieldIndex :: DerivativeField where "DerivativeFieldIndex \<equiv> 32"
abbreviation DerivativeFieldOpenInterest :: DerivativeField where "DerivativeFieldOpenInterest \<equiv> 64"
abbreviation DerivativeFieldOpenInterestNotional :: DerivativeField where
  "DerivativeFieldOpenInterestNotional \<equiv> 128"

abbreviation DerivativeFieldAll :: DerivativeField where
  "DerivativeFieldAll \<equiv>
     DerivativeFieldIdentity OR DerivativeFieldFunding OR DerivativeFieldFundingInterval OR
     DerivativeFieldNextFundingTime OR DerivativeFieldMark OR DerivativeFieldIndex OR
     DerivativeFieldOpenInterest OR DerivativeFieldOpenInterestNotional"

definition Has :: "DerivativeField \<Rightarrow> DerivativeField \<Rightarrow> bool" where
  "Has fs field \<longleftrightarrow> fs AND field = field"

record 'd DerivativePatch =
  dp_Kind :: string
  dp_Scope :: CatalogScope
  dp_NativeFamily :: string
  dp_Generation :: "64 word"
  dp_ObservedAt :: Time
  dp_SourceSequence :: string
  dp_Fields :: DerivativeField
  dp_Facts :: "'d DerivativeFact list"

text \<open>The loop over the facts of a patch.\<close>

fun check_facts :: "CatalogScope \<Rightarrow> string set \<Rightarrow> 'd DerivativeFact list \<Rightarrow> goerror option" where
  "check_facts scope seen [] = None"
| "check_facts scope seen (fct # rest) =
     (if TrimSpace (df_InstrumentID fct) = [] \<or> TrimSpace (df_RouteProfileID fct) = [] \<or>
         df_Environment fct \<noteq> sc_Environment scope \<or> id_Venue (df_Instrument fct) \<noteq> sc_Venue scope \<or>
         id_Product (df_Instrument fct) \<noteq> ProductPerp \<or>
         TrimSpace (id_NativeSymbol (df_Instrument fct)) = []
      then Some (PlainError ''derivative patch fact identity is invalid'')
      else if sc_Settlement scope \<noteq> [] \<and> id_SettleAsset (df_Instrument fct) \<noteq> [] \<and>
              id_SettleAsset (df_Instrument fct) \<noteq> sc_Settlement scope
      then Some (PlainError ''derivative patch fact settlement is invalid'')
      else if df_InstrumentID fct \<in> seen
      then Some (PlainError ''derivative patch contains a duplicate instrument'')
      else if od_Valid (df_OpenInterestNotional fct) \<and> TrimSpace (df_OpenInterestNotionalAsset fct) = []
      then Some (PlainError ''derivative patch OI notional asset is missing'')
      else check_facts scope (insert (df_InstrumentID fct) seen) rest)"

definition DerivativePatch_Validate :: "'d DerivativePatch \<Rightarrow> goerror option" where
  "DerivativePatch_Validate patch =
     (let scope = dp_Scope patch in
      if dp_Kind patch \<noteq> EventSnapshot \<and> dp_Kind patch \<noteq> EventDelta
      then Some (PlainError ''derivative patch kind is invalid'')
      else if \<not> knownVenue (sc_Venue scope) \<or> sc_Environment scope \<noteq> EnvironmentLive \<or>
              dp_Generation patch = 0 \<or> sc_Product scope \<noteq> ProductPerp \<or>
              TrimSpace (dp_NativeFamily patch) = [] \<or> dp_ObservedAt patch = 0
      then Some (PlainError ''derivative patch scope is invalid'')
      else if dp_Fields patch = 0 \<or> dp_Fields patch AND NOT DerivativeFieldAll \<noteq> 0
      then Some (PlainError ''derivative patch field mask is invalid'')
      else if dp_Kind patch = EventSnapshot \<and> \<not> Has (dp_Fields patch) DerivativeFieldIdentity
      then Some (PlainError ''derivative snapshot is missing identity fields'')
      else check_facts scope {} (dp_Facts patch))"

definition observationCurrent :: "Time \<Rightarrow> Time \<Rightarrow> bool" where
  "observationCurrent current incoming \<longleftrightarrow> incoming \<noteq> 0 \<and> (current = 0 \<or> \<not> incoming < current)"

text \<open>The groups of ApplyDerivativePatch, in its order.\<close>

definition apply_identity ::
  "'d DerivativeFact \<Rightarrow> DerivativeField \<Rightarrow> 'd DerivativeFact \<Rightarrow> 'd DerivativeFact" where
  "apply_identity patch fs current =
     (if Has fs DerivativeFieldIdentity
      then current\<lparr>df_InstrumentID := df_InstrumentID patch, df_RouteProfileID := df_RouteProfileID patch,
                   df_Instrument := df_Instrument patch, df_Environment := df_Environment patch\<rparr>
      else current)"

definition apply_funding ::
  "'d DerivativeFact \<Rightarrow> DerivativeField \<Rightarrow> 'd DerivativeFact \<Rightarrow> 'd DerivativeFact" where
  "apply_funding patch fs current =
     (if fs AND (DerivativeFieldFunding OR DerivativeFieldFundingInterval OR DerivativeFieldNextFundingTime) \<noteq> 0 \<and>
         observationCurrent (df_FundingObservedAt current) (df_FundingObservedAt patch)
      then (let c1 = (if Has fs DerivativeFieldFunding
                      then current\<lparr>df_FundingRate := df_FundingRate patch\<rparr> else current);
                c2 = (if Has fs DerivativeFieldFundingInterval
                      then c1\<lparr>df_FundingIntervalHours := df_FundingIntervalHours patch\<rparr> else c1);
                c3 = (if Has fs DerivativeFieldNextFundingTime
                      then c2\<lparr>df_NextFundingTime := df_NextFundingTime patch\<rparr> else c2)
            in c3\<lparr>df_FundingObservedAt := df_FundingObservedAt patch\<rparr>)
      else current)"

definition apply_mark ::
  "'d DerivativeFact \<Rightarrow> DerivativeField \<Rightarrow> 'd DerivativeFact \<Rightarrow> 'd DerivativeFact" where
  "apply_mark patch fs current =
     (if Has fs DerivativeFieldMark \<and> observationCurrent (df_MarkObservedAt current) (df_MarkObservedAt patch)
      then current\<lparr>df_MarkPrice := df_MarkPrice patch, df_MarkObservedAt := df_MarkObservedAt patch\<rparr>
      else current)"

definition apply_index ::
  "'d DerivativeFact \<Rightarrow> DerivativeField \<Rightarrow> 'd DerivativeFact \<Rightarrow> 'd DerivativeFact" where
  "apply_index patch fs current =
     (if Has fs DerivativeFieldIndex \<and> observationCurrent (df_IndexObservedAt current) (df_IndexObservedAt patch)
      then current\<lparr>df_IndexPrice := df_IndexPrice patch, df_IndexObservedAt := df_IndexObservedAt patch\<rparr>
      else current)"

definition apply_open_interest ::
  "'d DerivativeFact \<Rightarrow> DerivativeField \<Rightarrow> 'd DerivativeFact \<Rightarrow> 'd DerivativeFact" where
  "apply_open_interest patch fs current =
     (if Has fs DerivativeFieldOpenInterest \<and>
         observationCurrent (df_OpenInterestObservedAt current) (df_OpenInterestObservedAt patch)
      then current\<lparr>df_OpenInterest := df_OpenInterest patch,
                   df_OpenInterestObservedAt := df_OpenInterestObservedAt patch\<rparr>
      else current)"

definition apply_notional ::
  "'d DerivativeFact \<Rightarrow> DerivativeField \<Rightarrow> 'd DerivativeFact \<Rightarrow> 'd DerivativeFact" where
  "apply_notional patch fs current =
     (if Has fs DerivativeFieldOpenInterestNotional \<and>
         observationCurrent (df_OpenInterestObservedAt current) (df_OpenInterestObservedAt patch)
      then current\<lparr>df_OpenInterestNotional := df_OpenInterestNotional patch,
                   df_OpenInterestNotionalAsset := df_OpenInterestNotionalAsset patch,
                   df_OpenInterestObservedAt := df_OpenInterestObservedAt patch\<rparr>
      else current)"

definition ApplyDerivativePatch ::
  "'d DerivativeFact \<Rightarrow> 'd DerivativeFact \<Rightarrow> DerivativeField \<Rightarrow> 'd DerivativeFact" where
  "ApplyDerivativePatch current patch fs =
     apply_notional patch fs (apply_open_interest patch fs (apply_index patch fs
       (apply_mark patch fs (apply_funding patch fs (apply_identity patch fs current)))))"

section \<open>Freshness\<close>

record FieldFreshness =
  ff_Funding :: bool
  ff_Mark :: bool
  ff_Index :: bool
  ff_OpenInterest :: bool

definition freshAt :: "Time \<Rightarrow> Time \<Rightarrow> Duration \<Rightarrow> bool" where
  "freshAt now observedAt maxAge \<longleftrightarrow>
     (let age = time_Sub now observedAt in maxAge > 0 \<and> observedAt \<noteq> 0 \<and> age \<ge> 0 \<and> age \<le> maxAge)"

text \<open>A dataset that has no entry in the map of maximal ages reads as the zero Duration.\<close>

definition Freshness :: "'d DerivativeFact \<Rightarrow> Time \<Rightarrow> (MarketDataset \<rightharpoonup> Duration) \<Rightarrow> FieldFreshness" where
  "Freshness fct now maxAge =
     (let age = (\<lambda>dataset. case maxAge dataset of Some d \<Rightarrow> d | None \<Rightarrow> 0) in
      \<lparr>ff_Funding = (od_Valid (df_FundingRate fct) \<and> freshAt now (df_FundingObservedAt fct) (age DatasetFunding)),
       ff_Mark = (od_Valid (df_MarkPrice fct) \<and> freshAt now (df_MarkObservedAt fct) (age DatasetMark)),
       ff_Index = (od_Valid (df_IndexPrice fct) \<and> freshAt now (df_IndexObservedAt fct) (age DatasetIndex)),
       ff_OpenInterest = ((od_Valid (df_OpenInterest fct) \<or> od_Valid (df_OpenInterestNotional fct)) \<and>
          freshAt now (df_OpenInterestObservedAt fct) (age DatasetOpenInterest))\<rparr>)"

section \<open>Funding history\<close>

record 'd FundingHistoryPoint =
  fp_FundingTime :: Time
  fp_Rate :: 'd
  fp_IntervalHours :: OptionalInt

record FundingHistoryRequest =
  fr_Scope :: CatalogScope
  fr_Symbol :: string
  fr_NativeSymbol :: string
  fr_NativeID :: string
  fr_Since :: Time
  fr_Until :: Time
  fr_Limit :: int

record 'd FundingHistorySnapshot =
  fs_SchemaVersion :: int
  fs_Scope :: CatalogScope
  fs_Symbol :: string
  fs_ObservedAt :: Time
  fs_Points :: "'d FundingHistoryPoint list"

definition invalidFundingHistory :: "string \<Rightarrow> goerror" where
  "invalidFundingHistory message =
     ExchangeError KindInvalidConfig
       (no_details\<lparr>ed_Operation := ''FundingHistory.Load'', ed_SafeMessage := message\<rparr>)"

fun check_points :: "Time \<Rightarrow> 'd FundingHistoryPoint list \<Rightarrow> goerror option" where
  "check_points previous [] = None"
| "check_points previous (point # rest) =
     (if fp_FundingTime point = 0
      then Some (invalidFundingHistory ''funding history point is missing a settlement time'')
      else if previous \<noteq> 0 \<and> \<not> fp_FundingTime point > previous
      then Some (invalidFundingHistory ''funding history points are not in ascending settlement order'')
      else check_points (fp_FundingTime point) rest)"

definition FundingHistorySnapshot_Validate ::
  "'d FundingHistorySnapshot \<Rightarrow> FundingHistoryRequest \<Rightarrow> goerror option" where
  "FundingHistorySnapshot_Validate snapshot request =
     (if fs_Scope snapshot \<noteq> fr_Scope request
      then Some (invalidFundingHistory ''funding history scope does not match requested scope'')
      else if fs_Symbol snapshot \<noteq> fr_Symbol request
      then Some (invalidFundingHistory ''funding history symbol does not match requested symbol'')
      else check_points 0 (fs_Points snapshot))"

section \<open>One group, one clock\<close>

lemmas apply_group_defs = apply_identity_def apply_funding_def apply_mark_def apply_index_def
  apply_open_interest_def apply_notional_def

definition FundingMask :: DerivativeField where
  "FundingMask = DerivativeFieldFunding OR DerivativeFieldFundingInterval OR DerivativeFieldNextFundingTime"

lemma Has_submask:
  assumes "Has f m" "m \<noteq> 0" "FundingMask AND m = m"
  shows "f AND FundingMask \<noteq> 0"
proof
  assume z: "f AND FundingMask = 0"
  have "f AND m = (f AND FundingMask) AND m"
    by (simp only: and.assoc assms(3))
  with z assms(1,2) show False by (simp add: Has_def)
qed

lemma Has_funding_mask:
  "Has f DerivativeFieldFunding \<Longrightarrow> f AND FundingMask \<noteq> 0"
  "Has f DerivativeFieldFundingInterval \<Longrightarrow> f AND FundingMask \<noteq> 0"
  "Has f DerivativeFieldNextFundingTime \<Longrightarrow> f AND FundingMask \<noteq> 0"
  by (erule Has_submask; simp add: FundingMask_def)+

text \<open>A group leaves the fields of the other groups alone.\<close>

lemma apply_identity_frame [simp]:
  "df_FundingRate (apply_identity p f c) = df_FundingRate c"
  "df_FundingIntervalHours (apply_identity p f c) = df_FundingIntervalHours c"
  "df_NextFundingTime (apply_identity p f c) = df_NextFundingTime c"
  "df_FundingObservedAt (apply_identity p f c) = df_FundingObservedAt c"
  "df_MarkPrice (apply_identity p f c) = df_MarkPrice c"
  "df_MarkObservedAt (apply_identity p f c) = df_MarkObservedAt c"
  "df_IndexPrice (apply_identity p f c) = df_IndexPrice c"
  "df_IndexObservedAt (apply_identity p f c) = df_IndexObservedAt c"
  "df_OpenInterest (apply_identity p f c) = df_OpenInterest c"
  "df_OpenInterestObservedAt (apply_identity p f c) = df_OpenInterestObservedAt c"
  "df_OpenInterestNotional (apply_identity p f c) = df_OpenInterestNotional c"
  "df_OpenInterestNotionalAsset (apply_identity p f c) = df_OpenInterestNotionalAsset c"
  by (simp_all add: apply_identity_def)

lemma apply_funding_frame [simp]:
  "df_InstrumentID (apply_funding p f c) = df_InstrumentID c"
  "df_RouteProfileID (apply_funding p f c) = df_RouteProfileID c"
  "df_Instrument (apply_funding p f c) = df_Instrument c"
  "df_Environment (apply_funding p f c) = df_Environment c"
  "df_MarkPrice (apply_funding p f c) = df_MarkPrice c"
  "df_MarkObservedAt (apply_funding p f c) = df_MarkObservedAt c"
  "df_IndexPrice (apply_funding p f c) = df_IndexPrice c"
  "df_IndexObservedAt (apply_funding p f c) = df_IndexObservedAt c"
  "df_OpenInterest (apply_funding p f c) = df_OpenInterest c"
  "df_OpenInterestObservedAt (apply_funding p f c) = df_OpenInterestObservedAt c"
  "df_OpenInterestNotional (apply_funding p f c) = df_OpenInterestNotional c"
  "df_OpenInterestNotionalAsset (apply_funding p f c) = df_OpenInterestNotionalAsset c"
  by (simp_all add: apply_funding_def Let_def)

lemma apply_mark_frame [simp]:
  "df_InstrumentID (apply_mark p f c) = df_InstrumentID c"
  "df_RouteProfileID (apply_mark p f c) = df_RouteProfileID c"
  "df_Instrument (apply_mark p f c) = df_Instrument c"
  "df_Environment (apply_mark p f c) = df_Environment c"
  "df_FundingRate (apply_mark p f c) = df_FundingRate c"
  "df_FundingIntervalHours (apply_mark p f c) = df_FundingIntervalHours c"
  "df_NextFundingTime (apply_mark p f c) = df_NextFundingTime c"
  "df_FundingObservedAt (apply_mark p f c) = df_FundingObservedAt c"
  "df_IndexPrice (apply_mark p f c) = df_IndexPrice c"
  "df_IndexObservedAt (apply_mark p f c) = df_IndexObservedAt c"
  "df_OpenInterest (apply_mark p f c) = df_OpenInterest c"
  "df_OpenInterestObservedAt (apply_mark p f c) = df_OpenInterestObservedAt c"
  "df_OpenInterestNotional (apply_mark p f c) = df_OpenInterestNotional c"
  "df_OpenInterestNotionalAsset (apply_mark p f c) = df_OpenInterestNotionalAsset c"
  by (simp_all add: apply_mark_def)

lemma apply_index_frame [simp]:
  "df_InstrumentID (apply_index p f c) = df_InstrumentID c"
  "df_RouteProfileID (apply_index p f c) = df_RouteProfileID c"
  "df_Instrument (apply_index p f c) = df_Instrument c"
  "df_Environment (apply_index p f c) = df_Environment c"
  "df_FundingRate (apply_index p f c) = df_FundingRate c"
  "df_FundingIntervalHours (apply_index p f c) = df_FundingIntervalHours c"
  "df_NextFundingTime (apply_index p f c) = df_NextFundingTime c"
  "df_FundingObservedAt (apply_index p f c) = df_FundingObservedAt c"
  "df_MarkPrice (apply_index p f c) = df_MarkPrice c"
  "df_MarkObservedAt (apply_index p f c) = df_MarkObservedAt c"
  "df_OpenInterest (apply_index p f c) = df_OpenInterest c"
  "df_OpenInterestObservedAt (apply_index p f c) = df_OpenInterestObservedAt c"
  "df_OpenInterestNotional (apply_index p f c) = df_OpenInterestNotional c"
  "df_OpenInterestNotionalAsset (apply_index p f c) = df_OpenInterestNotionalAsset c"
  by (simp_all add: apply_index_def)

lemma apply_open_interest_frame [simp]:
  "df_InstrumentID (apply_open_interest p f c) = df_InstrumentID c"
  "df_RouteProfileID (apply_open_interest p f c) = df_RouteProfileID c"
  "df_Instrument (apply_open_interest p f c) = df_Instrument c"
  "df_Environment (apply_open_interest p f c) = df_Environment c"
  "df_FundingRate (apply_open_interest p f c) = df_FundingRate c"
  "df_FundingIntervalHours (apply_open_interest p f c) = df_FundingIntervalHours c"
  "df_NextFundingTime (apply_open_interest p f c) = df_NextFundingTime c"
  "df_FundingObservedAt (apply_open_interest p f c) = df_FundingObservedAt c"
  "df_MarkPrice (apply_open_interest p f c) = df_MarkPrice c"
  "df_MarkObservedAt (apply_open_interest p f c) = df_MarkObservedAt c"
  "df_IndexPrice (apply_open_interest p f c) = df_IndexPrice c"
  "df_IndexObservedAt (apply_open_interest p f c) = df_IndexObservedAt c"
  "df_OpenInterestNotional (apply_open_interest p f c) = df_OpenInterestNotional c"
  "df_OpenInterestNotionalAsset (apply_open_interest p f c) = df_OpenInterestNotionalAsset c"
  by (simp_all add: apply_open_interest_def)

lemma apply_notional_frame [simp]:
  "df_InstrumentID (apply_notional p f c) = df_InstrumentID c"
  "df_RouteProfileID (apply_notional p f c) = df_RouteProfileID c"
  "df_Instrument (apply_notional p f c) = df_Instrument c"
  "df_Environment (apply_notional p f c) = df_Environment c"
  "df_FundingRate (apply_notional p f c) = df_FundingRate c"
  "df_FundingIntervalHours (apply_notional p f c) = df_FundingIntervalHours c"
  "df_NextFundingTime (apply_notional p f c) = df_NextFundingTime c"
  "df_FundingObservedAt (apply_notional p f c) = df_FundingObservedAt c"
  "df_MarkPrice (apply_notional p f c) = df_MarkPrice c"
  "df_MarkObservedAt (apply_notional p f c) = df_MarkObservedAt c"
  "df_IndexPrice (apply_notional p f c) = df_IndexPrice c"
  "df_IndexObservedAt (apply_notional p f c) = df_IndexObservedAt c"
  "df_OpenInterest (apply_notional p f c) = df_OpenInterest c"
  by (simp_all add: apply_notional_def)

text \<open>Whether a group takes its values from the incoming patch, and its clock afterwards.\<close>

abbreviation takes :: "bool \<Rightarrow> Time \<Rightarrow> Time \<Rightarrow> bool" where
  "takes present cur inc \<equiv> present \<and> observationCurrent cur inc"

lemma Apply_funding:
  "df_FundingRate (ApplyDerivativePatch c p f) =
     (if takes (Has f DerivativeFieldFunding) (df_FundingObservedAt c) (df_FundingObservedAt p)
      then df_FundingRate p else df_FundingRate c)"
  "df_FundingIntervalHours (ApplyDerivativePatch c p f) =
     (if takes (Has f DerivativeFieldFundingInterval) (df_FundingObservedAt c) (df_FundingObservedAt p)
      then df_FundingIntervalHours p else df_FundingIntervalHours c)"
  "df_NextFundingTime (ApplyDerivativePatch c p f) =
     (if takes (Has f DerivativeFieldNextFundingTime) (df_FundingObservedAt c) (df_FundingObservedAt p)
      then df_NextFundingTime p else df_NextFundingTime c)"
  "df_FundingObservedAt (ApplyDerivativePatch c p f) =
     (if takes (f AND FundingMask \<noteq> 0) (df_FundingObservedAt c) (df_FundingObservedAt p)
      then df_FundingObservedAt p else df_FundingObservedAt c)"
  using Has_funding_mask [of f, unfolded FundingMask_def]
  by (simp_all add: ApplyDerivativePatch_def apply_funding_def [folded FundingMask_def] Let_def FundingMask_def)

lemma Apply_prices:
  "df_MarkPrice (ApplyDerivativePatch c p f) =
     (if takes (Has f DerivativeFieldMark) (df_MarkObservedAt c) (df_MarkObservedAt p)
      then df_MarkPrice p else df_MarkPrice c)"
  "df_MarkObservedAt (ApplyDerivativePatch c p f) =
     (if takes (Has f DerivativeFieldMark) (df_MarkObservedAt c) (df_MarkObservedAt p)
      then df_MarkObservedAt p else df_MarkObservedAt c)"
  "df_IndexPrice (ApplyDerivativePatch c p f) =
     (if takes (Has f DerivativeFieldIndex) (df_IndexObservedAt c) (df_IndexObservedAt p)
      then df_IndexPrice p else df_IndexPrice c)"
  "df_IndexObservedAt (ApplyDerivativePatch c p f) =
     (if takes (Has f DerivativeFieldIndex) (df_IndexObservedAt c) (df_IndexObservedAt p)
      then df_IndexObservedAt p else df_IndexObservedAt c)"
  by (auto simp: ApplyDerivativePatch_def apply_mark_def apply_index_def)

text \<open>
  The two open-interest masks share a clock: the first one taken moves it to the patch's, which the
  second then accepts as equal.
\<close>

lemma observationCurrent_refl: "observationCurrent cur inc \<Longrightarrow> observationCurrent inc inc"
  by (simp add: observationCurrent_def)

lemma Apply_open_interest:
  "df_OpenInterest (ApplyDerivativePatch c p f) =
     (if takes (Has f DerivativeFieldOpenInterest) (df_OpenInterestObservedAt c) (df_OpenInterestObservedAt p)
      then df_OpenInterest p else df_OpenInterest c)"
  "df_OpenInterestNotional (ApplyDerivativePatch c p f) =
     (if takes (Has f DerivativeFieldOpenInterestNotional) (df_OpenInterestObservedAt c) (df_OpenInterestObservedAt p)
      then df_OpenInterestNotional p else df_OpenInterestNotional c)"
  "df_OpenInterestNotionalAsset (ApplyDerivativePatch c p f) =
     (if takes (Has f DerivativeFieldOpenInterestNotional) (df_OpenInterestObservedAt c) (df_OpenInterestObservedAt p)
      then df_OpenInterestNotionalAsset p else df_OpenInterestNotionalAsset c)"
  "df_OpenInterestObservedAt (ApplyDerivativePatch c p f) =
     (if takes (Has f DerivativeFieldOpenInterest \<or> Has f DerivativeFieldOpenInterestNotional)
           (df_OpenInterestObservedAt c) (df_OpenInterestObservedAt p)
      then df_OpenInterestObservedAt p else df_OpenInterestObservedAt c)"
  using observationCurrent_refl [of "df_OpenInterestObservedAt c" "df_OpenInterestObservedAt p"]
  by (auto simp: ApplyDerivativePatch_def apply_open_interest_def apply_notional_def)

lemma Apply_identity:
  "df_InstrumentID (ApplyDerivativePatch c p f) =
     (if Has f DerivativeFieldIdentity then df_InstrumentID p else df_InstrumentID c)"
  "df_RouteProfileID (ApplyDerivativePatch c p f) =
     (if Has f DerivativeFieldIdentity then df_RouteProfileID p else df_RouteProfileID c)"
  "df_Instrument (ApplyDerivativePatch c p f) =
     (if Has f DerivativeFieldIdentity then df_Instrument p else df_Instrument c)"
  "df_Environment (ApplyDerivativePatch c p f) =
     (if Has f DerivativeFieldIdentity then df_Environment p else df_Environment c)"
  by (simp_all add: ApplyDerivativePatch_def apply_identity_def)

lemmas Apply_sel = Apply_identity Apply_funding Apply_prices Apply_open_interest

section \<open>Freshness windows\<close>

lemma freshAt_iff [go_time]:
  assumes "maxAge < maxDuration"
  shows "freshAt now observedAt maxAge \<longleftrightarrow>
    0 < maxAge \<and> observedAt \<noteq> 0 \<and> observedAt \<le> now \<and> now \<le> observedAt + maxAge"
proof (cases "0 < maxAge")
  case True
  then have "minDuration < maxAge" by (simp add: minDuration_def)
  with assms show ?thesis
    by (auto simp: freshAt_def Let_def time_Sub_nonneg_iff time_Sub_le_iff)
qed (simp add: freshAt_def Let_def)

section \<open>Histories\<close>

lemma check_points_iff:
  "check_points previous points = None \<longleftrightarrow>
   (\<forall>p\<in>set points. fp_FundingTime p \<noteq> 0 \<and> (previous \<noteq> 0 \<longrightarrow> previous < fp_FundingTime p)) \<and>
   sorted_wrt (<) (map fp_FundingTime points)"
proof (induction previous points rule: check_points.induct)
  case (2 previous point rest)
  show ?case
  proof (cases "fp_FundingTime point = 0 \<or> previous \<noteq> 0 \<and> \<not> previous < fp_FundingTime point")
    case True
    then show ?thesis by auto
  next
    case False
    then have "check_points previous (point # rest) = None \<longleftrightarrow>
        (\<forall>p\<in>set rest. fp_FundingTime p \<noteq> 0 \<and> fp_FundingTime point < fp_FundingTime p) \<and>
        sorted_wrt (<) (map fp_FundingTime rest)"
      using 2 by auto
    with False show ?thesis by fastforce
  qed
qed simp

section \<open>Patches in any order\<close>

text \<open>
  A patch with its field mask; the groups it masks; and when the order of two patches cannot matter.
\<close>

type_synonym 'd masked_patch = "'d DerivativeFact \<times> DerivativeField"

definition touches_funding :: "DerivativeField \<Rightarrow> bool" where
  "touches_funding fs \<longleftrightarrow> fs AND FundingMask \<noteq> 0"

definition touches_open_interest :: "DerivativeField \<Rightarrow> bool" where
  "touches_open_interest fs \<longleftrightarrow> Has fs DerivativeFieldOpenInterest \<or> Has fs DerivativeFieldOpenInterestNotional"

definition same_mask :: "DerivativeField list \<Rightarrow> DerivativeField \<Rightarrow> DerivativeField \<Rightarrow> bool" where
  "same_mask bits fs gs \<longleftrightarrow> list_all (\<lambda>bit. Has fs bit \<longleftrightarrow> Has gs bit) bits"

fun independent_patches :: "'d masked_patch \<Rightarrow> 'd masked_patch \<Rightarrow> bool" where
  "independent_patches (p, fs) (q, gs) \<longleftrightarrow>
     (Has fs DerivativeFieldIdentity \<and> Has gs DerivativeFieldIdentity \<longrightarrow>
        df_InstrumentID p = df_InstrumentID q \<and> df_RouteProfileID p = df_RouteProfileID q \<and>
        df_Instrument p = df_Instrument q \<and> df_Environment p = df_Environment q) \<and>
     (touches_funding fs \<and> touches_funding gs \<longrightarrow>
        same_mask [DerivativeFieldFunding, DerivativeFieldFundingInterval, DerivativeFieldNextFundingTime] fs gs \<and>
        df_FundingObservedAt p \<noteq> df_FundingObservedAt q) \<and>
     (Has fs DerivativeFieldMark \<and> Has gs DerivativeFieldMark \<longrightarrow> df_MarkObservedAt p \<noteq> df_MarkObservedAt q) \<and>
     (Has fs DerivativeFieldIndex \<and> Has gs DerivativeFieldIndex \<longrightarrow> df_IndexObservedAt p \<noteq> df_IndexObservedAt q) \<and>
     (touches_open_interest fs \<and> touches_open_interest gs \<longrightarrow>
        same_mask [DerivativeFieldOpenInterest, DerivativeFieldOpenInterestNotional] fs gs \<and>
        df_OpenInterestObservedAt p \<noteq> df_OpenInterestObservedAt q)"

definition apply_patches :: "'d masked_patch list \<Rightarrow> 'd DerivativeFact \<Rightarrow> 'd DerivativeFact" where
  "apply_patches ps current = fold (\<lambda>(p, fs) c. ApplyDerivativePatch c p fs) ps current"

text \<open>A patch with the newest observation of a group: set, and before neither the fact nor another patch.\<close>

definition newest ::
  "('d DerivativeFact \<Rightarrow> Time) \<Rightarrow> (DerivativeField \<Rightarrow> bool) \<Rightarrow> 'd DerivativeFact \<Rightarrow> 'd masked_patch list \<Rightarrow>
   'd DerivativeFact \<Rightarrow> DerivativeField \<Rightarrow> bool" where
  "newest clock part current ps p fs \<longleftrightarrow>
     (p, fs) \<in> set ps \<and> part fs \<and> clock p \<noteq> 0 \<and> clock current \<le> clock p \<and>
     list_all (\<lambda>(q, gs). part gs \<longrightarrow> clock q \<le> clock p) ps"

text \<open>One field of a group under two patches; the masks a and b of the field imply those of the group.\<close>

lemma takes_commute:
  assumes "a \<Longrightarrow> A" "b \<Longrightarrow> B" "A \<Longrightarrow> B \<Longrightarrow> (a \<longleftrightarrow> b) \<and> t \<noteq> u"
  shows "(if takes b (if takes A k t then t else k) u then y else if takes a k t then x else v) =
    (if takes a (if takes B k u then u else k) t then x else if takes b k u then y else v)"
  using assms by (cases A; cases B; cases a; cases b) (simp_all add: observationCurrent_def)

lemma funding_commutes:
  assumes "independent_patches (p, fs) (q, gs)"
  shows "df_FundingRate (ApplyDerivativePatch (ApplyDerivativePatch c p fs) q gs) =
      df_FundingRate (ApplyDerivativePatch (ApplyDerivativePatch c q gs) p fs)"
    "df_FundingIntervalHours (ApplyDerivativePatch (ApplyDerivativePatch c p fs) q gs) =
      df_FundingIntervalHours (ApplyDerivativePatch (ApplyDerivativePatch c q gs) p fs)"
    "df_NextFundingTime (ApplyDerivativePatch (ApplyDerivativePatch c p fs) q gs) =
      df_NextFundingTime (ApplyDerivativePatch (ApplyDerivativePatch c q gs) p fs)"
    "df_FundingObservedAt (ApplyDerivativePatch (ApplyDerivativePatch c p fs) q gs) =
      df_FundingObservedAt (ApplyDerivativePatch (ApplyDerivativePatch c q gs) p fs)"
proof -
  have *: "((Has fs DerivativeFieldFunding \<longleftrightarrow> Has gs DerivativeFieldFunding) \<and> df_FundingObservedAt p \<noteq> df_FundingObservedAt q) \<and>
      ((Has fs DerivativeFieldFundingInterval \<longleftrightarrow> Has gs DerivativeFieldFundingInterval) \<and>
        df_FundingObservedAt p \<noteq> df_FundingObservedAt q) \<and>
      ((Has fs DerivativeFieldNextFundingTime \<longleftrightarrow> Has gs DerivativeFieldNextFundingTime) \<and>
        df_FundingObservedAt p \<noteq> df_FundingObservedAt q)"
    if "fs AND FundingMask \<noteq> 0" "gs AND FundingMask \<noteq> 0"
    using that assms by (simp add: touches_funding_def same_mask_def)
  note group_of = takes_commute [OF Has_funding_mask(1) Has_funding_mask(1)]
    takes_commute [OF Has_funding_mask(2) Has_funding_mask(2)] takes_commute [OF Has_funding_mask(3) Has_funding_mask(3)]
  show "df_FundingRate (ApplyDerivativePatch (ApplyDerivativePatch c p fs) q gs) =
      df_FundingRate (ApplyDerivativePatch (ApplyDerivativePatch c q gs) p fs)"
    unfolding Apply_funding by (rule group_of(1), assumption+) (rule conjunct1 [OF *])
  show "df_FundingIntervalHours (ApplyDerivativePatch (ApplyDerivativePatch c p fs) q gs) =
      df_FundingIntervalHours (ApplyDerivativePatch (ApplyDerivativePatch c q gs) p fs)"
    unfolding Apply_funding by (rule group_of(2), assumption+) (rule * [THEN conjunct2, THEN conjunct1])
  show "df_NextFundingTime (ApplyDerivativePatch (ApplyDerivativePatch c p fs) q gs) =
      df_NextFundingTime (ApplyDerivativePatch (ApplyDerivativePatch c q gs) p fs)"
    unfolding Apply_funding by (rule group_of(3), assumption+) (rule * [THEN conjunct2, THEN conjunct2])
  show "df_FundingObservedAt (ApplyDerivativePatch (ApplyDerivativePatch c p fs) q gs) =
      df_FundingObservedAt (ApplyDerivativePatch (ApplyDerivativePatch c q gs) p fs)"
    unfolding Apply_funding by (rule takes_commute) (use * in blast)+
qed

lemma prices_commute:
  assumes "independent_patches (p, fs) (q, gs)"
  shows "df_MarkPrice (ApplyDerivativePatch (ApplyDerivativePatch c p fs) q gs) =
      df_MarkPrice (ApplyDerivativePatch (ApplyDerivativePatch c q gs) p fs)"
    "df_MarkObservedAt (ApplyDerivativePatch (ApplyDerivativePatch c p fs) q gs) =
      df_MarkObservedAt (ApplyDerivativePatch (ApplyDerivativePatch c q gs) p fs)"
    "df_IndexPrice (ApplyDerivativePatch (ApplyDerivativePatch c p fs) q gs) =
      df_IndexPrice (ApplyDerivativePatch (ApplyDerivativePatch c q gs) p fs)"
    "df_IndexObservedAt (ApplyDerivativePatch (ApplyDerivativePatch c p fs) q gs) =
      df_IndexObservedAt (ApplyDerivativePatch (ApplyDerivativePatch c q gs) p fs)"
  unfolding Apply_prices by (rule takes_commute; use assms in simp)+

lemma open_interest_commutes:
  assumes "independent_patches (p, fs) (q, gs)"
  shows "df_OpenInterest (ApplyDerivativePatch (ApplyDerivativePatch c p fs) q gs) =
      df_OpenInterest (ApplyDerivativePatch (ApplyDerivativePatch c q gs) p fs)"
    "df_OpenInterestNotional (ApplyDerivativePatch (ApplyDerivativePatch c p fs) q gs) =
      df_OpenInterestNotional (ApplyDerivativePatch (ApplyDerivativePatch c q gs) p fs)"
    "df_OpenInterestNotionalAsset (ApplyDerivativePatch (ApplyDerivativePatch c p fs) q gs) =
      df_OpenInterestNotionalAsset (ApplyDerivativePatch (ApplyDerivativePatch c q gs) p fs)"
    "df_OpenInterestObservedAt (ApplyDerivativePatch (ApplyDerivativePatch c p fs) q gs) =
      df_OpenInterestObservedAt (ApplyDerivativePatch (ApplyDerivativePatch c q gs) p fs)"
  unfolding Apply_open_interest
  by (rule takes_commute; use assms in \<open>auto simp: touches_open_interest_def same_mask_def\<close>)+

lemma patches_commute:
  assumes "independent_patches (p, fs) (q, gs)"
  shows "ApplyDerivativePatch (ApplyDerivativePatch c p fs) q gs = ApplyDerivativePatch (ApplyDerivativePatch c q gs) p fs"
  by (rule DerivativeFact.equality)
    (use assms in \<open>auto simp: Apply_identity funding_commutes [OF assms] prices_commute [OF assms]
       open_interest_commutes [OF assms]\<close>)

lemma patches_permute:
  assumes "mset ps = mset qs" and "\<forall>x\<in>set ps. \<forall>y\<in>set ps. x \<noteq> y \<longrightarrow> independent_patches x y"
  shows "apply_patches ps current = apply_patches qs current"
proof -
  let ?f = "\<lambda>(p, fs) c. ApplyDerivativePatch c p fs"
  have "?f x \<circ> ?f y = ?f y \<circ> ?f x" if "x \<in> set ps" "y \<in> set ps" for x y
  proof (cases "x = y")
    case False
    then have "independent_patches x y"
      using assms(2) that by blast
    then show ?thesis
      by (cases x; cases y) (auto simp del: independent_patches.simps intro!: ext patches_commute [symmetric])
  qed simp
  then have "fold ?f ps = fold ?f qs"
    using assms(1) by (rule fold_multiset_equiv)
  then show ?thesis
    by (simp add: apply_patches_def)
qed

lemma clock_bounded:
  assumes "\<And>c q g. clock (ApplyDerivativePatch c q g) = (if takes (part g) (clock c) (clock q) then clock q else clock c)"
    and "clock c \<le> t" "list_all (\<lambda>(q, gs). part gs \<longrightarrow> clock q \<le> t) ps"
  shows "clock (apply_patches ps c) \<le> t"
  using assms(2,3) unfolding apply_patches_def
  by (induction ps arbitrary: c) (auto simp: assms(1))

lemma newest_last:
  assumes "\<forall>x\<in>set ps. \<forall>y\<in>set ps. x \<noteq> y \<longrightarrow> independent_patches x y" and "newest clock part current ps p fs"
    and "\<And>c q g. clock (ApplyDerivativePatch c q g) = (if takes (part g) (clock c) (clock q) then clock q else clock c)"
  shows "\<exists>c. apply_patches ps current = ApplyDerivativePatch c p fs \<and> observationCurrent (clock c) (clock p) \<and> part fs"
proof -
  let ?rest = "remove1 (p, fs) ps"
  have new: "(p, fs) \<in> set ps" "part fs" "clock p \<noteq> 0" "clock current \<le> clock p"
      "list_all (\<lambda>(q, gs). part gs \<longrightarrow> clock q \<le> clock p) ps"
    using assms(2) by (simp_all add: newest_def)
  have "apply_patches ps current = apply_patches (?rest @ [(p, fs)]) current"
    using new(1) by (intro patches_permute [OF _ assms(1)]) simp
  moreover have "clock (apply_patches ?rest current) \<le> clock p"
    using new(4,5) by (intro clock_bounded [OF assms(3)]) (auto simp: list_all_iff dest: notin_set_remove1)
  ultimately show ?thesis
    using new(2,3) by (intro exI [of _ "apply_patches ?rest current"]) (auto simp: apply_patches_def observationCurrent_def)
qed

section \<open>Properties\<close>


definition sample_fact :: "Time \<Rightarrow> int \<Rightarrow> dec DerivativeFact" where
  "sample_fact t m =
     \<lparr>df_InstrumentID = ''binance:perp:BTC/USDT'', df_RouteProfileID = ''binance-usdm'',
      df_Instrument = ins_Identity sample_instrument, df_Environment = EnvironmentLive,
      df_FundingRate = \<lparr>od_Value = Dec 1 4, od_Valid = True\<rparr>,
      df_FundingIntervalHours = \<lparr>oi_Value = 8, oi_Valid = True\<rparr>, df_NextFundingTime = t + 8 * Hour,
      df_MarkPrice = \<lparr>od_Value = Dec m 0, od_Valid = True\<rparr>,
      df_IndexPrice = \<lparr>od_Value = Dec m 0, od_Valid = True\<rparr>,
      df_OpenInterest = \<lparr>od_Value = Dec 7 0, od_Valid = True\<rparr>,
      df_OpenInterestNotional = \<lparr>od_Value = Dec 0 0, od_Valid = False\<rparr>,
      df_OpenInterestNotionalAsset = [], df_FundingObservedAt = t, df_MarkObservedAt = t,
      df_IndexObservedAt = t, df_OpenInterestObservedAt = t\<rparr>"

definition sample_patches :: "dec masked_patch list" where
  "sample_patches = [(sample_fact 30 300, DerivativeFieldMark), (sample_fact 20 200, DerivativeFieldMark),
     (sample_fact 20 200, DerivativeFieldFunding)]"


text \<open>
  Applying a patch never moves a clock backwards, and a field group whose clock does not move to the
  patch's observation keeps its values, so an old or clockless observation changes nothing but the identity.
\<close>

theorem derivative_clocks_monotone:
  assumes "0 \<le> df_FundingObservedAt p" "0 \<le> df_MarkObservedAt p" "0 \<le> df_IndexObservedAt p"
    and "0 \<le> df_OpenInterestObservedAt p"
  shows "df_FundingObservedAt c \<le> df_FundingObservedAt (ApplyDerivativePatch c p fs) \<and>
    df_MarkObservedAt c \<le> df_MarkObservedAt (ApplyDerivativePatch c p fs) \<and>
    df_IndexObservedAt c \<le> df_IndexObservedAt (ApplyDerivativePatch c p fs) \<and>
    df_OpenInterestObservedAt c \<le> df_OpenInterestObservedAt (ApplyDerivativePatch c p fs) \<and>
    (df_FundingObservedAt (ApplyDerivativePatch c p fs) \<noteq> df_FundingObservedAt p \<longrightarrow>
       df_FundingRate (ApplyDerivativePatch c p fs) = df_FundingRate c) \<and>
    (df_MarkObservedAt (ApplyDerivativePatch c p fs) \<noteq> df_MarkObservedAt p \<longrightarrow>
       df_MarkPrice (ApplyDerivativePatch c p fs) = df_MarkPrice c) \<and>
    (df_IndexObservedAt (ApplyDerivativePatch c p fs) \<noteq> df_IndexObservedAt p \<longrightarrow>
       df_IndexPrice (ApplyDerivativePatch c p fs) = df_IndexPrice c) \<and>
    (df_OpenInterestObservedAt (ApplyDerivativePatch c p fs) \<noteq> df_OpenInterestObservedAt p \<longrightarrow>
       df_OpenInterest (ApplyDerivativePatch c p fs) = df_OpenInterest c \<and>
       df_OpenInterestNotional (ApplyDerivativePatch c p fs) = df_OpenInterestNotional c)"
  using assms Has_funding_mask [of fs]
  by (intro conjI impI) (auto simp: Apply_sel observationCurrent_def split: if_splits)

theorem derivative_clocks_monotone_witness:
  "df_MarkObservedAt (sample_fact 20 200) \<le>
     df_MarkObservedAt (ApplyDerivativePatch (sample_fact 20 200) (sample_fact 10 100) DerivativeFieldAll)"
  using derivative_clocks_monotone [of "sample_fact 10 100" "sample_fact 20 200" DerivativeFieldAll]
  by (simp add: sample_fact_def)

text \<open>
  A field is reported fresh exactly when its value is present, it was observed at a known time that
  is not in the future, and that observation is no older than the dataset's maximal age; a dataset
  without a configured age is never fresh.
\<close>

theorem freshness_window:
  assumes "\<forall>dataset d. maxAge dataset = Some d \<longrightarrow> d < maxDuration"
  shows "(ff_Mark (Freshness fct now maxAge) \<longleftrightarrow>
      od_Valid (df_MarkPrice fct) \<and> df_MarkObservedAt fct \<noteq> 0 \<and> df_MarkObservedAt fct \<le> now \<and>
      (\<exists>d>0. maxAge DatasetMark = Some d \<and> now \<le> df_MarkObservedAt fct + d)) \<and>
    (ff_Funding (Freshness fct now maxAge) \<longleftrightarrow>
      od_Valid (df_FundingRate fct) \<and> df_FundingObservedAt fct \<noteq> 0 \<and> df_FundingObservedAt fct \<le> now \<and>
      (\<exists>d>0. maxAge DatasetFunding = Some d \<and> now \<le> df_FundingObservedAt fct + d))"
proof -
  have f: "freshAt now t (case maxAge ds of Some d \<Rightarrow> d | None \<Rightarrow> 0) \<longleftrightarrow>
      t \<noteq> 0 \<and> t \<le> now \<and> (\<exists>d>0. maxAge ds = Some d \<and> now \<le> t + d)" for t ds
  proof (cases "maxAge ds")
    case None
    then show ?thesis by (simp add: freshAt_def Let_def)
  next
    case (Some d)
    with assms have "d < maxDuration" by blast
    with Some show ?thesis by (auto simp: freshAt_iff)
  qed
  show ?thesis
    by (simp add: Freshness_def Let_def f)
qed

theorem freshness_window_witness:
  "ff_Mark (Freshness (sample_fact unix_epoch 100) (unix_epoch + 4 * Second) [DatasetMark \<mapsto> 5 * Second]) \<and>
   \<not> ff_Mark (Freshness (sample_fact unix_epoch 100) (unix_epoch + 6 * Second) [DatasetMark \<mapsto> 5 * Second])"
  using freshness_window [of "[DatasetMark \<mapsto> 5 * Second]" "sample_fact unix_epoch 100"]
  by (simp add: maxDuration_def sample_fact_def unix_epoch_def)

text \<open>
  A funding history is accepted exactly when it answers the requested scope and symbol and its
  settlement times are known and strictly increasing.
\<close>

theorem funding_history_plottable:
  "FundingHistorySnapshot_Validate snapshot request = None \<longleftrightarrow>
     fs_Scope snapshot = fr_Scope request \<and> fs_Symbol snapshot = fr_Symbol request \<and>
     0 \<notin> set (map fp_FundingTime (fs_Points snapshot)) \<and>
     sorted_wrt (<) (map fp_FundingTime (fs_Points snapshot))"
  by (auto simp: FundingHistorySnapshot_Validate_def check_points_iff)

end
