(* ===== verification/Route_Profile.thy ===== *)
theory Route_Profile
  imports Market_Data "HOL-Library.Product_Lexorder"
begin

text \<open>
  The catalog of routes (routeprofile/profile.go, routeprofile/registry.go) and the native market
  support derived from it (exchange/market_support.go).
\<close>

section \<open>Profiles\<close>

record RouteKey =
  rk_Venue :: string
  rk_RouteProfileID :: string

record Profile =
  pr_ID :: string
  pr_Venue :: string
  pr_Product :: string
  pr_SettlementAsset :: string

abbreviation ErrUnknownProfile :: goerror where
  "ErrUnknownProfile \<equiv> SentinelError ''ErrUnknownProfile'' ''unknown route profile''"

type_synonym profileRow = "string \<times> string \<times> string"

definition defaultRows :: "profileRow list" where
  "defaultRows =
     [(''binance'', ProductSpot, []), (''binance'', ProductPerp, ''USDT''),
      (''okx'', ProductSpot, []), (''okx'', ProductPerp, ''USDT''),
      (''lighter'', ProductSpot, []), (''lighter'', ProductPerp, ''USDC''),
      (''hyperliquid'', ProductSpot, []), (''hyperliquid'', ProductPerp, ''USDC''),
      (''bybit'', ProductSpot, []), (''bybit'', ProductPerp, ''USDT''), (''bybit'', ProductPerp, ''USDC''),
      (''bitget'', ProductSpot, []), (''bitget'', ProductPerp, ''USDT''), (''bitget'', ProductPerp, ''USDC''),
      (''gate'', ProductSpot, []), (''gate'', ProductPerp, ''USDT''),
      (''aster'', ProductSpot, []), (''aster'', ProductPerp, ''USDT''),
      (''nado'', ProductSpot, ''USDT0''), (''nado'', ProductPerp, ''USDT0'')]"

definition profileID :: "string \<Rightarrow> string \<Rightarrow> string \<Rightarrow> string" where
  "profileID venue product settlement =
     Join ([venue, product] @ (if settlement \<noteq> [] then [ToLower settlement] else [])) ''.'' @ ''.v1''"

definition DefaultProfiles :: "Profile list" where
  "DefaultProfiles =
     map (\<lambda>(venue, product, settlement).
       \<lparr>pr_ID = profileID venue product settlement, pr_Venue = venue, pr_Product = product,
        pr_SettlementAsset = settlement\<rparr>) defaultRows"

text \<open>A registry: the map of its profiles; the nil registry is None.\<close>

type_synonym Registry = "(RouteKey, Profile) gomap option"

definition DefaultRegistry :: Registry where
  "DefaultRegistry =
     Some (foldl (\<lambda>m profile.
        AList.update \<lparr>rk_Venue = pr_Venue profile, rk_RouteProfileID = pr_ID profile\<rparr> profile m)
        [] DefaultProfiles)"

definition Registry_Resolve :: "Registry \<Rightarrow> string \<Rightarrow> string \<Rightarrow> goerror + Profile" where
  "Registry_Resolve registry venue routeProfileID =
     (case registry of
        None \<Rightarrow> Inl ErrUnknownProfile
      | Some profiles \<Rightarrow>
          if venue \<noteq> ToLower (TrimSpace venue) \<or> routeProfileID \<noteq> TrimSpace routeProfileID
          then Inl ErrUnknownProfile
          else (case map_of profiles \<lparr>rk_Venue = venue, rk_RouteProfileID = routeProfileID\<rparr> of
                  Some profile \<Rightarrow> Inr profile
                | None \<Rightarrow> Inl ErrUnknownProfile))"

definition Registry_ResolveLegacy ::
  "Registry \<Rightarrow> string \<Rightarrow> string \<Rightarrow> string \<Rightarrow> goerror + Profile" where
  "Registry_ResolveLegacy registry venue product settlement =
     (case Registry_Resolve registry venue (profileID venue product settlement) of
        Inl err \<Rightarrow> Inl err
      | Inr profile \<Rightarrow>
          if pr_Product profile \<noteq> product \<or> pr_SettlementAsset profile \<noteq> settlement
          then Inl ErrUnknownProfile else Inr profile)"

definition profile_less :: "Profile \<Rightarrow> Profile \<Rightarrow> bool" where
  "profile_less p q \<longleftrightarrow>
     (if pr_Venue p = pr_Venue q then pr_ID p < pr_ID q else pr_Venue p < pr_Venue q)"

definition Registry_Profiles :: "Registry \<Rightarrow> Profile list" where
  "Registry_Profiles registry =
     (case registry of
        None \<Rightarrow> []
      | Some profiles \<Rightarrow> slice_sort profile_less (map snd profiles))"

definition KnowsVenue :: "Registry \<Rightarrow> string \<Rightarrow> bool" where
  "KnowsVenue registry venue \<longleftrightarrow>
     (case registry of
        None \<Rightarrow> False
      | Some profiles \<Rightarrow> list_ex (\<lambda>(key, _). rk_Venue key = venue) profiles)"

section \<open>Native market support\<close>

abbreviation "NativeFamilySpot \<equiv> ''spot''"
abbreviation "NativeFamilyLinear \<equiv> ''linear''"
abbreviation "NativeFamilyUSDTFutures \<equiv> ''usdt-futures''"
abbreviation "NativeFamilyUSDCFutures \<equiv> ''usdc-futures''"
abbreviation "NativeFamilySwap \<equiv> ''swap''"
abbreviation "NativeFamilyPerpetual \<equiv> ''perpetual''"
abbreviation "NativeFamilyUSDT0Perpetual \<equiv> ''usdt0-perpetual''"

definition cap ::
  "Venue \<Rightarrow> string \<Rightarrow> MarketDataset \<Rightarrow> MarketTransport \<Rightarrow> MarketGranularity \<Rightarrow> Duration \<Rightarrow> int \<Rightarrow>
   bool \<Rightarrow> bool \<Rightarrow> string \<Rightarrow> MarketCapability" where
  "cap venue family dataset transport granularity cadence topics snapshot seq operation =
     \<lparr>cap_Venue = venue, cap_NativeMarketFamily = family, cap_Dataset = dataset,
      cap_Transport = transport, cap_Granularity = granularity, cap_NominalCadence = cadence,
      cap_MaxTopicsPerConnection = topics, cap_HasSnapshot = snapshot, cap_HasSourceSequence = seq,
      cap_RateLimitOperation = operation\<rparr>"

definition addHot :: "Venue \<Rightarrow> string \<Rightarrow> int \<Rightarrow> MarketCapability list" where
  "addHot venue family maxTopics =
     [cap venue family DatasetBBO TransportWebSocket GranularitySingleInstrument 0 maxTopics False False [],
      cap venue family DatasetDepth TransportWebSocket GranularitySingleInstrument 0 maxTopics True True [],
      cap venue family DatasetCandle TransportWebSocket GranularitySingleInstrument 0 maxTopics False False []]"

definition addHotWithoutDepth :: "Venue \<Rightarrow> string \<Rightarrow> int \<Rightarrow> MarketCapability list" where
  "addHotWithoutDepth venue family maxTopics =
     [cap venue family DatasetBBO TransportWebSocket GranularitySingleInstrument 0 maxTopics False False [],
      cap venue family DatasetCandle TransportWebSocket GranularitySingleInstrument 0 maxTopics False False []]"

definition spot_capabilities :: "Profile \<Rightarrow> MarketCapability list" where
  "spot_capabilities profile =
     (if pr_Product profile \<noteq> ProductSpot then []
      else (if pr_Venue profile = VenueNado then addHotWithoutDepth (pr_Venue profile) NativeFamilySpot 100
            else addHot (pr_Venue profile) NativeFamilySpot 100) @
           [cap (pr_Venue profile) NativeFamilySpot DatasetCatalog TransportREST GranularityAllMarket Minute
              0 True False ''instruments''])"

abbreviation okx_operation :: "MarketDataset \<Rightarrow> string" where
  "okx_operation dataset \<equiv>
     (if dataset = DatasetFunding then ''funding_rates'' else if dataset = DatasetMark then ''mark_prices''
      else if dataset = DatasetOpenInterest then ''open_interest''
      else if dataset = DatasetIndex then ''index_tickers'' else [])"

text \<open>The derivative families, venue by venue as the source lists them.\<close>

definition perp_capabilities :: "MarketCapability list" where
  "perp_capabilities =
     concat (map (\<lambda>venue.
       map (\<lambda>dataset. cap venue NativeFamilyPerpetual dataset TransportWebSocket GranularityAllMarket Second
              0 True False []) [DatasetMark, DatasetIndex, DatasetFunding] @
       addHot venue NativeFamilyPerpetual 1024) [VenueBinance, VenueAster]) @
     concat (map (\<lambda>venue.
       map (\<lambda>dataset. cap venue NativeFamilyPerpetual dataset TransportWebSocket GranularityAllMarket 0
              0 True False []) [DatasetMark, DatasetIndex, DatasetFunding, DatasetOpenInterest] @
       addHot venue NativeFamilyPerpetual 1024) [VenueLighter, VenueHyperliquid]) @
     map (\<lambda>dataset. cap VenueGate NativeFamilyPerpetual dataset TransportWebSocket GranularityMultiSymbol 0
            0 True False []) [DatasetMark, DatasetIndex, DatasetFunding, DatasetOpenInterest] @
     addHot VenueGate NativeFamilyPerpetual 200 @
     [cap VenueNado NativeFamilyUSDT0Perpetual DatasetFunding TransportWebSocket GranularityAllMarket 0
        0 True False []] @
     map (\<lambda>dataset. cap VenueNado NativeFamilyUSDT0Perpetual dataset TransportREST GranularityMultiSymbol
            (15 * Second) 0 True False ''contracts'') [DatasetMark, DatasetIndex, DatasetOpenInterest] @
     addHotWithoutDepth VenueNado NativeFamilyUSDT0Perpetual 100 @
     concat (map (\<lambda>dataset.
       [cap VenueBybit NativeFamilyLinear dataset TransportREST GranularityAllMarket (15 * Second)
          0 True False ''linear_tickers'',
        cap VenueBybit NativeFamilyLinear dataset TransportWebSocket GranularitySingleInstrument 0
          100 False False []]) [DatasetMark, DatasetIndex, DatasetFunding, DatasetOpenInterest]) @
     addHot VenueBybit NativeFamilyLinear 100 @
     concat (map (\<lambda>family.
       map (\<lambda>dataset. cap VenueBitget family dataset TransportREST GranularityAllMarket (15 * Second)
              0 True False ''all_tickers'') [DatasetMark, DatasetIndex, DatasetFunding] @
       map (\<lambda>dataset. cap VenueBitget family dataset TransportWebSocket GranularitySingleInstrument 0
              50 False False []) [DatasetMark, DatasetIndex, DatasetFunding, DatasetOpenInterest] @
       addHot VenueBitget family 50) [NativeFamilyUSDTFutures, NativeFamilyUSDCFutures]) @
     concat (map (\<lambda>dataset.
       [cap VenueOKX NativeFamilySwap dataset TransportREST GranularityAllMarket (15 * Second)
          0 True False (okx_operation dataset),
        cap VenueOKX NativeFamilySwap dataset TransportWebSocket GranularitySingleInstrument 0
          100 False False []]) [DatasetFunding, DatasetMark, DatasetOpenInterest, DatasetIndex]) @
     addHot VenueOKX NativeFamilySwap 100"

text \<open>
  The owners of a derivative family. Go collects them in a map and ranges over it, so the order is
  not determined; the model takes any permutation of the distinct owners as an argument.
\<close>

definition family_owners :: "MarketCapability list \<Rightarrow> (Venue \<times> string) list" where
  "family_owners caps =
     remdups (map (\<lambda>c. (cap_Venue c, cap_NativeMarketFamily c))
       (filter (\<lambda>c. cap_NativeMarketFamily c \<noteq> NativeFamilySpot) caps))"

definition owner_catalogs :: "(Venue \<times> string) list \<Rightarrow> MarketCapability list" where
  "owner_catalogs owners =
     map (\<lambda>(venue, family). cap venue family DatasetCatalog TransportREST GranularityAllMarket Minute
            0 True False ''instruments'') owners"

definition capability_less :: "MarketCapability \<Rightarrow> MarketCapability \<Rightarrow> bool" where
  "capability_less left right \<longleftrightarrow>
     (if cap_Venue left \<noteq> cap_Venue right then cap_Venue left < cap_Venue right
      else if cap_NativeMarketFamily left \<noteq> cap_NativeMarketFamily right
      then cap_NativeMarketFamily left < cap_NativeMarketFamily right
      else if cap_Dataset left \<noteq> cap_Dataset right then cap_Dataset left < cap_Dataset right
      else cap_Transport left < cap_Transport right)"

definition base_capabilities :: "MarketCapability list" where
  "base_capabilities = concat (map spot_capabilities DefaultProfiles) @ perp_capabilities"

definition MarketCapabilities :: "(Venue \<times> string) list \<Rightarrow> MarketCapability list" where
  "MarketCapabilities owners = slice_sort capability_less (base_capabilities @ owner_catalogs owners)"

definition NativeMarketFamily :: "Venue \<Rightarrow> Product \<Rightarrow> string \<Rightarrow> string" where
  "NativeMarketFamily venue product settlement =
     (case Registry_ResolveLegacy DefaultRegistry venue product settlement of
        Inl _ \<Rightarrow> []
      | Inr _ \<Rightarrow>
          if product = ProductSpot then NativeFamilySpot
          else if venue = VenueBybit then NativeFamilyLinear
          else if venue = VenueBitget
          then (if EqualFold (TrimSpace settlement) ''USDC'' then NativeFamilyUSDCFutures
                else NativeFamilyUSDTFutures)
          else if venue = VenueOKX then NativeFamilySwap
          else if venue = VenueNado then NativeFamilyUSDT0Perpetual
          else NativeFamilyPerpetual)"

definition MarketCapabilitiesFor ::
  "(Venue \<times> string) list \<Rightarrow> Venue \<Rightarrow> string \<Rightarrow> MarketCapability list" where
  "MarketCapabilitiesFor owners venue family =
     filter (\<lambda>c. cap_Venue c = venue \<and> cap_NativeMarketFamily c = family) (MarketCapabilities owners)"

section \<open>The registry is the list of profiles\<close>

lemma DefaultRegistry_eq:
  "DefaultRegistry =
     Some (map (\<lambda>p. (\<lparr>rk_Venue = pr_Venue p, rk_RouteProfileID = pr_ID p\<rparr>, p)) DefaultProfiles)"
  by code_simp

lemma default_keys_distinct: "distinct (map (\<lambda>p. (pr_Venue p, pr_ID p)) DefaultProfiles)"
  by code_simp

lemma default_profiles_normal:
  "list_all (\<lambda>p. pr_Venue p = ToLower (TrimSpace (pr_Venue p)) \<and> pr_ID p = TrimSpace (pr_ID p)) DefaultProfiles"
  by code_simp

lemma Registry_Resolve_iff:
  "Registry_Resolve DefaultRegistry venue rid = Inr p \<longleftrightarrow>
   p \<in> set DefaultProfiles \<and> pr_Venue p = venue \<and> pr_ID p = rid"
proof -
  let ?m = "map (\<lambda>p. (\<lparr>rk_Venue = pr_Venue p, rk_RouteProfileID = pr_ID p\<rparr>, p)) DefaultProfiles"
  have "distinct (map fst ?m)"
    using default_keys_distinct by (auto simp: distinct_map inj_on_def)
  then have look: "map_of ?m \<lparr>rk_Venue = venue, rk_RouteProfileID = rid\<rparr> = Some p \<longleftrightarrow>
      p \<in> set DefaultProfiles \<and> pr_Venue p = venue \<and> pr_ID p = rid"
    by (auto simp: map_of_eq_Some_iff)
  have norm: "pr_Venue p = ToLower (TrimSpace (pr_Venue p)) \<and> pr_ID p = TrimSpace (pr_ID p)"
    if "p \<in> set DefaultProfiles"
    using default_profiles_normal that by (simp add: list_all_iff)
  have "Registry_Resolve DefaultRegistry venue rid = Inr p \<longleftrightarrow>
      \<not> (venue \<noteq> ToLower (TrimSpace venue) \<or> rid \<noteq> TrimSpace rid) \<and>
      map_of ?m \<lparr>rk_Venue = venue, rk_RouteProfileID = rid\<rparr> = Some p"
    unfolding Registry_Resolve_def DefaultRegistry_eq option.case
    by (cases "map_of ?m \<lparr>rk_Venue = venue, rk_RouteProfileID = rid\<rparr>") auto
  then show ?thesis
    unfolding look using norm by metis
qed

lemma default_profiles_rows:
  "p \<in> set DefaultProfiles \<longleftrightarrow>
   (pr_Venue p, pr_Product p, pr_SettlementAsset p) \<in> set defaultRows \<and>
   pr_ID p = profileID (pr_Venue p) (pr_Product p) (pr_SettlementAsset p)"
  by (force simp: DefaultProfiles_def)

lemma Registry_ResolveLegacy_iff:
  "Registry_ResolveLegacy DefaultRegistry venue product settlement = Inr p \<longleftrightarrow>
   (venue, product, settlement) \<in> set defaultRows \<and>
   p = \<lparr>pr_ID = profileID venue product settlement, pr_Venue = venue, pr_Product = product,
        pr_SettlementAsset = settlement\<rparr>"
proof -
  have "Registry_ResolveLegacy DefaultRegistry venue product settlement = Inr p \<longleftrightarrow>
      Registry_Resolve DefaultRegistry venue (profileID venue product settlement) = Inr p \<and>
      pr_Product p = product \<and> pr_SettlementAsset p = settlement"
    by (auto simp: Registry_ResolveLegacy_def split: sum.split)
  then show ?thesis
    unfolding Registry_Resolve_iff default_profiles_rows by auto
qed

lemma NativeMarketFamily_ne:
  "NativeMarketFamily venue product settlement \<noteq> [] \<longleftrightarrow> (venue, product, settlement) \<in> set defaultRows"
proof (cases "Registry_ResolveLegacy DefaultRegistry venue product settlement")
  case (Inl err)
  then have "(venue, product, settlement) \<notin> set defaultRows"
    using Registry_ResolveLegacy_iff [of venue product settlement] by (metis sum.distinct(1))
  with Inl show ?thesis by (simp add: NativeMarketFamily_def)
next
  case (Inr p)
  then show ?thesis
    using Registry_ResolveLegacy_iff [of venue product settlement p] by (simp add: NativeMarketFamily_def)
qed

section \<open>The capability matrix does not depend on map order\<close>

definition capability_key :: "MarketCapability \<Rightarrow> string \<times> string \<times> string \<times> string" where
  "capability_key c = (cap_Venue c, cap_NativeMarketFamily c, cap_Dataset c, cap_Transport c)"

lemma capability_less_key: "capability_less = (\<lambda>x y. capability_key x < capability_key y)"
  by (auto simp: fun_eq_iff capability_less_def capability_key_def less_prod_def)

interpretation capability_order: strict_weak capability_less
  unfolding capability_less_key by (rule strict_weak_key)

definition all_capabilities :: "MarketCapability list" where
  "all_capabilities = base_capabilities @ owner_catalogs (family_owners base_capabilities)"

text \<open>Distinctness group by group: keys that agree lie in one group.\<close>

lemma distinct_by_group:
  assumes "\<forall>v\<in>set vs. distinct (map k (filter (\<lambda>x. f x = v) xs))" "\<forall>x\<in>set xs. f x \<in> set vs"
    and "\<And>x y. k x = k y \<Longrightarrow> f x = f y"
  shows "distinct (map k xs)"
  using assms(1,2)
proof (induction xs)
  case (Cons x xs)
  have "distinct (map k xs)"
  proof (rule Cons.IH)
    show "\<forall>v\<in>set vs. distinct (map k (filter (\<lambda>x. f x = v) xs))"
      using Cons.prems(1) by (auto split: if_splits)
  qed (use Cons.prems(2) in simp)
  moreover have "k x \<notin> k ` set xs"
  proof
    assume "k x \<in> k ` set xs"
    then obtain y where y: "y \<in> set xs" "k x = k y" by auto
    have "distinct (map k (filter (\<lambda>z. f z = f x) (x # xs)))"
      using Cons.prems by auto
    with y assms(3) [OF y(2)] show False by auto
  qed
  ultimately show ?case by simp
qed simp

lemma capability_venues:
  "list_all (\<lambda>v. distinct (map capability_key (filter (\<lambda>c. cap_Venue c = v) all_capabilities)))
     [VenueBinance, VenueOKX, VenueLighter, VenueHyperliquid, VenueBybit, VenueBitget, VenueGate,
      VenueAster, VenueNado]"
  by code_simp

lemma all_capabilities_valid: "list_all (\<lambda>c. MarketCapability_Validate c = None) all_capabilities"
  by code_simp

lemma all_capabilities_keys: "distinct (map capability_key all_capabilities)"
proof (rule distinct_by_group)
  show "\<forall>c\<in>set all_capabilities. cap_Venue c \<in>
      set [VenueBinance, VenueOKX, VenueLighter, VenueHyperliquid, VenueBybit, VenueBitget, VenueGate,
        VenueAster, VenueNado]"
    using all_capabilities_valid
    by (auto simp: list_all_iff MarketCapability_Validate_def knownVenue_def split: if_splits)
qed (use capability_venues in \<open>simp_all add: list_all_iff capability_key_def\<close>)

definition native_family :: "Venue \<Rightarrow> Product \<Rightarrow> string \<Rightarrow> string" where
  "native_family venue product settlement =
     (if product = ProductSpot then NativeFamilySpot
      else if venue = VenueBybit then NativeFamilyLinear
      else if venue = VenueBitget
      then (if EqualFold (TrimSpace settlement) ''USDC'' then NativeFamilyUSDCFutures
            else NativeFamilyUSDTFutures)
      else if venue = VenueOKX then NativeFamilySwap
      else if venue = VenueNado then NativeFamilyUSDT0Perpetual
      else NativeFamilyPerpetual)"

lemma NativeMarketFamily_row:
  assumes "(venue, product, settlement) \<in> set defaultRows"
  shows "NativeMarketFamily venue product settlement = native_family venue product settlement"
proof -
  obtain p where "Registry_ResolveLegacy DefaultRegistry venue product settlement = Inr p"
    using assms Registry_ResolveLegacy_iff by blast
  then show ?thesis by (simp add: NativeMarketFamily_def native_family_def)
qed

definition catalog_owners :: "(Venue \<times> string) list" where
  "catalog_owners = map (\<lambda>c. (cap_Venue c, cap_NativeMarketFamily c))
     (filter (\<lambda>c. cap_Dataset c = DatasetCatalog) all_capabilities)"

lemma rows_have_catalogs:
  "list_all (\<lambda>(venue, product, settlement). (venue, native_family venue product settlement) \<in> set catalog_owners)
     defaultRows"
  by code_simp

section \<open>Properties\<close>

text \<open>
  Resolving a venue and a profile id finds exactly the profile of the default catalog with that venue and
  id, and resolving from product and settlement finds exactly the row with those parts; nothing is
  normalised on the way.
\<close>

theorem route_profiles_resolve_exactly:
  "(Registry_Resolve DefaultRegistry venue rid = Inr p \<longleftrightarrow>
      p \<in> set DefaultProfiles \<and> pr_Venue p = venue \<and> pr_ID p = rid) \<and>
   (Registry_ResolveLegacy DefaultRegistry venue product settlement = Inr q \<longleftrightarrow>
      (venue, product, settlement) \<in> set defaultRows \<and>
      q = \<lparr>pr_ID = profileID venue product settlement, pr_Venue = venue, pr_Product = product,
           pr_SettlementAsset = settlement\<rparr>)"
  by (simp only: Registry_Resolve_iff Registry_ResolveLegacy_iff)

text \<open>
  The capability matrix does not depend on the order in which Go ranges over the map of owners: for
  every order the sorted result is the same list, its (venue, family, dataset, transport) keys strictly
  increase, and every entry passes Validate.
\<close>

theorem capability_matrix_deterministic:
  assumes "mset owners = mset (family_owners base_capabilities)"
  shows "MarketCapabilities owners = MarketCapabilities (family_owners base_capabilities) \<and>
    sorted_wrt capability_less (MarketCapabilities owners) \<and>
    (\<forall>c\<in>set (MarketCapabilities owners). MarketCapability_Validate c = None)"
proof -
  let ?xs = "base_capabilities @ owner_catalogs owners"
  have m: "mset ?xs = mset all_capabilities"
    using assms by (simp add: all_capabilities_def owner_catalogs_def)
  then have set_eq: "set ?xs = set all_capabilities"
    by (metis set_mset_mset)
  have total: "capability_less x y \<or> capability_less y x"
    if "x \<in> set ?xs" "y \<in> set ?xs" "x \<noteq> y" for x y
  proof -
    have "capability_key x \<noteq> capability_key y"
      using that all_capabilities_keys unfolding set_eq by (auto simp: distinct_map inj_on_def)
    then show ?thesis by (auto simp: capability_less_key)
  qed
  have eq: "slice_sort capability_less ?xs = slice_sort capability_less all_capabilities"
    by (rule capability_order.slice_sort_unique [OF m total])
  have "mset (map capability_key (slice_sort capability_less ?xs)) = mset (map capability_key all_capabilities)"
    by (simp only: mset_map mset_slice_sort m)
  then have "distinct (map capability_key (slice_sort capability_less ?xs))"
    using all_capabilities_keys mset_eq_imp_distinct_iff by blast
  then have dist: "sorted_wrt (\<lambda>x y. capability_key x \<noteq> capability_key y) (slice_sort capability_less ?xs)"
    by (simp add: distinct_conv_nth sorted_wrt_iff_nth_less)
  have "sorted_wrt (\<lambda>x y. \<not> capability_less y x \<and> capability_key x \<noteq> capability_key y)
      (slice_sort capability_less ?xs)"
    using capability_order.sorted_slice_sort [of ?xs] dist by (simp add: sorted_wrt_iff_nth_less)
  then have sorted: "sorted_wrt capability_less (slice_sort capability_less ?xs)"
    by (rule sorted_wrt_mono_rel [rotated]) (auto simp: capability_less_key)
  have "\<forall>c\<in>set (slice_sort capability_less ?xs). MarketCapability_Validate c = None"
    unfolding set_slice_sort set_eq using all_capabilities_valid by (simp add: list_all_iff)
  with eq sorted show ?thesis
    by (simp only: MarketCapabilities_def all_capabilities_def)
qed

theorem capability_matrix_deterministic_witness:
  "MarketCapabilities (rev (family_owners base_capabilities)) = MarketCapabilities (family_owners base_capabilities)"
  using capability_matrix_deterministic [of "rev (family_owners base_capabilities)"] by simp

text \<open>
  C40: a venue, product and settlement have a native market family exactly when they are a row of the route
  catalog, and every such family publishes its instrument catalog.
\<close>

theorem every_route_has_a_catalog:
  assumes "mset owners = mset (family_owners base_capabilities)"
  shows "(NativeMarketFamily venue product settlement \<noteq> [] \<longleftrightarrow> (venue, product, settlement) \<in> set defaultRows) \<and>
    (NativeMarketFamily venue product settlement \<noteq> [] \<longrightarrow>
      (\<exists>c\<in>set (MarketCapabilitiesFor owners venue (NativeMarketFamily venue product settlement)).
         cap_Dataset c = DatasetCatalog))"
proof -
  have "set (MarketCapabilities owners) = set all_capabilities"
    using mset_eq_setD [OF assms] by (simp add: MarketCapabilities_def all_capabilities_def owner_catalogs_def)
  moreover have "(venue, NativeMarketFamily venue product settlement) \<in> set catalog_owners"
    if "(venue, product, settlement) \<in> set defaultRows"
    using rows_have_catalogs that NativeMarketFamily_row [OF that] by (auto simp: list_all_iff)
  ultimately show ?thesis
    by (force simp: NativeMarketFamily_ne MarketCapabilitiesFor_def catalog_owners_def)
qed

theorem every_route_has_a_catalog_witness:
  "NativeMarketFamily VenueBitget ProductPerp ''USDC'' \<noteq> []"
  using every_route_has_a_catalog [OF refl, of VenueBitget ProductPerp "''USDC''"]
  by (simp add: defaultRows_def)

end
