(* ===== verification/Account_Runtime.thy ===== *)
theory Account_Runtime
  imports Account_Model Market_Feeds Route_Profile
begin

text \<open>
  The live state of one account (gateway/account/runtime.go): its clients, the position and balance
  snapshot that REST reads and the private streams feed, and the messages of the account topic. What
  the venue answers is an argument of the operations. A call of emit appends to the output of the
  state while a topic is attached. The outer option of a result is the nil dereference of a client
  value that has neither a spot nor a perpetual client.
\<close>

section \<open>State\<close>

abbreviation "ChannelOrders \<equiv> ''account.orders''"
abbreviation "ChannelFills \<equiv> ''account.fills''"
abbreviation "ChannelPositions \<equiv> ''account.positions''"
abbreviation "ChannelBalances \<equiv> ''account.balances''"
abbreviation "ChannelStatus \<equiv> ''account.status''"

abbreviation ErrAccountInvalid :: goerror where
  "ErrAccountInvalid \<equiv> SentinelError ''account.ErrInvalidRequest'' ''invalid request''"

definition invalid :: "string \<Rightarrow> goerror" where
  "invalid message = WrapError (error_text ErrAccountInvalid @ '': '' @ message) [ErrAccountInvalid]"

datatype AccountData =
    OrderData AccountOrder
  | FillData AccountFill
  | PositionsData "AccountPosition list"
  | BalancesData "AccountBalance list"
  | StatusData bool "(string \<times> bool) list"

record AccountMessage =
  am_Channel :: string
  am_Account :: string
  am_Data :: AccountData

record 'c runtime =
  rt_id :: string
  rt_venue :: Venue
  rt_clients :: "'c routeClient list"
  rt_positions :: "Market \<Rightarrow> AccountPosition list"
  rt_balances :: "Market \<Rightarrow> AccountBalance list"
  rt_loaded :: "Market \<Rightarrow> bool"
  rt_connected :: "Market \<Rightarrow> bool"
  rt_emit :: bool
  rt_refresh :: "Market list"
  rt_out :: "(AccountMessage \<times> bool) list"

record ('d, 'c) VenueReads =
  vr_Balances :: "'c \<Rightarrow> goerror + 'd Balance list"
  vr_Positions :: "'c \<Rightarrow> goerror + 'd Position list"

definition newRuntime :: "string \<Rightarrow> Venue \<Rightarrow> 'c routeClient list \<Rightarrow> 'c runtime" where
  "newRuntime iid venue clients =
     \<lparr>rt_id = iid, rt_venue = venue, rt_clients = clients, rt_positions = (\<lambda>_. []), rt_balances = (\<lambda>_. []),
      rt_loaded = (\<lambda>_. False), rt_connected = (\<lambda>_. False), rt_emit = False, rt_refresh = [], rt_out = []\<rparr>"

definition runtime_close :: "'c runtime \<Rightarrow> 'c list" where
  "runtime_close rt = concat (map client_close (rt_clients rt))"

definition runtime_client :: "'c runtime \<Rightarrow> Market \<Rightarrow> 'c routeClient option" where
  "runtime_client rt m = find (\<lambda>client. rc_market client = m) (rt_clients rt)"

definition clientFor :: "'c runtime \<Rightarrow> 'd GatewayInstrument \<Rightarrow> goerror + 'c routeClient" where
  "clientFor rt instrument =
     (let foreign = invalid (''instrument '' @ gi_ID instrument @ '' does not belong to this account'') in
      case MarketOf (gi_native instrument) of
        None \<Rightarrow> Inl foreign
      | Some owner \<Rightarrow>
          if mk_Venue owner \<noteq> rt_venue rt then Inl foreign
          else (case runtime_client rt owner of
                  None \<Rightarrow> Inl (invalid (''market '' @ Market_String owner @ '' is not available for this account''))
                | Some client \<Rightarrow> Inr client))"

definition send :: "'c runtime \<Rightarrow> string \<Rightarrow> AccountData \<Rightarrow> bool \<Rightarrow> 'c runtime" where
  "send rt channel payload retained =
     (if rt_emit rt
      then rt\<lparr>rt_out := rt_out rt @ [(\<lparr>am_Channel = channel, am_Account = rt_id rt, am_Data = payload\<rparr>, retained)]\<rparr>
      else rt)"

section \<open>Publishing\<close>

definition positionList :: "'c runtime \<Rightarrow> AccountPosition list" where
  "positionList rt = concat (map (\<lambda>client. rt_positions rt (rc_market client)) (rt_clients rt))"

definition publishPositions :: "'c runtime \<Rightarrow> 'c runtime" where
  "publishPositions rt = send rt ChannelPositions (PositionsData (positionList rt)) True"

definition publishBalances :: "'c runtime \<Rightarrow> 'c runtime" where
  "publishBalances rt =
     send rt ChannelBalances
       (BalancesData (concat (map (\<lambda>client. rt_balances rt (rc_market client)) (rt_clients rt)))) True"

text \<open>The map from market names to their connection is an association list.\<close>

definition publishStatus :: "'c runtime \<Rightarrow> 'c runtime" where
  "publishStatus rt =
     send rt ChannelStatus
       (StatusData (rt_clients rt \<noteq> [] \<and> list_all (\<lambda>client. rt_connected rt (rc_market client)) (rt_clients rt))
          (foldl (\<lambda>markets client. AList.update (Market_String (rc_market client)) (rt_connected rt (rc_market client)) markets)
             [] (rt_clients rt))) True"

text \<open>scheduleRefresh: the channel holds sixteen requests, a full one takes no more.\<close>

definition scheduleRefresh :: "Market \<Rightarrow> 'c runtime \<Rightarrow> 'c runtime" where
  "scheduleRefresh m rt = (if length (rt_refresh rt) < 16 then rt\<lparr>rt_refresh := rt_refresh rt @ [m]\<rparr> else rt)"

section \<open>Snapshot reads\<close>

abbreviation zero_balance :: "'d Decimals \<Rightarrow> 'd Balance \<Rightarrow> bool" where
  "zero_balance D item \<equiv> IsZero D (ba_Total item) \<and> IsZero D (ba_Available item) \<and> IsZero D (ba_Locked item)"

definition balance_row :: "'d Decimals \<Rightarrow> Market \<Rightarrow> 'd Balance \<Rightarrow> AccountBalance" where
  "balance_row D m item =
     \<lparr>ab_Market = Market_String m, ab_Asset = ba_Asset item, ab_Total = DString D (ba_Total item),
      ab_Available = DString D (ba_Available item), ab_Locked = DString D (ba_Locked item)\<rparr>"

definition asset_less :: "AccountBalance \<Rightarrow> AccountBalance \<Rightarrow> bool" where
  "asset_less a b \<longleftrightarrow> ab_Asset a < ab_Asset b"

definition fetchBalances ::
  "'d Decimals \<Rightarrow> ('d, 'c) VenueReads \<Rightarrow> 'c routeClient \<Rightarrow> 'c runtime \<Rightarrow>
   ((goerror + AccountBalance list) \<times> 'c runtime) option" where
  "fetchBalances D reads client rt =
     (case client_orders client of
        None \<Rightarrow> None
      | Some c \<Rightarrow>
          Some (case vr_Balances reads c of
                  Inl err \<Rightarrow> (Inl err, rt)
                | Inr natives \<Rightarrow>
                    (let balances = slice_sort asset_less
                           (map (balance_row D (rc_market client)) (filter (\<lambda>item. \<not> zero_balance D item) natives))
                     in (Inr balances, rt\<lparr>rt_balances := (rt_balances rt)(rc_market client := balances)\<rparr>))))"

definition position_less :: "AccountPosition \<Rightarrow> AccountPosition \<Rightarrow> bool" where
  "position_less a b \<longleftrightarrow>
     (if ap_Instrument a \<noteq> ap_Instrument b then ap_Instrument a < ap_Instrument b else ap_Side a < ap_Side b)"

definition sortPositions :: "AccountPosition list \<Rightarrow> AccountPosition list" where
  "sortPositions positions = slice_sort position_less positions"

definition fetch_row ::
  "'d Decimals \<Rightarrow> ('d, 'x) Catalog \<Rightarrow> Market \<Rightarrow> 'd Position \<Rightarrow> AccountPosition list" where
  "fetch_row D catalog m native =
     (case ResolveNative D catalog m (pn_NativeSymbol native) (pn_NativeID native) of
        None \<Rightarrow> []
      | Some instrument \<Rightarrow>
          (case projectPosition D (gi_ID instrument) native of Some position \<Rightarrow> [position] | None \<Rightarrow> []))"

definition fetchPositions ::
  "'d Decimals \<Rightarrow> ('d, 'x) Catalog \<Rightarrow> ('d, 'c) VenueReads \<Rightarrow> Market \<Rightarrow> 'c \<Rightarrow> goerror + AccountPosition list" where
  "fetchPositions D catalog reads m perp =
     (case vr_Positions reads perp of
        Inl err \<Rightarrow> Inl err
      | Inr natives \<Rightarrow> Inr (sortPositions (concat (map (fetch_row D catalog m) natives))))"

definition loadMarket ::
  "'d Decimals \<Rightarrow> ('d, 'x) Catalog \<Rightarrow> ('d, 'c) VenueReads \<Rightarrow> 'c routeClient \<Rightarrow> 'c runtime \<Rightarrow> goerror option \<times> 'c runtime" where
  "loadMarket D catalog reads client rt =
     (case rc_perp client of
        None \<Rightarrow> (None, rt)
      | Some perp \<Rightarrow>
          (case fetchPositions D catalog reads (rc_market client) perp of
             Inl err \<Rightarrow> (Some err, rt)
           | Inr positions \<Rightarrow>
               (None, publishPositions
                  (rt\<lparr>rt_positions := (rt_positions rt)(rc_market client := positions),
                      rt_loaded := (rt_loaded rt)(rc_market client := True)\<rparr>))))"

text \<open>The loop of Positions: the markets whose snapshot is not live are read again.\<close>

fun load_stale ::
  "'d Decimals \<Rightarrow> ('d, 'x) Catalog \<Rightarrow> ('d, 'c) VenueReads \<Rightarrow> 'c routeClient list \<Rightarrow> goerror list \<Rightarrow> 'c runtime \<Rightarrow>
   goerror list \<times> 'c runtime" where
  "load_stale D catalog reads [] errs rt = (errs, rt)"
| "load_stale D catalog reads (client # clients) errs rt =
     (if rc_perp client = None then load_stale D catalog reads clients errs rt
      else
        (let fresh = (rt_loaded rt (rc_market client) \<and> rt_emit rt \<and> rt_connected rt (rc_market client)) in
         if fresh then load_stale D catalog reads clients errs rt
         else (case loadMarket D catalog reads client rt of
                 (None, rt1) \<Rightarrow> load_stale D catalog reads clients errs rt1
               | (Some err, rt1) \<Rightarrow> load_stale D catalog reads clients (errs @ [err]) rt1)))"

definition runtime_Positions ::
  "'d Decimals \<Rightarrow> ('d, 'x) Catalog \<Rightarrow> ('d, 'c) VenueReads \<Rightarrow> 'c runtime \<Rightarrow> (goerror + AccountPosition list) \<times> 'c runtime" where
  "runtime_Positions D catalog reads rt =
     (case load_stale D catalog reads (rt_clients rt) [] rt of
        (errs, rt1) \<Rightarrow>
          (let positions = positionList rt1 in
           if positions = [] \<and> errs \<noteq> [] then (Inl (JoinError errs), rt1) else (Inr positions, rt1)))"

fun balances_loop ::
  "'d Decimals \<Rightarrow> ('d, 'c) VenueReads \<Rightarrow> 'c routeClient list \<Rightarrow> AccountBalance list \<Rightarrow> goerror list \<Rightarrow> 'c runtime \<Rightarrow>
   ((AccountBalance list \<times> goerror list) \<times> 'c runtime) option" where
  "balances_loop D reads [] result errs rt = Some ((result, errs), rt)"
| "balances_loop D reads (client # clients) result errs rt =
     (case fetchBalances D reads client rt of
        None \<Rightarrow> None
      | Some (Inl err, rt1) \<Rightarrow>
          balances_loop D reads clients result
            (errs @ [WrapError (Market_String (rc_market client) @ '': '' @ error_text err) [err]]) rt1
      | Some (Inr balances, rt1) \<Rightarrow> balances_loop D reads clients (result @ balances) errs rt1)"

definition runtime_Balances ::
  "'d Decimals \<Rightarrow> ('d, 'c) VenueReads \<Rightarrow> 'c runtime \<Rightarrow> ((goerror + AccountBalance list) \<times> 'c runtime) option" where
  "runtime_Balances D reads rt =
     (case balances_loop D reads (rt_clients rt) [] [] rt of
        None \<Rightarrow> None
      | Some ((result, errs), rt1) \<Rightarrow>
          Some (if result = [] \<and> errs \<noteq> [] then (Inl (JoinError errs), rt1) else (Inr result, rt1)))"

section \<open>Private stream events\<close>

text \<open>The rows a position event leaves in place, and the rows it brings.\<close>

definition kept_rows :: "InstrumentID \<Rightarrow> 'd PositionEvent \<Rightarrow> AccountPosition list \<Rightarrow> AccountPosition list" where
  "kept_rows iid event current =
     (let incomingSlots = pn_PositionSlot ` set (pe_Positions event) in
      filter (\<lambda>position. ap_Instrument position \<noteq> iid \<or>
                (pe_Kind event \<noteq> EventSnapshot \<and> ap_slot position \<notin> incomingSlots)) current)"

definition event_rows :: "'d Decimals \<Rightarrow> InstrumentID \<Rightarrow> 'd PositionEvent \<Rightarrow> AccountPosition list" where
  "event_rows D iid event = List.map_filter (projectPosition D iid) (pe_Positions event)"

definition applyPositionEvent ::
  "'d Decimals \<Rightarrow> Market \<Rightarrow> InstrumentID \<Rightarrow> 'd PositionEvent \<Rightarrow> 'c runtime \<Rightarrow> 'c runtime" where
  "applyPositionEvent D m iid event rt =
     publishPositions
       (rt\<lparr>rt_positions := (rt_positions rt)
             (m := sortPositions (kept_rows iid event (rt_positions rt m) @ event_rows D iid event)),
           rt_loaded := (rt_loaded rt)(m := True)\<rparr>)"

text \<open>The map byAsset of applyBalanceEvent, filled and changed by the items.\<close>

definition by_asset :: "AccountBalance list \<Rightarrow> (string, AccountBalance) gomap" where
  "by_asset balances = foldl (\<lambda>m b. AList.update (ab_Asset b) b m) [] balances"

fun change_assets ::
  "'d Decimals \<Rightarrow> Market \<Rightarrow> 'd Balance list \<Rightarrow> (string, AccountBalance) gomap \<Rightarrow> (string, AccountBalance) gomap" where
  "change_assets D m [] byAsset = byAsset"
| "change_assets D m (item # items) byAsset =
     (if zero_balance D item then change_assets D m items (AList.delete (ba_Asset item) byAsset)
      else change_assets D m items (AList.update (ba_Asset item) (balance_row D m item) byAsset))"

definition applyBalanceEvent :: "'d Decimals \<Rightarrow> Market \<Rightarrow> 'd BalanceEvent \<Rightarrow> 'c runtime \<Rightarrow> 'c runtime" where
  "applyBalanceEvent D m event rt =
     publishBalances
       (rt\<lparr>rt_balances := (rt_balances rt)
             (m := slice_sort asset_less (map snd (change_assets D m (be_Balances event) (by_asset (rt_balances rt m)))))\<rparr>)"

definition handleEvent :: "'d Decimals \<Rightarrow> 'c routeClient \<Rightarrow> 'd AccountEvent \<Rightarrow> 'c runtime \<Rightarrow> 'c runtime" where
  "handleEvent D client event rt =
     (let iid = ae_InstrumentID event in
      if ae_Kind event = AccountEventOrder then
        (case ae_Order event of
           Some order \<Rightarrow> send rt ChannelOrders (OrderData (projectOrder D iid (oe_Order order))) False
         | None \<Rightarrow> rt)
      else if ae_Kind event = AccountEventFill then
        scheduleRefresh (rc_market client)
          (case ae_Fill event of
             Some fill \<Rightarrow> send rt ChannelFills (FillData (projectFill D iid (fe_Fill fill))) False
           | None \<Rightarrow> rt)
      else if ae_Kind event = AccountEventPosition then
        (case ae_Position event of
           Some position \<Rightarrow> applyPositionEvent D (rc_market client) iid position rt
         | None \<Rightarrow> rt)
      else if ae_Kind event = AccountEventBalance then
        (case ae_Balance event of
           Some balance \<Rightarrow> applyBalanceEvent D (rc_market client) balance rt
         | None \<Rightarrow> rt)
      else rt)"

section \<open>The stream of one market\<close>

text \<open>
  What the socket of a client can do: whether it has the account stream, the index it takes the
  instruments into if it has one, and what opening the stream for a route answers.
\<close>

record 'd AccountSocket =
  sk_account :: bool
  sk_indexer :: "((InstrumentID \<times> 'd Instrument) list \<Rightarrow> goerror option) option"
  sk_watch_account :: "AccountRoute \<Rightarrow> goerror option"

definition account_route :: "'c runtime \<Rightarrow> Market \<Rightarrow> 'd Instrument \<Rightarrow> AccountRoute" where
  "account_route rt m native =
     \<lparr>ar_AccountID = rt_id rt, ar_RouteID = Market_String m, ar_Venue = mk_Venue m, ar_Environment = EnvironmentLive,
      ar_Product = mk_Product m, ar_Settlement = mk_Settlement m,
      ar_NativeFamily = NativeMarketFamily (id_Venue (ins_Identity native)) (id_Product (ins_Identity native)) (mk_Settlement m)\<rparr>"

text \<open>streamMarket up to the open subscription.\<close>

definition stream_open ::
  "'d Decimals \<Rightarrow> ('d, 'x) Catalog \<Rightarrow> ('c \<Rightarrow> 'd AccountSocket) \<Rightarrow> 'c routeClient \<Rightarrow> 'c runtime \<Rightarrow> (goerror + AccountRoute) option" where
  "stream_open D catalog websocket client rt =
     (case client_socket websocket client of
        None \<Rightarrow> None
      | Some socket \<Rightarrow>
          Some (if \<not> sk_account socket then Inl (PlainError ''private account stream unsupported'')
                else (case MarketInstruments D catalog (rc_market client) of
                        [] \<Rightarrow> Inl (PlainError (''instrument catalog for '' @ Market_String (rc_market client) @ '' is empty''))
                      | instrument # instruments \<Rightarrow>
                          (let items = map (\<lambda>i. (gi_ID i, gi_native i)) (instrument # instruments);
                               route = account_route rt (rc_market client) (gi_native instrument)
                           in case Option.bind (sk_indexer socket) (\<lambda>index. index items) of
                                Some err \<Rightarrow> Inl err
                              | None \<Rightarrow>
                                  (case sk_watch_account socket route of
                                     Some err \<Rightarrow> Inl err
                                   | None \<Rightarrow> Inr route)))))"

definition setConnected :: "Market \<Rightarrow> bool \<Rightarrow> 'c runtime \<Rightarrow> 'c runtime" where
  "setConnected m up rt =
     (let changed = (rt_connected rt m \<noteq> up); rt1 = rt\<lparr>rt_connected := (rt_connected rt)(m := up)\<rparr>
      in if changed then publishStatus rt1 else rt1)"

abbreviation "SubscriptionActive \<equiv> ''active''"

text \<open>The loop of streamMarket: the state after the inputs, and what it returned if it did.\<close>

fun stream_loop ::
  "'d Decimals \<Rightarrow> 'c routeClient \<Rightarrow> 'd AccountEvent PumpInput list \<Rightarrow> 'c runtime \<Rightarrow> goerror option option \<times> 'c runtime" where
  "stream_loop D client [] rt = (None, rt)"
| "stream_loop D client (CtxDone # ins) rt = (Some None, rt)"
| "stream_loop D client (Tick # ins) rt = stream_loop D client ins rt"
| "stream_loop D client (Failure err # ins) rt =
     (if err \<noteq> None then (Some err, setConnected (rc_market client) False rt) else stream_loop D client ins rt)"
| "stream_loop D client (FailuresClosed # ins) rt = stream_loop D client ins rt"
| "stream_loop D client (Status st # ins) rt =
     (if st = SubscriptionActive
      then stream_loop D client ins (scheduleRefresh (rc_market client) (setConnected (rc_market client) True rt))
      else if st = SubscriptionClosed
      then (Some (Some (PlainError ''private stream closed'')), setConnected (rc_market client) False rt)
      else stream_loop D client ins (setConnected (rc_market client) False rt))"
| "stream_loop D client (StatusesClosed # ins) rt = stream_loop D client ins rt"
| "stream_loop D client (Event e now # ins) rt = stream_loop D client ins (handleEvent D client e rt)"
| "stream_loop D client (EventsClosed # ins) rt =
     (Some (Some (PlainError ''private stream ended'')), setConnected (rc_market client) False rt)"

section \<open>The account topic\<close>

text \<open>stream: attaching the topic and, when it returns, detaching it.\<close>

definition stream_attach :: "'c runtime \<Rightarrow> 'c runtime" where
  "stream_attach rt = rt\<lparr>rt_emit := True\<rparr>"

definition stream_detach :: "'c runtime \<Rightarrow> 'c runtime" where
  "stream_detach rt = rt\<lparr>rt_emit := False, rt_connected := (\<lambda>_. False)\<rparr>"

fun resync_loop ::
  "'d Decimals \<Rightarrow> ('d, 'x) Catalog \<Rightarrow> ('d, 'c) VenueReads \<Rightarrow> 'c routeClient list \<Rightarrow> 'c runtime \<Rightarrow> 'c runtime option" where
  "resync_loop D catalog reads [] rt = Some rt"
| "resync_loop D catalog reads (client # clients) rt =
     (case fetchBalances D reads client (snd (loadMarket D catalog reads client rt)) of
        None \<Rightarrow> None
      | Some (_, rt1) \<Rightarrow> resync_loop D catalog reads clients rt1)"

definition resync ::
  "'d Decimals \<Rightarrow> ('d, 'x) Catalog \<Rightarrow> ('d, 'c) VenueReads \<Rightarrow> 'c runtime \<Rightarrow> 'c runtime option" where
  "resync D catalog reads rt =
     map_option (\<lambda>rt. publishStatus (publishBalances (publishPositions rt)))
       (resync_loop D catalog reads (rt_clients rt) rt)"

text \<open>The pending markets when the refresh timer fires, in the order the map is iterated.\<close>

fun refresh_pending ::
  "'d Decimals \<Rightarrow> ('d, 'x) Catalog \<Rightarrow> ('d, 'c) VenueReads \<Rightarrow> Market list \<Rightarrow> 'c runtime \<Rightarrow> 'c runtime option" where
  "refresh_pending D catalog reads [] rt = Some rt"
| "refresh_pending D catalog reads (m # ms) rt =
     (case runtime_client rt m of
        None \<Rightarrow> refresh_pending D catalog reads ms rt
      | Some client \<Rightarrow>
          (case fetchBalances D reads client (snd (loadMarket D catalog reads client rt)) of
             None \<Rightarrow> None
           | Some (Inl err, rt1) \<Rightarrow> refresh_pending D catalog reads ms rt1
           | Some (Inr balances, rt1) \<Rightarrow> refresh_pending D catalog reads ms (publishBalances rt1)))"

text \<open>The select of stream: its local variables and one round of its loop.\<close>

record 'c streamState =
  ss_rt :: "'c runtime"
  ss_pending :: "Market list"
  ss_timer :: bool

datatype 'r StreamInput = StreamDone | StreamFailure goerror | RefreshAsked | TimerFired 'r | ResyncTick 'r

definition stream_round ::
  "'d Decimals \<Rightarrow> ('d, 'x) Catalog \<Rightarrow> ('d, 'c) VenueReads StreamInput \<Rightarrow> 'c streamState \<Rightarrow>
   (goerror option + 'c streamState) option" where
  "stream_round D catalog inp ss =
     (case inp of
        StreamDone \<Rightarrow> Some (Inl None)
      | StreamFailure err \<Rightarrow> Some (Inl (Some err))
      | RefreshAsked \<Rightarrow>
          (case rt_refresh (ss_rt ss) of
             [] \<Rightarrow> Some (Inr ss)
           | m # ms \<Rightarrow>
               Some (Inr (ss\<lparr>ss_rt := (ss_rt ss)\<lparr>rt_refresh := ms\<rparr>, ss_pending := List.insert m (ss_pending ss),
                             ss_timer := True\<rparr>)))
      | TimerFired reads \<Rightarrow>
          if \<not> ss_timer ss then Some (Inr ss)
          else map_option (\<lambda>rt. Inr (ss\<lparr>ss_rt := rt, ss_pending := [], ss_timer := False\<rparr>))
                 (refresh_pending D catalog reads (ss_pending ss) (ss_rt ss))
      | ResyncTick reads \<Rightarrow> map_option (\<lambda>rt. Inr (ss\<lparr>ss_rt := rt\<rparr>)) (resync D catalog reads (ss_rt ss)))"

section \<open>Rows as a map\<close>

text \<open>The reference: at most one row for an instrument and a slot.\<close>

type_synonym position_map = "InstrumentID \<Rightarrow> PositionSlot \<Rightarrow> AccountPosition option"

definition row_key :: "AccountPosition \<Rightarrow> InstrumentID \<times> PositionSlot" where
  "row_key p = (ap_Instrument p, ap_slot p)"

definition rows_map :: "AccountPosition list \<Rightarrow> position_map" where
  "rows_map rows iid slot = find (\<lambda>p. row_key p = (iid, slot)) rows"

definition rows_ok :: "AccountPosition list \<Rightarrow> bool" where
  "rows_ok rows \<longleftrightarrow> distinct (map row_key rows) \<and> sorted_wrt (\<lambda>a b. \<not> position_less b a) rows"

definition slots_distinct :: "'d PositionEvent \<Rightarrow> bool" where
  "slots_distinct event \<longleftrightarrow> distinct (map pn_PositionSlot (pe_Positions event))"

text \<open>
  What a position event means: the slots it names get the rows it brings (none for a closed
  position), a snapshot empties the other slots of its instrument, and nothing else changes.
\<close>

definition position_update :: "'d Decimals \<Rightarrow> InstrumentID \<times> 'd PositionEvent \<Rightarrow> position_map \<Rightarrow> position_map" where
  "position_update D change current iid slot =
     (case change of (changed, event) \<Rightarrow>
        if iid \<noteq> changed then current iid slot
        else (case find (\<lambda>native. pn_PositionSlot native = slot) (pe_Positions event) of
                Some native \<Rightarrow> projectPosition D iid native
              | None \<Rightarrow> if pe_Kind event = EventSnapshot then None else current iid slot))"

lemma position_order: "strict_weak position_less"
  by unfold_locales (auto simp: position_less_def split: if_splits)

lemma sorted_sortPositions: "sorted_wrt (\<lambda>a b. \<not> position_less b a) (sortPositions rows)"
  unfolding sortPositions_def by (rule strict_weak.sorted_slice_sort [OF position_order])

lemma find_distinct_key:
  assumes "distinct (map f xs)" "x \<in> set xs" "f x = k"
  shows "find (\<lambda>y. f y = k) xs = Some x"
  using assms by (induction xs) auto

lemma rows_map_Some_iff:
  assumes "distinct (map row_key rows)"
  shows "rows_map rows iid slot = Some p \<longleftrightarrow> p \<in> set rows \<and> row_key p = (iid, slot)"
  using find_distinct_key [OF assms] by (auto simp: rows_map_def find_Some_iff)

lemma projectPosition_key:
  "projectPosition D iid native = Some p \<Longrightarrow> row_key p = (iid, pn_PositionSlot native)"
  by (auto simp: projectPosition_def row_key_def split: if_splits)

lemma in_map_filter: "y \<in> set (List.map_filter f xs) \<longleftrightarrow> (\<exists>x\<in>set xs. f x = Some y)"
  by (induction xs) (auto simp: List.map_filter_simps split: option.splits)

lemma set_event_rows:
  "p \<in> set (event_rows D iid event) \<longleftrightarrow> (\<exists>native\<in>set (pe_Positions event). projectPosition D iid native = Some p)"
  by (simp add: event_rows_def in_map_filter)

lemma distinct_event_rows:
  assumes "slots_distinct event"
  shows "distinct (map row_key (event_rows D iid event))"
proof -
  have "distinct (map row_key (List.map_filter (projectPosition D iid) natives))"
    if "distinct (map pn_PositionSlot natives)" for natives
    using that
  proof (induction natives)
    case (Cons n ns)
    then show ?case
      by (auto simp: List.map_filter_simps in_map_filter split: option.splits)
        (metis image_eqI projectPosition_key snd_conv)
  qed (simp add: List.map_filter_simps)
  then show ?thesis using assms by (simp add: event_rows_def slots_distinct_def)
qed

lemma set_kept_rows:
  "p \<in> set (kept_rows iid event current) \<longleftrightarrow>
   p \<in> set current \<and> (ap_Instrument p \<noteq> iid \<or>
     (pe_Kind event \<noteq> EventSnapshot \<and> ap_slot p \<notin> pn_PositionSlot ` set (pe_Positions event)))"
  by (auto simp: kept_rows_def Let_def)

lemma distinct_kept_rows: "distinct (map row_key current) \<Longrightarrow> distinct (map row_key (kept_rows iid event current))"
  by (simp add: kept_rows_def Let_def distinct_map_filter)

lemma distinct_sortPositions: "distinct (map row_key (sortPositions rows)) \<longleftrightarrow> distinct (map row_key rows)"
  unfolding sortPositions_def
  by (metis distinct_count_atmost_1 mset_map mset_slice_sort set_map set_slice_sort)

lemma option_eqI: "(\<And>x. a = Some x \<longleftrightarrow> b = Some x) \<Longrightarrow> a = b"
  by (cases a; cases b) auto

lemma apply_rows:
  fixes D :: "'d Decimals"
  assumes ok: "rows_ok current" and ev: "slots_distinct event"
    and rows_def: "rows = sortPositions (kept_rows iid event current @ event_rows D iid event)"
  shows "rows_ok rows" and "rows_map rows = position_update D (iid, event) (rows_map current)"
proof -
  have cur: "distinct (map row_key current)" using ok by (simp add: rows_ok_def)
  have apart: "row_key p \<noteq> row_key q"
    if "p \<in> set (kept_rows iid event current)" "q \<in> set (event_rows D iid event)" for p q
    using that by (auto simp: set_kept_rows set_event_rows row_key_def dest!: projectPosition_key)
  have dis: "distinct (map row_key (kept_rows iid event current @ event_rows D iid event))"
    using apart distinct_kept_rows [OF cur] distinct_event_rows [OF ev] by (auto simp: image_iff) metis
  then show ok': "rows_ok rows"
    by (simp add: rows_def rows_ok_def distinct_sortPositions sorted_sortPositions)
  show "rows_map rows = position_update D (iid, event) (rows_map current)"
  proof (intro ext option_eqI)
    fix i slot p
    have mem: "rows_map rows i slot = Some p \<longleftrightarrow>
        (p \<in> set (kept_rows iid event current) \<or> p \<in> set (event_rows D iid event)) \<and> row_key p = (i, slot)"
      using ok' rows_map_Some_iff [of rows i slot p] by (auto simp: rows_ok_def rows_def sortPositions_def)
    have fnd: "find (\<lambda>n. pn_PositionSlot n = slot) (pe_Positions event) = Some n \<longleftrightarrow>
        n \<in> set (pe_Positions event) \<and> pn_PositionSlot n = slot" for n
      using find_distinct_key [OF ev [unfolded slots_distinct_def]] by (auto simp: find_Some_iff)
    have none: "find (\<lambda>n. pn_PositionSlot n = slot) (pe_Positions event) = None \<longleftrightarrow>
        slot \<notin> pn_PositionSlot ` set (pe_Positions event)"
      by (auto simp: find_None_iff)
    show "rows_map rows i slot = Some p \<longleftrightarrow> position_update D (iid, event) (rows_map current) i slot = Some p"
    proof (cases "i = iid")
      case False
      then show ?thesis
        unfolding mem position_update_def
        by (auto simp: set_kept_rows set_event_rows row_key_def rows_map_Some_iff [OF cur] dest!: projectPosition_key)
    next
      case True
      show ?thesis
      proof (cases "find (\<lambda>n. pn_PositionSlot n = slot) (pe_Positions event)")
        case None
        then have "slot \<notin> pn_PositionSlot ` set (pe_Positions event)" by (simp add: none)
        then show ?thesis
          unfolding mem position_update_def using True None
          by (auto simp: set_kept_rows set_event_rows row_key_def rows_map_Some_iff [OF cur] dest!: projectPosition_key)
      next
        case (Some n)
        then have n: "n \<in> set (pe_Positions event)" "pn_PositionSlot n = slot" using fnd by auto
        have "p \<in> set (event_rows D iid event) \<and> row_key p = (i, slot) \<longleftrightarrow> projectPosition D i n = Some p"
          using True n fnd Some projectPosition_key [of D iid _ p]
          by (auto simp: set_event_rows) (metis prod.inject)
        moreover have "\<not> (p \<in> set (kept_rows iid event current) \<and> row_key p = (i, slot))"
          using True n by (auto simp: set_kept_rows row_key_def)
        ultimately show ?thesis
          unfolding mem position_update_def using True Some by auto
      qed
    qed
  qed
qed

section \<open>Balances as a map\<close>

definition balances_map :: "AccountBalance list \<Rightarrow> (string \<rightharpoonup> AccountBalance)" where
  "balances_map rows asset = find (\<lambda>b. ab_Asset b = asset) rows"

definition balances_ok :: "AccountBalance list \<Rightarrow> bool" where
  "balances_ok rows \<longleftrightarrow> sorted_wrt (<) (map ab_Asset rows)"

text \<open>What a balance event means: the last item for an asset decides, an empty balance is dropped.\<close>

definition balance_update ::
  "'d Decimals \<Rightarrow> Market \<Rightarrow> 'd BalanceEvent \<Rightarrow> (string \<rightharpoonup> AccountBalance) \<Rightarrow> (string \<rightharpoonup> AccountBalance)" where
  "balance_update D m event current asset =
     (case find (\<lambda>item. ba_Asset item = asset) (rev (be_Balances event)) of
        Some item \<Rightarrow> if zero_balance D item then None else Some (balance_row D m item)
      | None \<Rightarrow> current asset)"

definition keyed :: "(string, AccountBalance) gomap \<Rightarrow> bool" where
  "keyed m \<longleftrightarrow> gomap_ok m \<and> (\<forall>k b. map_of m k = Some b \<longrightarrow> ab_Asset b = k)"

lemma keyed_update: "keyed m \<Longrightarrow> keyed (AList.update (ab_Asset b) b m)"
  by (simp add: keyed_def)

lemma keyed_delete: "keyed m \<Longrightarrow> keyed (AList.delete k m)"
  by (simp add: keyed_def)

lemma keyed_by_asset: "keyed m \<Longrightarrow> keyed (foldl (\<lambda>m b. AList.update (ab_Asset b) b m) m rows)"
  by (induction rows arbitrary: m) (simp_all add: keyed_update)

lemma map_of_by_asset:
  "distinct (map ab_Asset rows) \<Longrightarrow>
   map_of (foldl (\<lambda>m b. AList.update (ab_Asset b) b m) m rows) k =
     (case find (\<lambda>b. ab_Asset b = k) rows of Some b \<Rightarrow> Some b | None \<Rightarrow> map_of m k)"
proof (induction rows arbitrary: m)
  case (Cons b rows)
  have "ab_Asset b = k \<Longrightarrow> find (\<lambda>b. ab_Asset b = k) rows = None"
    using Cons.prems by (auto simp: find_None_iff) (metis imageI)
  with Cons show ?case by (auto split: option.splits)
qed simp

lemma keyed_change_assets: "keyed m \<Longrightarrow> keyed (change_assets D mk items m)"
proof (induction items arbitrary: m)
  case (Cons item items)
  have "keyed (AList.update (ba_Asset item) (balance_row D mk item) m)"
    using keyed_update [OF Cons.prems, of "balance_row D mk item"] by (simp add: balance_row_def)
  with Cons show ?case by (simp add: keyed_delete)
qed simp

lemma map_of_change_assets:
  "map_of (change_assets D mk items m) k =
     (case find (\<lambda>item. ba_Asset item = k) (rev items) of
        Some item \<Rightarrow> if zero_balance D item then None else Some (balance_row D mk item)
      | None \<Rightarrow> map_of m k)"
proof (induction items arbitrary: m)
  case (Cons item items)
  have fa: "find P (xs @ ys) = (case find P xs of Some x \<Rightarrow> Some x | None \<Rightarrow> find P ys)" for P and xs ys :: "'a Balance list"
    by (induction xs) auto
  show ?case by (auto simp: Cons.IH fa split: option.splits)
qed simp

lemma asset_order: "strict_weak asset_less"
  unfolding asset_less_def by (rule strict_weak_key)

lemma sorted_assets:
  assumes "distinct (map ab_Asset rows)"
  shows "sorted_wrt (<) (map ab_Asset (slice_sort asset_less rows))"
proof -
  have "sorted (map ab_Asset (slice_sort asset_less rows))"
    using strict_weak.sorted_slice_sort [OF asset_order, of rows]
    by (simp add: asset_less_def not_less sorted_map)
  moreover have "distinct (map ab_Asset (slice_sort asset_less rows))"
    using assms by (metis distinct_count_atmost_1 mset_map mset_slice_sort set_map set_slice_sort)
  ultimately show ?thesis by (simp add: strict_sorted_iff)
qed

lemma balances_map_Some_iff:
  assumes "distinct (map ab_Asset rows)"
  shows "balances_map rows asset = Some b \<longleftrightarrow> b \<in> set rows \<and> ab_Asset b = asset"
  using find_distinct_key [OF assms] by (auto simp: balances_map_def find_Some_iff)

lemma keyed_values:
  assumes "keyed m"
  shows "distinct (map ab_Asset (map snd m))" and "b \<in> set (map snd m) \<longleftrightarrow> map_of m (ab_Asset b) = Some b"
proof -
  have eq: "map ab_Asset (map snd m) = map fst m"
    using assms by (auto simp: keyed_def gomap_in_set)
  show "distinct (map ab_Asset (map snd m))"
    unfolding eq using assms by (simp add: keyed_def gomap_ok_def)
  show "b \<in> set (map snd m) \<longleftrightarrow> map_of m (ab_Asset b) = Some b"
  proof
    assume "b \<in> set (map snd m)"
    then obtain k where "(k, b) \<in> set m" by auto
    then have "map_of m k = Some b" using assms by (simp add: keyed_def gomap_in_set)
    then show "map_of m (ab_Asset b) = Some b" using assms by (auto simp: keyed_def)
  next
    assume "map_of m (ab_Asset b) = Some b"
    then show "b \<in> set (map snd m)" by (force dest: map_of_SomeD)
  qed
qed

lemma apply_balances:
  assumes "balances_ok current"
    and "rows = slice_sort asset_less (map snd (change_assets D m (be_Balances event) (by_asset current)))"
  shows "balances_ok rows" and "balances_map rows = balance_update D m event (balances_map current)"
proof -
  let ?m = "change_assets D m (be_Balances event) (by_asset current)"
  have cur: "distinct (map ab_Asset current)" using assms(1) by (simp add: balances_ok_def strict_sorted_iff)
  have key: "keyed ?m"
    unfolding by_asset_def by (intro keyed_change_assets keyed_by_asset) (simp add: keyed_def)
  show ok: "balances_ok rows"
    using sorted_assets [OF keyed_values(1) [OF key]] by (simp add: balances_ok_def assms(2))
  show "balances_map rows = balance_update D m event (balances_map current)"
  proof (intro ext option_eqI)
    fix asset b
    have "balances_map rows asset = Some b \<longleftrightarrow> b \<in> set (map snd ?m) \<and> ab_Asset b = asset"
      using ok balances_map_Some_iff [of rows asset b] by (simp add: balances_ok_def strict_sorted_iff assms(2))
    also have "\<dots> \<longleftrightarrow> map_of ?m asset = Some b"
      using keyed_values(2) [OF key, of b] key by (auto simp: keyed_def)
    also have "\<dots> \<longleftrightarrow> balance_update D m event (balances_map current) asset = Some b"
      by (simp add: map_of_change_assets balance_update_def by_asset_def map_of_by_asset [OF cur] balances_map_def
            split: option.split)
    finally show "balances_map rows asset = Some b \<longleftrightarrow>
        balance_update D m event (balances_map current) asset = Some b" .
  qed
qed

section \<open>What the topic shows\<close>

definition shown :: "string \<Rightarrow> 'c runtime \<Rightarrow> AccountData option" where
  "shown channel rt = map_option (\<lambda>e. am_Data (fst e)) (find (\<lambda>e. am_Channel (fst e) = channel) (rev (rt_out rt)))"

definition topic_current :: "'c runtime \<Rightarrow> bool" where
  "topic_current rt \<longleftrightarrow>
     (\<forall>d. shown ChannelPositions rt = Some d \<longrightarrow> d = PositionsData (positionList rt)) \<and>
     (\<forall>d. shown ChannelBalances rt = Some d \<longrightarrow>
        d = BalancesData (concat (map (\<lambda>client. rt_balances rt (rc_market client)) (rt_clients rt))))"

lemma shown_send [simp]:
  "shown c (send rt c' payload retained) = (if rt_emit rt \<and> c = c' then Some payload else shown c rt)"
  by (simp add: shown_def send_def)

lemma send_sel [simp]:
  "rt_positions (send rt c payload r) = rt_positions rt" "rt_balances (send rt c payload r) = rt_balances rt"
  "rt_clients (send rt c payload r) = rt_clients rt" "rt_emit (send rt c payload r) = rt_emit rt"
  "rt_loaded (send rt c payload r) = rt_loaded rt" "rt_connected (send rt c payload r) = rt_connected rt"
  "rt_refresh (send rt c payload r) = rt_refresh rt" "rt_id (send rt c payload r) = rt_id rt"
  "rt_venue (send rt c payload r) = rt_venue rt"
  by (simp_all add: send_def)

lemma positionList_send [simp]: "positionList (send rt c payload r) = positionList rt"
  by (simp add: positionList_def)

lemma scheduleRefresh_sel [simp]:
  "rt_positions (scheduleRefresh m rt) = rt_positions rt" "rt_balances (scheduleRefresh m rt) = rt_balances rt"
  "rt_clients (scheduleRefresh m rt) = rt_clients rt" "rt_emit (scheduleRefresh m rt) = rt_emit rt"
  "rt_out (scheduleRefresh m rt) = rt_out rt"
  by (simp_all add: scheduleRefresh_def)

lemma setConnected_sel [simp]:
  "rt_positions (setConnected m up rt) = rt_positions rt" "rt_balances (setConnected m up rt) = rt_balances rt"
  "rt_clients (setConnected m up rt) = rt_clients rt" "rt_emit (setConnected m up rt) = rt_emit rt"
  by (simp_all add: setConnected_def publishStatus_def Let_def)

lemma topic_current_cong:
  assumes "rt_positions rt' = rt_positions rt" "rt_balances rt' = rt_balances rt" "rt_clients rt' = rt_clients rt"
    and "shown ChannelPositions rt' = shown ChannelPositions rt" "shown ChannelBalances rt' = shown ChannelBalances rt"
  shows "topic_current rt' \<longleftrightarrow> topic_current rt"
  using assms by (simp add: topic_current_def positionList_def)

section \<open>The private stream refines the maps\<close>

text \<open>The position and the balance changes an account event carries.\<close>

definition position_change :: "'d AccountEvent \<Rightarrow> (InstrumentID \<times> 'd PositionEvent) list" where
  "position_change event =
     (case ae_Position event of
        Some position \<Rightarrow> if ae_Kind event = AccountEventPosition then [(ae_InstrumentID event, position)] else []
      | None \<Rightarrow> [])"

definition balance_change :: "'d AccountEvent \<Rightarrow> 'd BalanceEvent list" where
  "balance_change event =
     (case ae_Balance event of
        Some balance \<Rightarrow> if ae_Kind event = AccountEventBalance then [balance] else []
      | None \<Rightarrow> [])"

definition changes_ok :: "'d AccountEvent \<Rightarrow> bool" where
  "changes_ok event \<longleftrightarrow> (\<forall>(iid, position) \<in> set (position_change event). slots_distinct position)"

definition snapshot_ok :: "Market \<Rightarrow> 'c runtime \<Rightarrow> bool" where
  "snapshot_ok m rt \<longleftrightarrow> rows_ok (rt_positions rt m) \<and> balances_ok (rt_balances rt m) \<and> (rt_emit rt \<longrightarrow> topic_current rt)"

lemma applyPositionEvent_snapshot:
  assumes "snapshot_ok m rt" "slots_distinct event"
  shows "snapshot_ok m (applyPositionEvent D m iid event rt)"
    and "rows_map (rt_positions (applyPositionEvent D m iid event rt) m) =
      position_update D (iid, event) (rows_map (rt_positions rt m))"
  using assms apply_rows [OF _ assms(2) refl, of "rt_positions rt m"]
  by (auto simp: snapshot_ok_def applyPositionEvent_def publishPositions_def topic_current_def positionList_def
      shown_def [of _ "rt\<lparr>rt_positions := _, rt_loaded := _\<rparr>"] shown_def [of _ rt])

lemma applyPositionEvent_sel [simp]:
  "rt_balances (applyPositionEvent D m iid event rt) = rt_balances rt"
  "rt_clients (applyPositionEvent D m iid event rt) = rt_clients rt"
  "rt_emit (applyPositionEvent D m iid event rt) = rt_emit rt"
  "m' \<noteq> m \<Longrightarrow> rt_positions (applyPositionEvent D m iid event rt) m' = rt_positions rt m'"
  by (simp_all add: applyPositionEvent_def publishPositions_def)

lemma applyBalanceEvent_snapshot:
  assumes "snapshot_ok m rt"
  shows "snapshot_ok m (applyBalanceEvent D m event rt)"
    and "balances_map (rt_balances (applyBalanceEvent D m event rt) m) =
      balance_update D m event (balances_map (rt_balances rt m))"
  using assms apply_balances [OF _ refl, of "rt_balances rt m"]
  by (auto simp: snapshot_ok_def applyBalanceEvent_def publishBalances_def topic_current_def positionList_def
      shown_def [of _ "rt\<lparr>rt_balances := _\<rparr>"] shown_def [of _ rt])

lemma applyBalanceEvent_sel [simp]:
  "rt_positions (applyBalanceEvent D m event rt) = rt_positions rt"
  "rt_clients (applyBalanceEvent D m event rt) = rt_clients rt"
  "rt_emit (applyBalanceEvent D m event rt) = rt_emit rt"
  "m' \<noteq> m \<Longrightarrow> rt_balances (applyBalanceEvent D m event rt) m' = rt_balances rt m'"
  by (simp_all add: applyBalanceEvent_def publishBalances_def)

lemma snapshot_ok_send:
  "c \<noteq> ChannelPositions \<Longrightarrow> c \<noteq> ChannelBalances \<Longrightarrow> snapshot_ok m (send rt c payload r) \<longleftrightarrow> snapshot_ok m rt"
  by (simp add: snapshot_ok_def topic_current_def)

lemma snapshot_ok_scheduleRefresh [simp]: "snapshot_ok m (scheduleRefresh m' rt) \<longleftrightarrow> snapshot_ok m rt"
  by (simp add: snapshot_ok_def topic_current_def positionList_def shown_def)

lemma snapshot_ok_setConnected [simp]: "snapshot_ok m (setConnected m' up rt) \<longleftrightarrow> snapshot_ok m rt"
proof -
  have "snapshot_ok m (rt\<lparr>rt_connected := f\<rparr>) \<longleftrightarrow> snapshot_ok m rt" for f
    by (simp add: snapshot_ok_def topic_current_def positionList_def shown_def)
  then show ?thesis
    by (simp add: setConnected_def publishStatus_def snapshot_ok_send Let_def)
qed

abbreviation apply_positions ::
  "'d Decimals \<Rightarrow> position_map \<Rightarrow> (InstrumentID \<times> 'd PositionEvent) list \<Rightarrow> position_map" where
  "apply_positions D \<equiv> foldl (\<lambda>current change. position_update D change current)"

abbreviation apply_balance_events ::
  "'d Decimals \<Rightarrow> Market \<Rightarrow> (string \<rightharpoonup> AccountBalance) \<Rightarrow> 'd BalanceEvent list \<Rightarrow> (string \<rightharpoonup> AccountBalance)" where
  "apply_balance_events D m \<equiv> foldl (\<lambda>current event. balance_update D m event current)"

definition same_elsewhere :: "Market \<Rightarrow> 'c runtime \<Rightarrow> 'c runtime \<Rightarrow> bool" where
  "same_elsewhere m rt rt' \<longleftrightarrow>
     (\<forall>m'. m' \<noteq> m \<longrightarrow> rt_positions rt' m' = rt_positions rt m' \<and> rt_balances rt' m' = rt_balances rt m')"

lemma handleEvent_snapshot:
  assumes "snapshot_ok (rc_market client) rt" "changes_ok e"
  shows "snapshot_ok (rc_market client) (handleEvent D client e rt)"
    and "rows_map (rt_positions (handleEvent D client e rt) (rc_market client)) =
      apply_positions D (rows_map (rt_positions rt (rc_market client))) (position_change e)"
    and "balances_map (rt_balances (handleEvent D client e rt) (rc_market client)) =
      apply_balance_events D (rc_market client) (balances_map (rt_balances rt (rc_market client))) (balance_change e)"
    and "same_elsewhere (rc_market client) rt (handleEvent D client e rt)"
    and "rt_emit (handleEvent D client e rt) = rt_emit rt"
proof -
  have pos: "slots_distinct position"
    if "ae_Position e = Some position" "ae_Kind e = AccountEventPosition" for position
    using assms(2) that by (simp add: changes_ok_def position_change_def)
  note defs = handleEvent_def position_change_def balance_change_def Let_def
  show "snapshot_ok (rc_market client) (handleEvent D client e rt)"
    using assms(1) pos
    by (simp add: defs snapshot_ok_send applyPositionEvent_snapshot applyBalanceEvent_snapshot split: option.split)
  show "rows_map (rt_positions (handleEvent D client e rt) (rc_market client)) =
      apply_positions D (rows_map (rt_positions rt (rc_market client))) (position_change e)"
    using assms(1) pos by (simp add: defs applyPositionEvent_snapshot split: option.split)
  show "balances_map (rt_balances (handleEvent D client e rt) (rc_market client)) =
      apply_balance_events D (rc_market client) (balances_map (rt_balances rt (rc_market client))) (balance_change e)"
    using assms(1) by (simp add: defs applyBalanceEvent_snapshot split: option.split)
  show "same_elsewhere (rc_market client) rt (handleEvent D client e rt)"
    by (simp add: defs same_elsewhere_def split: option.split)
  show "rt_emit (handleEvent D client e rt) = rt_emit rt"
    by (simp add: defs split: option.split)
qed

lemma stream_loop_snapshot:
  assumes "stream_loop D client ins rt = (None, rt')" "snapshot_ok (rc_market client) rt"
    and "list_all changes_ok (events_of ins)"
  shows "snapshot_ok (rc_market client) rt' \<and>
    rows_map (rt_positions rt' (rc_market client)) =
      apply_positions D (rows_map (rt_positions rt (rc_market client))) (concat (map position_change (events_of ins))) \<and>
    balances_map (rt_balances rt' (rc_market client)) =
      apply_balance_events D (rc_market client) (balances_map (rt_balances rt (rc_market client)))
        (concat (map balance_change (events_of ins))) \<and>
    same_elsewhere (rc_market client) rt rt' \<and> rt_emit rt' = rt_emit rt"
  using assms
proof (induction D client ins rt rule: stream_loop.induct)
  case (8 D client e now ins rt)
  then show ?case
    using handleEvent_snapshot [of client rt e D] by (simp add: events_of_def same_elsewhere_def)
qed (auto simp: events_of_def same_elsewhere_def split: if_splits)

section \<open>No nil client\<close>

lemma client_orders_socket: "client_orders client \<noteq> None \<Longrightarrow> client_socket f client \<noteq> None"
  by (simp add: client_orders_def client_socket_def split: option.splits)

lemma fetchBalances_defined: "client_orders client \<noteq> None \<Longrightarrow> fetchBalances D reads client rt \<noteq> None"
  by (auto simp: fetchBalances_def)

lemma resync_loop_defined:
  "list_all serves clients \<Longrightarrow> resync_loop D catalog reads clients rt \<noteq> None"
proof (induction clients arbitrary: rt)
  case (Cons client clients)
  then have "fetchBalances D reads client (snd (loadMarket D catalog reads client rt)) \<noteq> None"
    by (simp add: fetchBalances_defined serves_def)
  then show ?case using Cons by (auto split: option.splits)
qed simp

lemma balances_loop_defined:
  "list_all serves clients \<Longrightarrow> balances_loop D reads clients result errs rt \<noteq> None"
proof (induction clients arbitrary: result errs rt)
  case (Cons client clients)
  then have "fetchBalances D reads client rt \<noteq> None" by (simp add: fetchBalances_defined serves_def)
  then show ?case using Cons by (auto split: option.splits sum.splits)
qed simp

lemma runtime_client_of:
  assumes "m \<in> rc_market ` set (rt_clients rt)"
  shows "\<exists>client. runtime_client rt m = Some client \<and> rc_market client = m"
  using assms find_Some_iff [of "\<lambda>client. rc_market client = m" "rt_clients rt"]
  by (cases "runtime_client rt m") (auto simp: runtime_client_def find_None_iff)

section \<open>Properties\<close>


abbreviation sample_client :: "unit routeClient" where
  "sample_client \<equiv> \<lparr>rc_market = sample_market, rc_spot = None, rc_perp = Some ()\<rparr>"

definition sample_position :: "PositionSlot \<Rightarrow> int \<Rightarrow> dec Position" where
  "sample_position slot q =
     \<lparr>pn_NativeSymbol = ''BTCUSDT'', pn_NativeID = [], pn_PositionSlot = slot, pn_Side = SideBuy, pn_Quantity = Dec q 0,
      pn_EntryPrice = Dec 100 0, pn_MarkPrice = Dec 101 0, pn_UnrealizedPnL = Dec 1 0,
      pn_LiquidationPrice = \<lparr>od_Value = Dec 0 0, od_Valid = False\<rparr>, pn_Leverage = \<lparr>od_Value = Dec 5 0, od_Valid = True\<rparr>,
      pn_MarginUsed = \<lparr>od_Value = Dec 0 0, od_Valid = False\<rparr>\<rparr>"

definition sample_position_event :: "string \<Rightarrow> dec Position list \<Rightarrow> dec AccountEvent" where
  "sample_position_event kind positions =
     \<lparr>ae_Kind = AccountEventPosition,
      ae_Route = \<lparr>ar_AccountID = ''a'', ar_RouteID = ''r'', ar_Venue = VenueBinance, ar_Environment = EnvironmentLive,
        ar_Product = ProductPerp, ar_Settlement = ''USDT'', ar_NativeFamily = ''perpetual''\<rparr>,
      ae_InstrumentID = sample_iid, ae_ObservedAt = 1, ae_Order = None, ae_Fill = None, ae_Balance = None,
      ae_Position = Some \<lparr>pe_Kind = kind, pe_Positions = positions, pe_Time = 1\<rparr>\<rparr>"

definition sample_stream :: "dec AccountEvent PumpInput list" where
  "sample_stream =
     [Status SubscriptionActive,
      Event (sample_position_event EventSnapshot [sample_position PositionSlotLong 2, sample_position PositionSlotShort (-3)]) 0,
      Event (sample_position_event EventDelta [sample_position PositionSlotLong 0]) 0]"

definition sample_runtime :: "unit runtime" where
  "sample_runtime = stream_attach (newRuntime ''a'' VenueBinance [sample_client])"


text \<open>
  Publications are not atomic: the list is built under the mutex and emitted after it is released,
  and the streams of the markets, the refresh loop and the callers of Positions publish concurrently.
  A run in which the first of two publications is delivered last leaves a topic that shows the
  older positions.
\<close>

inductive publish_step ::
  "'c runtime \<times> AccountPosition list list \<Rightarrow> 'c runtime \<times> AccountPosition list list \<Rightarrow> bool" where
  publish_change: "publish_step (rt, flight) (rt\<lparr>rt_positions := (rt_positions rt)(m := rows)\<rparr>, flight)"
| publish_build: "rt_emit rt \<Longrightarrow> publish_step (rt, flight) (rt, flight @ [positionList rt])"
| publish_emit: "publish_step (rt, before @ l # after) (send rt ChannelPositions (PositionsData l) True, before @ after)"

lemma overtaken_publication_is_stale:
  fixes rt :: "'c runtime"
  assumes "rt_emit rt" "rt_clients rt = [client]" "rows \<noteq> rows'"
  shows "\<exists>rt'. publish_step\<^sup>*\<^sup>* (rt, []) (rt', []) \<and> positionList rt' = rows' \<and>
    shown ChannelPositions rt' = Some (PositionsData rows)"
proof -
  let ?m = "rc_market client"
  define rt1 where "rt1 = rt\<lparr>rt_positions := (rt_positions rt)(?m := rows)\<rparr>"
  define rt2 where "rt2 = rt1\<lparr>rt_positions := (rt_positions rt1)(?m := rows')\<rparr>"
  define rt3 where "rt3 = send rt2 ChannelPositions (PositionsData rows') True"
  have lists: "positionList rt1 = rows" "positionList rt2 = rows'" "rt_emit rt1" "rt_emit rt2"
    using assms by (simp_all add: rt1_def rt2_def positionList_def)
  have s1: "publish_step (rt, []) (rt1, [])" unfolding rt1_def by (rule publish_change)
  have s2: "publish_step (rt1, []) (rt1, [rows])" using publish_build [OF lists(3), of "[]"] by (simp add: lists)
  have s3: "publish_step (rt1, [rows]) (rt2, [rows])" unfolding rt2_def by (rule publish_change)
  have s4: "publish_step (rt2, [rows]) (rt2, [rows, rows'])" using publish_build [OF lists(4), of "[rows]"] by (simp add: lists)
  have s5: "publish_step (rt2, [rows, rows']) (rt3, [rows])"
    using publish_emit [of rt2 "[rows]" rows' "[]"] by (simp add: rt3_def)
  have s6: "publish_step (rt3, [rows]) (send rt3 ChannelPositions (PositionsData rows) True, [])"
    using publish_emit [of rt3 "[]" rows "[]"] by simp
  have "publish_step\<^sup>*\<^sup>* (rt, []) (send rt3 ChannelPositions (PositionsData rows) True, [])"
    using s1 s2 s3 s4 s5 s6 by (meson converse_rtranclp_into_rtranclp rtranclp.rtrancl_refl)
  then show ?thesis
    using lists by (auto simp: rt3_def)
qed

text \<open>
  C23: An account serves every market of its venue. Clients built from a decoded credential bundle are
  one for each served market of the venue, in the order of the markets, each with the client of the
  market's product and no other; every instrument of the venue is routed to the client of its market;
  and no snapshot read of the account dereferences a nil client, whatever the venue answers.
\<close>

theorem account_serves_its_markets:
  fixes D :: "'d Decimals"
  assumes "registry_Decode parse defaultAuthKinds venue payload = Inr decoded"
    and "buildClients digest New iid decoded = Inr clients"
  shows "map rc_market clients = MarketsOf venue \<and>
    (\<forall>client\<in>set clients. (rc_perp client \<noteq> None \<longleftrightarrow> mk_Product (rc_market client) = ProductPerp) \<and>
       (rc_spot client \<noteq> None \<longleftrightarrow> mk_Product (rc_market client) = ProductSpot)) \<and>
    (\<forall>(instrument :: 'd GatewayInstrument) m. MarketOf (gi_native instrument) = Some m \<and> mk_Venue m = venue \<longrightarrow>
       (\<exists>client. clientFor (newRuntime iid venue clients) instrument = Inr client \<and> rc_market client = m)) \<and>
    resync D catalog reads (newRuntime iid venue clients) \<noteq> None \<and>
    runtime_Balances D reads (newRuntime iid venue clients) \<noteq> None"
proof -
  note dec = registry_Decode_Inr [OF assms(1)]
  have built: "map rc_market clients = MarketsOf venue" "list_all serves clients"
    using buildClients_serves [OF assms(2)] dec by simp_all
  have rt: "rt_clients (newRuntime iid venue clients) = clients" "rt_venue (newRuntime iid venue clients) = venue"
    by (simp_all add: newRuntime_def)
  have route: "\<exists>client. clientFor (newRuntime iid venue clients) instrument = Inr client \<and> rc_market client = m"
    if "MarketOf (gi_native instrument) = Some m" "mk_Venue m = venue" for instrument :: "'d GatewayInstrument" and m
  proof -
    have "m \<in> set (MarketsOf venue)"
      using that by (auto simp: MarketsOf_def MarketOf_def find_Some_iff)
    then have "m \<in> rc_market ` set clients" using built(1) by (metis set_map)
    then show ?thesis
      using runtime_client_of [of m "newRuntime iid venue clients"] that by (auto simp: clientFor_def rt)
  qed
  have "resync D catalog reads (newRuntime iid venue clients) \<noteq> None"
    using resync_loop_defined [OF built(2)] by (simp add: resync_def rt)
  moreover have "runtime_Balances D reads (newRuntime iid venue clients) \<noteq> None"
    using balances_loop_defined [OF built(2)] by (auto simp: runtime_Balances_def rt split: option.splits)
  moreover have "\<forall>client\<in>set clients. (rc_perp client \<noteq> None \<longleftrightarrow> mk_Product (rc_market client) = ProductPerp) \<and>
       (rc_spot client \<noteq> None \<longleftrightarrow> mk_Product (rc_market client) = ProductSpot)"
    using built(2) by (auto simp: serves_def list_all_iff)
  ultimately show ?thesis using built(1) route by blast
qed

definition sample_bundle :: json where
  "sample_bundle =
     JObject [(''schemaVersion'', JNumber ''1''), (''venue'', JString ''binance''), (''authKind'', JString AuthAPIKeySecret),
       (''metadata'', JObject []), (''secrets'', JObject [(''apiKey'', JString ''k''), (''apiSecret'', JString ''s'')])]"

lemma sample_bundle_decoded:
  "registry_Decode (\<lambda>_. Some sample_bundle) defaultAuthKinds ''binance'' ''{}'' =
     Inr \<lparr>dd_Venue = ''binance'', dd_AuthKind = AuthAPIKeySecret, dd_Credentials = APIKeySecret ''k'' ''s''\<rparr>"
proof -
  have name: "ToLower (TrimSpace ''binance'') = ''binance''"
    by (simp add: TrimSpace_printable printable_code lower_char_def)
  have num: "ParseInt 64 ''1'' = Some 1"
    by (simp add: ParseInt_def is_digit_def digits_val_def digit_val_def)
  have shape: "scanJSONValue sample_bundle"
    by (simp add: sample_bundle_def)
  have envelope: "decodeStrict BundleV1 sample_bundle = Some [''schemaVersion'' \<mapsto> JNumber ''1'', ''venue'' \<mapsto> JString ''binance'',
      ''authKind'' \<mapsto> JString AuthAPIKeySecret, ''metadata'' \<mapsto> JObject [],
      ''secrets'' \<mapsto> JObject [(''apiKey'', JString ''k''), (''apiSecret'', JString ''s'')]]"
    by (simp add: decodeStrict_def sample_bundle_def BundleV1_def field_named_def num)
  have creds: "decodeCredentials AuthAPIKeySecret (Some (JObject []))
      (Some (JObject [(''apiKey'', JString ''k''), (''apiSecret'', JString ''s'')])) = Inr (APIKeySecret ''k'' ''s'')"
    by (simp add: decodeCredentials_def decodeNested_def decodeStrict_def field_named_def text_of_def)
  show ?thesis
    by (simp add: registry_Decode_def shape name num envelope creds defaultAuthKinds_def text_of_def int_of_def)
qed

theorem account_serves_its_markets_witness:
  "\<exists>clients :: Config routeClient list.
     buildClients (\<lambda>s. s) (\<lambda>config options. Inr config) ''acc'' (\<lparr>dd_Venue = ''binance'', dd_AuthKind = AuthAPIKeySecret,
       dd_Credentials = APIKeySecret ''k'' ''s''\<rparr>) = Inr clients \<and>
     map rc_market clients = [market VenueBinance ProductPerp ''USDT'', market VenueBinance ProductSpot []]"
proof -
  have "buildClients (\<lambda>s. s) (\<lambda>config options. Inr config :: goerror + Config) ''acc'' \<lparr>dd_Venue = ''binance'',
      dd_AuthKind = AuthAPIKeySecret, dd_Credentials = APIKeySecret ''k'' ''s''\<rparr> =
      Inr [\<lparr>rc_market = market VenueBinance ProductPerp ''USDT'', rc_spot = None, rc_perp = Some (BinanceUSDPerpConfig ''k'' ''s'')\<rparr>,
           \<lparr>rc_market = market VenueBinance ProductSpot [], rc_spot = Some (BinanceSpotConfig ''k'' ''s''), rc_perp = None\<rparr>]"
    by code_simp
  with account_serves_its_markets [OF sample_bundle_decoded this] show ?thesis
    by (simp add: MarketsOf_def Markets_def market_def)
qed

end
