(* ===== verification/Account_Orders.thy ===== *)
theory Account_Orders
  imports Account_Runtime Http_Errors
begin

text \<open>
  Order commands of an account (gateway/account/orders.go): the translation of an order request into
  the venue-neutral one, the placement and the classification of its outcome, exact lookup,
  cancellation, order and fill lists, and leverage. What the venue client answers is an argument.
  The outer option of a result is a call on a nil client.
\<close>

section \<open>Requests and results\<close>

abbreviation ErrAccountUnsupported :: goerror where
  "ErrAccountUnsupported \<equiv> SentinelError ''account.ErrUnsupported'' ''unsupported''"

record PlaceRequest =
  pq_Instrument :: InstrumentID
  pq_Side :: string
  pq_Type :: string
  pq_Quantity :: string
  pq_Price :: string
  pq_TimeInForce :: string
  pq_ReduceOnly :: bool
  pq_ClientOrderID :: string

abbreviation "OutcomeAccepted \<equiv> ''accepted''"
abbreviation "OutcomeRejected \<equiv> ''rejected''"
abbreviation "OutcomeUnknown \<equiv> ''unknown''"

text \<open>No category is None.\<close>

record PlaceResult =
  ps_Status :: string
  ps_Order :: "AccountOrder option"
  ps_Category :: "Category option"
  ps_VenueCode :: string
  ps_VenueMessage :: string
  ps_Message :: string

definition no_result :: PlaceResult where
  "no_result = \<lparr>ps_Status = [], ps_Order = None, ps_Category = None, ps_VenueCode = [], ps_VenueMessage = [], ps_Message = []\<rparr>"

abbreviation maxClientOrderID :: nat where "maxClientOrderID \<equiv> 2 ^ 48 - 1"

definition safeMessage :: "goerror \<Rightarrow> string" where
  "safeMessage err =
     (case as_exchange err of
        Some (kind, details) \<Rightarrow> if ed_SafeMessage details \<noteq> [] then ed_SafeMessage details else kind_string kind
      | None \<Rightarrow> ''request failed'')"

text \<open>The switch on the type of the order: its type, limit price and limit policy.\<close>

definition native_type ::
  "'d Decimals \<Rightarrow> PlaceRequest \<Rightarrow> goerror + (OrderType \<times> 'd \<times> LimitPolicy)" where
  "native_type D request =
     (if pq_Type request = ''market'' then
        (if pq_Price request \<noteq> [] then Inl (invalid ''market orders take no price'')
         else Inr (OrderTypeMarket, DZero D, []))
      else if pq_Type request = ''limit'' then
        (case NewFromString D (pq_Price request) of
           None \<Rightarrow> Inl (invalid ''limit orders need a positive price'')
         | Some price \<Rightarrow>
             if \<not> IsPositive D price then Inl (invalid ''limit orders need a positive price'')
             else if pq_TimeInForce request = [] \<or> pq_TimeInForce request = ''gtc''
             then Inr (OrderTypeLimit, price, LimitPolicyResting)
             else if pq_TimeInForce request = ''ioc'' then Inr (OrderTypeLimit, price, LimitPolicyIOC)
             else if pq_TimeInForce request = ''post_only'' then Inr (OrderTypeLimit, price, LimitPolicyPostOnly)
             else Inl (invalid ''tif must be gtc, ioc or post_only''))
      else Inl (invalid ''type must be market or limit''))"

definition native :: "'d Decimals \<Rightarrow> 'd GatewayInstrument \<Rightarrow> PlaceRequest \<Rightarrow> goerror + 'd PlaceOrderRequest" where
  "native D instrument request =
     (if (case ParseUint 64 (pq_ClientOrderID request) of None \<Rightarrow> True | Some n \<Rightarrow> n = 0 \<or> n > maxClientOrderID) \<or>
         HasPrefix (pq_ClientOrderID request) ''0''
      then Inl (invalid ''clientOrderId must be a decimal integer in [1, 2^48)'')
      else (case NewFromString D (pq_Quantity request) of
              None \<Rightarrow> Inl (invalid ''qty must be a positive decimal'')
            | Some quantity \<Rightarrow>
      if \<not> IsPositive D quantity then Inl (invalid ''qty must be a positive decimal'')
      else if pq_Side request \<noteq> ''buy'' \<and> pq_Side request \<noteq> ''sell'' then Inl (invalid ''side must be buy or sell'')
      else (case native_type D request of
              Inl err \<Rightarrow> Inl err
            | Inr (ordertype, price, policy) \<Rightarrow>
      if pq_ReduceOnly request \<and> gi_Product instrument \<noteq> ProductPerp
      then Inl (invalid ''reduceOnly applies to perpetuals only'')
      else (let nat_req = \<lparr>po_Instrument = gi_native instrument, po_ClientOrderID = pq_ClientOrderID request,
                  po_Side = (if pq_Side request = ''buy'' then SideBuy else SideSell), po_Type = ordertype,
                  po_Quantity = quantity, po_LimitPrice = price, po_LimitPolicy = policy,
                  po_ReduceOnly = pq_ReduceOnly request\<rparr>
            in case PlaceOrderRequest_Validate D nat_req (gi_Product instrument) of
                 Some err \<Rightarrow> Inl (invalid (safeMessage err))
               | None \<Rightarrow> Inr nat_req))))"

section \<open>Outcomes\<close>

text \<open>The message of an unknown outcome has a dash (U+2014) in its UTF-8 encoding.\<close>

abbreviation unknown_message :: string where
  "unknown_message \<equiv>
     ''Order outcome unknown '' @ [CHR 0xE2, CHR 0x80, CHR 0x94] @ '' checking with the exchange before anything else.''"

definition rejected_result :: "VenueFailure \<Rightarrow> 'd OrderAcknowledgement \<Rightarrow> PlaceResult" where
  "rejected_result failure ack =
     no_result\<lparr>ps_Status := OutcomeRejected, ps_Category := Some (vf_Category failure),
       ps_VenueCode := (if ack_VenueCode ack \<noteq> [] then ack_VenueCode ack else vf_Code failure),
       ps_VenueMessage := (if vf_VenueMessage failure = [] \<and> ack_State ack = AckRejected then ack_VenueMessage ack
                           else vf_VenueMessage failure),
       ps_Message := failure_Message failure\<rparr>"

text \<open>The cases of classify that take an error as proof that the order is not on the venue.\<close>

definition proven_rejected :: "'d OrderAcknowledgement \<Rightarrow> goerror \<Rightarrow> bool" where
  "proven_rejected ack err \<longleftrightarrow>
     (let local = (case as_exchange err of Some (kind, details) \<Rightarrow> ed_HTTPStatus details = 0 | None \<Rightarrow> False) in
      (case as_exchange err of Some (kind, details) \<Rightarrow> ed_CommandNotSent details | None \<Rightarrow> False) \<or>
      ack_State ack = AckRejected \<or> errors_Is err (KindSentinel KindVenueRejected) \<or>
      errors_Is err (KindSentinel KindAuthentication) \<or> errors_Is err (KindSentinel KindPermission) \<or>
      (local \<and> (errors_Is err (KindSentinel KindInvalidRequest) \<or> errors_Is err (KindSentinel KindUnsupported) \<or>
                errors_Is err (KindSentinel KindInvalidConfig))) \<or>
      (errors_Is err (KindSentinel KindRateLimit) \<and> local))"

definition ack_status :: "OrderAckState \<Rightarrow> string option" where
  "ack_status state =
     (if state = AckAcceptedPending then Some ''pending'' else if state = AckResting then Some ''open''
      else if state = AckPartiallyFilled then Some ''partially_filled''
      else if state = AckImmediatelyFilled then Some ''filled''
      else if state = AckCanceled then Some ''canceled'' else None)"

definition accepted_order ::
  "'d Decimals \<Rightarrow> Time \<Rightarrow> InstrumentID \<Rightarrow> 'd PlaceOrderRequest \<Rightarrow> 'd OrderAcknowledgement \<Rightarrow> string \<Rightarrow> AccountOrder" where
  "accepted_order D now iid request ack status =
     \<lparr>ao_Instrument = iid, ao_OrderID = ack_OrderID ack, ao_ClientOrderID = po_ClientOrderID request,
      ao_Side = po_Side request, ao_Type = po_Type request,
      ao_Price = (if IsPositive D (po_LimitPrice request) then DString D (po_LimitPrice request) else []),
      ao_Quantity = DString D (po_Quantity request), ao_Filled = DString D (ack_FilledQuantity ack),
      ao_AvgPrice = positive_text D (ack_AverageFillPrice ack), ao_TimeInForce = tifFromPolicy (po_LimitPolicy request),
      ao_ReduceOnly = po_ReduceOnly request, ao_Status = status, ao_CreatedAt = 0, ao_UpdatedAt = UnixMilli now\<rparr>"

definition classify ::
  "'d Decimals \<Rightarrow> Time \<Rightarrow> InstrumentID \<Rightarrow> 'd PlaceOrderRequest \<Rightarrow> 'd OrderAcknowledgement \<Rightarrow> goerror option \<Rightarrow> PlaceResult" where
  "classify D now iid request ack err =
     (case err of
        Some e \<Rightarrow>
          (let failure = the (Classify (Some e)) in
           if proven_rejected ack e then rejected_result failure ack
           else no_result\<lparr>ps_Status := OutcomeUnknown, ps_Category := Some (vf_Category failure),
                          ps_Message := unknown_message\<rparr>)
      | None \<Rightarrow>
          (case ack_status (ack_State ack) of
             Some status \<Rightarrow>
               no_result\<lparr>ps_Status := OutcomeAccepted, ps_Order := Some (accepted_order D now iid request ack status)\<rparr>
           | None \<Rightarrow>
               if ack_State ack = AckRejected
               then no_result\<lparr>ps_Status := OutcomeRejected, ps_VenueCode := ack_VenueCode ack,
                              ps_VenueMessage := ack_VenueMessage ack\<rparr>
               else no_result\<lparr>ps_Status := OutcomeUnknown,
                      ps_Message := ''order outcome unknown; look it up by clientOrderId before retrying''\<rparr>))"

section \<open>Commands\<close>

definition Place ::
  "'d Decimals \<Rightarrow> ('c \<Rightarrow> 'd PlaceOrderRequest \<Rightarrow> 'd OrderAcknowledgement \<times> goerror option) \<Rightarrow> Time \<Rightarrow>
   'd GatewayInstrument \<Rightarrow> PlaceRequest \<Rightarrow> 'c runtime \<Rightarrow> ((goerror + PlaceResult) \<times> 'c runtime) option" where
  "Place D PlaceOrder now instrument request rt =
     (case clientFor rt instrument of
        Inl err \<Rightarrow> Some (Inl err, rt)
      | Inr client \<Rightarrow>
          (case native D instrument request of
             Inl err \<Rightarrow> Some (Inl err, rt)
           | Inr nat_req \<Rightarrow>
               (case client_orders client of
                  None \<Rightarrow> None
                | Some c \<Rightarrow>
                    (case PlaceOrder c nat_req of (ack, placeErr) \<Rightarrow>
                       (let result = classify D now (gi_ID instrument) nat_req ack placeErr in
                        Some (Inr result,
                          if ps_Status result = OutcomeAccepted \<and> gi_Product instrument = ProductPerp
                          then scheduleRefresh (rc_market client) rt else rt))))))"

record LookupResult =
  lk_Status :: string
  lk_Order :: "AccountOrder option"

text \<open>The client's exact lookup, None when it has none.\<close>

definition Lookup ::
  "'d Decimals \<Rightarrow> ('c \<Rightarrow> ('d ExactOrderLookupRequest \<Rightarrow> goerror + 'd ExactOrderLookupResult) option) \<Rightarrow>
   'd GatewayInstrument \<Rightarrow> string \<Rightarrow> string \<Rightarrow> 'c runtime \<Rightarrow> goerror + LookupResult" where
  "Lookup D exact instrument clientOrderID orderID rt =
     (case clientFor rt instrument of
        Inl err \<Rightarrow> Inl err
      | Inr client \<Rightarrow>
          (case Option.bind (client_orders client) exact of
             None \<Rightarrow> Inl (WrapError (error_text ErrAccountUnsupported @ '': exact order lookup'') [ErrAccountUnsupported])
           | Some LookupExactOrder \<Rightarrow>
               (case LookupExactOrder \<lparr>lq_Instrument = Some (gi_native instrument), lq_ClientOrderID = clientOrderID,
                       lq_VenueOrderID = orderID\<rparr> of
                  Inl err \<Rightarrow>
                    if errors_Is err (KindSentinel KindInvalidRequest) then Inl (invalid (safeMessage err)) else Inl err
                | Inr result \<Rightarrow>
                    Inr (if lr_Status result = ExactOrderFound
                         then \<lparr>lk_Status = ''found'', lk_Order = Some (projectOrder D (gi_ID instrument) (lr_Order result))\<rparr>
                         else if lr_Status result = ExactOrderNotFound then \<lparr>lk_Status = ''not_found'', lk_Order = None\<rparr>
                         else \<lparr>lk_Status = ''unconfirmed'', lk_Order = None\<rparr>))))"

text \<open>What the venue is asked to cancel, and the error of the call.\<close>

definition Cancel ::
  "('c \<Rightarrow> 'd Instrument \<Rightarrow> string \<Rightarrow> goerror option) \<Rightarrow> 'd GatewayInstrument \<Rightarrow> string \<Rightarrow> 'c runtime \<Rightarrow> goerror option option" where
  "Cancel CancelOrder instrument orderID rt =
     (case clientFor rt instrument of
        Inl err \<Rightarrow> Some (Some err)
      | Inr client \<Rightarrow>
          if TrimSpace orderID = [] then Some (Some (invalid ''orderId is required''))
          else map_option (\<lambda>c. CancelOrder c (gi_native instrument) orderID) (client_orders client))"

definition runtime_instrumentID ::
  "'d Decimals \<Rightarrow> ('d, 'x) Catalog \<Rightarrow> Market \<Rightarrow> string \<Rightarrow> string \<Rightarrow> 'd GatewayInstrument option \<Rightarrow> InstrumentID" where
  "runtime_instrumentID D catalog m nativeSymbol nativeID requested =
     (case requested of
        Some instrument \<Rightarrow> gi_ID instrument
      | None \<Rightarrow>
          (case ResolveNative D catalog m nativeSymbol nativeID of Some resolved \<Rightarrow> gi_ID resolved | None \<Rightarrow> []))"

text \<open>The clients a list asks, and the loop over them with the rows and the errors so far.\<close>

definition list_clients :: "'d GatewayInstrument option \<Rightarrow> 'c runtime \<Rightarrow> goerror + 'c routeClient list" where
  "list_clients requested rt =
     (case requested of
        None \<Rightarrow> Inr (rt_clients rt)
      | Some instrument \<Rightarrow> (case clientFor rt instrument of Inl err \<Rightarrow> Inl err | Inr client \<Rightarrow> Inr [client]))"

fun list_loop ::
  "('c \<Rightarrow> goerror + 'n list) \<Rightarrow> (Market \<Rightarrow> 'n \<Rightarrow> 'r list) \<Rightarrow> 'c routeClient list \<Rightarrow> 'r list \<Rightarrow> goerror list \<Rightarrow>
   ('r list \<times> goerror list) option" where
  "list_loop page row [] rows errs = Some (rows, errs)"
| "list_loop page row (client # clients) rows errs =
     (case client_orders client of
        None \<Rightarrow> None
      | Some c \<Rightarrow>
          (case page c of
             Inl err \<Rightarrow>
               list_loop page row clients rows
                 (errs @ [WrapError (Market_String (rc_market client) @ '': '' @ error_text err) [err]])
           | Inr items \<Rightarrow>
               list_loop page row clients (rows @ concat (map (row (rc_market client)) items)) errs))"

definition list_rows ::
  "('c \<Rightarrow> goerror + 'n list) \<Rightarrow> (Market \<Rightarrow> 'n \<Rightarrow> 'r list) \<Rightarrow> 'd GatewayInstrument option \<Rightarrow> 'c runtime \<Rightarrow> (goerror + 'r list) option" where
  "list_rows page row requested rt =
     (case list_clients requested rt of
        Inl err \<Rightarrow> Some (Inl err)
      | Inr clients \<Rightarrow>
          map_option (\<lambda>(rows, errs). if rows = [] \<and> errs \<noteq> [] then Inl (JoinError errs) else Inr rows)
            (list_loop page row clients [] []))"

definition order_row ::
  "'d Decimals \<Rightarrow> ('d, 'x) Catalog \<Rightarrow> 'd GatewayInstrument option \<Rightarrow> Market \<Rightarrow> 'd Order \<Rightarrow> AccountOrder list" where
  "order_row D catalog requested m item =
     (let iid = runtime_instrumentID D catalog m (or_NativeSymbol item) (or_NativeID item) requested in
      if iid = [] then [] else [projectOrder D iid item])"

definition runtime_OpenOrders ::
  "'d Decimals \<Rightarrow> ('d, 'x) Catalog \<Rightarrow> ('c \<Rightarrow> 'd Instrument option \<Rightarrow> int \<Rightarrow> goerror + 'd Order list) \<Rightarrow>
   'd GatewayInstrument option \<Rightarrow> 'c runtime \<Rightarrow> (goerror + AccountOrder list) option" where
  "runtime_OpenOrders D catalog OpenOrders requested rt =
     list_rows (\<lambda>c. OpenOrders c (map_option gi_native requested) 100) (order_row D catalog requested) requested rt"

definition fill_row ::
  "'d Decimals \<Rightarrow> ('d, 'x) Catalog \<Rightarrow> 'd GatewayInstrument option \<Rightarrow> Market \<Rightarrow> 'd Fill \<Rightarrow> AccountFill list" where
  "fill_row D catalog requested m item =
     (let iid = runtime_instrumentID D catalog m (fi_NativeSymbol item) (fi_NativeID item) requested in
      if iid = [] then [] else [projectFill D iid item])"

abbreviation clamp_fills :: "int \<Rightarrow> int" where
  "clamp_fills limit \<equiv> (if limit \<le> 0 \<or> limit > 500 then 100 else limit)"

definition runtime_Fills ::
  "'d Decimals \<Rightarrow> ('d, 'x) Catalog \<Rightarrow> ('c \<Rightarrow> 'd Instrument option \<Rightarrow> Time \<Rightarrow> int \<Rightarrow> goerror + 'd Fill list) \<Rightarrow>
   'd GatewayInstrument option \<Rightarrow> Time \<Rightarrow> int \<Rightarrow> 'c runtime \<Rightarrow> (goerror + AccountFill list) option" where
  "runtime_Fills D catalog Fills requested start limit rt =
     list_rows (\<lambda>c. Fills c (map_option gi_native requested) start (clamp_fills limit))
       (fill_row D catalog requested) requested rt"

definition runtime_SetLeverage ::
  "('c \<Rightarrow> 'd Instrument \<Rightarrow> int \<Rightarrow> goerror + int) \<Rightarrow> 'd GatewayInstrument \<Rightarrow> int \<Rightarrow> 'c runtime \<Rightarrow> (goerror + int) \<times> 'c runtime" where
  "runtime_SetLeverage SetLeverage instrument leverage rt =
     (case clientFor rt instrument of
        Inl err \<Rightarrow> (Inl err, rt)
      | Inr client \<Rightarrow>
          (case rc_perp client of
             None \<Rightarrow> (Inl (invalid ''leverage applies to perpetuals only''), rt)
           | Some perp \<Rightarrow>
               if leverage < 1 \<or> leverage > 200 then (Inl (invalid ''leverage must be between 1 and 200''), rt)
               else (case SetLeverage perp (gi_native instrument) leverage of
                       Inl err \<Rightarrow> (Inl err, rt)
                     | Inr effective \<Rightarrow> (Inr effective, scheduleRefresh (rc_market client) rt))))"

section \<open>Accepted requests\<close>

text \<open>What an order request says, as a venue-neutral order.\<close>

definition translates :: "'d Decimals \<Rightarrow> 'd GatewayInstrument \<Rightarrow> PlaceRequest \<Rightarrow> 'd PlaceOrderRequest \<Rightarrow> bool" where
  "translates D instrument request order \<longleftrightarrow>
     po_Instrument order = gi_native instrument \<and> po_ClientOrderID order = pq_ClientOrderID request \<and>
     po_Side order = pq_Side request \<and> po_ReduceOnly order = pq_ReduceOnly request \<and>
     NewFromString D (pq_Quantity request) = Some (po_Quantity order) \<and> po_Type order = pq_Type request \<and>
     (if pq_Type request = OrderTypeMarket
      then pq_Price request = [] \<and> po_LimitPrice order = DZero D \<and> po_LimitPolicy order = []
      else NewFromString D (pq_Price request) = Some (po_LimitPrice order) \<and>
           (pq_TimeInForce request, po_LimitPolicy order) \<in>
             {([], LimitPolicyResting), (''gtc'', LimitPolicyResting), (''ioc'', LimitPolicyIOC),
              (''post_only'', LimitPolicyPostOnly)})"

lemma portable_id_conditions:
  assumes "isPortableClientOrderID s"
  shows "(case ParseUint 64 s of None \<Rightarrow> True | Some n \<Rightarrow> n = 0 \<or> n > maxClientOrderID) = False"
    and "\<not> HasPrefix s ''0''"
proof -
  from assms obtain n where n: "ParseUint 48 s = Some n" "0 < n" and s: "s \<noteq> []" "hd s \<noteq> CHR ''0''"
    by (auto simp: isPortableClientOrderID_def split: if_splits option.splits)
  have "n < 2 ^ 48" using ParseUint_bound [OF n(1)] .
  moreover have "ParseUint 64 s = Some n"
    using n(1) by (auto simp: ParseUint_def split: if_splits)
  ultimately show "(case ParseUint 64 s of None \<Rightarrow> True | Some n \<Rightarrow> n = 0 \<or> n > maxClientOrderID) = False"
    using n(2) by simp
  show "\<not> HasPrefix s ''0''" using s by (cases s) (simp_all add: HasPrefix_def)
qed

text \<open>The facts about a validated order that the early checks of native anticipate.\<close>

lemma validated_order:
  assumes "PlaceOrderRequest_Validate D order pd = None"
  shows "isPortableClientOrderID (po_ClientOrderID order)" "IsPositive D (po_Quantity order)"
    "po_Side order = SideBuy \<or> po_Side order = SideSell" "po_ReduceOnly order \<Longrightarrow> pd = ProductPerp"
    "po_Type order = OrderTypeMarket \<or> po_Type order = OrderTypeLimit"
    "po_Type order = OrderTypeLimit \<Longrightarrow> IsPositive D (po_LimitPrice order)"
  using assms by (auto simp: PlaceOrderRequest_Validate_def Let_def split: if_splits option.splits)

lemma native_type_Inr:
  "native_type D request = Inr (t, price, policy) \<longleftrightarrow>
   (pq_Type request = OrderTypeMarket \<and> t = OrderTypeMarket \<and> pq_Price request = [] \<and> price = DZero D \<and> policy = []) \<or>
   (pq_Type request = OrderTypeLimit \<and> t = OrderTypeLimit \<and> NewFromString D (pq_Price request) = Some price \<and>
    IsPositive D price \<and>
    (pq_TimeInForce request, policy) \<in>
      {([], LimitPolicyResting), (''gtc'', LimitPolicyResting), (''ioc'', LimitPolicyIOC), (''post_only'', LimitPolicyPostOnly)})"
  by (auto simp: native_type_def split: option.splits)

lemma native_sound:
  assumes "native D instrument request = Inr order"
  shows "translates D instrument request order" "PlaceOrderRequest_Validate D order (gi_Product instrument) = None"
proof -
  obtain q t price policy where q: "NewFromString D (pq_Quantity request) = Some q"
    and t: "native_type D request = Inr (t, price, policy)"
    and side: "pq_Side request = ''buy'' \<or> pq_Side request = ''sell''"
    and order: "order = \<lparr>po_Instrument = gi_native instrument, po_ClientOrderID = pq_ClientOrderID request,
        po_Side = (if pq_Side request = ''buy'' then SideBuy else SideSell), po_Type = t, po_Quantity = q,
        po_LimitPrice = price, po_LimitPolicy = policy, po_ReduceOnly = pq_ReduceOnly request\<rparr>"
    and ok: "PlaceOrderRequest_Validate D order (gi_Product instrument) = None"
    using assms unfolding native_def Let_def by (auto split: if_splits option.splits sum.splits prod.splits)
  show "PlaceOrderRequest_Validate D order (gi_Product instrument) = None" by (rule ok)
  show "translates D instrument request order"
    using q t side by (auto simp: translates_def order native_type_Inr)
qed

lemma native_complete:
  assumes tr: "translates D instrument request order"
    and ok: "PlaceOrderRequest_Validate D order (gi_Product instrument) = None"
  shows "native D instrument request = Inr order"
proof -
  note v = validated_order [OF ok]
  note cid = portable_id_conditions [OF v(1)]
  have fs: "po_Instrument order = gi_native instrument" "po_ClientOrderID order = pq_ClientOrderID request"
      "po_Side order = pq_Side request" "po_ReduceOnly order = pq_ReduceOnly request"
      "NewFromString D (pq_Quantity request) = Some (po_Quantity order)" "po_Type order = pq_Type request"
    using tr by (simp_all add: translates_def)
  have t: "native_type D request = Inr (po_Type order, po_LimitPrice order, po_LimitPolicy order)"
    unfolding native_type_Inr using tr v(5,6) by (auto simp: translates_def)
  have "\<lparr>po_Instrument = gi_native instrument, po_ClientOrderID = pq_ClientOrderID request,
      po_Side = (if pq_Side request = ''buy'' then SideBuy else SideSell), po_Type = po_Type order,
      po_Quantity = po_Quantity order, po_LimitPrice = po_LimitPrice order, po_LimitPolicy = po_LimitPolicy order,
      po_ReduceOnly = pq_ReduceOnly request\<rparr> = order"
    using fs v(3) by (cases order) auto
  then show ?thesis
    using fs v cid ok by (auto simp: native_def t Let_def)
qed

section \<open>Properties\<close>

text \<open>
  C22: The gateway sends an order exactly when its text says a valid one. A request is translated into
  an order if and only if that order is what the texts of the request denote (decimal quantity and
  price, side, type, time in force, no price on a market order) and the order passes the validation of
  the exchange layer; nothing else is accepted, and nothing valid is refused.
\<close>

theorem order_text_accepted_exactly:
  "native D instrument request = Inr order \<longleftrightarrow>
   translates D instrument request order \<and> PlaceOrderRequest_Validate D order (gi_Product instrument) = None"
  using native_sound native_complete by blast

lemma doubtful_placement:
  assumes "clientFor rt instrument = Inr client" "client_orders client = Some c"
    and "native D instrument request = Inr order"
    and "PlaceOrder c order = normalizeHTTPCommand ack mapped (Some e) venue pd operation"
    and "as_http e = Some f" "doubtful_status (hf_StatusCode f)" "as_local e = None"
  shows "\<exists>result. Place D PlaceOrder now instrument request rt = Some (Inr result, rt) \<and>
    ps_Status result = OutcomeUnknown \<and> ps_Order result = None \<and> ps_VenueMessage result = []"
proof -
  obtain ack' d where norm: "normalizeHTTPCommand ack mapped (Some e) venue pd operation =
      (ack', Some (ExchangeError KindAmbiguousOutcome d))"
    and a: "ack_State ack' = AckAmbiguous" and d: "\<not> ed_CommandNotSent d"
    using doubtful_command [OF assms(5-7), of ack mapped venue pd operation] by blast
  have "\<not> proven_rejected ack' (ExchangeError KindAmbiguousOutcome d)"
    using a d by (simp add: proven_rejected_def Let_def)
  then show ?thesis
    using assms(1-4) norm by (simp add: Place_def classify_def no_result_def Let_def)
qed

text \<open>
  C6: A placement whose outcome is in doubt is reported as unknown. When the venue answered the
  placement with a server failure, a timeout or a rate limit (5xx, 408, 429, 418), Place reports
  neither a rejection nor an order, whatever the adapter had made of the answer, and leaves the
  account as it was.
\<close>

theorem doubtful_placement_is_unknown:
  assumes "clientFor rt instrument = Inr client" "client_orders client = Some c"
    and "native D instrument request = Inr order"
    and "PlaceOrder c order = normalizeHTTPCommand ack mapped (Some e) venue pd operation"
    and "as_http e = Some f" "doubtful_status (hf_StatusCode f)" "as_local e = None"
  shows "\<exists>result. Place D PlaceOrder now instrument request rt = Some (Inr result, rt) \<and>
    ps_Status result = OutcomeUnknown \<and> ps_Order result = None \<and> ps_VenueMessage result = []"
  using assms by (rule doubtful_placement)

definition sample_place :: PlaceRequest where
  "sample_place =
     \<lparr>pq_Instrument = sample_iid, pq_Side = ''buy'', pq_Type = ''limit'', pq_Quantity = ''0.25'', pq_Price = ''60000.5'',
      pq_TimeInForce = ''post_only'', pq_ReduceOnly = True, pq_ClientOrderID = ''42''\<rparr>"

lemma sample_native: "native dec_ops (project dec_ops sample_instrument) sample_place = Inr sample_order"
proof (rule native_complete)
  have "dec_parse ''0.25'' = Some (Dec 25 2)" "dec_parse ''60000.5'' = Some (Dec 600005 1)"
    by (simp_all add: dec_parse_def is_digit_def digits_val_def digit_val_def)
  then show "translates dec_ops (project dec_ops sample_instrument) sample_place sample_order"
    by (simp add: translates_def sample_place_def sample_order_def) (simp add: dec_ops_def)
  have "gi_Product (project dec_ops sample_instrument) = ProductPerp"
    by (simp add: project_def sample_instrument_def)
  then show "PlaceOrderRequest_Validate dec_ops sample_order (gi_Product (project dec_ops sample_instrument)) = None"
    using sample_instrument_valid by (simp add: sample_order_simps sample_instrument_def)
qed

lemma sample_clientFor: "clientFor sample_runtime (project dec_ops sample_instrument) = Inr sample_client"
  by (simp add: clientFor_def runtime_client_def sample_runtime_def stream_attach_def newRuntime_def) (simp add: market_def)

definition timed_out_place :: "unit \<Rightarrow> dec PlaceOrderRequest \<Rightarrow> dec OrderAcknowledgement \<times> goerror option" where
  "timed_out_place c order =
     normalizeHTTPCommand (sample_ack\<lparr>ack_State := AckRejected\<rparr>) (Some (ExchangeError KindVenueRejected no_details))
       (Some gateway_timeout) ''binance'' ''perp'' ''PlaceOrder''"

theorem doubtful_placement_is_unknown_witness:
  "\<exists>result. Place dec_ops timed_out_place 0 (project dec_ops sample_instrument) sample_place sample_runtime =
     Some (Inr result, sample_runtime) \<and> ps_Status result = OutcomeUnknown"
proof -
  have co: "client_orders sample_client = Some ()" by (simp add: client_orders_def)
  have http: "as_http gateway_timeout = Some \<lparr>hf_StatusCode = 504, hf_Method = ''POST'', hf_Path = ''/api/v3/order'',
      hf_Code = [], hf_RetryAfter = 0\<rparr>" "as_local gateway_timeout = None"
    by (simp_all add: as_http_def as_local_def gateway_timeout_def)
  have doubt: "doubtful_status (hf_StatusCode \<lparr>hf_StatusCode = 504, hf_Method = ''POST'', hf_Path = ''/api/v3/order'',
      hf_Code = [], hf_RetryAfter = 0\<rparr>)" by (simp add: doubtful_status_def)
  show ?thesis
    using doubtful_placement_is_unknown [where PlaceOrder = timed_out_place,
        OF sample_clientFor co sample_native timed_out_place_def http(1) doubt http(2), of 0]
    by blast
qed

text \<open>
  The converse fails: after an order was sent, a follow-up request that the local budget refuses turns
  its ambiguous outcome into a rate limit without an HTTP status, which classify takes as a rejection.
\<close>

lemma refused_follow_up_is_rejected:
  "ps_Status (classify D now iid order ack
     (normalizeHTTPError (Some (ExchangeError KindAmbiguousOutcome no_details)) (Some (LocalRateLimitError 0 ''read''))
        venue pd ''PlaceOrder'')) = OutcomeRejected"
proof -
  obtain d where "note_all (Some (LocalRateLimitError 0 ''read'')) ''PlaceOrder'' (KindAmbiguousOutcome, no_details) = (KindRateLimit, d)"
      "ed_HTTPStatus d = 0"
    by (simp add: note_all_def note_local_def note_rate_limited_def note_http_def note_malformed_def as_local_def as_http_def
        as_json_def)
  moreover have "\<not> definitive_kind KindRateLimit" by (simp add: definitive_kind_def)
  ultimately show ?thesis
    by (simp add: normalizeHTTPError_eq withVenueMessage_doubtful classify_def proven_rejected_def rejected_result_def no_result_def Let_def)
qed

text \<open>A status word NormalizeStatus does not know is passed on, although it names six words.\<close>

lemma unknown_status_word: "NormalizeStatus ''Triggered'' = ''triggered''"
  by code_simp

end
