(* ===== verification/Account_Bundle.thy ===== *)
theory Account_Bundle
  imports Account_Orders
begin

text \<open>
  The credential form of an account (gateway/account/manager.go: bundle, toInteger, newAccountID): the
  flat fields a caller submits become the envelope that the credential package decodes. Integers in
  texts are read the way fmt.Sscan and strconv.ParseInt with base 0 read them; the texts of JSON values
  are a parameter.
\<close>

section \<open>Integers in texts\<close>

definition digit_in :: "nat \<Rightarrow> char \<Rightarrow> bool" where
  "digit_in base c \<longleftrightarrow> (case hex_val c of Some d \<Rightarrow> d < base | None \<Rightarrow> False)"

definition base_of :: "char \<Rightarrow> nat option" where
  "base_of c =
     (if c = CHR ''b'' \<or> c = CHR ''B'' then Some 2
      else if c = CHR ''o'' \<or> c = CHR ''O'' then Some 8
      else if c = CHR ''x'' \<or> c = CHR ''X'' then Some 16 else None)"

text \<open>underscoreOK: an underscore stands between digits, or after a base prefix. The first argument is the class of the character before.\<close>

datatype seen = SeenStart | SeenDigit | SeenUnderscore | SeenOther

fun underscore_scan :: "bool \<Rightarrow> seen \<Rightarrow> string \<Rightarrow> bool" where
  "underscore_scan hex before [] \<longleftrightarrow> before \<noteq> SeenUnderscore"
| "underscore_scan hex before (c # s) \<longleftrightarrow>
     (if is_digit c \<or> (hex \<and> digit_in 16 c) then underscore_scan hex SeenDigit s
      else if c = CHR ''_'' then before = SeenDigit \<and> underscore_scan hex SeenUnderscore s
      else before \<noteq> SeenUnderscore \<and> underscore_scan hex SeenOther s)"

definition underscoreOK :: "string \<Rightarrow> bool" where
  "underscoreOK s =
     (case s of
        z # b # rest \<Rightarrow>
          if z = CHR ''0'' \<and> base_of b \<noteq> None then underscore_scan (base_of b = Some 16) SeenDigit rest
          else underscore_scan False SeenStart s
      | _ \<Rightarrow> underscore_scan False SeenStart s)"

definition based_val :: "nat \<Rightarrow> string \<Rightarrow> nat" where
  "based_val base s = foldl (\<lambda>n c. case hex_val c of Some d \<Rightarrow> base * n + d | None \<Rightarrow> n) 0 s"

text \<open>The magnitude strconv.ParseUint reads with base 0, without its range check: a prefix or a leading zero gives the base.\<close>

definition magnitude :: "string \<Rightarrow> nat option" where
  "magnitude s =
     (if s = [] then None
      else
        (let (base, body) =
           (if hd s \<noteq> CHR ''0'' then (10, s)
            else if length s \<ge> 3 \<and> base_of (s ! 1) \<noteq> None then (the (base_of (s ! 1)), drop 2 s)
            else (8, tl s))
         in if list_ex (\<lambda>c. c \<noteq> CHR ''_'' \<and> \<not> digit_in base c) body then None
            else if CHR ''_'' \<in> set body \<and> \<not> underscoreOK s then None
            else Some (based_val base (filter (\<lambda>c. c \<noteq> CHR ''_'') body))))"

text \<open>strconv.ParseInt with base 0 and 64 bits.\<close>

definition ParseInt0 :: "string \<Rightarrow> int option" where
  "ParseInt0 s =
     (let neg = (s \<noteq> [] \<and> hd s = CHR ''-'');
          body = (if s \<noteq> [] \<and> (hd s = CHR ''-'' \<or> hd s = CHR ''+'') then tl s else s)
      in case magnitude body of
           None \<Rightarrow> None
         | Some n \<Rightarrow>
             if neg then (if n \<le> 2 ^ 63 then Some (- int n) else None)
             else (if n < 2 ^ 63 then Some (int n) else None))"

text \<open>
  fmt.Sscan into an int64: after white space the longest token of a sign, a base prefix and digits; what
  follows the token is not read.
\<close>

definition scan_digits :: "nat \<Rightarrow> string \<Rightarrow> string" where
  "scan_digits base s = takeWhile (\<lambda>c. c = CHR ''_'' \<or> digit_in base c) s"

definition scan_token :: "string \<Rightarrow> string option" where
  "scan_token s =
     (case s of
        [] \<Rightarrow> None
      | c # rest \<Rightarrow>
          if c = CHR ''0'' then
            (case rest of
               b # digits \<Rightarrow>
                 (case base_of b of
                    Some base \<Rightarrow> Some (c # b # scan_digits base digits)
                  | None \<Rightarrow> Some (c # scan_digits 8 rest))
             | [] \<Rightarrow> Some [c])
          else (let digits = scan_digits 10 s in if digits = [] then None else Some digits))"

definition Sscan_int64 :: "string \<Rightarrow> int option" where
  "Sscan_int64 s =
     (let rest = strip space_runes s;
          sign = (if rest \<noteq> [] \<and> (hd rest = CHR ''-'' \<or> hd rest = CHR ''+'') then [hd rest] else [])
      in case scan_token (drop (length sign) rest) of
           None \<Rightarrow> None
         | Some token \<Rightarrow> ParseInt0 (sign @ token))"

section \<open>Submitted fields\<close>

text \<open>The dynamic values of a decoded JSON object: numbers are float64, and json.Number where a decoder keeps their text.\<close>

datatype anyValue =
    AnyNil
  | AnyBool bool
  | AnyFloat rat
  | AnyNumber string
  | AnyString string
  | AnyArray "json list"
  | AnyObject "(string \<times> json) list"

text \<open>
  The text of a JSON value, the value of a text, the text of a float64, the quoting of messages, and what
  the conversion of a float64 beyond the range of int64 gives when converting it back is the identity.
\<close>

record JsonText =
  jt_marshal :: "json \<Rightarrow> string"
  jt_parse :: "string \<Rightarrow> json option"
  jt_float :: "rat \<Rightarrow> string"
  jt_quote :: "string \<Rightarrow> string"
  jt_wide :: "rat \<Rightarrow> int option"

fun toInteger :: "JsonText \<Rightarrow> anyValue \<Rightarrow> int option" where
  "toInteger jt (AnyFloat x) =
     (if - (2 ^ 63) \<le> x \<and> x < 2 ^ 63 then (if x = of_int \<lfloor>x\<rfloor> then Some \<lfloor>x\<rfloor> else None) else jt_wide jt x)"
| "toInteger jt (AnyString s) = Sscan_int64 s"
| "toInteger jt (AnyNumber s) = ParseInt 64 s"
| "toInteger jt _ = None"

text \<open>The tree a submitted value is marshalled to.\<close>

fun any_json :: "JsonText \<Rightarrow> anyValue \<Rightarrow> json" where
  "any_json jt (AnyString s) = JString s"
| "any_json jt (AnyFloat x) = JNumber (jt_float jt x)"
| "any_json jt (AnyNumber s) = JNumber s"
| "any_json jt AnyNil = JNull"
| "any_json jt (AnyBool b) = JBool b"
| "any_json jt (AnyArray vs) = JArray vs"
| "any_json jt (AnyObject members) = JObject members"

text \<open>One turn of the loop of bundle: None skips the field, an error ends the loop.\<close>

definition trimmed_value :: "anyValue \<Rightarrow> anyValue" where
  "trimmed_value v = (case v of AnyString s \<Rightarrow> AnyString (TrimSpace s) | _ \<Rightarrow> v)"

definition field_value :: "JsonText \<Rightarrow> Field \<Rightarrow> (string, anyValue) gomap \<Rightarrow> goerror + json option" where
  "field_value jt f submitted =
     (case map_of submitted (fd_Key f) of
        None \<Rightarrow> if fd_Required f then Inl (invalid (fd_Label f @ '' is required'')) else Inr None
      | Some v \<Rightarrow>
          if v = AnyString [] then
            (if fd_Required f then Inl (invalid (fd_Label f @ '' is required'')) else Inr None)
          else if fd_ValueType f = ''integer'' then
            (case toInteger jt (trimmed_value v) of
               None \<Rightarrow> Inl (invalid (fd_Label f @ '' must be an integer''))
             | Some n \<Rightarrow> Inr (Some (JNumber (show_int n))))
          else Inr (Some (any_json jt (trimmed_value v))))"

type_synonym json_map = "(string, json) gomap"

fun bundle_loop ::
  "JsonText \<Rightarrow> Field list \<Rightarrow> (string, anyValue) gomap \<Rightarrow> json_map \<Rightarrow> json_map \<Rightarrow> goerror + json_map \<times> json_map" where
  "bundle_loop jt [] submitted metadata secrets = Inr (metadata, secrets)"
| "bundle_loop jt (f # fs) submitted metadata secrets =
     (case field_value jt f submitted of
        Inl err \<Rightarrow> Inl err
      | Inr None \<Rightarrow> bundle_loop jt fs submitted metadata secrets
      | Inr (Some v) \<Rightarrow>
          if fd_Metadata f then bundle_loop jt fs submitted (AList.update (fd_Key f) v metadata) secrets
          else bundle_loop jt fs submitted metadata (AList.update (fd_Key f) v secrets))"

text \<open>json.Marshal renders a map in the order of its keys.\<close>

definition mustJSON :: "json_map \<Rightarrow> json" where
  "mustJSON m = JObject (slice_sort (\<lambda>a b. fst a < fst b) m)"

definition bundle_tree :: "string \<Rightarrow> string \<Rightarrow> json_map \<Rightarrow> json_map \<Rightarrow> json" where
  "bundle_tree venue kind metadata secrets =
     JObject [(''schemaVersion'', JNumber ''1''), (''venue'', JString venue), (''authKind'', JString kind),
       (''metadata'', mustJSON metadata), (''secrets'', mustJSON secrets)]"

definition manager_bundle :: "JsonText \<Rightarrow> AuthRegistry \<Rightarrow> string \<Rightarrow> (string, anyValue) gomap \<Rightarrow> goerror + string" where
  "manager_bundle jt registry venue submitted =
     (case registry_Schema registry venue of
        Inl err \<Rightarrow> Inl (invalid ''unsupported venue'')
      | Inr schema \<Rightarrow>
          (case bundle_loop jt (sc_Fields schema) submitted [] [] of
             Inl err \<Rightarrow> Inl err
           | Inr (metadata, secrets) \<Rightarrow>
               (case find (\<lambda>(key, v). key \<notin> fd_Key ` set (sc_Fields schema)) submitted of
                  Some (key, v) \<Rightarrow> Inl (invalid (''unknown credential field '' @ jt_quote jt key))
                | None \<Rightarrow> Inr (jt_marshal jt (bundle_tree venue (sc_AuthKind schema) metadata secrets)))))"

section \<open>Account ids\<close>

definition idAlphabet :: string where
  "idAlphabet = ''abcdefghijklmnopqrstuvwxyz234567''"

definition byte_bits :: "8 word \<Rightarrow> bool list" where
  "byte_bits b = map (bit b) [7, 6, 5, 4, 3, 2, 1, 0]"

text \<open>Base 32 without padding: five bits a character, the last group filled with zeros.\<close>

definition group_char :: "bool list \<Rightarrow> char" where
  "group_char g = idAlphabet ! (foldl (\<lambda>n b. 2 * n + of_bool b) 0 (take 5 (g @ replicate 5 False)))"

fun group_chars :: "bool list \<Rightarrow> string" where
  "group_chars [] = []"
| "group_chars bits = group_char (take 5 bits) # group_chars (drop 5 bits)"

definition base32_encode :: "8 word list \<Rightarrow> string" where
  "base32_encode entropy = group_chars (concat (map byte_bits entropy))"

text \<open>newAccountID; the entropy is the six bytes that rand.Read filled, an error when it failed.\<close>

definition newAccountID :: "goerror + 8 word list \<Rightarrow> goerror + string" where
  "newAccountID entropy = (case entropy of Inl err \<Rightarrow> Inl err | Inr octets \<Rightarrow> Inr (''acc_'' @ base32_encode octets))"

text \<open>Different entropy of the same length gives different ids.\<close>

abbreviation bits_value :: "bool list \<Rightarrow> nat" where
  "bits_value \<equiv> foldl (\<lambda>n b. 2 * n + of_bool b) 0"

lemma bits_value_inj: "length g = length h \<Longrightarrow> bits_value g = bits_value h \<Longrightarrow> g = h"
proof (induction g arbitrary: h rule: rev_induct)
  case (snoc b g)
  obtain c k where h: "h = k @ [c]" using snoc.prems(1) by (cases h rule: rev_cases) auto
  have "2 * bits_value g + of_bool b = 2 * bits_value k + of_bool c" using snoc.prems(2) h by simp
  then have "bits_value g = bits_value k \<and> b = c" by (cases b; cases c; simp; presburger)
  then show ?case using snoc.IH [of k] snoc.prems(1) h by simp
qed simp

lemma bits_value_less: "bits_value g < 2 ^ length g"
proof (induction g rule: rev_induct)
  case (snoc b g)
  then show ?case by (cases b) auto
qed simp

lemma idAlphabet_distinct: "distinct idAlphabet" "length idAlphabet = 32"
  by (simp_all add: idAlphabet_def)

lemma group_char_inj:
  assumes "length g = length h" "length g \<le> 5" "group_char g = group_char h"
  shows "g = h"
proof -
  define fill where "fill = (\<lambda>g. take 5 (g @ replicate 5 False))"
  have size: "length (fill x) = 5" for x by (simp add: fill_def)
  have "bits_value (fill x) < 32" for x using bits_value_less [of "fill x"] by (simp add: size)
  moreover have "idAlphabet ! bits_value (fill g) = idAlphabet ! bits_value (fill h)"
    using assms(3) by (simp only: group_char_def fill_def)
  ultimately have "bits_value (fill g) = bits_value (fill h)"
    using idAlphabet_distinct by (simp add: nth_eq_iff_index_eq)
  then have "fill g = fill h" by (intro bits_value_inj) (simp_all add: size)
  then show ?thesis using assms(1,2) by (simp add: fill_def append_eq_append_conv)
qed

lemma group_chars_inj: "length g = length h \<Longrightarrow> group_chars g = group_chars h \<Longrightarrow> g = h"
proof (induction g arbitrary: h rule: group_chars.induct)
  case (2 b bits)
  obtain c rest where h: "h = c # rest" using "2.prems"(1) by (cases h) auto
  have eq: "group_char (take 5 (b # bits)) = group_char (take 5 h)"
      "group_chars (drop 5 (b # bits)) = group_chars (drop 5 h)"
    using "2.prems"(2) h by simp_all
  have "take 5 (b # bits) = take 5 h" by (rule group_char_inj [OF _ _ eq(1)]) (use "2.prems"(1) in auto)
  moreover have "drop 5 (b # bits) = drop 5 h" by (rule "2.IH" [OF _ eq(2)]) (use "2.prems"(1) in simp)
  ultimately show ?case by (metis append_take_drop_id)
qed simp

lemma byte_bits_inj: "byte_bits a = byte_bits b \<Longrightarrow> a = b"
proof (rule bit_word_eqI)
  fix n assume eq: "byte_bits a = byte_bits b" and "n < LENGTH(8)"
  then have "n \<in> {0, 1, 2, 3, 4, 5, 6, 7}" by auto
  then show "bit a n \<longleftrightarrow> bit b n" using eq by (auto simp: byte_bits_def)
qed

lemma concat_bytes_inj:
  "length xs = length ys \<Longrightarrow> concat (map byte_bits xs) = concat (map byte_bits ys) \<Longrightarrow> xs = ys"
proof (induction xs ys rule: list_induct2)
  case (Cons x xs y ys)
  have "length (byte_bits x) = length (byte_bits y)" by (simp add: byte_bits_def)
  then show ?case using Cons.prems Cons.IH byte_bits_inj by auto
qed simp

lemma newAccountID_inj:
  assumes "length xs = length ys" "newAccountID (Inr xs) = newAccountID (Inr ys)"
  shows "xs = ys"
proof -
  have size: "length (concat (map byte_bits zs)) = 8 * length zs" for zs
    by (induction zs) (simp_all add: byte_bits_def)
  have "group_chars (concat (map byte_bits xs)) = group_chars (concat (map byte_bits ys))"
    using assms(2) by (simp add: newAccountID_def base32_encode_def)
  then show ?thesis using group_chars_inj concat_bytes_inj assms(1) size by metis
qed

section \<open>Reading the bundle back\<close>

definition keys_named :: "(string \<times> slot) list \<Rightarrow> json_map \<Rightarrow> bool" where
  "keys_named slots m \<longleftrightarrow> (\<forall>k v. map_of m k = Some v \<longrightarrow> (\<exists>slot. field_named slots k = Some (k, slot)))"

lemma decode_members_exact:
  assumes "decode_members slots members acc = Some m" "distinct (map fst members)"
    and "\<forall>(k, v)\<in>set members. \<exists>slot. field_named slots k = Some (k, slot)"
  shows "(\<forall>k. m k = (case map_of members k of Some v \<Rightarrow> if v = JNull then acc k else Some v | None \<Rightarrow> acc k)) \<and>
    (\<forall>k v. map_of members k = Some v \<longrightarrow> (\<exists>slot. field_named slots k = Some (k, slot) \<and> slot_accepts slot v))"
  using assms
proof (induction members arbitrary: acc)
  case (Cons member members)
  obtain k v where member: "member = (k, v)" by fastforce
  obtain slot where slot: "field_named slots k = Some (k, slot)" using Cons.prems(3) member by auto
  have accepts: "slot_accepts slot v"
    and rest: "decode_members slots members (if v = JNull then acc else acc(k \<mapsto> v)) = Some m"
    using Cons.prems(1) member slot by (auto split: if_splits)
  have fresh: "map_of members k = None" using Cons.prems(2) member by (simp add: map_of_eq_None_iff)
  show ?case
    using Cons.IH [OF rest] Cons.prems(2,3) member slot accepts fresh by (auto split: option.splits)
qed simp

lemma map_of_mustJSON:
  assumes "gomap_ok m"
  shows "\<exists>members. mustJSON m = JObject members \<and> distinct (map fst members) \<and> map_of members = map_of m"
proof -
  let ?sorted = "slice_sort (\<lambda>a b. fst a < fst b) m"
  have keys: "distinct (map fst ?sorted)"
    using assms by (simp add: gomap_ok_def distinct_map_slice_sort)
  have "map_of ?sorted k = map_of m k" for k
  proof (rule option_eqI)
    fix v show "map_of ?sorted k = Some v \<longleftrightarrow> map_of m k = Some v"
      using keys assms by (simp add: gomap_ok_def)
  qed
  then show ?thesis using keys by (auto simp: mustJSON_def)
qed

lemma decodeNested_map:
  assumes "decodeNested (Some (mustJSON m)) slots = Some decoded" "gomap_ok m" "keys_named slots m"
  shows "decoded k = (case map_of m k of Some v \<Rightarrow> if v = JNull then None else Some v | None \<Rightarrow> None)"
    and "map_of m k = Some v \<Longrightarrow> field_named slots k = Some (k, slot) \<Longrightarrow> slot_accepts slot v"
proof -
  obtain members where members: "mustJSON m = JObject members" "distinct (map fst members)" "map_of members = map_of m"
    using map_of_mustJSON [OF assms(2)] by blast
  have run: "decode_members slots members Map.empty = Some decoded"
    using assms(1) members(1) by (simp add: decodeNested_def decodeStrict_def)
  have "\<forall>(k, v)\<in>set members. \<exists>slot. field_named slots k = Some (k, slot)"
    using assms(3) [unfolded keys_named_def, folded members(3)] members(2) by auto
  note exact = decode_members_exact [OF run members(2) this, unfolded members(3)]
  show "decoded k = (case map_of m k of Some v \<Rightarrow> if v = JNull then None else Some v | None \<Rightarrow> None)"
    using exact by (auto split: option.splits)
  show "slot_accepts slot v" if "map_of m k = Some v" "field_named slots k = Some (k, slot)"
    using exact that by (metis option.inject prod.inject)
qed

text \<open>What the loop puts in the two maps.\<close>

lemma bundle_loop_maps:
  assumes "bundle_loop jt fs submitted metadata secrets = Inr (metadata', secrets')" "distinct (map fd_Key fs)"
    and "\<forall>f\<in>set fs. map_of metadata (fd_Key f) = None \<and> map_of secrets (fd_Key f) = None"
    and "gomap_ok metadata" "gomap_ok secrets"
  shows "gomap_ok metadata' \<and> gomap_ok secrets' \<and>
    (\<forall>f\<in>set fs. field_value jt f submitted = Inr (map_of (if fd_Metadata f then metadata' else secrets') (fd_Key f))) \<and>
    (\<forall>k. k \<notin> fd_Key ` {f \<in> set fs. fd_Metadata f} \<longrightarrow> map_of metadata' k = map_of metadata k) \<and>
    (\<forall>k. k \<notin> fd_Key ` {f \<in> set fs. \<not> fd_Metadata f} \<longrightarrow> map_of secrets' k = map_of secrets k)"
  using assms
proof (induction fs arbitrary: metadata secrets)
  case (Cons f fs)
  obtain v where v: "field_value jt f submitted = Inr v" using Cons.prems(1) by (auto split: sum.splits)
  let ?put = "\<lambda>m. case v of None \<Rightarrow> m | Some x \<Rightarrow> AList.update (fd_Key f) x m"
  let ?md = "if fd_Metadata f then ?put metadata else metadata"
  let ?sec = "if fd_Metadata f then secrets else ?put secrets"
  have run: "bundle_loop jt fs submitted ?md ?sec = Inr (metadata', secrets')"
    using Cons.prems(1) v by (auto split: option.splits if_splits)
  have fresh: "\<forall>g\<in>set fs. fd_Key g \<noteq> fd_Key f" using Cons.prems(2) by (auto dest: sym)
  have ih: "gomap_ok metadata' \<and> gomap_ok secrets' \<and>
    (\<forall>f\<in>set fs. field_value jt f submitted = Inr (map_of (if fd_Metadata f then metadata' else secrets') (fd_Key f))) \<and>
    (\<forall>k. k \<notin> fd_Key ` {f \<in> set fs. fd_Metadata f} \<longrightarrow> map_of metadata' k = map_of ?md k) \<and>
    (\<forall>k. k \<notin> fd_Key ` {f \<in> set fs. \<not> fd_Metadata f} \<longrightarrow> map_of secrets' k = map_of ?sec k)"
    by (rule Cons.IH [OF run]) (use Cons.prems fresh in \<open>auto split: option.splits\<close>)
  have notin: "fd_Key f \<notin> fd_Key ` {g \<in> set fs. P g}" for P using fresh by force
  have same: "map_of metadata' (fd_Key f) = map_of ?md (fd_Key f)" "map_of secrets' (fd_Key f) = map_of ?sec (fd_Key f)"
    using ih notin by blast+
  have here: "v = map_of (if fd_Metadata f then metadata' else secrets') (fd_Key f)"
    using same Cons.prems(3) by (auto split: option.splits)
  have other: "map_of ?md k = map_of metadata k" if "k \<notin> fd_Key ` {g \<in> set (f # fs). fd_Metadata g}" for k
    using that by (auto split: option.splits)
  have other': "map_of ?sec k = map_of secrets k" if "k \<notin> fd_Key ` {g \<in> set (f # fs). \<not> fd_Metadata g}" for k
    using that by (auto split: option.splits)
  show ?case using ih v here other other' by auto
qed simp

text \<open>A text field of the form holds the submitted text without the white space around it.\<close>

definition submitted_text :: "(string, anyValue) gomap \<Rightarrow> string \<Rightarrow> string" where
  "submitted_text submitted key = (case map_of submitted key of Some (AnyString s) \<Rightarrow> TrimSpace s | _ \<Rightarrow> [])"

definition submitted_int :: "JsonText \<Rightarrow> (string, anyValue) gomap \<Rightarrow> string \<Rightarrow> int option" where
  "submitted_int jt submitted key = Option.bind (map_of submitted key) (\<lambda>v. toInteger jt (trimmed_value v))"

lemma field_value_text:
  assumes "field_value jt f submitted = Inr v" "fd_ValueType f \<noteq> ''integer''" "\<And>x. v = Some x \<Longrightarrow> slot_accepts StringSlot x"
  shows "(case v of Some (JString s) \<Rightarrow> s | _ \<Rightarrow> []) = submitted_text submitted (fd_Key f)"
proof (cases "map_of submitted (fd_Key f)")
  case None
  then show ?thesis using assms(1) by (auto simp: field_value_def submitted_text_def split: if_splits)
next
  case (Some x)
  then show ?thesis
    using assms by (cases x) (auto simp: field_value_def submitted_text_def trimmed_value_def split: if_splits)
qed

lemma digit_sign: "is_digit c \<Longrightarrow> c \<noteq> CHR ''-'' \<and> c \<noteq> CHR ''+''"
  by (auto simp: is_digit_def)

lemma ParseInt_show_int:
  assumes "ParseInt 64 (show_int n) = Some k"
  shows "k = n"
proof (cases "n < 0")
  case True
  then show ?thesis using assms by (auto simp: show_int_def ParseInt_def show_nat_digits Let_def split: if_splits)
next
  case False
  have "hd (show_nat (nat n)) \<noteq> CHR ''-''" "hd (show_nat (nat n)) \<noteq> CHR ''+''"
    using show_nat_digits [of "nat n"] show_nat_ne [of "nat n"]
    by (metis (no_types, lifting) list.set_sel(1) list_all_iff digit_sign)+
  then show ?thesis using assms False by (auto simp: show_int_def ParseInt_def show_nat_digits Let_def split: if_splits)
qed

lemma ParseUint_show_int:
  assumes "ParseUint bits (show_int n) = Some k"
  shows "int k = n"
proof (cases "n < 0")
  case True
  then show ?thesis using assms by (auto simp: show_int_def ParseUint_def is_digit_def split: if_splits)
next
  case False
  then show ?thesis using assms by (auto simp: show_int_def ParseUint_def split: if_splits)
qed

lemma field_value_int:
  assumes "field_value jt f submitted = Inr v" "fd_ValueType f = ''integer''" "fd_Required f"
  shows "\<exists>n. submitted_int jt submitted (fd_Key f) = Some n \<and> v = Some (JNumber (show_int n))"
proof (cases "map_of submitted (fd_Key f)")
  case None
  then show ?thesis using assms by (simp add: field_value_def)
next
  case (Some x)
  then show ?thesis
    using assms by (auto simp: field_value_def submitted_int_def split: if_splits option.splits)
qed

text \<open>The slots of a decoder name the keys of the form's fields of one of the two groups.\<close>

definition slots_for :: "(string \<times> slot) list \<Rightarrow> bool \<Rightarrow> Field list \<Rightarrow> bool" where
  "slots_for slots meta fs \<longleftrightarrow>
     (\<forall>g\<in>set fs. fd_Metadata g = meta \<longrightarrow> (\<exists>slot. field_named slots (fd_Key g) = Some (fd_Key g, slot)))"

lemma bundled_value:
  assumes loop: "bundle_loop jt fs submitted [] [] = Inr (metadata, secrets)" "distinct (map fd_Key fs)"
    and f: "f \<in> set fs" "field_named slots (fd_Key f) = Some (fd_Key f, slot)" "slots_for slots (fd_Metadata f) fs"
    and nested: "decodeNested (Some (mustJSON (if fd_Metadata f then metadata else secrets))) slots = Some m"
  shows "\<exists>v. field_value jt f submitted = Inr v \<and> (\<forall>x. v = Some x \<longrightarrow> slot_accepts slot x) \<and>
    m (fd_Key f) = (case v of Some x \<Rightarrow> if x = JNull then None else Some x | None \<Rightarrow> None)"
proof -
  let ?m = "if fd_Metadata f then metadata else secrets"
  have maps: "gomap_ok metadata \<and> gomap_ok secrets"
      "\<forall>f\<in>set fs. field_value jt f submitted = Inr (map_of (if fd_Metadata f then metadata else secrets) (fd_Key f))"
      "\<And>k. k \<notin> fd_Key ` {f \<in> set fs. fd_Metadata f} \<Longrightarrow> map_of metadata k = None"
      "\<And>k. k \<notin> fd_Key ` {f \<in> set fs. \<not> fd_Metadata f} \<Longrightarrow> map_of secrets k = None"
    using bundle_loop_maps [OF loop] by simp_all
  have ok: "gomap_ok ?m" using maps(1) by simp
  have "keys_named slots ?m"
    unfolding keys_named_def
  proof (intro allI impI)
    fix k v assume "map_of ?m k = Some v"
    then have "k \<in> fd_Key ` {g \<in> set fs. fd_Metadata g = fd_Metadata f}"
      using maps(3,4) [of k] by (cases "fd_Metadata f"; cases "k \<in> fd_Key ` {g \<in> set fs. fd_Metadata g = fd_Metadata f}") simp_all
    then show "\<exists>slot. field_named slots k = Some (k, slot)" using f(3) by (auto simp: slots_for_def)
  qed
  note decoded = decodeNested_map [OF nested ok this]
  have "field_value jt f submitted = Inr (map_of ?m (fd_Key f))" using maps(2) f(1) by simp
  then show ?thesis using decoded(1) [of "fd_Key f"] decoded(2) [OF _ f(2)] by blast
qed

lemma bundled_text:
  assumes "bundle_loop jt fs submitted [] [] = Inr (metadata, secrets)" "distinct (map fd_Key fs)"
    and "f \<in> set fs" "field_named slots (fd_Key f) = Some (fd_Key f, StringSlot)" "slots_for slots (fd_Metadata f) fs"
    and "decodeNested (Some (mustJSON (if fd_Metadata f then metadata else secrets))) slots = Some m"
    and "fd_ValueType f \<noteq> ''integer''"
  shows "text_of m (fd_Key f) = submitted_text submitted (fd_Key f)"
proof -
  obtain v where v: "field_value jt f submitted = Inr v" "\<forall>x. v = Some x \<longrightarrow> slot_accepts StringSlot x"
      "m (fd_Key f) = (case v of Some x \<Rightarrow> if x = JNull then None else Some x | None \<Rightarrow> None)"
    using bundled_value [OF assms(1-6)] by blast
  have "(case v of Some (JString s) \<Rightarrow> s | _ \<Rightarrow> []) = submitted_text submitted (fd_Key f)"
    using field_value_text [OF v(1) assms(7)] v(2) by blast
  then show ?thesis using v(3) by (auto simp: text_of_def split: option.splits json.splits if_splits)
qed

lemma bundled_int:
  assumes "bundle_loop jt fs submitted [] [] = Inr (metadata, secrets)" "distinct (map fd_Key fs)"
    and "f \<in> set fs" "field_named slots (fd_Key f) = Some (fd_Key f, slot)" "slots_for slots (fd_Metadata f) fs"
    and "decodeNested (Some (mustJSON (if fd_Metadata f then metadata else secrets))) slots = Some m"
    and "fd_ValueType f = ''integer''" "fd_Required f"
  shows "\<exists>n. submitted_int jt submitted (fd_Key f) = Some n \<and> m (fd_Key f) = Some (JNumber (show_int n)) \<and>
    slot_accepts slot (JNumber (show_int n))"
  using bundled_value [OF assms(1-6)] field_value_int [OF _ assms(7,8)] by fastforce

fun credential_texts :: "Credential \<Rightarrow> (string \<times> string) list" where
  "credential_texts (APIKeySecret key secret) = [(''apiKey'', key), (''apiSecret'', secret)]"
| "credential_texts (APIKeySecretPassphrase key secret passphrase) =
     [(''apiKey'', key), (''apiSecret'', secret), (''passphrase'', passphrase)]"
| "credential_texts (LighterSigner key accountIndex keyIndex) = [(''privateKey'', key)]"
| "credential_texts (EVMPrivateKey key accountAddress) = [(''privateKey'', key), (''accountAddress'', accountAddress)]"
| "credential_texts (AsterAPIWallet key user signer) =
     [(''apiWalletPrivateKey'', key), (''userAddress'', user), (''expectedSigner'', signer)]"
| "credential_texts (NadoSigner key subaccount) = [(''privateKey'', key), (''subaccount'', subaccount)]"

fun credential_ints :: "Credential \<Rightarrow> (string \<times> int) list" where
  "credential_ints (LighterSigner key accountIndex keyIndex) = [(''accountIndex'', accountIndex), (''keyIndex'', uint keyIndex)]"
| "credential_ints _ = []"

text \<open>The struct fields the decoder of a kind has, from the form's fields.\<close>

definition field_slot :: "Field \<Rightarrow> slot" where
  "field_slot f = (if fd_ValueType f \<noteq> ''integer'' then StringSlot else if fd_Key f = ''keyIndex'' then Uint8Slot else Int64Slot)"

definition kind_slots :: "bool \<Rightarrow> Field list \<Rightarrow> (string \<times> slot) list" where
  "kind_slots meta fs = map (\<lambda>f. (fd_Key f, field_slot f)) (filter (\<lambda>f. fd_Metadata f = meta) fs)"

lemma field_named_kind_slots:
  assumes "distinct (map fd_Key fs)" "f \<in> set fs"
  shows "field_named (kind_slots (fd_Metadata f) fs) (fd_Key f) = Some (fd_Key f, field_slot f)"
proof -
  have "find (\<lambda>s. fst s = fd_Key f) (map (\<lambda>f. (fd_Key f, field_slot f)) (filter (\<lambda>g. fd_Metadata g = fd_Metadata f) fs)) =
      Some (fd_Key f, field_slot f)"
    using assms by (induction fs) (auto dest: sym)
  then show ?thesis by (simp add: field_named_def kind_slots_def)
qed

lemma slots_for_kind_slots: "distinct (map fd_Key fs) \<Longrightarrow> slots_for (kind_slots meta fs) meta fs"
  by (auto simp: slots_for_def dest: field_named_kind_slots)

lemmas schema_simps = schemaFields_def secret_field_def metadata_field_def

lemma schemaFields_distinct: "schemaFields kind = Some fs \<Longrightarrow> distinct (map fd_Key fs)"
  by (auto simp: schema_simps split: if_splits)

text \<open>Each member of the credentials is read from the slot of its field.\<close>

definition reads_from :: "Field list \<Rightarrow> (string \<rightharpoonup> json) \<Rightarrow> (string \<rightharpoonup> json) \<Rightarrow> Credential \<Rightarrow> bool" where
  "reads_from fs md sec credentials \<longleftrightarrow>
     fst ` set (credential_texts credentials) \<union> fst ` set (credential_ints credentials) = fd_Key ` set fs \<and>
     (\<forall>(key, value)\<in>set (credential_texts credentials). \<exists>f\<in>set fs. fd_Key f = key \<and> fd_ValueType f \<noteq> ''integer'' \<and>
        value = text_of (if fd_Metadata f then md else sec) key) \<and>
     (\<forall>(key, n)\<in>set (credential_ints credentials). \<exists>f\<in>set fs. fd_Key f = key \<and> fd_ValueType f = ''integer'' \<and>
        fd_Required f \<and> fd_Metadata f \<and>
        n = (if field_slot f = Uint8Slot then uint (uint8_of md key) else int_of md key))"

lemma decodeCredentials_reads:
  assumes kind: "schemaFields kind = Some fs"
    and decode: "decodeCredentials kind metadata secrets = Inr credentials"
  shows "\<exists>md sec. decodeNested metadata (kind_slots True fs) = Some md \<and>
    decodeNested secrets (kind_slots False fs) = Some sec \<and> reads_from fs md sec credentials"
proof -
  consider "kind = AuthAPIKeySecret" | "kind = AuthAPIKeySecretPassphrase" | "kind = AuthLighterSigner"
    | "kind = AuthEVMPrivateKey" | "kind = AuthAsterAPIWallet" | "kind = AuthNadoSigner"
    using kind by (auto simp: schemaFields_def split: if_splits)
  then show ?thesis
    by cases (use kind decode in \<open>auto simp: schema_simps kind_slots_def field_slot_def decodeCredentials_def reads_from_def
        split: option.splits if_splits\<close>)
qed

lemma read_slot_int:
  assumes "md (fd_Key f) = Some (JNumber (show_int n))" "slot_accepts (field_slot f) (JNumber (show_int n))"
    and "fd_ValueType f = ''integer''"
  shows "(if field_slot f = Uint8Slot then uint (uint8_of md (fd_Key f)) else int_of md (fd_Key f)) = n"
proof (cases "field_slot f = Uint8Slot")
  case True
  then obtain k where k: "ParseUint 8 (show_int n) = Some k" using assms(2) by auto
  have "k < 2 ^ 8" by (rule ParseUint_bound [OF k])
  then have "uint (of_nat k :: 8 word) = n" using ParseUint_show_int [OF k] by (simp add: uint_nat unat_of_nat)
  then show ?thesis using assms(1) k True by (simp add: uint8_of_def)
next
  case False
  then have "field_slot f = Int64Slot" using assms(3) by (auto simp: field_slot_def split: if_splits)
  then obtain k where k: "ParseInt 64 (show_int n) = Some k" using assms(2) by auto
  then show ?thesis using assms(1) ParseInt_show_int [OF k] False by (simp add: int_of_def)
qed

lemma bundled_credentials:
  assumes kind: "schemaFields kind = Some fs" and loop: "bundle_loop jt fs submitted [] [] = Inr (metadata, secrets)"
    and decode: "decodeCredentials kind (Some (mustJSON metadata)) (Some (mustJSON secrets)) = Inr credentials"
  shows "fst ` set (credential_texts credentials) \<union> fst ` set (credential_ints credentials) = fd_Key ` set fs \<and>
    (\<forall>(key, value)\<in>set (credential_texts credentials). value = submitted_text submitted key) \<and>
    (\<forall>(key, n)\<in>set (credential_ints credentials). submitted_int jt submitted key = Some n)"
proof -
  note d = schemaFields_distinct [OF kind]
  obtain md sec where nested: "decodeNested (Some (mustJSON metadata)) (kind_slots True fs) = Some md"
      "decodeNested (Some (mustJSON secrets)) (kind_slots False fs) = Some sec"
    and reads: "reads_from fs md sec credentials"
    using decodeCredentials_reads [OF kind decode] by blast
  have texts: "text_of (if fd_Metadata f then md else sec) (fd_Key f) = submitted_text submitted (fd_Key f)"
    if f: "f \<in> set fs" "fd_ValueType f \<noteq> ''integer''" for f
  proof (rule bundled_text [OF loop d f(1) _ _ _ f(2)])
    show "field_named (kind_slots (fd_Metadata f) fs) (fd_Key f) = Some (fd_Key f, StringSlot)"
      using field_named_kind_slots [OF d f(1)] f(2) by (simp add: field_slot_def)
  qed (use nested slots_for_kind_slots [OF d] in auto)
  have ints: "submitted_int jt submitted (fd_Key f) =
      Some (if field_slot f = Uint8Slot then uint (uint8_of md (fd_Key f)) else int_of md (fd_Key f))"
    if f: "f \<in> set fs" "fd_ValueType f = ''integer''" "fd_Required f" "fd_Metadata f" for f
  proof -
    have "decodeNested (Some (mustJSON (if fd_Metadata f then metadata else secrets))) (kind_slots (fd_Metadata f) fs) = Some md"
      using nested f(4) by simp
    from bundled_int [OF loop d f(1) field_named_kind_slots [OF d f(1)] slots_for_kind_slots [OF d] this f(2,3)]
    obtain n where n: "submitted_int jt submitted (fd_Key f) = Some n" "md (fd_Key f) = Some (JNumber (show_int n))"
        "slot_accepts (field_slot f) (JNumber (show_int n))" by blast
    show ?thesis using n(1) read_slot_int [of md f n, OF n(2,3) f(2)] by simp
  qed
  show ?thesis using reads texts ints by (force simp: reads_from_def)
qed

text \<open>The tree that a form is marshalled from.\<close>

definition submitted_tree :: "JsonText \<Rightarrow> AuthRegistry \<Rightarrow> string \<Rightarrow> (string, anyValue) gomap \<Rightarrow> json option" where
  "submitted_tree jt registry venue submitted =
     (case registry_Schema registry venue of
        Inl err \<Rightarrow> None
      | Inr schema \<Rightarrow>
          (case bundle_loop jt (sc_Fields schema) submitted [] [] of
             Inl err \<Rightarrow> None
           | Inr (metadata, secrets) \<Rightarrow> Some (bundle_tree venue (sc_AuthKind schema) metadata secrets)))"

lemma envelope_members:
  "decodeStrict BundleV1 (bundle_tree venue kind metadata secrets) = Some bundle \<Longrightarrow>
   bundle ''metadata'' = Some (mustJSON metadata) \<and> bundle ''secrets'' = Some (mustJSON secrets)"
  by (auto simp: decodeStrict_def bundle_tree_def BundleV1_def field_named_def mustJSON_def split: if_splits)

lemma manager_bundle_Inr:
  assumes "manager_bundle jt registry venue submitted = Inr payload"
  obtains kind fs metadata secrets where "registry venue = Some kind" "schemaFields kind = Some fs"
    "bundle_loop jt fs submitted [] [] = Inr (metadata, secrets)"
    "payload = jt_marshal jt (bundle_tree venue kind metadata secrets)"
    "submitted_tree jt registry venue submitted = Some (bundle_tree venue kind metadata secrets)"
    "fst ` set submitted \<subseteq> fd_Key ` set fs"
proof -
  obtain schema metadata secrets where schema: "registry_Schema registry venue = Inr schema"
      and loop: "bundle_loop jt (sc_Fields schema) submitted [] [] = Inr (metadata, secrets)"
      and known: "find (\<lambda>(key, v). key \<notin> fd_Key ` set (sc_Fields schema)) submitted = None"
      and payload: "payload = jt_marshal jt (bundle_tree venue (sc_AuthKind schema) metadata secrets)"
    using assms by (auto simp: manager_bundle_def split: sum.splits option.splits prod.splits)
  have "registry venue = Some (sc_AuthKind schema)" "schemaFields (sc_AuthKind schema) = Some (sc_Fields schema)"
    using schema by (auto simp: registry_Schema_def split: option.splits)
  moreover have "fst ` set submitted \<subseteq> fd_Key ` set (sc_Fields schema)"
    using known by (force simp: find_None_iff)
  ultimately show ?thesis
    using that [of "sc_AuthKind schema" "sc_Fields schema"] loop payload schema by (simp add: submitted_tree_def)
qed


section \<open>Integers typed into the form\<close>

text \<open>What a text is read as: a base prefix or a leading zero counts, and what follows the number is ignored.\<close>

lemma strip_printable: "s \<noteq> [] \<Longrightarrow> printable (hd s) \<Longrightarrow> strip space_runes s = s"
  by (rule strip_hd) (use space_runes_hd in metis)+

lemmas scan_simps = Sscan_int64_def scan_token_def scan_digits_def ParseInt0_def magnitude_def base_of_def digit_in_def hex_val_def
  is_digit_def digit_val_def based_val_def underscoreOK_def strip_printable printable_code Let_def

lemma scanned_integers:
  "Sscan_int64 ''12'' = Some 12" "Sscan_int64 ''12abc'' = Some 12" "Sscan_int64 ''010'' = Some 8"
  "Sscan_int64 ''0x1F'' = Some 31" "Sscan_int64 ''-1_000'' = Some (- 1000)" "Sscan_int64 ''08'' = Some 0"
  "Sscan_int64 ''1__0'' = None" "Sscan_int64 ''abc'' = None" "Sscan_int64 [] = None"
  by (simp_all add: scan_simps)

section \<open>An instance\<close>

definition sample_form :: "(string, anyValue) gomap" where
  "sample_form = [(''accountIndex'', AnyString ''12''), (''keyIndex'', AnyFloat 3), (''privateKey'', AnyString ''k'')]"

definition sample_tree :: json where
  "sample_tree = bundle_tree ''lighter'' AuthLighterSigner
     [(''accountIndex'', JNumber ''12''), (''keyIndex'', JNumber ''3'')] [(''privateKey'', JString ''k'')]"

definition sample_json :: JsonText where
  "sample_json = \<lparr>jt_marshal = (\<lambda>v. if v = sample_tree then ''bundle'' else ''other''),
     jt_parse = (\<lambda>s. if s = ''bundle'' then Some sample_tree else None),
     jt_float = (\<lambda>x. ''1''), jt_quote = (\<lambda>s. s), jt_wide = (\<lambda>x. None)\<rparr>"

lemma sample_loop:
  "bundle_loop sample_json (the (schemaFields AuthLighterSigner)) sample_form [] [] =
     Inr ([(''accountIndex'', JNumber ''12''), (''keyIndex'', JNumber ''3'')], [(''privateKey'', JString ''k'')])"
proof -
  have "show_int 12 = ''12''" "show_int 3 = ''3''" by code_simp+
  moreover have "Sscan_int64 (TrimSpace ''12'') = Some 12" "TrimSpace ''k'' = ''k''"
    using scanned_integers(1) by (simp_all add: TrimSpace_printable printable_code)
  ultimately show ?thesis
    by (simp add: schema_simps sample_form_def field_value_def trimmed_value_def)
qed

lemma sample_submitted:
  "submitted_tree sample_json defaultAuthKinds ''lighter'' sample_form = Some sample_tree"
  "manager_bundle sample_json defaultAuthKinds ''lighter'' sample_form = Inr ''bundle''"
proof -
  have schema: "registry_Schema defaultAuthKinds ''lighter'' =
      Inr \<lparr>sc_SchemaVersion = 1, sc_AuthKind = AuthLighterSigner, sc_Fields = the (schemaFields AuthLighterSigner)\<rparr>"
    by (simp add: registry_Schema_def defaultAuthKinds_def schemaFields_def)
  have known: "find (\<lambda>(key, v). key \<notin> fd_Key ` set (the (schemaFields AuthLighterSigner))) sample_form = None"
    by (simp add: sample_form_def schema_simps)
  have marshal: "jt_marshal sample_json sample_tree = ''bundle''" by (simp add: sample_json_def)
  show "submitted_tree sample_json defaultAuthKinds ''lighter'' sample_form = Some sample_tree"
    by (simp add: submitted_tree_def schema sample_loop sample_tree_def)
  show "manager_bundle sample_json defaultAuthKinds ''lighter'' sample_form = Inr ''bundle''"
    using marshal by (simp add: manager_bundle_def schema sample_loop known sample_tree_def)
qed

lemma sample_decodes:
  "registry_Decode (jt_parse sample_json) defaultAuthKinds ''lighter'' ''bundle'' =
     Inr \<lparr>dd_Venue = ''lighter'', dd_AuthKind = AuthLighterSigner, dd_Credentials = LighterSigner ''k'' 12 3\<rparr>"
proof -
  have numbers: "ParseInt 64 ''12'' = Some 12" "ParseUint 8 ''3'' = Some 3" "ParseInt 64 ''1'' = Some 1"
    by (simp_all add: ParseInt_def ParseUint_def is_digit_def digits_val_def digit_val_def)
  have sizes: "maxStringBytes = 8192" "maxBundleBytes = 32768" by simp_all
  have tree: "sample_tree = JObject [(''schemaVersion'', JNumber ''1''), (''venue'', JString ''lighter''),
      (''authKind'', JString AuthLighterSigner),
      (''metadata'', JObject [(''accountIndex'', JNumber ''12''), (''keyIndex'', JNumber ''3'')]),
      (''secrets'', JObject [(''privateKey'', JString ''k'')])]"
    by (simp add: sample_tree_def bundle_tree_def mustJSON_def)
  have name: "ToLower (TrimSpace ''lighter'') = ''lighter''"
    by (simp add: TrimSpace_printable printable_code lower_char_def)
  have scan: "scanJSONValue sample_tree" by (simp add: tree sizes)
  obtain m where m: "decodeStrict BundleV1 sample_tree = Some m" "text_of m ''venue'' = ''lighter''"
      "int_of m ''schemaVersion'' = 1" "text_of m ''authKind'' = AuthLighterSigner"
      "m ''metadata'' = Some (JObject [(''accountIndex'', JNumber ''12''), (''keyIndex'', JNumber ''3'')])"
      "m ''secrets'' = Some (JObject [(''privateKey'', JString ''k'')])"
    using numbers by (simp add: tree decodeStrict_def BundleV1_def field_named_def text_of_def int_of_def)
  have "decodeCredentials AuthLighterSigner (m ''metadata'') (m ''secrets'') = Inr (LighterSigner ''k'' 12 3)"
    using numbers
    by (simp add: m(5,6) decodeCredentials_def decodeNested_def decodeStrict_def field_named_def text_of_def int_of_def uint8_of_def)
  then show ?thesis
    using m(1-4) scan name by (simp add: registry_Decode_def sample_json_def defaultAuthKinds_def sizes)
qed


end
