(* ===== verification/Account_Store.thy ===== *)
theory Account_Store
  imports Errors
begin

text \<open>
  The encrypted account file: the record cipher (secretstore/cipher.go) and the store that keeps the
  accounts in memory and in one file (gateway/store/store.go). The authenticated encryption of
  crypto/cipher, the JSON text of the records and the answers of the file system are parameters;
  \<open>aead_ok\<close> and \<open>text_ok\<close> state what the sources rely on of the first two.
\<close>

section \<open>The record cipher\<close>

record AEAD =
  NonceSize :: nat
  Overhead :: nat
  aead_Seal :: "string \<Rightarrow> string \<Rightarrow> string \<Rightarrow> string"
  aead_Open :: "string \<Rightarrow> string \<Rightarrow> string \<Rightarrow> string option"

abbreviation ErrIntegrity :: goerror where
  "ErrIntegrity \<equiv> SentinelError ''secretstore.ErrIntegrity'' ''SECRET_STORE_INTEGRITY_FAILURE''"

abbreviation ErrUnavailable :: goerror where
  "ErrUnavailable \<equiv> SentinelError ''secretstore.ErrUnavailable'' ''SECRET_STORE_UNAVAILABLE''"

definition additional_data :: "string \<Rightarrow> string \<Rightarrow> string" where
  "additional_data accountID venue = ''bolter-account-v1'' @ [CHR 0x00] @ accountID @ [CHR 0x00] @ venue"

text \<open>Seal; the nonce is what rand.Read filled, None when it failed.\<close>

definition cipher_Seal :: "AEAD \<Rightarrow> string option \<Rightarrow> string \<Rightarrow> string \<Rightarrow> string \<Rightarrow> goerror + string" where
  "cipher_Seal aead nonce accountID venue material =
     (if accountID = [] \<or> venue = [] \<or> material = [] then Inl ErrUnavailable
      else (case nonce of
              None \<Rightarrow> Inl ErrUnavailable
            | Some n \<Rightarrow> Inr (n @ aead_Seal aead n material (additional_data accountID venue))))"

definition cipher_Open :: "AEAD \<Rightarrow> string \<Rightarrow> string \<Rightarrow> string \<Rightarrow> goerror + string" where
  "cipher_Open aead accountID venue sealed =
     (if length sealed < NonceSize aead + Overhead aead then Inl ErrIntegrity
      else (case aead_Open aead (take (NonceSize aead) sealed) (drop (NonceSize aead) sealed)
                   (additional_data accountID venue) of
              None \<Rightarrow> Inl ErrIntegrity
            | Some plain \<Rightarrow> Inr plain))"

section \<open>Accounts\<close>

record Account =
  ac_ID :: string
  ac_Venue :: string
  ac_Label :: string
  ac_CreatedAt :: Time

record StoreRecord =
  sr_Account :: Account
  sr_Sealed :: string

abbreviation ErrStoreNotFound :: goerror where
  "ErrStoreNotFound \<equiv> SentinelError ''store.ErrNotFound'' ''account not found''"

abbreviation ErrExists :: goerror where
  "ErrExists \<equiv> SentinelError ''store.ErrExists'' ''account already exists''"

type_synonym Store = "(string, StoreRecord) gomap"

text \<open>The text of the records: json.Marshal and json.Unmarshal.\<close>

record RecordText =
  rx_Marshal :: "StoreRecord list \<Rightarrow> goerror + string"
  rx_Unmarshal :: "string \<Rightarrow> goerror + StoreRecord list"

fun open_records :: "AEAD \<Rightarrow> StoreRecord list \<Rightarrow> Store \<Rightarrow> goerror + Store" where
  "open_records aead [] store = Inr store"
| "open_records aead (item # items) store =
     (let account = sr_Account item in
      case cipher_Open aead (ac_ID account) (ac_Venue account) (sr_Sealed item) of
        Inl err \<Rightarrow> Inl (PlainError (''account '' @ ac_ID account @ '' cannot be decrypted with the configured key''))
      | Inr plain \<Rightarrow> open_records aead items (AList.update (ac_ID account) item store))"

text \<open>Open; the file is None when it does not exist, an error when it cannot be read.\<close>

definition store_Open :: "AEAD \<Rightarrow> RecordText \<Rightarrow> (goerror + string) option \<Rightarrow> goerror + Store" where
  "store_Open aead tx file =
     (case file of
        None \<Rightarrow> Inr []
      | Some (Inl err) \<Rightarrow> Inl (WrapError (''read account store: '' @ error_text err) [err])
      | Some (Inr content) \<Rightarrow>
          (case rx_Unmarshal tx content of
             Inl err \<Rightarrow> Inl (WrapError (''account store is corrupt: '' @ error_text err) [err])
           | Inr records \<Rightarrow> open_records aead records []))"

abbreviation account_before :: "Account \<Rightarrow> Account \<Rightarrow> bool" where
  "account_before a b \<equiv> ac_CreatedAt a < ac_CreatedAt b"

definition store_List :: "Store \<Rightarrow> Account list" where
  "store_List store = slice_sort account_before (map (\<lambda>(k, item). sr_Account item) store)"

definition store_Get :: "AEAD \<Rightarrow> Store \<Rightarrow> string \<Rightarrow> goerror + Account \<times> string" where
  "store_Get aead store iid =
     (case map_of store iid of
        None \<Rightarrow> Inl ErrStoreNotFound
      | Some item \<Rightarrow>
          (let account = sr_Account item in
           case cipher_Open aead (ac_ID account) (ac_Venue account) (sr_Sealed item) of
             Inl err \<Rightarrow> Inl err
           | Inr plain \<Rightarrow> Inr (account, plain)))"

section \<open>The file\<close>

text \<open>What lies at the path of the store, and in the temporary file beside it.\<close>

record Disk =
  dk_path :: "string option"
  dk_temp :: "string option"

datatype FlushStep = MkdirAll | CreateTemp | ChmodTemp | WriteTemp string | SyncTemp | CloseTemp | Rename

fun disk_do :: "FlushStep \<Rightarrow> Disk \<Rightarrow> Disk" where
  "disk_do CreateTemp disk = disk\<lparr>dk_temp := Some []\<rparr>"
| "disk_do (WriteTemp content) disk = disk\<lparr>dk_temp := Some content\<rparr>"
| "disk_do Rename disk = disk\<lparr>dk_path := dk_temp disk, dk_temp := None\<rparr>"
| "disk_do _ disk = disk"

definition flush_steps :: "string \<Rightarrow> FlushStep list" where
  "flush_steps content = [MkdirAll, CreateTemp, ChmodTemp, WriteTemp content, SyncTemp, CloseTemp, Rename]"

text \<open>
  The steps until one fails: its error, and the states of the disk from the first to the last. The
  deferred removal of the temporary file is the last state.
\<close>

fun flush_run :: "(FlushStep \<Rightarrow> goerror option) \<Rightarrow> FlushStep list \<Rightarrow> Disk \<Rightarrow> goerror option \<times> Disk list" where
  "flush_run answer [] disk = (None, [disk, disk\<lparr>dk_temp := None\<rparr>])"
| "flush_run answer (step # steps) disk =
     (case answer step of
        Some err \<Rightarrow> (Some err, [disk, disk\<lparr>dk_temp := None\<rparr>])
      | None \<Rightarrow> (case flush_run answer steps (disk_do step disk) of (err, disks) \<Rightarrow> (err, disk # disks)))"

abbreviation record_before :: "StoreRecord \<Rightarrow> StoreRecord \<Rightarrow> bool" where
  "record_before a b \<equiv> account_before (sr_Account a) (sr_Account b)"

definition flushLocked ::
  "RecordText \<Rightarrow> (FlushStep \<Rightarrow> goerror option) \<Rightarrow> Store \<Rightarrow> Disk \<Rightarrow> goerror option \<times> Disk list" where
  "flushLocked tx answer store disk =
     (case rx_Marshal tx (slice_sort record_before (map snd store)) of
        Inl err \<Rightarrow> (Some err, [disk])
      | Inr content \<Rightarrow> flush_run answer (flush_steps content) disk)"

section \<open>Create and Delete\<close>

text \<open>The error, the store and the states of the disk.\<close>

definition store_Create ::
  "AEAD \<Rightarrow> RecordText \<Rightarrow> string option \<Rightarrow> (FlushStep \<Rightarrow> goerror option) \<Rightarrow> Account \<Rightarrow> string \<Rightarrow> Store \<Rightarrow> Disk \<Rightarrow>
   goerror option \<times> Store \<times> Disk list" where
  "store_Create aead tx nonce answer account bundle store disk =
     (case cipher_Seal aead nonce (ac_ID account) (ac_Venue account) bundle of
        Inl err \<Rightarrow> (Some err, store, [disk])
      | Inr sealed \<Rightarrow>
          if map_of store (ac_ID account) \<noteq> None then (Some ErrExists, store, [disk])
          else
            (let store1 = AList.update (ac_ID account) \<lparr>sr_Account = account, sr_Sealed = sealed\<rparr> store in
             case flushLocked tx answer store1 disk of
               (Some err, disks) \<Rightarrow> (Some err, AList.delete (ac_ID account) store1, disks)
             | (None, disks) \<Rightarrow> (None, store1, disks)))"

definition store_Delete ::
  "RecordText \<Rightarrow> (FlushStep \<Rightarrow> goerror option) \<Rightarrow> string \<Rightarrow> Store \<Rightarrow> Disk \<Rightarrow> goerror option \<times> Store \<times> Disk list" where
  "store_Delete tx answer iid store disk =
     (case map_of store iid of
        None \<Rightarrow> (Some ErrStoreNotFound, store, [disk])
      | Some item \<Rightarrow>
          (let store1 = AList.delete iid store in
           case flushLocked tx answer store1 disk of
             (Some err, disks) \<Rightarrow> (Some err, AList.update iid item store1, disks)
           | (None, disks) \<Rightarrow> (None, store1, disks)))"

section \<open>What the sources rely on\<close>

text \<open>
  Opening succeeds exactly on what sealing produced, and the text of records is read back. A record is
  sealed with a fresh nonce of the cipher's size.
\<close>

definition aead_ok :: "AEAD \<Rightarrow> bool" where
  "aead_ok aead \<longleftrightarrow>
     (\<forall>n c ad m. length n = NonceSize aead \<longrightarrow> (aead_Open aead n c ad = Some m \<longleftrightarrow> c = aead_Seal aead n m ad)) \<and>
     (\<forall>n m ad. length (aead_Seal aead n m ad) = length m + Overhead aead)"

definition text_ok :: "RecordText \<Rightarrow> bool" where
  "text_ok tx \<longleftrightarrow> (\<forall>records content. rx_Marshal tx records = Inr content \<longrightarrow> rx_Unmarshal tx content = Inr records)"

lemma cipher_roundtrip:
  assumes "aead_ok aead" "cipher_Seal aead nonce iid venue material = Inr sealed"
    and "\<And>n. nonce = Some n \<Longrightarrow> length n = NonceSize aead"
  shows "cipher_Open aead iid venue sealed = Inr material"
proof -
  obtain n where n: "nonce = Some n" and sealed: "sealed = n @ aead_Seal aead n material (additional_data iid venue)"
    using assms(2) by (auto simp: cipher_Seal_def split: if_splits option.splits)
  have size: "length n = NonceSize aead" by (rule assms(3) [OF n])
  then have "aead_Open aead n (aead_Seal aead n material ad) ad = Some material" for ad
    using assms(1) unfolding aead_ok_def by blast
  moreover have "length (aead_Seal aead n material ad) = length material + Overhead aead" for ad
    using assms(1) unfolding aead_ok_def by blast
  ultimately show ?thesis
    using size by (simp add: cipher_Open_def sealed)
qed

text \<open>
  The additional data tell the accounts apart, since the name of a venue has no zero byte: a sealed
  record that opens for another account or venue is a collision of the encryption itself.
\<close>

lemma additional_data_inj:
  assumes "additional_data a v = additional_data a' v'" "CHR 0x00 \<notin> set v" "CHR 0x00 \<notin> set v'"
  shows "a = a' \<and> v = v'"
proof -
  have eq: "a @ CHR 0x00 # v = a' @ CHR 0x00 # v'" using assms(1) by (simp add: additional_data_def)
  have last: "takeWhile (\<lambda>c. c \<noteq> CHR 0x00) (rev (x @ CHR 0x00 # y)) = rev y" if "CHR 0x00 \<notin> set y" for x y :: string
  proof -
    have "takeWhile (\<lambda>c. c \<noteq> CHR 0x00) (rev y @ CHR 0x00 # rev x) = rev y @ takeWhile (\<lambda>c. c \<noteq> CHR 0x00) (CHR 0x00 # rev x)"
      by (rule takeWhile_append2) (use that in auto)
    then show ?thesis by simp
  qed
  have "rev v = rev v'" using last [OF assms(2), of a] last [OF assms(3), of a'] eq by metis
  then have "v = v'" by simp
  with eq show ?thesis by simp
qed

section \<open>Invariant\<close>

definition file_of :: "Disk \<Rightarrow> (goerror + string) option" where
  "file_of disk = map_option Inr (dk_path disk)"

definition opens :: "AEAD \<Rightarrow> StoreRecord \<Rightarrow> bool" where
  "opens aead r \<longleftrightarrow> (\<exists>plain. cipher_Open aead (ac_ID (sr_Account r)) (ac_Venue (sr_Account r)) (sr_Sealed r) = Inr plain)"

definition record_id :: "StoreRecord \<Rightarrow> string" where
  "record_id r = ac_ID (sr_Account r)"

definition store_ok :: "AEAD \<Rightarrow> Store \<Rightarrow> bool" where
  "store_ok aead store \<longleftrightarrow> gomap_ok store \<and> (\<forall>k r. map_of store k = Some r \<longrightarrow> record_id r = k \<and> opens aead r)"

text \<open>The disk holds the records of the store (no file for the first, empty one).\<close>

definition on_disk :: "RecordText \<Rightarrow> Store \<Rightarrow> Disk \<Rightarrow> bool" where
  "on_disk tx store disk \<longleftrightarrow>
     (dk_path disk = None \<and> store = []) \<or>
     (\<exists>content records. dk_path disk = Some content \<and> rx_Unmarshal tx content = Inr records \<and>
        distinct (map record_id records) \<and> set records = snd ` set store)"

lemma open_records_ok:
  assumes "list_all (opens aead) records" "distinct (map record_id records)"
  shows "\<exists>store. open_records aead records acc = Inr store \<and>
    (gomap_ok acc \<longrightarrow> gomap_ok store) \<and>
    (\<forall>k. map_of store k = (case find (\<lambda>r. record_id r = k) records of Some r \<Rightarrow> Some r | None \<Rightarrow> map_of acc k))"
  using assms
proof (induction records arbitrary: acc)
  case (Cons r records)
  obtain plain where plain: "cipher_Open aead (ac_ID (sr_Account r)) (ac_Venue (sr_Account r)) (sr_Sealed r) = Inr plain"
    using Cons.prems(1) by (auto simp: opens_def)
  obtain store where store: "open_records aead records (AList.update (ac_ID (sr_Account r)) r acc) = Inr store"
      "gomap_ok acc \<longrightarrow> gomap_ok store"
      "\<forall>k. map_of store k = (case find (\<lambda>r. record_id r = k) records of Some r \<Rightarrow> Some r
         | None \<Rightarrow> map_of (AList.update (ac_ID (sr_Account r)) r acc) k)"
    using Cons.IH [of "AList.update (ac_ID (sr_Account r)) r acc"] Cons.prems by auto
  have "find (\<lambda>r'. record_id r' = record_id r) records = None"
    using Cons.prems(2) by (auto simp: find_None_iff) (metis imageI)
  then show ?case
    using plain store by (auto simp: record_id_def split: option.splits)
qed simp

lemma find_record:
  assumes "distinct (map record_id records)" "set records = snd ` set store" "store_ok aead store"
  shows "find (\<lambda>r. record_id r = k) records = map_of store k"
proof (cases "map_of store k")
  case None
  have "record_id r \<noteq> k" if "r \<in> set records" for r
  proof -
    have "r \<in> snd ` set store" using that by (simp only: assms(2))
    then obtain k' where "(k', r) \<in> set store" by auto
    then have "map_of store k' = Some r" using assms(3) by (simp add: store_ok_def gomap_in_set)
    then show ?thesis using assms(3) None by (auto simp: store_ok_def)
  qed
  then show ?thesis using None by (auto simp: find_None_iff)
next
  case (Some r)
  have r: "r \<in> set records" "record_id r = k"
    using Some assms(2,3) by (auto simp: store_ok_def dest: map_of_SomeD intro: rev_image_eqI)
  then have "find (\<lambda>r. record_id r = k) records \<noteq> None" by (auto simp: find_None_iff)
  then obtain r' where r': "find (\<lambda>r. record_id r = k) records = Some r'" by blast
  then have "r' \<in> set records" "record_id r' = k" by (auto simp: find_Some_iff)
  then have "r' = r" using r assms(1) by (metis distinct_map inj_onD)
  then show ?thesis using r' Some by simp
qed

lemma store_reopens:
  assumes "store_ok aead store" "on_disk tx store disk"
  shows "\<exists>reopened. store_Open aead tx (file_of disk) = Inr reopened \<and> store_ok aead reopened \<and> map_of reopened = map_of store"
proof (cases "dk_path disk")
  case None
  then show ?thesis using assms by (auto simp: file_of_def store_Open_def on_disk_def)
next
  case (Some content)
  then obtain records where records: "rx_Unmarshal tx content = Inr records" "distinct (map record_id records)"
      "set records = snd ` set store"
    using assms(2) by (auto simp: on_disk_def)
  have "list_all (opens aead) records"
    using assms(1) records(3) by (auto simp: list_all_iff store_ok_def gomap_in_set [symmetric])
  from open_records_ok [OF this records(2), of "[]"] obtain reopened where
    reopened: "open_records aead records [] = Inr reopened" "gomap_ok reopened"
      "\<forall>k. map_of reopened k = (case find (\<lambda>r. record_id r = k) records of Some r \<Rightarrow> Some r | None \<Rightarrow> map_of [] k)"
    using gomap_ok_Nil by metis
  have "map_of reopened = map_of store"
    using find_record [OF records(2,3) assms(1)] reopened(3) by (auto simp: fun_eq_iff split: option.splits)
  moreover have "store_ok aead reopened"
    using assms(1) reopened(2) calculation by (simp add: store_ok_def)
  ultimately show ?thesis
    using Some records(1) reopened(1) by (simp add: file_of_def store_Open_def)
qed

lemma on_disk_path: "dk_path d = dk_path disk \<Longrightarrow> on_disk tx store d \<longleftrightarrow> on_disk tx store disk"
  by (simp add: on_disk_def)

lemma on_disk_of_records:
  assumes "text_ok tx" "store_ok aead store" "rx_Marshal tx (slice_sort record_before (map snd store)) = Inr content"
    and "dk_path d = Some content"
  shows "on_disk tx store d"
proof -
  have "map record_id (map snd store) = map fst store"
    using assms(2) by (auto simp: store_ok_def gomap_in_set [symmetric])
  then have "distinct (map record_id (map snd store))"
    using assms(2) by (simp only: store_ok_def gomap_ok_def)
  then have "distinct (map record_id (slice_sort record_before (map snd store)))"
    by (simp only: distinct_map_slice_sort)
  moreover have "rx_Unmarshal tx content = Inr (slice_sort record_before (map snd store))"
    using assms(1,3) by (simp add: text_ok_def)
  ultimately show ?thesis using assms(4) by (auto simp: on_disk_def)
qed

text \<open>The file at the path is the old one until the rename, and the new one from then on.\<close>

lemma flush_run_path:
  "flush_run answer (flush_steps content) disk = (err, disks) \<Longrightarrow>
   disks \<noteq> [] \<and> dk_path (last disks) = (if err = None then Some content else dk_path disk) \<and>
   (\<forall>d \<in> set disks. dk_path d = dk_path disk \<or> err = None \<and> dk_path d = Some content)"
  by (auto simp: flush_steps_def split: option.splits)

lemma flushLocked_path:
  assumes "text_ok tx" "store_ok aead store" "flushLocked tx answer store disk = (err, disks)"
  shows "disks \<noteq> []"
    and "err = None \<Longrightarrow> on_disk tx store (last disks)"
    and "err \<noteq> None \<Longrightarrow> dk_path (last disks) = dk_path disk"
    and "d \<in> set disks \<Longrightarrow> dk_path d = dk_path disk \<or> err = None \<and> on_disk tx store d"
  using assms(3) on_disk_of_records [OF assms(1,2)]
  by (auto simp: flushLocked_def split: sum.splits dest!: flush_run_path)

section \<open>The vault\<close>

text \<open>What the store promises: a map from the account to its description and its credentials.\<close>

definition vault :: "AEAD \<Rightarrow> Store \<Rightarrow> string \<rightharpoonup> Account \<times> string" where
  "vault aead store iid = (case store_Get aead store iid of Inl err \<Rightarrow> None | Inr entry \<Rightarrow> Some entry)"

lemma vault_cong: "map_of s = map_of t \<Longrightarrow> vault aead s = vault aead t"
  by (auto simp: vault_def store_Get_def)

definition create_vault :: "AEAD \<Rightarrow> Account \<Rightarrow> string \<Rightarrow> Store \<Rightarrow> string \<rightharpoonup> Account \<times> string" where
  "create_vault aead account bundle store = (vault aead store)(ac_ID account \<mapsto> (account, bundle))"

text \<open>
  Every way the program comes to a store and a disk: the first start, a creation or a deletion with any
  answers of the file system, and a restart on the disk as it is at any moment of one.
\<close>

inductive store_reach :: "AEAD \<Rightarrow> RecordText \<Rightarrow> Store \<Rightarrow> Disk \<Rightarrow> bool" for aead tx where
  first: "store_reach aead tx [] \<lparr>dk_path = None, dk_temp = None\<rparr>"
| create: "store_reach aead tx store disk \<Longrightarrow> (\<And>n. nonce = Some n \<Longrightarrow> length n = NonceSize aead) \<Longrightarrow>
    store_Create aead tx nonce answer account bundle store disk = (err, store', disks) \<Longrightarrow>
    store_reach aead tx store' (last disks)"
| delete: "store_reach aead tx store disk \<Longrightarrow> store_Delete tx answer iid store disk = (err, store', disks) \<Longrightarrow>
    store_reach aead tx store' (last disks)"
| crash_create: "store_reach aead tx store disk \<Longrightarrow> (\<And>n. nonce = Some n \<Longrightarrow> length n = NonceSize aead) \<Longrightarrow>
    store_Create aead tx nonce answer account bundle store disk = (err, store', disks) \<Longrightarrow> d \<in> set disks \<Longrightarrow>
    store_Open aead tx (file_of d) = Inr reopened \<Longrightarrow> store_reach aead tx reopened d"
| crash_delete: "store_reach aead tx store disk \<Longrightarrow> store_Delete tx answer iid store disk = (err, store', disks) \<Longrightarrow>
    d \<in> set disks \<Longrightarrow> store_Open aead tx (file_of d) = Inr reopened \<Longrightarrow> store_reach aead tx reopened d"

text \<open>One change of the store: the new store and the states of the disk it leaves.\<close>

definition safe_change :: "AEAD \<Rightarrow> RecordText \<Rightarrow> Store \<Rightarrow> Store \<Rightarrow> Disk list \<Rightarrow> bool" where
  "safe_change aead tx store store' disks \<longleftrightarrow>
     store_ok aead store' \<and> disks \<noteq> [] \<and> on_disk tx store' (last disks) \<and>
     (\<forall>d \<in> set disks. on_disk tx store d \<or> on_disk tx store' d)"

lemma on_disk_same:
  assumes "store_ok aead s" "store_ok aead t" "map_of s = map_of t" "on_disk tx s disk"
  shows "on_disk tx t disk"
proof -
  have "set s = set t"
    using assms(1-3) by (auto simp: store_ok_def gomap_in_set)
  then show ?thesis using assms(4) by (auto simp: on_disk_def)
qed

text \<open>The memory follows the file: it keeps the change when the file was written, and takes it back otherwise.\<close>

lemma commit_safe:
  assumes "text_ok tx" "store_ok aead store" "on_disk tx store disk" "store_ok aead store1"
    and flush: "flushLocked tx answer store1 disk = (err, disks)"
    and kept: "err = None \<Longrightarrow> store' = store1"
    and rolled: "err \<noteq> None \<Longrightarrow> gomap_ok store' \<and> map_of store' = map_of store"
  shows "safe_change aead tx store store' disks"
proof (cases err)
  case None
  note path = flushLocked_path [OF assms(1,4) flush]
  have "on_disk tx store d \<or> on_disk tx store' d" if "d \<in> set disks" for d
    using path(4) [OF that] assms(3) kept [OF None] on_disk_path by blast
  then show ?thesis using path(1) path(2) [OF None] assms(4) kept [OF None] by (simp add: safe_change_def)
next
  case (Some e)
  note path = flushLocked_path [OF assms(1,4) flush]
  have same: "map_of store' = map_of store" using rolled Some by simp
  have ok: "store_ok aead store'" using rolled assms(2) Some by (simp add: store_ok_def)
  have "dk_path (last disks) = dk_path disk" using path(3) Some by simp
  then have "on_disk tx store (last disks)" using assms(3) on_disk_path by blast
  then have last: "on_disk tx store' (last disks)" by (rule on_disk_same [OF assms(2) ok same [symmetric]])
  have "on_disk tx store d" if "d \<in> set disks" for d
    using path(4) [OF that] assms(3) Some on_disk_path by (metis option.distinct(1))
  then show ?thesis using path(1) ok last by (simp add: safe_change_def)
qed

lemma unchanged_safe: "store_ok aead store \<Longrightarrow> on_disk tx store disk \<Longrightarrow> safe_change aead tx store store [disk]"
  by (simp add: safe_change_def)

lemma store_Create_safe:
  assumes "aead_ok aead" "text_ok tx" "store_ok aead store" "on_disk tx store disk"
    and nonce: "\<And>n. nonce = Some n \<Longrightarrow> length n = NonceSize aead"
    and run: "store_Create aead tx nonce answer account bundle store disk = (err, store', disks)"
  shows "safe_change aead tx store store' disks \<and>
    vault aead store' = (if err = None then create_vault aead account bundle store else vault aead store)"
proof (cases "cipher_Seal aead nonce (ac_ID account) (ac_Venue account) bundle")
  case (Inl e)
  then show ?thesis using run unchanged_safe [OF assms(3,4)] by (auto simp: store_Create_def)
next
  case (Inr sealed)
  note opened = cipher_roundtrip [OF assms(1) Inr nonce]
  define store1 where "store1 = AList.update (ac_ID account) \<lparr>sr_Account = account, sr_Sealed = sealed\<rparr> store"
  obtain err1 disks1 where flush: "flushLocked tx answer store1 disk = (err1, disks1)" by fastforce
  show ?thesis
  proof (cases "map_of store (ac_ID account)")
    case (Some item)
    then show ?thesis using run Inr unchanged_safe [OF assms(3,4)] by (auto simp: store_Create_def)
  next
    case None
    have ok1: "store_ok aead store1"
      using assms(3) opened by (auto simp: store1_def store_ok_def record_id_def opens_def)
    have out: "err = err1" "disks = disks1"
        "store' = (if err1 = None then store1 else AList.delete (ac_ID account) store1)"
      using run Inr None flush by (auto simp: store_Create_def store1_def [symmetric] split: option.splits)
    have rolled: "map_of store' = map_of store" if "err1 \<noteq> None"
      using None that by (auto simp: out(3) store1_def fun_eq_iff)
    have "vault aead store1 = create_vault aead account bundle store"
      using opened by (auto simp: vault_def store_Get_def create_vault_def store1_def fun_eq_iff)
    then have "vault aead store' = (if err = None then create_vault aead account bundle store else vault aead store)"
      using vault_cong [OF rolled] out(1,3) by (cases err1) auto
    moreover have "safe_change aead tx store store' disks1"
      by (rule commit_safe [OF assms(2-4) ok1 flush]) (use ok1 rolled in \<open>auto simp: out(3) store_ok_def\<close>)
    ultimately show ?thesis by (simp add: out(2))
  qed
qed

lemma store_Delete_safe:
  assumes "text_ok tx" "store_ok aead store" "on_disk tx store disk"
    and run: "store_Delete tx answer iid store disk = (err, store', disks)"
  shows "safe_change aead tx store store' disks \<and>
    vault aead store' = (if err = None then (vault aead store)(iid := None) else vault aead store)"
proof (cases "map_of store iid")
  case None
  then show ?thesis using run unchanged_safe [OF assms(2,3)] by (auto simp: store_Delete_def)
next
  case (Some item)
  define store1 where "store1 = AList.delete iid store"
  obtain err1 disks1 where flush: "flushLocked tx answer store1 disk = (err1, disks1)" by fastforce
  have ok1: "store_ok aead store1" using assms(2) by (auto simp: store1_def store_ok_def)
  have out: "err = err1" "disks = disks1" "store' = (if err1 = None then store1 else AList.update iid item store1)"
    using run Some flush by (auto simp: store_Delete_def store1_def [symmetric] split: option.splits)
  have rolled: "map_of store' = map_of store" if "err1 \<noteq> None"
    using Some that by (auto simp: out(3) store1_def fun_eq_iff)
  have "vault aead store1 = (vault aead store)(iid := None)"
    by (auto simp: vault_def store_Get_def store1_def fun_eq_iff)
  then have "vault aead store' = (if err = None then (vault aead store)(iid := None) else vault aead store)"
    using vault_cong [OF rolled] out(1,3) by (cases err1) auto
  moreover have "safe_change aead tx store store' disks1"
    by (rule commit_safe [OF assms(1-3) ok1 flush]) (use ok1 rolled in \<open>auto simp: out(3) store_ok_def\<close>)
  ultimately show ?thesis by (simp add: out(2))
qed

lemma safe_change_reopens:
  assumes "store_ok aead store" "safe_change aead tx store store' disks" "d \<in> set disks"
  shows "\<exists>reopened. store_Open aead tx (file_of d) = Inr reopened \<and> store_ok aead reopened \<and> on_disk tx reopened d \<and>
    (map_of reopened = map_of store \<or> map_of reopened = map_of store')"
proof -
  consider "on_disk tx store d" | "on_disk tx store' d" using assms by (auto simp: safe_change_def)
  then show ?thesis
  proof cases
    case 1
    then show ?thesis using store_reopens [OF assms(1) 1] on_disk_same [OF assms(1)] by metis
  next
    case 2
    have "store_ok aead store'" using assms(2) by (simp add: safe_change_def)
    then show ?thesis using store_reopens [OF _ 2] on_disk_same 2 by metis
  qed
qed

lemma store_reach_ok:
  assumes "store_reach aead tx store disk" "aead_ok aead" "text_ok tx"
  shows "store_ok aead store \<and> on_disk tx store disk"
  using assms(1)
proof (induction rule: store_reach.induct)
  case first
  then show ?case by (simp add: store_ok_def on_disk_def)
next
  case (create store disk nonce answer account material err store' disks)
  then show ?case using store_Create_safe [OF assms(2,3), of store disk nonce answer account material err store' disks]
    by (simp add: safe_change_def)
next
  case (delete store disk answer iid err store' disks)
  then show ?case using store_Delete_safe [OF assms(3), of aead store disk answer iid err store' disks]
    by (simp add: safe_change_def)
next
  case (crash_create store disk nonce answer account material err store' disks d reopened)
  then have "safe_change aead tx store store' disks"
    using store_Create_safe [OF assms(2,3), of store disk nonce answer account material err store' disks] by simp
  then show ?case using safe_change_reopens crash_create.IH crash_create.hyps(4,5) by fastforce
next
  case (crash_delete store disk answer iid err store' disks d reopened)
  then have "safe_change aead tx store store' disks"
    using store_Delete_safe [OF assms(3), of aead store disk answer iid err store' disks] by simp
  then show ?case using safe_change_reopens crash_delete.IH crash_delete.hyps(3,4) by fastforce
qed

definition reopens_to :: "AEAD \<Rightarrow> RecordText \<Rightarrow> Disk \<Rightarrow> (string \<rightharpoonup> Account \<times> string) \<Rightarrow> bool" where
  "reopens_to aead tx d content \<longleftrightarrow> (\<exists>reopened. store_Open aead tx (file_of d) = Inr reopened \<and> vault aead reopened = content)"

lemma safe_change_vaults:
  assumes "store_ok aead store" "safe_change aead tx store store' disks"
  shows "reopens_to aead tx (last disks) (vault aead store')"
    and "\<forall>d \<in> set disks. reopens_to aead tx d (vault aead store) \<or> reopens_to aead tx d (vault aead store')"
proof -
  show "reopens_to aead tx (last disks) (vault aead store')"
    using assms(2) store_reopens [of aead store' tx "last disks"]
    by (auto simp: safe_change_def reopens_to_def intro: vault_cong)
  show "\<forall>d \<in> set disks. reopens_to aead tx d (vault aead store) \<or> reopens_to aead tx d (vault aead store')"
    using safe_change_reopens [OF assms] vault_cong unfolding reopens_to_def by metis
qed

text \<open>
  C8: The encrypted account file implements a map of accounts that survives crashes. At every store the
  program can come to, Create stores the account and its credentials exactly when it reports no error
  and otherwise changes nothing, Delete removes exactly its account when it reports no error, whichever
  step of the write fails. When the operation is over, starting again on the disk gives the very map
  the memory has, and starting again in the middle of it gives the map before or the map after, never a
  file that cannot be opened.
\<close>

theorem store_refines_vault:
  assumes aead: "aead_ok aead" and tx: "text_ok tx" and reach: "store_reach aead tx store disk"
  shows "(\<forall>nonce answer account material err store' disks.
      (\<forall>n. nonce = Some n \<longrightarrow> length n = NonceSize aead) \<longrightarrow>
      store_Create aead tx nonce answer account material store disk = (err, store', disks) \<longrightarrow>
      vault aead store' = (if err = None then (vault aead store)(ac_ID account \<mapsto> (account, material)) else vault aead store) \<and>
      (err = None \<longrightarrow> vault aead store (ac_ID account) = None) \<and>
      reopens_to aead tx (last disks) (vault aead store') \<and>
      (\<forall>d \<in> set disks. reopens_to aead tx d (vault aead store) \<or> reopens_to aead tx d (vault aead store'))) \<and>
    (\<forall>answer iid err store' disks.
      store_Delete tx answer iid store disk = (err, store', disks) \<longrightarrow>
      vault aead store' = (if err = None then (vault aead store)(iid := None) else vault aead store) \<and>
      reopens_to aead tx (last disks) (vault aead store') \<and>
      (\<forall>d \<in> set disks. reopens_to aead tx d (vault aead store) \<or> reopens_to aead tx d (vault aead store')))"
proof -
  have ok: "store_ok aead store" "on_disk tx store disk" using store_reach_ok [OF reach aead tx] by auto
  have fresh: "vault aead store (ac_ID account) = None"
    if "store_Create aead tx nonce answer account material store disk = (None, store', disks)"
    for nonce answer account material store' disks
    using that by (auto simp: store_Create_def vault_def store_Get_def split: sum.splits if_splits)
  show ?thesis
  proof (intro conjI allI impI)
    fix nonce answer account material err store' disks
    assume nonce: "\<forall>n. nonce = Some n \<longrightarrow> length n = NonceSize aead"
      and run: "store_Create aead tx nonce answer account material store disk = (err, store', disks)"
    have safe: "safe_change aead tx store store' disks"
      and content: "vault aead store' = (if err = None then create_vault aead account material store else vault aead store)"
      using store_Create_safe [OF aead tx ok _ run] nonce by auto
    show "vault aead store' = (if err = None then (vault aead store)(ac_ID account \<mapsto> (account, material)) else vault aead store)"
      by (simp only: content create_vault_def)
    show "vault aead store (ac_ID account) = None" if "err = None" using fresh run that by blast
    show "reopens_to aead tx (last disks) (vault aead store')" by (rule safe_change_vaults [OF ok(1) safe])
    show "\<forall>d \<in> set disks. reopens_to aead tx d (vault aead store) \<or> reopens_to aead tx d (vault aead store')"
      by (rule safe_change_vaults [OF ok(1) safe])
  next
    fix answer iid err store' disks
    assume run: "store_Delete tx answer iid store disk = (err, store', disks)"
    have safe: "safe_change aead tx store store' disks"
      and content: "vault aead store' = (if err = None then (vault aead store)(iid := None) else vault aead store)"
      using store_Delete_safe [OF tx ok run] by auto
    show "vault aead store' = (if err = None then (vault aead store)(iid := None) else vault aead store)" by (rule content)
    show "reopens_to aead tx (last disks) (vault aead store')" by (rule safe_change_vaults [OF ok(1) safe])
    show "\<forall>d \<in> set disks. reopens_to aead tx d (vault aead store) \<or> reopens_to aead tx d (vault aead store')"
      by (rule safe_change_vaults [OF ok(1) safe])
  qed
qed

section \<open>An instance\<close>

definition sample_tag :: "string \<Rightarrow> char" where
  "sample_tag ad = char_of (length ad)"

definition sample_aead :: AEAD where
  "sample_aead = \<lparr>NonceSize = 1, Overhead = 1, aead_Seal = (\<lambda>n m ad. sample_tag ad # m),
     aead_Open = (\<lambda>n c ad. case c of [] \<Rightarrow> None | t # m \<Rightarrow> if t = sample_tag ad then Some m else None)\<rparr>"

definition sample_account :: Account where
  "sample_account = \<lparr>ac_ID = ''a1'', ac_Venue = ''binance'', ac_Label = ''main'', ac_CreatedAt = 1\<rparr>"

definition sample_record :: StoreRecord where
  "sample_record = \<lparr>sr_Account = sample_account,
     sr_Sealed = ''n'' @ [sample_tag (additional_data ''a1'' ''binance'')] @ ''key''\<rparr>"

definition sample_text :: RecordText where
  "sample_text = \<lparr>
     rx_Marshal = (\<lambda>records. if records = [] then Inr ''[]'' else if records = [sample_record] then Inr ''[a1]''
                     else Inl (PlainError ''marshal'')),
     rx_Unmarshal = (\<lambda>content. if content = ''[]'' then Inr [] else if content = ''[a1]'' then Inr [sample_record]
                     else Inl (PlainError ''unmarshal''))\<rparr>"

lemma sample_aead_ok: "aead_ok sample_aead"
  by (auto simp: aead_ok_def sample_aead_def split: list.splits)

lemma sample_text_ok: "text_ok sample_text"
  by (auto simp: text_ok_def sample_text_def split: if_splits)

text \<open>The rename fails: the account is taken back. It succeeds: the account is stored.\<close>

theorem store_refines_vault_witness:
  "(case store_Create sample_aead sample_text (Some ''n'') (\<lambda>step. if step = Rename then Some ErrUnavailable else None)
       sample_account ''key'' [] \<lparr>dk_path = None, dk_temp = None\<rparr> of
     (err, store', disks) \<Rightarrow> err = Some ErrUnavailable \<and> vault sample_aead store' = vault sample_aead [] \<and>
       reopens_to sample_aead sample_text (last disks) (vault sample_aead [])) \<and>
   (case store_Create sample_aead sample_text (Some ''n'') (\<lambda>_. None)
       sample_account ''key'' [] \<lparr>dk_path = None, dk_temp = None\<rparr> of
     (err, store', disks) \<Rightarrow> err = None \<and>
       vault sample_aead store' = (vault sample_aead [])(''a1'' \<mapsto> (sample_account, ''key'')) \<and>
       reopens_to sample_aead sample_text (last disks) (vault sample_aead store'))"
proof -
  let ?disk = "\<lparr>dk_path = None, dk_temp = None\<rparr>"
  let ?run = "\<lambda>answer. store_Create sample_aead sample_text (Some ''n'') answer sample_account ''key'' [] ?disk"
  note main = store_refines_vault [OF sample_aead_ok sample_text_ok store_reach.first, THEN conjunct1, rule_format]
  have errors: "fst (?run (\<lambda>step. if step = Rename then Some ErrUnavailable else None)) = Some ErrUnavailable" "fst (?run (\<lambda>_. None)) = None"
    by (simp_all add: store_Create_def cipher_Seal_def flushLocked_def flush_steps_def sample_text_def sample_aead_def
        sample_record_def sample_account_def)
  have size: "length n = NonceSize sample_aead" if "Some ''n'' = Some n" for n
    using that by (auto simp: sample_aead_def)
  obtain e1 s1 d1 where r1: "?run (\<lambda>step. if step = Rename then Some ErrUnavailable else None) = (e1, s1, d1)"
    using prod_cases3 by blast
  obtain e2 s2 d2 where r2: "?run (\<lambda>_. None) = (e2, s2, d2)" using prod_cases3 by blast
  have e: "e1 = Some ErrUnavailable" "e2 = None" using errors r1 r2 by simp_all
  have i: "ac_ID sample_account = ''a1''" by (simp add: sample_account_def)
  show ?thesis using main [OF size r1] main [OF size r2] e i r1 r2 by simp metis
qed

end
