(* ===== verification/Account_Manager.thy ===== *)
theory Account_Manager
  imports Account_Bundle Account_Store
begin

text \<open>
  The accounts of a gateway (gateway/account/manager.go): registration with verification against the
  venue and persistence, activation of the stored accounts at the start, deletion, and the operations
  that are passed on to the runtime of an account. The venues' answers, the file system, randomness and
  the clock are arguments; the result carries the venue clients that were closed. The outer option of a
  result is a call on a nil client.
\<close>

section \<open>State\<close>

record 'c Env =
  ev_aead :: AEAD
  ev_text :: RecordText
  ev_json :: JsonText
  ev_digest :: "string \<Rightarrow> string"
  ev_New :: "Config \<Rightarrow> Options \<Rightarrow> goerror + 'c"

record 'c Manager =
  mg_store :: Store
  mg_disk :: Disk
  mg_runtimes :: "(string, 'c runtime) gomap"

abbreviation ErrAccountNotFound :: goerror where
  "ErrAccountNotFound \<equiv> SentinelError ''account.ErrNotFound'' ''account not found''"

abbreviation ErrCredentialFailed :: goerror where
  "ErrCredentialFailed \<equiv> SentinelError ''account.ErrCredentialFailed'' ''credential verification failed''"

definition NewManager :: "Store \<Rightarrow> Disk \<Rightarrow> 'c Manager" where
  "NewManager store disk = \<lparr>mg_store = store, mg_disk = disk, mg_runtimes = []\<rparr>"

section \<open>Start\<close>

definition activate :: "'c Env \<Rightarrow> Account \<Rightarrow> 'c Manager \<Rightarrow> goerror option \<times> 'c Manager" where
  "activate env account manager =
     (case store_Get (ev_aead env) (mg_store manager) (ac_ID account) of
        Inl err \<Rightarrow> (Some err, manager)
      | Inr (stored, payload) \<Rightarrow>
          (case registry_Decode (jt_parse (ev_json env)) defaultAuthKinds (ac_Venue account) payload of
             Inl err \<Rightarrow> (Some err, manager)
           | Inr decoded \<Rightarrow>
               (case buildClients (ev_digest env) (ev_New env) (ac_ID account) decoded of
                  Inl (err, released) \<Rightarrow> (Some err, manager)
                | Inr clients \<Rightarrow>
                    (None, manager\<lparr>mg_runtimes :=
                       AList.update (ac_ID account) (newRuntime (ac_ID account) (ac_Venue account) clients)
                         (mg_runtimes manager)\<rparr>))))"

text \<open>Start: an account that cannot be activated is skipped.\<close>

fun activate_all :: "'c Env \<Rightarrow> Account list \<Rightarrow> 'c Manager \<Rightarrow> 'c Manager" where
  "activate_all env [] manager = manager"
| "activate_all env (account # accounts) manager = activate_all env accounts (snd (activate env account manager))"

definition manager_Start :: "'c Env \<Rightarrow> 'c Manager \<Rightarrow> 'c Manager" where
  "manager_Start env manager = activate_all env (store_List (mg_store manager)) manager"

section \<open>Accounts\<close>

record AccountView =
  av_Account :: Account
  av_Markets :: "string list"
  av_Active :: bool

definition client_markets :: "'c routeClient list \<Rightarrow> string list" where
  "client_markets clients = map (\<lambda>client. Market_String (rc_market client)) clients"

definition account_view :: "'c Manager \<Rightarrow> Account \<Rightarrow> AccountView" where
  "account_view manager account =
     (case map_of (mg_runtimes manager) (ac_ID account) of
        None \<Rightarrow> \<lparr>av_Account = account, av_Markets = [], av_Active = False\<rparr>
      | Some rt \<Rightarrow> \<lparr>av_Account = account, av_Markets = client_markets (rt_clients rt), av_Active = True\<rparr>)"

definition manager_List :: "'c Manager \<Rightarrow> AccountView list" where
  "manager_List manager = map (account_view manager) (store_List (mg_store manager))"

record CreateRequest =
  cr_Venue :: string
  cr_Label :: string
  cr_Credentials :: "(string, anyValue) gomap"

text \<open>What a creation draws from outside: the account's entropy, the nonce, the file system and the clock.\<close>

record Draws =
  dr_entropy :: "goerror + 8 word list"
  dr_nonce :: "string option"
  dr_answer :: "FlushStep \<Rightarrow> goerror option"
  dr_now :: Time

text \<open>The verification loop of Create: a balance read on every market until one fails.\<close>

fun verify_loop ::
  "'d Decimals \<Rightarrow> ('d, 'c) VenueReads \<Rightarrow> 'c routeClient list \<Rightarrow> 'c runtime \<Rightarrow> (goerror option \<times> 'c runtime) option" where
  "verify_loop D reads [] rt = Some (None, rt)"
| "verify_loop D reads (client # clients) rt =
     (case fetchBalances D reads client rt of
        None \<Rightarrow> None
      | Some (Inl err, rt1) \<Rightarrow> Some (Some err, rt1)
      | Some (Inr balances, rt1) \<Rightarrow> verify_loop D reads clients rt1)"

definition verification_error :: "goerror \<Rightarrow> goerror" where
  "verification_error err =
     (let failure = the (Classify (Some err)) in
      if vf_Category failure = CategoryCredentials
      then WrapError (error_text ErrCredentialFailed @ '': '' @ failure_Error failure) [ErrCredentialFailed, FailureError failure]
      else FailureError failure)"

text \<open>
  Create up to the runtime it verifies: the venue, the label, the payload, the id and the credentials,
  then the clients. A failure gives the venue clients that were closed again.
\<close>

definition create_decode ::
  "'c Env \<Rightarrow> Draws \<Rightarrow> CreateRequest \<Rightarrow> goerror + (string \<times> string \<times> string \<times> string \<times> Decoded)" where
  "create_decode env draws request =
     (let venue = ToLower (TrimSpace (cr_Venue request));
          label = TrimSpace (cr_Label request)
      in if \<not> Supported venue then Inl (invalid ''unsupported venue'')
         else if length label > 64 then Inl (invalid ''label is too long'')
         else (case manager_bundle (ev_json env) defaultAuthKinds venue (cr_Credentials request) of
                 Inl err \<Rightarrow> Inl err
               | Inr payload \<Rightarrow>
         (case registry_Decode (jt_parse (ev_json env)) defaultAuthKinds venue payload of
            Inl err \<Rightarrow> Inl (invalid ''credentials do not match the venue's fields'')
          | Inr decoded \<Rightarrow>
         (case newAccountID (dr_entropy draws) of
            Inl err \<Rightarrow> Inl err
          | Inr iid \<Rightarrow> Inr (venue, label, payload, iid, decoded)))))"

definition create_check ::
  "'c Env \<Rightarrow> Draws \<Rightarrow> CreateRequest \<Rightarrow> (goerror \<times> 'c list) + (string \<times> string \<times> string \<times> string \<times> 'c routeClient list)" where
  "create_check env draws request =
     (case create_decode env draws request of
        Inl err \<Rightarrow> Inl (err, [])
      | Inr (venue, label, payload, iid, decoded) \<Rightarrow>
          (case buildClients (ev_digest env) (ev_New env) iid decoded of
             Inl (err, released) \<Rightarrow> Inl (invalid (safeMessage err), released)
           | Inr clients \<Rightarrow> Inr (venue, label, payload, iid, clients)))"

text \<open>Create up to the stored account: the account, its runtime, and the manager with the new store.\<close>

definition create_persist ::
  "'d Decimals \<Rightarrow> 'c Env \<Rightarrow> ('d, 'c) VenueReads \<Rightarrow> Draws \<Rightarrow> CreateRequest \<Rightarrow> 'c Manager \<Rightarrow>
   ((goerror + Account \<times> 'c runtime) \<times> 'c Manager \<times> 'c list) option" where
  "create_persist D env reads draws request manager =
     (case create_check env draws request of
        Inl (err, released) \<Rightarrow> Some (Inl err, manager, released)
      | Inr (venue, label, payload, iid, clients) \<Rightarrow>
          (case verify_loop D reads clients (newRuntime iid venue clients) of
             None \<Rightarrow> None
           | Some (Some err, rt) \<Rightarrow> Some (Inl (verification_error err), manager, runtime_close rt)
           | Some (None, rt) \<Rightarrow>
               (let account = \<lparr>ac_ID = iid, ac_Venue = venue, ac_Label = (if label = [] then venue else label),
                      ac_CreatedAt = dr_now draws\<rparr>
                in case store_Create (ev_aead env) (ev_text env) (dr_nonce draws) (dr_answer draws) account payload
                          (mg_store manager) (mg_disk manager) of
                     (Some err, store1, disks) \<Rightarrow>
                       Some (Inl err, manager\<lparr>mg_store := store1, mg_disk := last disks\<rparr>, runtime_close rt)
                   | (None, store1, disks) \<Rightarrow>
                       Some (Inr (account, rt), manager\<lparr>mg_store := store1, mg_disk := last disks\<rparr>, []))))"

definition create_register :: "string \<Rightarrow> 'c runtime \<Rightarrow> 'c Manager \<Rightarrow> 'c Manager" where
  "create_register iid rt manager = manager\<lparr>mg_runtimes := AList.update iid rt (mg_runtimes manager)\<rparr>"

definition manager_Create ::
  "'d Decimals \<Rightarrow> 'c Env \<Rightarrow> ('d, 'c) VenueReads \<Rightarrow> Draws \<Rightarrow> CreateRequest \<Rightarrow> 'c Manager \<Rightarrow>
   ((goerror + AccountView) \<times> 'c Manager \<times> 'c list) option" where
  "manager_Create D env reads draws request manager =
     (case create_persist D env reads draws request manager of
        None \<Rightarrow> None
      | Some (Inl err, manager1, released) \<Rightarrow> Some (Inl err, manager1, released)
      | Some (Inr (account, rt), manager1, released) \<Rightarrow>
          Some (Inr \<lparr>av_Account = account, av_Markets = client_markets (rt_clients rt), av_Active = True\<rparr>,
            create_register (ac_ID account) rt manager1, released))"

text \<open>
  Delete: the record leaves the store under the store's mutex, then the runtime leaves the manager under
  the manager's, and is closed.
\<close>

definition delete_stored ::
  "'c Env \<Rightarrow> (FlushStep \<Rightarrow> goerror option) \<Rightarrow> string \<Rightarrow> 'c Manager \<Rightarrow> goerror option \<times> 'c Manager" where
  "delete_stored env answer iid manager =
     (case store_Delete (ev_text env) answer iid (mg_store manager) (mg_disk manager) of
        (Some err, store1, disks) \<Rightarrow>
          (Some (if errors_Is err ErrStoreNotFound then ErrAccountNotFound else err),
           manager\<lparr>mg_store := store1, mg_disk := last disks\<rparr>)
      | (None, store1, disks) \<Rightarrow> (None, manager\<lparr>mg_store := store1, mg_disk := last disks\<rparr>))"

definition delete_live :: "string \<Rightarrow> 'c Manager \<Rightarrow> 'c Manager \<times> 'c list" where
  "delete_live iid manager =
     (manager\<lparr>mg_runtimes := AList.delete iid (mg_runtimes manager)\<rparr>,
      case map_of (mg_runtimes manager) iid of None \<Rightarrow> [] | Some rt \<Rightarrow> runtime_close rt)"

definition manager_Delete ::
  "'c Env \<Rightarrow> (FlushStep \<Rightarrow> goerror option) \<Rightarrow> string \<Rightarrow> 'c Manager \<Rightarrow> goerror option \<times> 'c Manager \<times> 'c list" where
  "manager_Delete env answer iid manager =
     (case delete_stored env answer iid manager of
        (Some err, manager1) \<Rightarrow> (Some err, manager1, [])
      | (None, manager1) \<Rightarrow> (None, delete_live iid manager1))"

definition manager_runtime :: "'c Manager \<Rightarrow> string \<Rightarrow> goerror + 'c runtime" where
  "manager_runtime manager iid =
     (case map_of (mg_runtimes manager) iid of None \<Rightarrow> Inl ErrAccountNotFound | Some rt \<Rightarrow> Inr rt)"

definition manager_Close :: "'c Manager \<Rightarrow> 'c Manager \<times> 'c list" where
  "manager_Close manager =
     (manager\<lparr>mg_runtimes := []\<rparr>, concat (map (\<lambda>(iid, rt). runtime_close rt) (mg_runtimes manager)))"

section \<open>Venues\<close>

record VenueInfo =
  vi_Venue :: string
  vi_Markets :: "string list"
  vi_Fields :: "Field list"

definition manager_Venues :: "AuthRegistry \<Rightarrow> VenueInfo list" where
  "manager_Venues registry =
     map (\<lambda>name. \<lparr>vi_Venue = name, vi_Markets = map Market_String (MarketsOf name),
            vi_Fields = (case registry_Schema registry name of Inl err \<Rightarrow> [] | Inr schema \<Rightarrow> sc_Fields schema)\<rparr>) Venues"

section \<open>Operations of an account\<close>

text \<open>An operation runs on the runtime of the account; what it changes there stays in the manager.\<close>

definition with_runtime ::
  "string \<Rightarrow> ('c runtime \<Rightarrow> ((goerror + 'r) \<times> 'c runtime) option) \<Rightarrow> 'c Manager \<Rightarrow> ((goerror + 'r) \<times> 'c Manager) option" where
  "with_runtime iid operation manager =
     (case manager_runtime manager iid of
        Inl err \<Rightarrow> Some (Inl err, manager)
      | Inr rt \<Rightarrow>
          map_option (\<lambda>(result, rt1). (result, manager\<lparr>mg_runtimes := AList.update iid rt1 (mg_runtimes manager)\<rparr>))
            (operation rt))"

definition resolve ::
  "('d, 'x) Catalog \<Rightarrow> 'c Manager \<Rightarrow> string \<Rightarrow> InstrumentID \<Rightarrow> goerror + 'c runtime \<times> 'd GatewayInstrument" where
  "resolve catalog manager iid instrumentID =
     (case manager_runtime manager iid of
        Inl err \<Rightarrow> Inl err
      | Inr rt \<Rightarrow>
          (case catalog_Get catalog instrumentID of
             Inl err \<Rightarrow> Inl (invalid (error_text err))
           | Inr instrument \<Rightarrow> Inr (rt, instrument)))"

definition resolveOptional ::
  "('d, 'x) Catalog \<Rightarrow> 'c Manager \<Rightarrow> string \<Rightarrow> InstrumentID \<Rightarrow> goerror + 'c runtime \<times> 'd GatewayInstrument option" where
  "resolveOptional catalog manager iid instrumentID =
     (if instrumentID = [] then (case manager_runtime manager iid of Inl err \<Rightarrow> Inl err | Inr rt \<Rightarrow> Inr (rt, None))
      else (case resolve catalog manager iid instrumentID of
              Inl err \<Rightarrow> Inl err
            | Inr (rt, instrument) \<Rightarrow> Inr (rt, Some instrument)))"

definition manager_Positions ::
  "'d Decimals \<Rightarrow> ('d, 'x) Catalog \<Rightarrow> ('d, 'c) VenueReads \<Rightarrow> string \<Rightarrow> 'c Manager \<Rightarrow>
   ((goerror + AccountPosition list) \<times> 'c Manager) option" where
  "manager_Positions D catalog reads iid manager =
     with_runtime iid (\<lambda>rt. Some (runtime_Positions D catalog reads rt)) manager"

definition manager_Balances ::
  "'d Decimals \<Rightarrow> ('d, 'c) VenueReads \<Rightarrow> string \<Rightarrow> 'c Manager \<Rightarrow> ((goerror + AccountBalance list) \<times> 'c Manager) option" where
  "manager_Balances D reads iid manager = with_runtime iid (runtime_Balances D reads) manager"

definition manager_Place ::
  "'d Decimals \<Rightarrow> ('d, 'x) Catalog \<Rightarrow> ('c \<Rightarrow> 'd PlaceOrderRequest \<Rightarrow> 'd OrderAcknowledgement \<times> goerror option) \<Rightarrow> Time \<Rightarrow>
   string \<Rightarrow> PlaceRequest \<Rightarrow> 'c Manager \<Rightarrow> ((goerror + PlaceResult) \<times> 'c Manager) option" where
  "manager_Place D catalog PlaceOrder now iid request manager =
     with_runtime iid
       (\<lambda>rt. case catalog_Get catalog (pq_Instrument request) of
               Inl err \<Rightarrow> Some (Inl (invalid (error_text err)), rt)
             | Inr instrument \<Rightarrow> Place D PlaceOrder now instrument request rt) manager"

definition manager_Lookup ::
  "'d Decimals \<Rightarrow> ('d, 'x) Catalog \<Rightarrow> ('c \<Rightarrow> ('d ExactOrderLookupRequest \<Rightarrow> goerror + 'd ExactOrderLookupResult) option) \<Rightarrow>
   string \<Rightarrow> InstrumentID \<Rightarrow> string \<Rightarrow> string \<Rightarrow> 'c Manager \<Rightarrow> goerror + LookupResult" where
  "manager_Lookup D catalog exact iid instrumentID clientOrderID orderID manager =
     (case resolve catalog manager iid instrumentID of
        Inl err \<Rightarrow> Inl err
      | Inr (rt, instrument) \<Rightarrow> Lookup D exact instrument clientOrderID orderID rt)"

definition manager_Cancel ::
  "('d, 'x) Catalog \<Rightarrow> ('c \<Rightarrow> 'd Instrument \<Rightarrow> string \<Rightarrow> goerror option) \<Rightarrow> string \<Rightarrow> InstrumentID \<Rightarrow> string \<Rightarrow> 'c Manager \<Rightarrow>
   goerror option option" where
  "manager_Cancel catalog CancelOrder iid instrumentID orderID manager =
     (case resolve catalog manager iid instrumentID of
        Inl err \<Rightarrow> Some (Some err)
      | Inr (rt, instrument) \<Rightarrow> Cancel CancelOrder instrument orderID rt)"

definition manager_OpenOrders ::
  "'d Decimals \<Rightarrow> ('d, 'x) Catalog \<Rightarrow> ('c \<Rightarrow> 'd Instrument option \<Rightarrow> int \<Rightarrow> goerror + 'd Order list) \<Rightarrow>
   string \<Rightarrow> InstrumentID \<Rightarrow> 'c Manager \<Rightarrow> (goerror + AccountOrder list) option" where
  "manager_OpenOrders D catalog OpenOrders iid instrumentID manager =
     (case resolveOptional catalog manager iid instrumentID of
        Inl err \<Rightarrow> Some (Inl err)
      | Inr (rt, instrument) \<Rightarrow> runtime_OpenOrders D catalog OpenOrders instrument rt)"

definition manager_Fills ::
  "'d Decimals \<Rightarrow> ('d, 'x) Catalog \<Rightarrow> ('c \<Rightarrow> 'd Instrument option \<Rightarrow> Time \<Rightarrow> int \<Rightarrow> goerror + 'd Fill list) \<Rightarrow>
   string \<Rightarrow> InstrumentID \<Rightarrow> Time \<Rightarrow> int \<Rightarrow> 'c Manager \<Rightarrow> (goerror + AccountFill list) option" where
  "manager_Fills D catalog Fills iid instrumentID start limit manager =
     (case resolveOptional catalog manager iid instrumentID of
        Inl err \<Rightarrow> Some (Inl err)
      | Inr (rt, instrument) \<Rightarrow> runtime_Fills D catalog Fills instrument start limit rt)"

definition manager_SetLeverage ::
  "('d, 'x) Catalog \<Rightarrow> ('c \<Rightarrow> 'd Instrument \<Rightarrow> int \<Rightarrow> goerror + int) \<Rightarrow> string \<Rightarrow> InstrumentID \<Rightarrow> int \<Rightarrow> 'c Manager \<Rightarrow>
   ((goerror + int) \<times> 'c Manager) option" where
  "manager_SetLeverage catalog SetLeverage iid instrumentID leverage manager =
     with_runtime iid
       (\<lambda>rt. case catalog_Get catalog instrumentID of
               Inl err \<Rightarrow> Some (Inl (invalid (error_text err)), rt)
             | Inr instrument \<Rightarrow> Some (runtime_SetLeverage SetLeverage instrument leverage rt)) manager"

text \<open>ValidKey and the check of Source: the topic names a live account.\<close>

definition account_ValidKey :: "Key \<Rightarrow> 'c Manager \<Rightarrow> goerror option" where
  "account_ValidKey key manager = (case manager_runtime manager (ky_Account key) of Inl err \<Rightarrow> Some err | Inr rt \<Rightarrow> None)"

section \<open>Live accounts\<close>

text \<open>The runtime a stored account gives: None when its credentials do not decode or a client cannot be built.\<close>

definition built :: "'c Env \<Rightarrow> Store \<Rightarrow> string \<rightharpoonup> 'c runtime" where
  "built env store iid =
     (case vault (ev_aead env) store iid of
        None \<Rightarrow> None
      | Some (account, payload) \<Rightarrow>
          (case registry_Decode (jt_parse (ev_json env)) defaultAuthKinds (ac_Venue account) payload of
             Inl err \<Rightarrow> None
           | Inr decoded \<Rightarrow>
               (case buildClients (ev_digest env) (ev_New env) iid decoded of
                  Inl failed \<Rightarrow> None
                | Inr clients \<Rightarrow> Some (newRuntime iid (ac_Venue account) clients))))"

text \<open>Two states of one account's runtime.\<close>

definition same_account :: "'c runtime \<Rightarrow> 'c runtime \<Rightarrow> bool" where
  "same_account rt rt1 \<longleftrightarrow> rt_id rt1 = rt_id rt \<and> rt_venue rt1 = rt_venue rt \<and> rt_clients rt1 = rt_clients rt"

lemma same_account_refl [simp]: "same_account rt rt"
  by (simp add: same_account_def)

lemma same_account_trans: "same_account rt rt1 \<Longrightarrow> same_account rt1 rt2 \<Longrightarrow> same_account rt rt2"
  by (simp add: same_account_def)

lemma same_account_sym: "same_account rt rt1 \<Longrightarrow> same_account rt1 rt"
  by (simp add: same_account_def)

lemma send_same [simp]: "same_account rt (send rt channel payload retained) = True"
  by (simp add: same_account_def send_def)

lemma schedule_same [simp]: "same_account rt (scheduleRefresh m rt)"
  by (simp add: same_account_def scheduleRefresh_def)

lemma fetchBalances_same: "fetchBalances D reads client rt = Some (result, rt1) \<Longrightarrow> same_account rt rt1"
  by (auto simp: fetchBalances_def same_account_def Let_def split: option.splits sum.splits)

lemma loadMarket_same: "loadMarket D catalog reads client rt = (result, rt1) \<Longrightarrow> same_account rt rt1"
  by (auto simp: loadMarket_def same_account_def publishPositions_def send_def split: option.splits sum.splits)

lemma load_stale_same: "load_stale D catalog reads clients errs rt = (errs1, rt1) \<Longrightarrow> same_account rt rt1"
proof (induction clients arbitrary: errs rt)
  case (Cons client clients)
  then show ?case
    by (auto simp: Let_def split: if_splits prod.splits option.splits)
      (blast dest: loadMarket_same intro: same_account_trans)+
qed simp

lemma balances_loop_same: "balances_loop D reads clients rows errs rt = Some (result, rt1) \<Longrightarrow> same_account rt rt1"
proof (induction clients arbitrary: rows errs rt)
  case (Cons client clients)
  then show ?case
    by (auto split: option.splits prod.splits sum.splits) (blast dest: fetchBalances_same intro: same_account_trans)+
qed simp

lemma verify_loop_same: "verify_loop D reads clients rt = Some (result, rt1) \<Longrightarrow> same_account rt rt1"
proof (induction clients arbitrary: rt)
  case (Cons client clients)
  then show ?case
    by (auto split: option.splits prod.splits sum.splits) (blast dest: fetchBalances_same intro: same_account_trans)+
qed simp

lemma Positions_same: "runtime_Positions D catalog reads rt = (result, rt1) \<Longrightarrow> same_account rt rt1"
  by (auto simp: runtime_Positions_def Let_def split: prod.splits if_splits dest: load_stale_same)

lemma Balances_same: "runtime_Balances D reads rt = Some (result, rt1) \<Longrightarrow> same_account rt rt1"
  by (auto simp: runtime_Balances_def split: option.splits prod.splits if_splits dest: balances_loop_same)

lemma Place_same: "Place D PlaceOrder now instrument request rt = Some (result, rt1) \<Longrightarrow> same_account rt rt1"
  by (auto simp: Place_def Let_def split: option.splits prod.splits sum.splits if_splits)

lemma SetLeverage_same: "runtime_SetLeverage SetLeverage instrument leverage rt = (result, rt1) \<Longrightarrow> same_account rt rt1"
  by (auto simp: runtime_SetLeverage_def split: option.splits sum.splits if_splits)

definition manager_ok :: "'c Env \<Rightarrow> 'c Manager \<Rightarrow> bool" where
  "manager_ok env manager \<longleftrightarrow>
     store_ok (ev_aead env) (mg_store manager) \<and> on_disk (ev_text env) (mg_store manager) (mg_disk manager) \<and>
     gomap_ok (mg_runtimes manager)"

text \<open>A runtime that a start from the store would build again.\<close>

definition lives :: "'c Env \<Rightarrow> Store \<Rightarrow> string \<Rightarrow> 'c runtime \<Rightarrow> bool" where
  "lives env store iid rt \<longleftrightarrow> (\<exists>rt0. built env store iid = Some rt0 \<and> same_account rt0 rt)"

lemma lives_same: "lives env store iid rt \<Longrightarrow> same_account rt rt1 \<Longrightarrow> lives env store iid rt1"
  unfolding lives_def using same_account_trans by blast

lemma lives_cong: "vault (ev_aead env) store iid = vault (ev_aead env) store' iid \<Longrightarrow> lives env store iid rt = lives env store' iid rt"
  by (simp add: lives_def built_def)

lemma lives_stored: "lives env store iid rt \<Longrightarrow> vault (ev_aead env) store iid \<noteq> None"
  by (auto simp: lives_def built_def split: option.splits)

section \<open>Start\<close>

lemma vault_Some:
  assumes "store_ok aead store" "vault aead store iid = Some (account, payload)"
  shows "ac_ID account = iid" "\<exists>r. map_of store iid = Some r \<and> sr_Account r = account"
  using assms by (auto simp: vault_def store_Get_def store_ok_def record_id_def Let_def split: option.splits sum.splits)

lemma vault_stored:
  assumes "store_ok aead store" "map_of store iid = Some r"
  shows "\<exists>payload. vault aead store iid = Some (sr_Account r, payload) \<and> ac_ID (sr_Account r) = iid \<and>
    store_Get aead store iid = Inr (sr_Account r, payload)"
proof -
  have "record_id r = iid" "opens aead r" using assms by (auto simp: store_ok_def)
  then show ?thesis using assms(2) by (auto simp: vault_def store_Get_def record_id_def opens_def)
qed

lemma activate_built:
  assumes "store_ok (ev_aead env) (mg_store manager)" "map_of (mg_store manager) iid = Some r"
  shows "snd (activate env (sr_Account r) manager) =
    (case built env (mg_store manager) iid of
       None \<Rightarrow> manager
     | Some rt \<Rightarrow> manager\<lparr>mg_runtimes := AList.update iid rt (mg_runtimes manager)\<rparr>)"
proof -
  obtain payload where "vault (ev_aead env) (mg_store manager) iid = Some (sr_Account r, payload)" "ac_ID (sr_Account r) = iid"
      "store_Get (ev_aead env) (mg_store manager) iid = Inr (sr_Account r, payload)"
    using vault_stored [OF assms] by blast
  then show ?thesis by (simp add: activate_def built_def split: sum.split)
qed

lemma activate_all_built:
  assumes "store_ok (ev_aead env) (mg_store manager)" "\<forall>account\<in>set accounts. \<exists>r. map_of (mg_store manager) (ac_ID account) = Some r \<and> sr_Account r = account"
  shows "mg_store (activate_all env accounts manager) = mg_store manager \<and>
    mg_disk (activate_all env accounts manager) = mg_disk manager \<and>
    (gomap_ok (mg_runtimes manager) \<longrightarrow> gomap_ok (mg_runtimes (activate_all env accounts manager))) \<and>
    (\<forall>iid. map_of (mg_runtimes (activate_all env accounts manager)) iid =
      (if iid \<in> ac_ID ` set accounts \<and> built env (mg_store manager) iid \<noteq> None then built env (mg_store manager) iid
       else map_of (mg_runtimes manager) iid))"
  using assms
proof (induction accounts arbitrary: manager)
  case (Cons account accounts)
  obtain r where r: "map_of (mg_store manager) (ac_ID account) = Some r" "sr_Account r = account"
    using Cons.prems(2) by auto
  let ?m = "snd (activate env account manager)"
  have m: "?m = (case built env (mg_store manager) (ac_ID account) of None \<Rightarrow> manager
      | Some rt \<Rightarrow> manager\<lparr>mg_runtimes := AList.update (ac_ID account) rt (mg_runtimes manager)\<rparr>)"
    using activate_built [OF Cons.prems(1) r(1)] r(2) by simp
  have kept: "mg_store ?m = mg_store manager" "mg_disk ?m = mg_disk manager"
    by (simp_all add: m split: option.split)
  show ?case
    using Cons.IH [of ?m] Cons.prems kept by (auto simp: m split: option.splits)
qed simp

lemma set_store_List: "gomap_ok store \<Longrightarrow> set (store_List store) = {sr_Account r |r k. map_of store k = Some r}"
  by (force simp: store_List_def gomap_in_set)

lemma Start_runtimes:
  assumes "store_ok (ev_aead env) store"
  shows "map_of (mg_runtimes (manager_Start env (NewManager store disk))) = built env store"
    and "mg_store (manager_Start env (NewManager store disk)) = store"
    and "mg_disk (manager_Start env (NewManager store disk)) = disk"
    and "gomap_ok (mg_runtimes (manager_Start env (NewManager store disk)))"
proof -
  let ?m = "NewManager store disk"
  have ids: "\<forall>account\<in>set (store_List store). \<exists>r. map_of store (ac_ID account) = Some r \<and> sr_Account r = account"
    using assms set_store_List [of store] by (auto simp: store_ok_def record_id_def)
  have all: "iid \<in> ac_ID ` set (store_List store)" if some: "built env store iid \<noteq> None" for iid
  proof -
    obtain account payload where "vault (ev_aead env) store iid = Some (account, payload)"
      using some by (auto simp: built_def split: option.splits)
    then show ?thesis
      using vault_Some [OF assms] set_store_List [of store] assms by (fastforce simp: store_ok_def)
  qed
  have store: "mg_store ?m = store" "mg_disk ?m = disk" "mg_runtimes ?m = []" by (simp_all add: NewManager_def)
  note started = activate_all_built [of env ?m "store_List store", unfolded store, OF assms ids]
  show "map_of (mg_runtimes (manager_Start env ?m)) = built env store"
  proof
    fix iid show "map_of (mg_runtimes (manager_Start env ?m)) iid = built env store iid"
      using started all [of iid] by (cases "built env store iid") (auto simp: manager_Start_def store)
  qed
  show "mg_store (manager_Start env ?m) = store" "mg_disk (manager_Start env ?m) = disk"
      "gomap_ok (mg_runtimes (manager_Start env ?m))"
    using started by (simp_all add: manager_Start_def store)
qed

lemma Start_ok:
  assumes "store_ok (ev_aead env) store" "on_disk (ev_text env) store disk"
  shows "manager_ok env (manager_Start env (NewManager store disk))"
    "map_of (mg_runtimes (manager_Start env (NewManager store disk))) iid = Some rt \<Longrightarrow>
     lives env (mg_store (manager_Start env (NewManager store disk))) iid rt"
  using assms Start_runtimes [OF assms(1)] by (auto simp: manager_ok_def lives_def)

section \<open>Create and Delete\<close>

text \<open>What Create's checks guarantee of the account it is about to store, and the clients they made.\<close>

definition request_clients :: "'c Env \<Rightarrow> Draws \<Rightarrow> CreateRequest \<Rightarrow> 'c list" where
  "request_clients env draws request =
     (case create_decode env draws request of
        Inl err \<Rightarrow> []
      | Inr (venue, label, payload, iid, decoded) \<Rightarrow>
          made_clients (ev_New env) (client_options (ev_digest env) iid (dd_Credentials decoded)) (dd_Credentials decoded)
            (MarketsOf (dd_Venue decoded)))"

lemma create_check_Inr:
  assumes "create_check env draws request = Inr (venue, label, payload, iid, clients)"
  shows "\<exists>decoded. create_decode env draws request = Inr (venue, label, payload, iid, decoded) \<and>
    registry_Decode (jt_parse (ev_json env)) defaultAuthKinds venue payload = Inr decoded \<and>
    buildClients (ev_digest env) (ev_New env) iid decoded = Inr clients \<and>
    map rc_market clients = MarketsOf venue \<and> list_all serves clients \<and>
    concat (map client_close clients) = request_clients env draws request"
proof -
  obtain decoded where decode: "create_decode env draws request = Inr (venue, label, payload, iid, decoded)"
      and clients: "buildClients (ev_digest env) (ev_New env) iid decoded = Inr clients"
    using assms by (auto simp: create_check_def split: sum.splits)
  then have decoded: "registry_Decode (jt_parse (ev_json env)) defaultAuthKinds venue payload = Inr decoded"
    by (auto simp: create_decode_def Let_def split: if_splits sum.splits)
  then show ?thesis
    using decode clients buildClients_serves [OF clients] registry_Decode_Inr [OF decoded] buildClients_made(2) [OF clients]
    by (auto simp: request_clients_def)
qed

lemma create_check_Inl: "create_check env draws request = Inl (err, released) \<Longrightarrow> released = request_clients env draws request"
  by (auto simp: create_check_def request_clients_def split: sum.splits dest: buildClients_made(1))

lemma persist_Inr:
  assumes "create_persist D env reads draws request manager = Some (Inr (account, rt), manager1, released)"
  shows "\<exists>label payload decoded clients disks.
    create_decode env draws request = Inr (ac_Venue account, label, payload, ac_ID account, decoded) \<and>
    store_Create (ev_aead env) (ev_text env) (dr_nonce draws) (dr_answer draws) account payload (mg_store manager) (mg_disk manager) =
      (None, mg_store manager1, disks) \<and> mg_disk manager1 = last disks \<and> mg_runtimes manager1 = mg_runtimes manager \<and>
    registry_Decode (jt_parse (ev_json env)) defaultAuthKinds (ac_Venue account) payload = Inr decoded \<and>
    buildClients (ev_digest env) (ev_New env) (ac_ID account) decoded = Inr clients \<and>
    same_account (newRuntime (ac_ID account) (ac_Venue account) clients) rt \<and>
    map rc_market clients = MarketsOf (ac_Venue account) \<and> list_all serves clients \<and>
    concat (map client_close clients) = request_clients env draws request \<and> released = []"
proof -
  obtain venue label payload iid clients where check: "create_check env draws request = Inr (venue, label, payload, iid, clients)"
    using assms by (auto simp: create_persist_def split: sum.splits)
  then obtain decoded where decoded: "create_decode env draws request = Inr (venue, label, payload, iid, decoded)"
      "registry_Decode (jt_parse (ev_json env)) defaultAuthKinds venue payload = Inr decoded"
      "buildClients (ev_digest env) (ev_New env) iid decoded = Inr clients"
      "map rc_market clients = MarketsOf venue" "list_all serves clients"
      "concat (map client_close clients) = request_clients env draws request"
    using create_check_Inr by blast
  have verified: "verify_loop D reads clients (newRuntime iid venue clients) = Some (None, rt)"
    using assms check by (auto simp: create_persist_def Let_def split: option.splits prod.splits)
  then have account: "account = \<lparr>ac_ID = iid, ac_Venue = venue, ac_Label = (if label = [] then venue else label), ac_CreatedAt = dr_now draws\<rparr>"
    using assms check by (auto simp: create_persist_def Let_def split: option.splits prod.splits)
  have "\<exists>disks. store_Create (ev_aead env) (ev_text env) (dr_nonce draws) (dr_answer draws) account payload (mg_store manager)
      (mg_disk manager) = (None, mg_store manager1, disks) \<and> mg_disk manager1 = last disks \<and>
      mg_runtimes manager1 = mg_runtimes manager \<and> released = []"
    using assms check verified account by (auto simp: create_persist_def Let_def split: option.splits prod.splits)
  moreover have "ac_ID account = iid" "ac_Venue account = venue" by (simp_all add: account)
  ultimately show ?thesis using decoded verify_loop_same [OF verified] by blast
qed

lemma persist_Inl_released:
  assumes "create_persist D env reads draws request manager = Some (Inl err, manager1, released)"
  shows "released = request_clients env draws request"
proof (cases "create_check env draws request")
  case (Inl failed)
  then show ?thesis
    using assms create_check_Inl by (cases failed) (auto simp: create_persist_def)
next
  case (Inr checked)
  obtain venue label payload iid clients where checked: "checked = (venue, label, payload, iid, clients)"
    by (metis prod_cases5)
  obtain failed rt where run: "verify_loop D reads clients (newRuntime iid venue clients) = Some (failed, rt)"
    using assms Inr checked by (cases "verify_loop D reads clients (newRuntime iid venue clients)") (auto simp: create_persist_def)
  have "released = runtime_close rt"
    using assms Inr checked run by (auto simp: create_persist_def Let_def split: option.splits prod.splits)
  moreover have "rt_clients rt = clients"
    using verify_loop_same [OF run] by (simp add: same_account_def newRuntime_def)
  ultimately show ?thesis
    using create_check_Inr [of env draws request] Inr checked by (fastforce simp: runtime_close_def)
qed

lemma persist_Inl:
  assumes "create_persist D env reads draws request manager = Some (Inl err, manager1, released)"
  shows "manager1 = manager \<or> (\<exists>account payload err' disks.
    store_Create (ev_aead env) (ev_text env) (dr_nonce draws) (dr_answer draws) account payload (mg_store manager) (mg_disk manager) =
      (Some err', mg_store manager1, disks) \<and> manager1 = manager\<lparr>mg_store := mg_store manager1, mg_disk := last disks\<rparr>)"
  using assms by (auto simp: create_persist_def Let_def split: option.splits prod.splits sum.splits) blast

lemma store_change_ok:
  assumes "manager_ok env manager" "safe_change (ev_aead env) (ev_text env) (mg_store manager) (mg_store manager1) disks"
    and "mg_disk manager1 = last disks" "mg_runtimes manager1 = mg_runtimes manager"
  shows "manager_ok env manager1"
  using assms by (simp add: manager_ok_def safe_change_def)

text \<open>The first section of Create: the store takes the account, or stays as it is.\<close>

lemma persist_stores:
  assumes "aead_ok (ev_aead env)" "text_ok (ev_text env)" "manager_ok env manager"
    and nonce: "\<And>n. dr_nonce draws = Some n \<Longrightarrow> length n = NonceSize (ev_aead env)"
    and persist: "create_persist D env reads draws request manager = Some (Inr (account, rt), manager1, released)"
  shows "\<exists>label payload decoded. create_decode env draws request = Inr (ac_Venue account, label, payload, ac_ID account, decoded) \<and>
      vault (ev_aead env) (mg_store manager1) = (vault (ev_aead env) (mg_store manager))(ac_ID account \<mapsto> (account, payload))"
    "vault (ev_aead env) (mg_store manager) (ac_ID account) = None" "mg_runtimes manager1 = mg_runtimes manager"
    "rt_id rt = ac_ID account" "map rc_market (rt_clients rt) = MarketsOf (ac_Venue account)" "list_all serves (rt_clients rt)"
    "concat (map client_close (rt_clients rt)) = request_clients env draws request" "released = []"
    "lives env (mg_store manager1) (ac_ID account) rt" "manager_ok env manager1"
proof -
  obtain label payload decoded clients disks where
    decode: "create_decode env draws request = Inr (ac_Venue account, label, payload, ac_ID account, decoded)"
    and store: "store_Create (ev_aead env) (ev_text env) (dr_nonce draws) (dr_answer draws) account payload (mg_store manager)
        (mg_disk manager) = (None, mg_store manager1, disks)" "mg_disk manager1 = last disks"
        "mg_runtimes manager1 = mg_runtimes manager"
    and live: "registry_Decode (jt_parse (ev_json env)) defaultAuthKinds (ac_Venue account) payload = Inr decoded"
        "buildClients (ev_digest env) (ev_New env) (ac_ID account) decoded = Inr clients"
        "same_account (newRuntime (ac_ID account) (ac_Venue account) clients) rt"
    and serve: "map rc_market clients = MarketsOf (ac_Venue account)" "list_all serves clients"
        "concat (map client_close clients) = request_clients env draws request" "released = []"
    using persist_Inr [OF persist] by blast
  have ok: "store_ok (ev_aead env) (mg_store manager)" "on_disk (ev_text env) (mg_store manager) (mg_disk manager)"
    using assms(3) by (auto simp: manager_ok_def)
  have safe: "safe_change (ev_aead env) (ev_text env) (mg_store manager) (mg_store manager1) disks"
    and content: "vault (ev_aead env) (mg_store manager1) =
      (vault (ev_aead env) (mg_store manager))(ac_ID account \<mapsto> (account, payload))"
    using store_Create_safe [OF assms(1,2) ok nonce store(1)] by (auto simp: create_vault_def)
  show "\<exists>label payload decoded. create_decode env draws request = Inr (ac_Venue account, label, payload, ac_ID account, decoded) \<and>
      vault (ev_aead env) (mg_store manager1) = (vault (ev_aead env) (mg_store manager))(ac_ID account \<mapsto> (account, payload))"
    using decode content by blast
  show "vault (ev_aead env) (mg_store manager) (ac_ID account) = None"
    using store(1) by (auto simp: store_Create_def vault_def store_Get_def split: sum.splits if_splits)
  show "lives env (mg_store manager1) (ac_ID account) rt"
    using live by (simp add: lives_def built_def content)
  show "manager_ok env manager1"
    by (rule store_change_ok [OF assms(3) safe store(2,3)])
  have "rt_id rt = ac_ID account" "rt_clients rt = clients"
    using live(3) by (simp_all add: same_account_def newRuntime_def)
  then show "mg_runtimes manager1 = mg_runtimes manager" "rt_id rt = ac_ID account" "released = []"
    "map rc_market (rt_clients rt) = MarketsOf (ac_Venue account)" "list_all serves (rt_clients rt)"
    "concat (map client_close (rt_clients rt)) = request_clients env draws request"
    using serve store(3) by simp_all
qed

lemma persist_fails:
  assumes "aead_ok (ev_aead env)" "text_ok (ev_text env)" "manager_ok env manager"
    and nonce: "\<And>n. dr_nonce draws = Some n \<Longrightarrow> length n = NonceSize (ev_aead env)"
    and failed: "create_persist D env reads draws request manager = Some (Inl err, manager1, released)"
  shows "vault (ev_aead env) (mg_store manager1) = vault (ev_aead env) (mg_store manager)"
    "mg_runtimes manager1 = mg_runtimes manager" "manager_ok env manager1" "released = request_clients env draws request"
proof -
  have ok: "store_ok (ev_aead env) (mg_store manager)" "on_disk (ev_text env) (mg_store manager) (mg_disk manager)"
    using assms(3) by (auto simp: manager_ok_def)
  from persist_Inl [OF failed] consider "manager1 = manager"
    | account payload err' disks where "store_Create (ev_aead env) (ev_text env) (dr_nonce draws) (dr_answer draws) account payload
        (mg_store manager) (mg_disk manager) = (Some err', mg_store manager1, disks)"
        "manager1 = manager\<lparr>mg_store := mg_store manager1, mg_disk := last disks\<rparr>"
    by blast
  then have "vault (ev_aead env) (mg_store manager1) = vault (ev_aead env) (mg_store manager) \<and>
      mg_runtimes manager1 = mg_runtimes manager \<and> manager_ok env manager1"
  proof cases
    case 1
    then show ?thesis using assms(3) by simp
  next
    case 2
    have same: "mg_disk manager1 = last disks" "mg_runtimes manager1 = mg_runtimes manager"
      by (subst 2(2), simp)+
    have safe: "safe_change (ev_aead env) (ev_text env) (mg_store manager) (mg_store manager1) disks"
      and content: "vault (ev_aead env) (mg_store manager1) = vault (ev_aead env) (mg_store manager)"
      using store_Create_safe [OF assms(1,2) ok nonce 2(1)] by auto
    show ?thesis
      using content same store_change_ok [OF assms(3) safe same] by simp
  qed
  then show "vault (ev_aead env) (mg_store manager1) = vault (ev_aead env) (mg_store manager)"
    "mg_runtimes manager1 = mg_runtimes manager" "manager_ok env manager1" "released = request_clients env draws request"
    using persist_Inl_released [OF failed] by simp_all
qed

text \<open>The first section of Delete: the store loses the account, or stays as it is.\<close>

lemma delete_stored_vault:
  assumes "text_ok (ev_text env)" "manager_ok env manager" "delete_stored env answer iid manager = (err, manager1)"
  shows "vault (ev_aead env) (mg_store manager1) =
      (if err = None then (vault (ev_aead env) (mg_store manager))(iid := None) else vault (ev_aead env) (mg_store manager))"
    "mg_runtimes manager1 = mg_runtimes manager"
    "vault (ev_aead env) (mg_store manager) iid = None \<Longrightarrow> err = Some ErrAccountNotFound" "manager_ok env manager1"
proof -
  have ok: "store_ok (ev_aead env) (mg_store manager)" "on_disk (ev_text env) (mg_store manager) (mg_disk manager)"
    using assms(2) by (auto simp: manager_ok_def)
  obtain e store1 disks where run: "store_Delete (ev_text env) answer iid (mg_store manager) (mg_disk manager) = (e, store1, disks)"
    using prod_cases3 by blast
  have out: "mg_store manager1 = store1" "mg_disk manager1 = last disks" "err = None \<longleftrightarrow> e = None"
      "mg_runtimes manager1 = mg_runtimes manager"
    using assms(3) run by (auto simp: delete_stored_def split: option.splits)
  have safe: "safe_change (ev_aead env) (ev_text env) (mg_store manager) store1 disks"
    and content: "vault (ev_aead env) store1 =
      (if e = None then (vault (ev_aead env) (mg_store manager))(iid := None) else vault (ev_aead env) (mg_store manager))"
    using store_Delete_safe [OF assms(1) ok run] by auto
  show "vault (ev_aead env) (mg_store manager1) =
      (if err = None then (vault (ev_aead env) (mg_store manager))(iid := None) else vault (ev_aead env) (mg_store manager))"
    using content by (simp add: out)
  show "manager_ok env manager1"
    by (rule store_change_ok [OF assms(2) safe [folded out(1)] out(2,4)])
  show "mg_runtimes manager1 = mg_runtimes manager"
    by (rule out(4))
  show "err = Some ErrAccountNotFound" if absent: "vault (ev_aead env) (mg_store manager) iid = None"
  proof -
    have "map_of (mg_store manager) iid = None"
      using absent vault_stored [OF ok(1)] by (cases "map_of (mg_store manager) iid") force+
    moreover have "errors_Is ErrStoreNotFound ErrStoreNotFound" by simp
    ultimately show ?thesis using assms(3) by (auto simp: delete_stored_def store_Delete_def)
  qed
qed

section \<open>Interleavings\<close>

text \<open>
  A gateway with the requests that are between two critical sections: creations that have stored their
  account and not yet registered its runtime, and deletions that have removed the record and not yet the
  runtime. The ids whose record was deleted since the process started are kept for the statements.
\<close>

record 'c System =
  sy_manager :: "'c Manager"
  sy_creating :: "(Account \<times> 'c runtime) list"
  sy_deleting :: "string list"
  sy_deleted :: "string list"

abbreviation started :: "'c Env \<Rightarrow> Store \<Rightarrow> Disk \<Rightarrow> 'c System" where
  "started env store disk \<equiv>
     \<lparr>sy_manager = manager_Start env (NewManager store disk), sy_creating = [], sy_deleting = [], sy_deleted = []\<rparr>"

text \<open>
  The critical sections, in any order. The check and the verification of a creation touch nothing that is
  shared, so they are part of the section that stores the account. An operation of a live account may
  change what its runtime holds, never its id, venue or clients.
\<close>

inductive system_step :: "'d Decimals \<Rightarrow> 'c Env \<Rightarrow> 'c System \<Rightarrow> 'c System \<Rightarrow> bool" for D env where
  persist: "(\<And>n. dr_nonce draws = Some n \<Longrightarrow> length n = NonceSize (ev_aead env)) \<Longrightarrow>
    create_persist D env reads draws request (sy_manager s) = Some (Inr (account, rt), manager1, released) \<Longrightarrow>
    system_step D env s (s\<lparr>sy_manager := manager1, sy_creating := (account, rt) # sy_creating s\<rparr>)"
| persist_failed: "(\<And>n. dr_nonce draws = Some n \<Longrightarrow> length n = NonceSize (ev_aead env)) \<Longrightarrow>
    create_persist D env reads draws request (sy_manager s) = Some (Inl err, manager1, released) \<Longrightarrow>
    system_step D env s (s\<lparr>sy_manager := manager1\<rparr>)"
| registered: "sy_creating s = xs @ (account, rt) # ys \<Longrightarrow>
    system_step D env s (s\<lparr>sy_manager := create_register (ac_ID account) rt (sy_manager s), sy_creating := xs @ ys\<rparr>)"
| delete: "delete_stored env answer iid (sy_manager s) = (None, manager1) \<Longrightarrow>
    system_step D env s (s\<lparr>sy_manager := manager1, sy_deleting := iid # sy_deleting s, sy_deleted := iid # sy_deleted s\<rparr>)"
| delete_failed: "delete_stored env answer iid (sy_manager s) = (Some err, manager1) \<Longrightarrow>
    system_step D env s (s\<lparr>sy_manager := manager1\<rparr>)"
| retired: "sy_deleting s = xs @ iid # ys \<Longrightarrow> delete_live iid (sy_manager s) = (manager1, released) \<Longrightarrow>
    system_step D env s (s\<lparr>sy_manager := manager1, sy_deleting := xs @ ys\<rparr>)"
| operated: "map_of (mg_runtimes (sy_manager s)) iid = Some rt \<Longrightarrow> same_account rt rt1 \<Longrightarrow>
    system_step D env s (s\<lparr>sy_manager := (sy_manager s)\<lparr>mg_runtimes := AList.update iid rt1 (mg_runtimes (sy_manager s))\<rparr>\<rparr>)"
| shut_down: "manager_Close (sy_manager s) = (manager1, released) \<Longrightarrow> system_step D env s (s\<lparr>sy_manager := manager1\<rparr>)"
| restart: "store_Open (ev_aead env) (ev_text env) (file_of (mg_disk (sy_manager s))) = Inr store \<Longrightarrow>
    system_step D env s (started env store (mg_disk (sy_manager s)))"

abbreviation system_reach :: "'d Decimals \<Rightarrow> 'c Env \<Rightarrow> 'c System \<Rightarrow> bool" where
  "system_reach D env \<equiv> (system_step D env)\<^sup>*\<^sup>* (started env [] \<lparr>dk_path = None, dk_temp = None\<rparr>)"

definition manager_reach :: "'d Decimals \<Rightarrow> 'c Env \<Rightarrow> 'c Manager \<Rightarrow> bool" where
  "manager_reach D env manager \<longleftrightarrow> (\<exists>s. system_reach D env s \<and> sy_manager s = manager)"

text \<open>The operations that write a runtime are such steps.\<close>

lemma operations_step:
  "with_runtime iid operation (sy_manager s) = Some (result, manager1) \<Longrightarrow>
   (\<And>rt result rt1. operation rt = Some (result, rt1) \<Longrightarrow> same_account rt rt1) \<Longrightarrow>
   s\<lparr>sy_manager := manager1\<rparr> = s \<or> system_step D env s (s\<lparr>sy_manager := manager1\<rparr>)"
  by (auto simp: with_runtime_def manager_runtime_def split: option.splits intro: operated)

lemma manager_operations_step:
  assumes "manager_Positions D catalog reads iid (sy_manager s) = Some (positions, manager1) \<or>
    manager_Balances D reads iid (sy_manager s) = Some (balances, manager1) \<or>
    manager_Place D catalog PlaceOrder now iid order (sy_manager s) = Some (placed, manager1) \<or>
    manager_SetLeverage catalog SetLeverage iid instrumentID leverage (sy_manager s) = Some (effective, manager1)"
  shows "s\<lparr>sy_manager := manager1\<rparr> = s \<or> system_step D env s (s\<lparr>sy_manager := manager1\<rparr>)"
  using assms unfolding manager_Positions_def manager_Balances_def manager_Place_def manager_SetLeverage_def
  by (elim disjE; elim operations_step)
    (auto split: sum.splits dest: Positions_same Balances_same Place_same SetLeverage_same)

text \<open>
  The invariant: the account file is that of the store, and a runtime that is live or about to be is the
  one a start would build from the store, unless its record was deleted.
\<close>

definition system_ok :: "'c Env \<Rightarrow> 'c System \<Rightarrow> bool" where
  "system_ok env s \<longleftrightarrow> manager_ok env (sy_manager s) \<and>
     (\<forall>iid rt. map_of (mg_runtimes (sy_manager s)) iid = Some rt \<longrightarrow> iid \<notin> set (sy_deleted s) \<longrightarrow>
        lives env (mg_store (sy_manager s)) iid rt) \<and>
     (\<forall>account rt. (account, rt) \<in> set (sy_creating s) \<longrightarrow> ac_ID account \<notin> set (sy_deleted s) \<longrightarrow>
        lives env (mg_store (sy_manager s)) (ac_ID account) rt)"

lemma system_okD:
  assumes "system_ok env s"
  shows "manager_ok env (sy_manager s)"
    "map_of (mg_runtimes (sy_manager s)) iid = Some rt \<Longrightarrow> iid \<notin> set (sy_deleted s) \<Longrightarrow> lives env (mg_store (sy_manager s)) iid rt"
    "(account, rt) \<in> set (sy_creating s) \<Longrightarrow> ac_ID account \<notin> set (sy_deleted s) \<Longrightarrow>
     lives env (mg_store (sy_manager s)) (ac_ID account) rt"
  using assms unfolding system_ok_def by blast+

lemma started_ok:
  assumes "store_ok (ev_aead env) store" "on_disk (ev_text env) store disk"
  shows "system_ok env (started env store disk)"
  using Start_ok [OF assms] by (simp add: system_ok_def)

text \<open>A section that changes the store for ids that are fresh or deleted, and no runtime.\<close>

lemma store_section_ok:
  assumes "system_ok env s" "manager_ok env manager1" "mg_runtimes manager1 = mg_runtimes (sy_manager s)"
    and "set (sy_creating s) \<subseteq> set (sy_creating s1)" "set (sy_deleted s) \<subseteq> set (sy_deleted s1)" "sy_manager s1 = manager1"
    and same: "\<And>iid. iid \<notin> set (sy_deleted s1) \<Longrightarrow> vault (ev_aead env) (mg_store (sy_manager s)) iid \<noteq> None \<Longrightarrow>
      vault (ev_aead env) (mg_store manager1) iid = vault (ev_aead env) (mg_store (sy_manager s)) iid"
    and new: "\<And>account rt. (account, rt) \<in> set (sy_creating s1) \<Longrightarrow> (account, rt) \<notin> set (sy_creating s) \<Longrightarrow>
      lives env (mg_store manager1) (ac_ID account) rt"
  shows "system_ok env s1"
proof -
  have keep: "lives env (mg_store manager1) iid rt"
    if "lives env (mg_store (sy_manager s)) iid rt" "iid \<notin> set (sy_deleted s1)" for iid rt
    using that same [OF that(2) lives_stored [OF that(1)]] lives_cong by metis
  have "iid \<notin> set (sy_deleted s)" if "iid \<notin> set (sy_deleted s1)" for iid
    using that assms(5) by blast
  then show ?thesis
    unfolding system_ok_def using assms(2,3,6) keep new system_okD(2,3) [OF assms(1)] by (metis (no_types, lifting))
qed

lemma registered_ok:
  assumes "system_ok env s" "sy_creating s = xs @ (account, rt) # ys"
  shows "system_ok env (s\<lparr>sy_manager := create_register (ac_ID account) rt (sy_manager s), sy_creating := xs @ ys\<rparr>)"
proof -
  have "lives env (mg_store (sy_manager s)) (ac_ID account) rt" if "ac_ID account \<notin> set (sy_deleted s)"
    using system_okD(3) [OF assms(1) _ that] assms(2) by simp
  then show ?thesis
    using assms by (auto simp: system_ok_def manager_ok_def create_register_def)
qed

lemma operated_ok:
  assumes "system_ok env s" "map_of (mg_runtimes (sy_manager s)) iid = Some rt" "same_account rt rt1"
  shows "system_ok env (s\<lparr>sy_manager := (sy_manager s)\<lparr>mg_runtimes := AList.update iid rt1 (mg_runtimes (sy_manager s))\<rparr>\<rparr>)"
proof -
  have "lives env (mg_store (sy_manager s)) iid rt1" if "iid \<notin> set (sy_deleted s)"
    using system_okD(2) [OF assms(1,2) that] lives_same [OF _ assms(3)] by blast
  then show ?thesis
    using assms(1) by (auto simp: system_ok_def manager_ok_def)
qed

lemma restart_ok:
  assumes "manager_ok env manager"
  shows "\<exists>store. store_Open (ev_aead env) (ev_text env) (file_of (mg_disk manager)) = Inr store \<and>
    store_ok (ev_aead env) store \<and> on_disk (ev_text env) store (mg_disk manager) \<and> map_of store = map_of (mg_store manager)"
proof -
  have ok: "store_ok (ev_aead env) (mg_store manager)" "on_disk (ev_text env) (mg_store manager) (mg_disk manager)"
    using assms by (auto simp: manager_ok_def)
  obtain store where "store_Open (ev_aead env) (ev_text env) (file_of (mg_disk manager)) = Inr store"
      "store_ok (ev_aead env) store" "map_of store = map_of (mg_store manager)"
    using store_reopens [OF ok] by blast
  then show ?thesis using on_disk_same [OF ok(1) _ _ ok(2)] by metis
qed

lemma system_step_ok:
  assumes "system_step D env s s1" "aead_ok (ev_aead env)" "text_ok (ev_text env)" "system_ok env s"
  shows "system_ok env s1"
  using assms(1,4)
proof (induction rule: system_step.induct)
  case (persist draws reads request s account rt manager1 released)
  note stored = persist_stores [OF assms(2,3) system_okD(1) [OF persist.prems] persist.hyps]
  show ?case
    by (rule store_section_ok [OF persist.prems stored(10,3)]) (use stored(1,2,9) in auto)
next
  case (persist_failed draws reads request s err manager1 released)
  note failed = persist_fails [OF assms(2,3) system_okD(1) [OF persist_failed.prems] persist_failed.hyps]
  show ?case
    by (rule store_section_ok [OF persist_failed.prems failed(3,2)]) (use failed(1) in auto)
next
  case (registered s xs account rt ys)
  then show ?case by (rule registered_ok [rotated])
next
  case (delete answer iid s manager1)
  note deleted = delete_stored_vault [OF assms(3) system_okD(1) [OF delete.prems] delete.hyps]
  show ?case
    by (rule store_section_ok [OF delete.prems deleted(4,2)]) (use deleted(1) in auto)
next
  case (delete_failed answer iid s err manager1)
  note deleted = delete_stored_vault [OF assms(3) system_okD(1) [OF delete_failed.prems] delete_failed.hyps]
  show ?case
    by (rule store_section_ok [OF delete_failed.prems deleted(4,2)]) (use deleted(1) in auto)
next
  case (retired s xs iid ys manager1 released)
  then show ?case by (auto simp: delete_live_def system_ok_def manager_ok_def split: if_splits)
next
  case (operated s iid rt rt1)
  then show ?case by (intro operated_ok)
next
  case (shut_down s manager1 released)
  then show ?case by (auto simp: manager_Close_def system_ok_def manager_ok_def)
next
  case (restart s store)
  then show ?case using restart_ok [OF system_okD(1) [OF restart.prems]] by (auto intro!: started_ok)
qed

lemma reach_ok:
  assumes "system_reach D env s" "aead_ok (ev_aead env)" "text_ok (ev_text env)"
  shows "system_ok env s"
  using assms(1)
proof (induction rule: rtranclp_induct)
  case base
  show ?case by (rule started_ok) (simp_all add: store_ok_def on_disk_def)
next
  case (step s s1)
  then show ?case using system_step_ok [OF _ assms(2,3)] by blast
qed

section \<open>Properties\<close>



text \<open>
  The sections of Create that store the account and that make it live are apart: an account that is
  deleted in between is live, and neither stored nor listed, and deleting it again finds nothing.
\<close>

lemma deleted_between_persist_and_register:
  assumes "text_ok (ev_text env)" "manager_ok env manager1"
    and "delete_stored env answer iid manager1 = (None, manager2)"
    and manager3: "manager3 = create_register iid rt (fst (delete_live iid manager2))"
  shows "manager_runtime manager3 iid = Inr rt \<and> vault (ev_aead env) (mg_store manager3) iid = None \<and>
    iid \<notin> ac_ID ` av_Account ` set (manager_List manager3) \<and>
    (\<forall>answer'. fst (delete_stored env answer' iid manager3) = Some ErrAccountNotFound)"
proof -
  have gone: "vault (ev_aead env) (mg_store manager2) iid = None" and ok: "manager_ok env manager2"
    using delete_stored_vault [OF assms(1-3)] by auto
  have store: "store_ok (ev_aead env) (mg_store manager2)" using ok by (simp add: manager_ok_def)
  have absent: "map_of (mg_store manager2) iid = None"
    using gone vault_stored [OF store] by (cases "map_of (mg_store manager2) iid") force+
  then have "iid \<notin> ac_ID ` set (store_List (mg_store manager2))"
    using set_store_List [of "mg_store manager2"] store by (auto simp: store_ok_def record_id_def)
  moreover have "errors_Is ErrStoreNotFound ErrStoreNotFound" by simp
  moreover have "av_Account (account_view manager3 account) = account" for account
    by (simp add: account_view_def split: option.split)
  ultimately show ?thesis
    using gone absent
    by (simp add: manager3 create_register_def delete_live_def manager_runtime_def manager_List_def delete_stored_def
        store_Delete_def image_image)
qed

section \<open>An instance\<close>

definition sample_stored :: Account where
  "sample_stored = \<lparr>ac_ID = ''acc_aaaaaaaaaa'', ac_Venue = ''lighter'', ac_Label = ''main'', ac_CreatedAt = 1\<rparr>"

definition sample_stored_record :: StoreRecord where
  "sample_stored_record = \<lparr>sr_Account = sample_stored,
     sr_Sealed = ''n'' @ [sample_tag (additional_data ''acc_aaaaaaaaaa'' ''lighter'')] @ ''bundle''\<rparr>"

definition sample_records :: RecordText where
  "sample_records = \<lparr>
     rx_Marshal = (\<lambda>records. if records = [] then Inr ''[]'' else if records = [sample_stored_record] then Inr ''[a]''
                     else Inl (PlainError ''marshal'')),
     rx_Unmarshal = (\<lambda>content. if content = ''[]'' then Inr [] else if content = ''[a]'' then Inr [sample_stored_record]
                     else Inl (PlainError ''unmarshal''))\<rparr>"

definition sample_env :: "unit Env" where
  "sample_env = \<lparr>ev_aead = sample_aead, ev_text = sample_records, ev_json = sample_json, ev_digest = (\<lambda>s. s),
     ev_New = (\<lambda>config options. Inr ())\<rparr>"

definition sample_draws :: Draws where
  "sample_draws = \<lparr>dr_entropy = Inr [0, 0, 0, 0, 0, 0], dr_nonce = Some ''n'', dr_answer = (\<lambda>step. None), dr_now = 1\<rparr>"

definition sample_create :: CreateRequest where
  "sample_create = \<lparr>cr_Venue = ''lighter'', cr_Label = ''main'', cr_Credentials = sample_form\<rparr>"

definition sample_reads :: "(dec, unit) VenueReads" where
  "sample_reads = \<lparr>vr_Balances = (\<lambda>c. Inr []), vr_Positions = (\<lambda>c. Inr [])\<rparr>"

definition sample_clients :: "unit routeClient list" where
  "sample_clients = [\<lparr>rc_market = market VenueLighter ProductPerp ''USDC'', rc_spot = None, rc_perp = Some ()\<rparr>,
     \<lparr>rc_market = market VenueLighter ProductSpot [], rc_spot = Some (), rc_perp = None\<rparr>]"

definition sample_manager :: "unit Manager" where
  "sample_manager = manager_Start sample_env (NewManager [] \<lparr>dk_path = None, dk_temp = None\<rparr>)"

lemma sample_env_ok: "aead_ok (ev_aead sample_env)" "text_ok (ev_text sample_env)"
  using sample_aead_ok by (auto simp: sample_env_def text_ok_def sample_records_def split: if_splits)

abbreviation sample_decoded :: Decoded where
  "sample_decoded \<equiv> \<lparr>dd_Venue = ''lighter'', dd_AuthKind = AuthLighterSigner, dd_Credentials = LighterSigner ''k'' 12 3\<rparr>"

lemma sample_decode:
  assumes "ev_json env = sample_json"
  shows "create_decode env sample_draws sample_create = Inr (''lighter'', ''main'', ''bundle'', ''acc_aaaaaaaaaa'', sample_decoded)"
proof -
  have names: "ToLower (TrimSpace ''lighter'') = ''lighter''" "TrimSpace ''main'' = ''main''"
    by (simp_all add: TrimSpace_printable printable_code lower_char_def)
  have supported: "Supported ''lighter''" by (simp add: Supported_def MarketsOf_def Markets_def market_def)
  have iid: "newAccountID (dr_entropy sample_draws) = Inr ''acc_aaaaaaaaaa''"
    by (simp add: newAccountID_def sample_draws_def base32_encode_def byte_bits_def group_char_def idAlphabet_def)
      (simp add: numeral_2_eq_2)
  have parts: "cr_Venue sample_create = ''lighter''" "cr_Label sample_create = ''main''" "cr_Credentials sample_create = sample_form"
    by (simp_all add: sample_create_def)
  show ?thesis
    by (simp add: create_decode_def Let_def assms parts names supported sample_submitted(2) sample_decodes iid)
qed

lemma sample_markets: "MarketsOf ''lighter'' = [market VenueLighter ProductPerp ''USDC'', market VenueLighter ProductSpot []]"
  by (simp add: MarketsOf_def Markets_def market_def)

lemma sample_check:
  "create_check sample_env sample_draws sample_create = Inr (''lighter'', ''main'', ''bundle'', ''acc_aaaaaaaaaa'', sample_clients)"
proof -
  have "buildClients (ev_digest sample_env) (ev_New sample_env) ''acc_aaaaaaaaaa'' sample_decoded = Inr sample_clients"
    by (simp add: buildClients_def sample_markets sample_env_def sample_clients_def Market_String_def market_def)
  moreover have "ev_json sample_env = sample_json" by (simp add: sample_env_def)
  ultimately show ?thesis
    using sample_decode [of sample_env] by (simp add: create_check_def)
qed

text \<open>A factory that fails for the client of the second market.\<close>

definition sample_spot_fails :: "unit Env" where
  "sample_spot_fails = sample_env\<lparr>ev_New := (\<lambda>config options. case config of LighterPerpConfig key accountIndex keyIndex \<Rightarrow> Inr ()
     | _ \<Rightarrow> Inl (PlainError ''refused''))\<rparr>"

lemma sample_stored_persist:
  "\<exists>rt manager1. create_persist dec_ops sample_env sample_reads sample_draws sample_create sample_manager =
     Some (Inr (sample_stored, rt), manager1, [])"
proof -
  have start: "mg_store sample_manager = []" "mg_disk sample_manager = \<lparr>dk_path = None, dk_temp = None\<rparr>"
    by (simp_all add: sample_manager_def manager_Start_def store_List_def NewManager_def)
  obtain rt where verified: "verify_loop dec_ops sample_reads sample_clients (newRuntime ''acc_aaaaaaaaaa'' ''lighter'' sample_clients) = Some (None, rt)"
    by (simp add: sample_clients_def fetchBalances_def client_orders_def sample_reads_def)
  have "fst (store_Create (ev_aead sample_env) (ev_text sample_env) (Some ''n'') (\<lambda>step. None) sample_stored ''bundle'' []
      \<lparr>dk_path = None, dk_temp = None\<rparr>) = None"
    by (simp add: store_Create_def cipher_Seal_def flushLocked_def flush_steps_def sample_env_def sample_records_def sample_aead_def
        sample_stored_record_def sample_stored_def)
  then obtain store1 disks where created: "store_Create (ev_aead sample_env) (ev_text sample_env) (Some ''n'') (\<lambda>step. None) sample_stored
      ''bundle'' [] \<lparr>dk_path = None, dk_temp = None\<rparr> = (None, store1, disks)"
    by (metis fst_conv prod_cases3)
  have draws: "dr_nonce sample_draws = Some ''n''" "dr_answer sample_draws = (\<lambda>step. None)" "dr_now sample_draws = 1"
    by (simp_all add: sample_draws_def)
  have account: "\<lparr>ac_ID = ''acc_aaaaaaaaaa'', ac_Venue = ''lighter'', ac_Label = ''main'', ac_CreatedAt = 1\<rparr> = sample_stored"
    by (simp add: sample_stored_def)
  show ?thesis
    using verified created by (simp add: create_persist_def sample_check draws start account)
qed

abbreviation sample_system :: "unit System" where
  "sample_system \<equiv> started sample_env [] \<lparr>dk_path = None, dk_temp = None\<rparr>"

lemma first_reach: "manager_reach D env (manager_Start env (NewManager [] \<lparr>dk_path = None, dk_temp = None\<rparr>))"
  unfolding manager_reach_def by (rule exI [of _ "started env [] \<lparr>dk_path = None, dk_temp = None\<rparr>"]) simp

lemma sample_reach: "manager_reach dec_ops sample_env sample_manager"
  unfolding sample_manager_def by (rule first_reach)

lemma sample_nonce: "dr_nonce sample_draws = Some n \<Longrightarrow> length n = NonceSize (ev_aead sample_env)"
  by (auto simp: sample_draws_def sample_env_def sample_aead_def)



end
