(* ===== verification/Gateway_Api.thy ===== *)
theory Gateway_Api
  imports Account_Manager
begin

text \<open>
  The HTTP surface of the gateway (gateway/api/api.go): bearer authentication, the routes of the
  multiplexer, one handler per route, and the translation of errors into responses. A request carries
  its decoded path, the segments of the path as the multiplexer splits it (before decoding), the values
  of its query and the JSON value of its body (None for a body that is not JSON or longer than the limit). The venues' answers are the fields of \<open>World\<close>.
\<close>

section \<open>Requests and responses\<close>

record ApiRequest =
  ar_Method :: string
  ar_URLPath :: string
  ar_Path :: "string list"
  ar_Authorization :: string
  ar_Query :: "string \<Rightarrow> string"
  ar_Body :: "json option"

datatype 'd Payload =
    ErrorPayload string string
  | FailurePayload VenueFailure
  | EmptyPayload
  | HealthPayload "MarketStatus list" nat
  | VenuesPayload "VenueInfo list"
  | InstrumentsPayload "'d GatewayInstrument list"
  | BookPayload Book
  | CandlesPayload "FeedCandle list"
  | StatsPayload Stats24h
  | AccountsPayload "AccountView list"
  | AccountPayload AccountView
  | BalancesPayload "AccountBalance list"
  | PositionsPayload "AccountPosition list"
  | OrdersPayload "AccountOrder list"
  | FillsPayload "AccountFill list"
  | PlacedPayload PlaceResult
  | LookupPayload LookupResult
  | OkPayload
  | LeveragePayload int

record 'd Response =
  rs_Status :: nat
  rs_Payload :: "'d Payload"

definition writeJSON :: "nat \<Rightarrow> 'd Payload \<Rightarrow> 'd Response" where
  "writeJSON status payload = \<lparr>rs_Status = status, rs_Payload = payload\<rparr>"

definition writeError :: "nat \<Rightarrow> string \<Rightarrow> string \<Rightarrow> 'd Response" where
  "writeError status code message = writeJSON status (ErrorPayload code message)"

text \<open>What the handlers reach outside: the catalog and its clients, the environment of the accounts, the topics open in the hubs.\<close>

record ('d, 'c) World =
  wd_Catalog :: "('d, 'c) Catalog"
  wd_Topics :: nat
  wd_Env :: "'c Env"
  wd_Reads :: "('d, 'c) VenueReads"
  wd_Draws :: Draws
  wd_now :: Time
  wd_number :: "string \<Rightarrow> rat option"
  wd_OrderBook :: "'c \<Rightarrow> 'd Instrument \<Rightarrow> int \<Rightarrow> goerror + 'd RestBook"
  wd_Candles :: "'c \<Rightarrow> 'd Instrument \<Rightarrow> string \<Rightarrow> Time \<Rightarrow> Time \<Rightarrow> int \<Rightarrow> goerror + 'd Candle list"
  wd_Funding :: "'c \<Rightarrow> 'd Instrument \<Rightarrow> 'd FundingRate option"
  wd_PlaceOrder :: "'c \<Rightarrow> 'd PlaceOrderRequest \<Rightarrow> 'd OrderAcknowledgement \<times> goerror option"
  wd_Lookup :: "'c \<Rightarrow> ('d ExactOrderLookupRequest \<Rightarrow> goerror + 'd ExactOrderLookupResult) option"
  wd_CancelOrder :: "'c \<Rightarrow> 'd Instrument \<Rightarrow> string \<Rightarrow> goerror option"
  wd_OpenOrders :: "'c \<Rightarrow> 'd Instrument option \<Rightarrow> int \<Rightarrow> goerror + 'd Order list"
  wd_Fills :: "'c \<Rightarrow> 'd Instrument option \<Rightarrow> Time \<Rightarrow> int \<Rightarrow> goerror + 'd Fill list"
  wd_SetLeverage :: "'c \<Rightarrow> 'd Instrument \<Rightarrow> int \<Rightarrow> goerror + int"

section \<open>Errors\<close>

text \<open>The map literal of fail.\<close>

fun category_status :: "Category \<Rightarrow> nat" where
  "category_status CategoryNetwork = 502"
| "category_status CategoryRejected = 422"
| "category_status CategoryCredentials = 422"
| "category_status CategoryRateLimited = 429"
| "category_status CategoryInvalid = 400"
| "category_status CategoryUnsupported = 501"
| "category_status CategoryVenue = 502"

definition api_fail :: "goerror \<Rightarrow> 'd Response" where
  "api_fail err =
     (if errors_Is err ErrAccountNotFound then writeError 404 ''NOT_FOUND'' ''account not found''
      else if errors_Is err ErrUnknownInstrument then writeError 404 ''UNKNOWN_INSTRUMENT'' (error_text err)
      else if errors_Is err ErrAccountInvalid then writeError 400 ''INVALID_REQUEST'' (error_text err)
      else if errors_Is err ErrAccountUnsupported
      then writeError 501 ''UNSUPPORTED'' ''operation is not supported for this venue''
      else (let failure = the (Classify (Some err)) in
            writeJSON (category_status (vf_Category failure)) (FailurePayload failure)))"

definition api_respond :: "('v \<Rightarrow> 'd Payload) \<Rightarrow> goerror + 'v \<Rightarrow> 'd Response" where
  "api_respond payload result = (case result of Inl err \<Rightarrow> api_fail err | Inr v \<Rightarrow> writeJSON 200 (payload v))"

section \<open>Bodies and parameters\<close>

abbreviation invalid_json :: "'d Response" where
  "invalid_json \<equiv> writeError 400 ''INVALID_JSON'' ''request body is not valid JSON for this endpoint''"

text \<open>The dynamic value of a JSON tree; None is a number beyond float64.\<close>

fun any_of :: "(string \<Rightarrow> rat option) \<Rightarrow> json \<Rightarrow> anyValue option" where
  "any_of number JNull = Some AnyNil"
| "any_of number (JBool b) = Some (AnyBool b)"
| "any_of number (JNumber t) = map_option AnyFloat (number t)"
| "any_of number (JString s) = Some (AnyString s)"
| "any_of number (JArray vs) = Some (AnyArray vs)"
| "any_of number (JObject members) = Some (AnyObject members)"

fun any_members :: "(string \<Rightarrow> rat option) \<Rightarrow> (string \<times> json) list \<Rightarrow> (string, anyValue) gomap \<Rightarrow> (string, anyValue) gomap option" where
  "any_members number [] m = Some m"
| "any_members number ((key, v) # members) m =
     (case any_of number v of None \<Rightarrow> None | Some a \<Rightarrow> any_members number members (AList.update key a m))"

text \<open>decodeBody for the three request types; None is the refusal.\<close>

definition decode_create :: "(string \<Rightarrow> rat option) \<Rightarrow> json option \<Rightarrow> CreateRequest option" where
  "decode_create number body =
     Option.bind body (\<lambda>v. Option.bind
       (decodeStrict [(''venue'', StringSlot), (''label'', StringSlot), (''credentials'', MapSlot)] v)
       (\<lambda>m. map_option (\<lambda>submitted. \<lparr>cr_Venue = text_of m ''venue'', cr_Label = text_of m ''label'', cr_Credentials = submitted\<rparr>)
              (case m ''credentials'' of Some (JObject members) \<Rightarrow> any_members number members [] | _ \<Rightarrow> Some [])))"

definition decode_place :: "json option \<Rightarrow> PlaceRequest option" where
  "decode_place body =
     Option.bind body (\<lambda>v. map_option
       (\<lambda>m. \<lparr>pq_Instrument = text_of m ''inst'', pq_Side = text_of m ''side'', pq_Type = text_of m ''type'',
             pq_Quantity = text_of m ''qty'', pq_Price = text_of m ''price'', pq_TimeInForce = text_of m ''tif'',
             pq_ReduceOnly = (m ''reduceOnly'' = Some (JBool True)), pq_ClientOrderID = text_of m ''clientOrderId''\<rparr>)
       (decodeStrict [(''inst'', StringSlot), (''side'', StringSlot), (''type'', StringSlot), (''qty'', StringSlot),
          (''price'', StringSlot), (''tif'', StringSlot), (''reduceOnly'', BoolSlot), (''clientOrderId'', StringSlot)] v))"

definition decode_leverage :: "json option \<Rightarrow> (InstrumentID \<times> int) option" where
  "decode_leverage body =
     Option.bind body (\<lambda>v. map_option (\<lambda>m. (text_of m ''inst'', int_of m ''leverage''))
       (decodeStrict [(''inst'', StringSlot), (''leverage'', Int64Slot)] v))"

text \<open>strconv.Atoi with its error ignored: an out of range text gives the nearest bound.\<close>

definition Atoi_or_bound :: "string \<Rightarrow> int" where
  "Atoi_or_bound s =
     (let neg = (s \<noteq> [] \<and> hd s = CHR ''-'');
          body = (if s \<noteq> [] \<and> (hd s = CHR ''-'' \<or> hd s = CHR ''+'') then tl s else s)
      in if body = [] \<or> \<not> list_all is_digit body then 0
         else (case ParseInt 64 s of Some n \<Rightarrow> n | None \<Rightarrow> if neg then - (2 ^ 63) else 2 ^ 63 - 1))"

definition parseMillis :: "string \<Rightarrow> Time" where
  "parseMillis value =
     (case ParseInt 64 value of None \<Rightarrow> 0 | Some millis \<Rightarrow> if millis \<le> 0 then 0 else time_of_UnixMilli millis)"

section \<open>Handlers\<close>

definition api_health :: "('d, 'c) World \<Rightarrow> 'd Response" where
  "api_health w = writeJSON 200 (HealthPayload (catalog_Status_list (wd_Catalog w)) (wd_Topics w))"

definition api_venues :: "'d Response" where
  "api_venues = writeJSON 200 (VenuesPayload (manager_Venues defaultAuthKinds))"

definition api_instruments :: "'d Decimals \<Rightarrow> ('d, 'c) World \<Rightarrow> ApiRequest \<Rightarrow> 'd Response" where
  "api_instruments D w r =
     writeJSON 200 (InstrumentsPayload (catalog_List D (wd_Catalog w) (ar_Query r ''venue'') (ar_Query r ''product'')))"

definition api_orderBook :: "'d Decimals \<Rightarrow> ('d, 'c) World \<Rightarrow> ApiRequest \<Rightarrow> 'd Response option" where
  "api_orderBook D w r =
     map_option (api_respond BookPayload)
       (OrderBook D (wd_Catalog w) (wd_OrderBook w) (ar_Query r ''inst'') (Atoi_or_bound (ar_Query r ''depth'')))"

definition api_candles :: "'d Decimals \<Rightarrow> ('d, 'c) World \<Rightarrow> ApiRequest \<Rightarrow> 'd Response option" where
  "api_candles D w r =
     map_option (api_respond CandlesPayload)
       (Candles D (wd_Catalog w) (wd_Candles w) (ar_Query r ''inst'') (ar_Query r ''interval'')
          (parseMillis (ar_Query r ''start'')) (parseMillis (ar_Query r ''end'')) (Atoi_or_bound (ar_Query r ''limit'')))"

definition api_ticker :: "'d Decimals \<Rightarrow> ('d, 'c) World \<Rightarrow> ApiRequest \<Rightarrow> 'd Response option" where
  "api_ticker D w r =
     map_option (api_respond StatsPayload)
       (Stats D (wd_Catalog w) (wd_Candles w) (wd_Funding w) (wd_now w) (ar_Query r ''inst''))"

text \<open>The handlers of the accounts give the response, the manager and the venue clients that were closed.\<close>

type_synonym ('d, 'c) handled = "('d Response \<times> 'c Manager \<times> 'c list) option"

definition api_createAccount :: "'d Decimals \<Rightarrow> ('d, 'c) World \<Rightarrow> ApiRequest \<Rightarrow> 'c Manager \<Rightarrow> ('d, 'c) handled" where
  "api_createAccount D w r manager =
     (case decode_create (wd_number w) (ar_Body r) of
        None \<Rightarrow> Some (invalid_json, manager, [])
      | Some request \<Rightarrow>
          map_option (\<lambda>(result, manager1, released).
              (case result of Inl err \<Rightarrow> api_fail err | Inr view \<Rightarrow> writeJSON 201 (AccountPayload view), manager1, released))
            (manager_Create D (wd_Env w) (wd_Reads w) (wd_Draws w) request manager))"

definition api_deleteAccount :: "('d, 'c) World \<Rightarrow> string \<Rightarrow> 'c Manager \<Rightarrow> ('d, 'c) handled" where
  "api_deleteAccount w iid manager =
     (case manager_Delete (wd_Env w) (dr_answer (wd_Draws w)) iid manager of
        (Some err, manager1, released) \<Rightarrow> Some (api_fail err, manager1, released)
      | (None, manager1, released) \<Rightarrow> Some (writeJSON 204 EmptyPayload, manager1, released))"

definition api_balances :: "'d Decimals \<Rightarrow> ('d, 'c) World \<Rightarrow> string \<Rightarrow> 'c Manager \<Rightarrow> ('d, 'c) handled" where
  "api_balances D w iid manager =
     map_option (\<lambda>(result, manager1). (api_respond BalancesPayload result, manager1, []))
       (manager_Balances D (wd_Reads w) iid manager)"

definition api_positions :: "'d Decimals \<Rightarrow> ('d, 'c) World \<Rightarrow> string \<Rightarrow> 'c Manager \<Rightarrow> ('d, 'c) handled" where
  "api_positions D w iid manager =
     map_option (\<lambda>(result, manager1). (api_respond PositionsPayload result, manager1, []))
       (manager_Positions D (wd_Catalog w) (wd_Reads w) iid manager)"

definition api_openOrders :: "'d Decimals \<Rightarrow> ('d, 'c) World \<Rightarrow> ApiRequest \<Rightarrow> string \<Rightarrow> 'c Manager \<Rightarrow> ('d, 'c) handled" where
  "api_openOrders D w r iid manager =
     map_option (\<lambda>result. (api_respond OrdersPayload result, manager, []))
       (manager_OpenOrders D (wd_Catalog w) (wd_OpenOrders w) iid (ar_Query r ''inst'') manager)"

definition api_fills :: "'d Decimals \<Rightarrow> ('d, 'c) World \<Rightarrow> ApiRequest \<Rightarrow> string \<Rightarrow> 'c Manager \<Rightarrow> ('d, 'c) handled" where
  "api_fills D w r iid manager =
     map_option (\<lambda>result. (api_respond FillsPayload result, manager, []))
       (manager_Fills D (wd_Catalog w) (wd_Fills w) iid (ar_Query r ''inst'') (parseMillis (ar_Query r ''start''))
          (Atoi_or_bound (ar_Query r ''limit'')) manager)"

definition outcome_status :: "string \<Rightarrow> nat" where
  "outcome_status status = (if status = OutcomeRejected then 422 else if status = OutcomeUnknown then 202 else 200)"

definition api_placeOrder :: "'d Decimals \<Rightarrow> ('d, 'c) World \<Rightarrow> ApiRequest \<Rightarrow> string \<Rightarrow> 'c Manager \<Rightarrow> ('d, 'c) handled" where
  "api_placeOrder D w r iid manager =
     (case decode_place (ar_Body r) of
        None \<Rightarrow> Some (invalid_json, manager, [])
      | Some request \<Rightarrow>
          map_option (\<lambda>(result, manager1).
              (case result of Inl err \<Rightarrow> api_fail err
               | Inr placed \<Rightarrow> writeJSON (outcome_status (ps_Status placed)) (PlacedPayload placed), manager1, []))
            (manager_Place D (wd_Catalog w) (wd_PlaceOrder w) (wd_now w) iid request manager))"

definition api_lookupOrder :: "'d Decimals \<Rightarrow> ('d, 'c) World \<Rightarrow> ApiRequest \<Rightarrow> string \<Rightarrow> 'c Manager \<Rightarrow> ('d, 'c) handled" where
  "api_lookupOrder D w r iid manager =
     Some (api_respond LookupPayload
       (manager_Lookup D (wd_Catalog w) (wd_Lookup w) iid (ar_Query r ''inst'') (ar_Query r ''clientOrderId'')
          (ar_Query r ''orderId'') manager), manager, [])"

definition api_cancelOrder :: "('d, 'c) World \<Rightarrow> ApiRequest \<Rightarrow> string \<Rightarrow> string \<Rightarrow> 'c Manager \<Rightarrow> ('d, 'c) handled" where
  "api_cancelOrder w r iid orderID manager =
     map_option (\<lambda>err. (case err of Some e \<Rightarrow> api_fail e | None \<Rightarrow> writeJSON 200 OkPayload, manager, []))
       (manager_Cancel (wd_Catalog w) (wd_CancelOrder w) iid (ar_Query r ''inst'') orderID manager)"

definition api_setLeverage :: "('d, 'c) World \<Rightarrow> ApiRequest \<Rightarrow> string \<Rightarrow> 'c Manager \<Rightarrow> ('d, 'c) handled" where
  "api_setLeverage w r iid manager =
     (case decode_leverage (ar_Body r) of
        None \<Rightarrow> Some (invalid_json, manager, [])
      | Some (instrumentID, leverage) \<Rightarrow>
          map_option (\<lambda>(result, manager1). (api_respond LeveragePayload result, manager1, []))
            (manager_SetLeverage (wd_Catalog w) (wd_SetLeverage w) iid instrumentID leverage manager))"

section \<open>Routes\<close>

text \<open>The patterns of NewServer: the method and the path, with the wildcards' values.\<close>

datatype Route =
    HealthRoute | VenuesRoute | InstrumentsRoute | OrderBookRoute | CandlesRoute | TickerRoute
  | ListAccounts | CreateAccount | DeleteAccount string | BalancesRoute string | PositionsRoute string
  | OpenOrdersRoute string | LookupRoute string | PlaceRoute string | CancelRoute string string
  | FillsRoute string | LeverageRoute string | WebSocketRoute

definition path_routes :: "string list \<Rightarrow> (string \<times> Route) list" where
  "path_routes path =
     (case path of
        [v] \<Rightarrow> []
      | [v, a] \<Rightarrow>
          if v \<noteq> ''v1'' then []
          else if a = ''health'' then [(''GET'', HealthRoute)]
          else if a = ''venues'' then [(''GET'', VenuesRoute)]
          else if a = ''instruments'' then [(''GET'', InstrumentsRoute)]
          else if a = ''orderbook'' then [(''GET'', OrderBookRoute)]
          else if a = ''candles'' then [(''GET'', CandlesRoute)]
          else if a = ''ticker'' then [(''GET'', TickerRoute)]
          else if a = ''accounts'' then [(''GET'', ListAccounts), (''POST'', CreateAccount)]
          else if a = ''ws'' then [(''GET'', WebSocketRoute)] else []
      | [v, a, iid] \<Rightarrow> if v = ''v1'' \<and> a = ''accounts'' \<and> iid \<noteq> [] then [(''DELETE'', DeleteAccount iid)] else []
      | [v, a, iid, b] \<Rightarrow>
          if v \<noteq> ''v1'' \<or> a \<noteq> ''accounts'' \<or> iid = [] then []
          else if b = ''balances'' then [(''GET'', BalancesRoute iid)]
          else if b = ''positions'' then [(''GET'', PositionsRoute iid)]
          else if b = ''orders'' then [(''GET'', OpenOrdersRoute iid), (''POST'', PlaceRoute iid)]
          else if b = ''fills'' then [(''GET'', FillsRoute iid)]
          else if b = ''leverage'' then [(''PUT'', LeverageRoute iid)] else []
      | [v, a, iid, b, c] \<Rightarrow>
          if v = ''v1'' \<and> a = ''accounts'' \<and> iid \<noteq> [] \<and> b = ''orders'' \<and> c \<noteq> []
          then (if c = ''lookup'' then [(''GET'', LookupRoute iid)] else []) @ [(''DELETE'', CancelRoute iid c)]
          else []
      | _ \<Rightarrow> [])"

text \<open>ServeMux: a pattern for GET also takes HEAD; a path that has only other methods is refused with 405.\<close>

definition mux_route :: "string \<Rightarrow> string list \<Rightarrow> nat + Route" where
  "mux_route method path =
     (case find (\<lambda>(m, route). m = method \<or> (m = ''GET'' \<and> method = ''HEAD'')) (path_routes path) of
        Some (m, route) \<Rightarrow> Inr route
      | None \<Rightarrow> if path_routes path = [] then Inl 404 else Inl 405)"

text \<open>A WebSocket upgrade takes over the connection; the response of the route is empty here.\<close>

definition serve_route ::
  "'d Decimals \<Rightarrow> ('d, 'c) World \<Rightarrow> ApiRequest \<Rightarrow> Route \<Rightarrow> 'c Manager \<Rightarrow> ('d, 'c) handled" where
  "serve_route D w r route manager =
     (case route of
        HealthRoute \<Rightarrow> Some (api_health w, manager, [])
      | VenuesRoute \<Rightarrow> Some (api_venues, manager, [])
      | InstrumentsRoute \<Rightarrow> Some (api_instruments D w r, manager, [])
      | OrderBookRoute \<Rightarrow> map_option (\<lambda>response. (response, manager, [])) (api_orderBook D w r)
      | CandlesRoute \<Rightarrow> map_option (\<lambda>response. (response, manager, [])) (api_candles D w r)
      | TickerRoute \<Rightarrow> map_option (\<lambda>response. (response, manager, [])) (api_ticker D w r)
      | ListAccounts \<Rightarrow> Some (writeJSON 200 (AccountsPayload (manager_List manager)), manager, [])
      | CreateAccount \<Rightarrow> api_createAccount D w r manager
      | DeleteAccount iid \<Rightarrow> api_deleteAccount w iid manager
      | BalancesRoute iid \<Rightarrow> api_balances D w iid manager
      | PositionsRoute iid \<Rightarrow> api_positions D w iid manager
      | OpenOrdersRoute iid \<Rightarrow> api_openOrders D w r iid manager
      | LookupRoute iid \<Rightarrow> api_lookupOrder D w r iid manager
      | PlaceRoute iid \<Rightarrow> api_placeOrder D w r iid manager
      | CancelRoute iid orderID \<Rightarrow> api_cancelOrder w r iid orderID manager
      | FillsRoute iid \<Rightarrow> api_fills D w r iid manager
      | LeverageRoute iid \<Rightarrow> api_setLeverage w r iid manager
      | WebSocketRoute \<Rightarrow> Some (writeJSON 101 EmptyPayload, manager, []))"

section \<open>Authentication\<close>

definition authorized :: "string \<Rightarrow> ApiRequest \<Rightarrow> bool" where
  "authorized token r \<longleftrightarrow> HasPrefix (ar_Authorization r) ''Bearer '' \<and> drop 7 (ar_Authorization r) = token"

definition api_ServeHTTP ::
  "'d Decimals \<Rightarrow> ('d, 'c) World \<Rightarrow> string \<Rightarrow> ApiRequest \<Rightarrow> 'c Manager \<Rightarrow> ('d, 'c) handled" where
  "api_ServeHTTP D w token r manager =
     (if ar_URLPath r \<noteq> ''/v1/health'' \<and> \<not> authorized token r
      then Some (writeError 401 ''UNAUTHORIZED'' ''missing or invalid gateway token'', manager, [])
      else (case mux_route (ar_Method r) (ar_Path r) of
              Inl status \<Rightarrow> Some (writeJSON status EmptyPayload, manager, [])
            | Inr route \<Rightarrow> serve_route D w r route manager))"

section \<open>What the responses tell\<close>

lemma api_fail_status: "400 \<le> rs_Status (api_fail err)"
proof -
  have "400 \<le> category_status c" for c by (cases c) simp_all
  then show ?thesis by (simp add: api_fail_def writeError_def writeJSON_def Let_def)
qed

lemma classify_outcome: "ps_Status (classify D now iid order ack err) \<in> {OutcomeAccepted, OutcomeRejected, OutcomeUnknown}"
  by (auto simp: classify_def rejected_result_def no_result_def Let_def split: option.splits)

lemma Place_outcome:
  assumes "Place D PlaceOrder now instrument request rt = Some (Inr placed, rt1)"
  shows "ps_Status placed \<in> {OutcomeAccepted, OutcomeRejected, OutcomeUnknown}"
proof -
  have "\<exists>iid order ack err. placed = classify D now iid order ack err"
    using assms by (auto simp: Place_def Let_def split: sum.splits option.splits prod.splits)
  then show ?thesis using classify_outcome by blast
qed

lemma manager_Place_outcome:
  assumes "manager_Place D catalog PlaceOrder now iid request manager = Some (Inr placed, manager1)"
  shows "ps_Status placed \<in> {OutcomeAccepted, OutcomeRejected, OutcomeUnknown}"
  using assms by (auto simp: manager_Place_def with_runtime_def split: sum.splits dest!: Place_outcome)

lemma api_fail_payload: "rs_Payload (api_fail err) \<noteq> PlacedPayload placed"
  by (simp add: api_fail_def writeError_def writeJSON_def Let_def)

lemma api_placeOrder_outcome:
  assumes "api_placeOrder D w r iid manager = Some (response, manager1, released)"
  shows "(\<exists>placed. rs_Payload response = PlacedPayload placed \<and> rs_Status response = outcome_status (ps_Status placed) \<and>
      ps_Status placed \<in> {OutcomeAccepted, OutcomeRejected, OutcomeUnknown}) \<or>
    (400 \<le> rs_Status response \<and> (\<forall>placed. rs_Payload response \<noteq> PlacedPayload placed))"
proof (cases "decode_place (ar_Body r)")
  case None
  then show ?thesis using assms by (auto simp: api_placeOrder_def writeError_def writeJSON_def)
next
  case (Some request)
  then obtain result where run: "manager_Place D (wd_Catalog w) (wd_PlaceOrder w) (wd_now w) iid request manager = Some (result, manager1)"
    and response: "response = (case result of Inl err \<Rightarrow> api_fail err
        | Inr placed \<Rightarrow> writeJSON (outcome_status (ps_Status placed)) (PlacedPayload placed))"
    using assms by (auto simp: api_placeOrder_def)
  show ?thesis
  proof (cases result)
    case (Inl err)
    then show ?thesis using response by (simp add: api_fail_payload api_fail_status)
  next
    case (Inr placed)
    then show ?thesis using response manager_Place_outcome [OF run [unfolded Inr]] by (simp add: writeJSON_def)
  qed
qed

text \<open>
  C12: The HTTP status of an order placement tells its outcome. Whatever the request body, the account,
  the instrument and the venue's answer, the status is 200 exactly when the venue accepted the order, 202
  exactly when the outcome is unknown, and an outcome with any other status is a rejection under 422;
  every refusal of the request itself has a status from 400 on. An order whose placement the venue
  answered with 5xx, 408, 429 or 418 gets 202 and leaves every account as it was.
\<close>

theorem order_response_tells_outcome:
  shows "(\<forall>response manager1 released. api_placeOrder D w r iid manager = Some (response, manager1, released) \<longrightarrow>
      (rs_Status response = 200 \<longleftrightarrow> (\<exists>placed. rs_Payload response = PlacedPayload placed \<and> ps_Status placed = OutcomeAccepted)) \<and>
      (rs_Status response = 202 \<longleftrightarrow> (\<exists>placed. rs_Payload response = PlacedPayload placed \<and> ps_Status placed = OutcomeUnknown)) \<and>
      (\<forall>placed. rs_Payload response = PlacedPayload placed \<longrightarrow> rs_Status response \<notin> {200, 202} \<longrightarrow>
         rs_Status response = 422 \<and> ps_Status placed = OutcomeRejected) \<and>
      (rs_Status response \<in> {200, 202} \<or> 400 \<le> rs_Status response)) \<and>
    (\<forall>request rt instrument client c order ack mapped e f venue pd operation.
      decode_place (ar_Body r) = Some request \<longrightarrow> manager_runtime manager iid = Inr rt \<longrightarrow>
      catalog_Get (wd_Catalog w) (pq_Instrument request) = Inr instrument \<longrightarrow>
      clientFor rt instrument = Inr client \<longrightarrow> client_orders client = Some c \<longrightarrow> native D instrument request = Inr order \<longrightarrow>
      wd_PlaceOrder w c order = normalizeHTTPCommand ack mapped (Some e) venue pd operation \<longrightarrow>
      as_http e = Some f \<longrightarrow> doubtful_status (hf_StatusCode f) \<longrightarrow> as_local e = None \<longrightarrow>
      (\<exists>response manager1. api_placeOrder D w r iid manager = Some (response, manager1, []) \<and> rs_Status response = 202 \<and>
         map_of (mg_runtimes manager1) = map_of (mg_runtimes manager)))"
proof (intro conjI allI impI, goal_cases)
  case (6 request rt instrument client c order ack mapped e f venue pd operation)
  from doubtful_placement [where PlaceOrder = "wd_PlaceOrder w" and now = "wd_now w", OF 6(4-10)]
  obtain placed where placed: "Place D (wd_PlaceOrder w) (wd_now w) instrument request rt = Some (Inr placed, rt)"
      "ps_Status placed = OutcomeUnknown" by blast
  have "map_of (mg_runtimes manager) iid = Some rt"
    using 6(2) by (auto simp: manager_runtime_def split: option.splits)
  then have "(map_of (mg_runtimes manager))(iid \<mapsto> rt) = map_of (mg_runtimes manager)" by auto
  then show ?case
    using 6(1-3) placed by (simp add: api_placeOrder_def manager_Place_def with_runtime_def outcome_status_def writeJSON_def update_conv')
qed (use api_placeOrder_outcome in \<open>fastforce simp: outcome_status_def\<close>)+

text \<open>The decoded path of a request is the text of its segments.\<close>

definition path_of :: "string list \<Rightarrow> string" where
  "path_of segments = concat (map (\<lambda>s. CHR ''/'' # s) segments)"

lemma path_routes_v1:
  assumes "path_routes segments \<noteq> []"
  shows "\<exists>rest. segments = ''v1'' # rest \<and> rest \<noteq> []"
proof (cases segments)
  case Nil
  then show ?thesis using assms by (simp add: path_routes_def)
next
  case (Cons v rest)
  have "path_routes (v # rest) = []" if "v \<noteq> ''v1''"
    using that by (simp add: path_routes_def split: list.split)
  moreover have "path_routes [v] = []" by (simp add: path_routes_def)
  ultimately show ?thesis using assms Cons by blast
qed

lemma health_segments:
  assumes "path_of segments = ''/v1/health''" "mux_route method segments = Inr route"
  shows "route = HealthRoute"
proof -
  have "path_routes segments \<noteq> []" using assms(2) by (auto simp: mux_route_def)
  then obtain s2 rest where s: "segments = ''v1'' # s2 # rest" using path_routes_v1 by (metis list.exhaust)
  then have eq: "s2 @ path_of rest = ''health''" using assms(1) by (simp add: path_of_def)
  have "rest = []"
  proof (cases rest)
    case (Cons s3 more)
    then have "CHR ''/'' \<in> set (s2 @ path_of rest)" by (simp add: path_of_def)
    then show ?thesis unfolding eq by simp
  qed
  then have "segments = [''v1'', ''health'']" using s eq by (simp add: path_of_def)
  then show ?thesis using assms(2) by (auto simp: mux_route_def path_routes_def split: if_splits)
qed

text \<open>
  C19: Nothing but the health report is served without the gateway's token. A request whose
  Authorization header is not exactly Bearer and the token gets 401, or, at the health path, the health
  report or a plain refusal; no account is read or changed and no venue client is closed.
\<close>

theorem api_requires_token:
  assumes "\<not> authorized token r" "ar_URLPath r = path_of (ar_Path r)"
  shows "\<exists>response. api_ServeHTTP D w token r manager = Some (response, manager, []) \<and>
    (rs_Status response = 401 \<and> ar_URLPath r \<noteq> ''/v1/health'' \<or>
     ar_URLPath r = ''/v1/health'' \<and> (response = api_health w \<or> rs_Status response \<in> {404, 405} \<and> rs_Payload response = EmptyPayload))"
proof (cases "ar_URLPath r = ''/v1/health''")
  case False
  then show ?thesis using assms(1) by (simp add: api_ServeHTTP_def writeError_def writeJSON_def)
next
  case True
  show ?thesis
  proof (cases "mux_route (ar_Method r) (ar_Path r)")
    case (Inl status)
    then have "status \<in> {404, 405}" by (auto simp: mux_route_def split: option.splits prod.splits if_splits)
    then show ?thesis using True Inl by (auto simp: api_ServeHTTP_def writeJSON_def)
  next
    case (Inr route)
    then have "route = HealthRoute" using health_segments True assms(2) by metis
    then show ?thesis using True Inr by (simp add: api_ServeHTTP_def serve_route_def)
  qed
qed

section \<open>An instance\<close>

definition sample_request :: ApiRequest where
  "sample_request = \<lparr>ar_Method = ''DELETE'', ar_URLPath = ''/v1/accounts/acc_aaaaaaaaaa'', ar_Path = [''v1'', ''accounts'', ''acc_aaaaaaaaaa''],
     ar_Authorization = ''Bearer wrong'', ar_Query = (\<lambda>key. []), ar_Body = None\<rparr>"

theorem api_requires_token_witness:
  "\<forall>w :: (dec, unit) World. \<exists>response. api_ServeHTTP dec_ops w ''token'' sample_request sample_manager =
     Some (response, sample_manager, []) \<and> rs_Status response = 401"
proof
  fix w :: "(dec, unit) World"
  have denied: "\<not> authorized ''token'' sample_request" by (simp add: authorized_def sample_request_def)
  have path: "ar_URLPath sample_request = path_of (ar_Path sample_request)" by (simp add: path_of_def sample_request_def)
  have "ar_URLPath sample_request \<noteq> ''/v1/health''" by (simp add: sample_request_def)
  then show "\<exists>response. api_ServeHTTP dec_ops w ''token'' sample_request sample_manager = Some (response, sample_manager, []) \<and>
      rs_Status response = 401"
    using api_requires_token [OF denied path, of dec_ops w sample_manager] by auto
qed

definition sample_body :: json where
  "sample_body =
     JObject [(''inst'', JString sample_iid), (''side'', JString ''buy''), (''type'', JString ''limit''), (''qty'', JString ''0.25''),
       (''price'', JString ''60000.5''), (''tif'', JString ''post_only''), (''reduceOnly'', JBool True), (''clientOrderId'', JString ''42'')]"

definition sample_order_request :: ApiRequest where
  "sample_order_request = \<lparr>ar_Method = ''POST'', ar_URLPath = ''/v1/accounts/a1/orders'', ar_Path = [''v1'', ''accounts'', ''a1'', ''orders''],
     ar_Authorization = ''Bearer token'', ar_Query = (\<lambda>key. []), ar_Body = Some sample_body\<rparr>"

definition sample_world :: "(dec, unit) World" where
  "sample_world =
     \<lparr>wd_Catalog = (empty_catalog Map.empty)\<lparr>ct_instruments := [sample_iid \<mapsto> project dec_ops sample_instrument]\<rparr>, wd_Topics = 0,
      wd_Env = sample_env, wd_Reads = sample_reads, wd_Draws = sample_draws, wd_now = 0, wd_number = (\<lambda>t. None),
      wd_OrderBook = (\<lambda>c i n. Inl (PlainError ''closed'')), wd_Candles = (\<lambda>c i t s e n. Inr []), wd_Funding = (\<lambda>c i. None),
      wd_PlaceOrder = timed_out_place, wd_Lookup = (\<lambda>c. None), wd_CancelOrder = (\<lambda>c i x. None), wd_OpenOrders = (\<lambda>c i n. Inr []),
      wd_Fills = (\<lambda>c i t n. Inr []), wd_SetLeverage = (\<lambda>c i n. Inr n)\<rparr>"

lemma sample_body_decodes: "decode_place (ar_Body sample_order_request) = Some sample_place"
  by (simp add: decode_place_def sample_order_request_def sample_body_def decodeStrict_def field_named_def text_of_def sample_place_def)

theorem order_response_tells_outcome_witness:
  "\<exists>response manager1. api_placeOrder dec_ops sample_world sample_order_request ''a1''
     \<lparr>mg_store = [], mg_disk = \<lparr>dk_path = None, dk_temp = None\<rparr>, mg_runtimes = [(''a1'', sample_runtime)]\<rparr> = Some (response, manager1, []) \<and>
     rs_Status response = 202"
proof -
  let ?manager = "\<lparr>mg_store = [], mg_disk = \<lparr>dk_path = None, dk_temp = None\<rparr>, mg_runtimes = [(''a1'', sample_runtime)]\<rparr>"
  have co: "client_orders sample_client = Some ()" by (simp add: client_orders_def)
  have live: "manager_runtime ?manager ''a1'' = Inr sample_runtime" by (simp add: manager_runtime_def)
  have inst: "catalog_Get (wd_Catalog sample_world) (pq_Instrument sample_place) = Inr (project dec_ops sample_instrument)"
    by (simp add: sample_world_def catalog_Get_def sample_place_def)
  have place: "wd_PlaceOrder sample_world () sample_order =
      normalizeHTTPCommand (sample_ack\<lparr>ack_State := AckRejected\<rparr>) (Some (ExchangeError KindVenueRejected no_details))
        (Some gateway_timeout) ''binance'' ''perp'' ''PlaceOrder''"
    by (simp add: sample_world_def timed_out_place_def)
  have http: "as_http gateway_timeout = Some \<lparr>hf_StatusCode = 504, hf_Method = ''POST'', hf_Path = ''/api/v3/order'',
      hf_Code = [], hf_RetryAfter = 0\<rparr>" "as_local gateway_timeout = None"
    by (simp_all add: as_http_def as_local_def gateway_timeout_def)
  have doubt: "doubtful_status (hf_StatusCode \<lparr>hf_StatusCode = 504, hf_Method = ''POST'', hf_Path = ''/api/v3/order'',
      hf_Code = [], hf_RetryAfter = 0\<rparr>)" by (simp add: doubtful_status_def)
  show ?thesis
    using order_response_tells_outcome [of dec_ops sample_world sample_order_request "''a1''" ?manager, THEN conjunct2, rule_format,
        OF sample_body_decodes live inst sample_clientFor co sample_native place http(1) doubt http(2)]
    by blast
qed

text \<open>
  Two failures that have nothing to do with a venue are answered as if the exchange had sent nonsense: a
  candle interval the gateway does not know, and an account file that cannot be written.
\<close>

lemma local_failures_blame_the_exchange:
  assumes "\<not> validInterval interval"
  shows "Candles D catalog fetch iid interval start finish limit = Some (Inl (PlainError ''unsupported candle interval''))"
    and "rs_Status (api_fail (PlainError message)) = 502"
    and "rs_Payload (api_fail (PlainError message)) =
      FailurePayload \<lparr>vf_Category = CategoryVenue, vf_Venue = [], vf_Code = [], vf_VenueMessage = [], vf_Retryable = False\<rparr>"
  using assms
  by (simp_all add: Candles_def api_fail_def writeJSON_def Classify_def
      Let_def)

end
