(* ===== verification/Gateway_Socket.thy ===== *)
theory Gateway_Socket
  imports Gateway_Api
begin

text \<open>
  The WebSocket surface of the gateway (gateway/api/websocket.go): a connection with its bounded queue,
  its control messages and its subscriptions to the topics of the public and of the private hub. A sink
  of a hub is the number of a connection, \<open>'p\<close> the type of encoded messages; what the queue holds has
  not been written yet. Accepting the socket, the writes and the pings of the writing goroutine are the
  steps that take from the queue or end the connection.
\<close>

section \<open>A connection\<close>

abbreviation maxSubscriptions :: nat where "maxSubscriptions \<equiv> 64"
abbreviation outboundQueue :: nat where "outboundQueue \<equiv> 1024"

record control =
  co_Op :: string
  co_Channel :: string
  co_Instrument :: string
  co_Interval :: string
  co_Account :: string

text \<open>The subscriptions of a connection name the hub that owns the topic, True for the private one.\<close>

record 'p connection =
  cn_id :: nat
  cn_queue :: "'p list"
  cn_cancelled :: bool
  cn_subscriptions :: "(Key, bool) gomap"

definition connection_Send :: "'p \<Rightarrow> 'p connection \<Rightarrow> bool \<times> 'p connection" where
  "connection_Send payload conn =
     (if length (cn_queue conn) < outboundQueue then (True, conn\<lparr>cn_queue := cn_queue conn @ [payload]\<rparr>)
      else (False, conn\<lparr>cn_cancelled := True\<rparr>))"

definition send_all :: "'p list \<Rightarrow> 'p connection \<Rightarrow> 'p connection" where
  "send_all payloads conn = fold (\<lambda>payload c. snd (connection_Send payload c)) payloads conn"

text \<open>The replies to a control message; their encoding is a parameter.\<close>

datatype Reply =
    InvalidControl
  | Pong
  | TopicRefused string control
  | TooManySubscriptions control
  | UnknownOp

record 'p sockets =
  sk_conn :: "'p connection"
  sk_public :: "(nat, 'p) Hub"
  sk_private :: "(nat, 'p) Hub"

abbreviation errInvalidTopic :: goerror where
  "errInvalidTopic \<equiv> PlainError ''invalid topic''"

text \<open>route: the key, whether the private hub serves it, and the error.\<close>

definition socket_route :: "('d, 'c) Catalog \<Rightarrow> 'a Manager \<Rightarrow> Key \<Rightarrow> Key \<times> bool \<times> goerror option" where
  "socket_route catalog manager key =
     (if ky_Channel key = ''account'' then
        (if ky_Instrument key \<noteq> [] \<or> ky_Interval key \<noteq> [] then (key, True, Some errInvalidTopic)
         else (key, True, account_ValidKey key manager))
      else if ky_Account key \<noteq> [] then (key, False, Some errInvalidTopic)
      else
        (let key1 = (if ky_Channel key \<noteq> ''candle'' then key\<lparr>ky_Interval := []\<rparr> else key) in
         (key1, False, ValidKey catalog key1)))"

abbreviation control_key :: "control \<Rightarrow> Key" where
  "control_key message \<equiv>
     \<lparr>ky_Channel = co_Channel message, ky_Instrument = co_Instrument message, ky_Interval = co_Interval message,
      ky_Account = co_Account message\<rparr>"

definition reply :: "(Reply \<Rightarrow> 'p) \<Rightarrow> Reply \<Rightarrow> 'p sockets \<Rightarrow> 'p sockets" where
  "reply enc value s = s\<lparr>sk_conn := snd (connection_Send (enc value) (sk_conn s))\<rparr>"

text \<open>Subscribing sends the retained messages of the topic to the connection.\<close>

definition replayed :: "nat \<Rightarrow> (nat, 'p) Hub \<Rightarrow> (nat, 'p) Hub \<Rightarrow> 'p list" where
  "replayed i before after = map snd (filter (\<lambda>(sink, payload). sink = i) (drop (length (hb_sent before)) (hb_sent after)))"

definition socket_subscribe :: "Key \<Rightarrow> bool \<Rightarrow> 'p sockets \<Rightarrow> 'p sockets" where
  "socket_subscribe key private s =
     (let conn = (sk_conn s)\<lparr>cn_subscriptions := AList.update key private (cn_subscriptions (sk_conn s))\<rparr>;
          hub = (if private then sk_private s else sk_public s);
          hub1 = Subscribe key (cn_id conn) hub;
          conn1 = send_all (replayed (cn_id conn) hub hub1) conn
      in if private then s\<lparr>sk_conn := conn1, sk_private := hub1\<rparr> else s\<lparr>sk_conn := conn1, sk_public := hub1\<rparr>)"

definition hub_leave :: "nat \<Rightarrow> Time \<Rightarrow> Key \<times> bool \<Rightarrow> 'p sockets \<Rightarrow> 'p sockets" where
  "hub_leave i now entry s =
     (case entry of (key, private) \<Rightarrow>
        if private then s\<lparr>sk_private := Unsubscribe key i now (sk_private s)\<rparr>
        else s\<lparr>sk_public := Unsubscribe key i now (sk_public s)\<rparr>)"

text \<open>One turn of the reading loop; None is a message that is not a control message.\<close>

definition control_step ::
  "(Reply \<Rightarrow> 'p) \<Rightarrow> ('d, 'c) Catalog \<Rightarrow> 'a Manager \<Rightarrow> Time \<Rightarrow> control option \<Rightarrow> 'p sockets \<Rightarrow> 'p sockets" where
  "control_step enc catalog manager now input s =
     (case input of
        None \<Rightarrow> reply enc InvalidControl s
      | Some message \<Rightarrow>
          if co_Op message = ''ping'' then reply enc Pong s
          else
            (case socket_route catalog manager (control_key message) of (key, private, validErr) \<Rightarrow>
               if co_Op message = ''sub'' then
                 (case validErr of
                    Some err \<Rightarrow> reply enc (TopicRefused (error_text err) message) s
                  | None \<Rightarrow>
                      if map_of (cn_subscriptions (sk_conn s)) key \<noteq> None then s
                      else if length (cn_subscriptions (sk_conn s)) \<ge> maxSubscriptions
                      then reply enc (TooManySubscriptions message) s
                      else socket_subscribe key private s)
               else if co_Op message = ''unsub'' then
                 (case map_of (cn_subscriptions (sk_conn s)) key of
                    None \<Rightarrow> s
                  | Some owner \<Rightarrow>
                      (let s1 = hub_leave (cn_id (sk_conn s)) now (key, owner) s in
                       s1\<lparr>sk_conn := (sk_conn s1)\<lparr>cn_subscriptions := AList.delete key (cn_subscriptions (sk_conn s1))\<rparr>\<rparr>))
               else reply enc UnknownOp s))"

text \<open>The end of the handler: every subscription is given up.\<close>

definition socket_end :: "Time \<Rightarrow> 'p sockets \<Rightarrow> 'p sockets" where
  "socket_end now s = fold (hub_leave (cn_id (sk_conn s)) now) (cn_subscriptions (sk_conn s)) s"

text \<open>The writing goroutine takes a message from the queue; a failed write ends the connection.\<close>

definition writer_step :: "bool \<Rightarrow> 'p sockets \<Rightarrow> 'p sockets" where
  "writer_step written s =
     (let conn = sk_conn s in
      s\<lparr>sk_conn := conn\<lparr>cn_queue := tl (cn_queue conn), cn_cancelled := cn_cancelled conn \<or> \<not> written\<rparr>\<rparr>)"

section \<open>Attached sinks\<close>

definition attached :: "(nat, 'p) Hub \<Rightarrow> Key \<Rightarrow> nat \<Rightarrow> bool" where
  "attached hub key i \<longleftrightarrow> (\<exists>t. hb_topics hub key = Some t \<and> i \<in> set (tp_sinks t))"

lemma stop_timer_topics [simp]: "hb_topics (stop_timer t h) = hb_topics h" "hb_closed (stop_timer t h) = hb_closed h"
  by (simp_all add: stop_timer_def split: option.split)

lemma Subscribe_attached:
  "attached (Subscribe key sink h) k i \<longleftrightarrow> attached h k i \<or> (\<not> hb_closed h \<and> k = key \<and> i = sink)"
  "hb_closed (Subscribe key sink h) = hb_closed h"
  by (auto simp: Subscribe_def attached_def Let_def split: option.splits)

lemma Unsubscribe_attached:
  "attached (Unsubscribe key sink now h) k i \<longleftrightarrow> attached h k i \<and> \<not> (k = key \<and> i = sink)"
  "hb_closed (Unsubscribe key sink now h) = hb_closed h"
  by (auto simp: Unsubscribe_def attached_def Let_def removeAll_Nil_iff split: option.splits)

lemma emit_attached:
  "attached (emit key tid channel encoded retain h) k i \<longleftrightarrow> attached h k i"
  "hb_closed (emit key tid channel encoded retain h) = hb_closed h"
  by (auto simp: emit_def attached_def Let_def split: option.splits)

lemma timer_attached:
  "attached (timer_expires t h) k i \<longleftrightarrow> attached h k i" "hb_closed (timer_expires t h) = hb_closed h"
  by (auto simp: timer_expires_def attached_def)

lemma callback_attached:
  "attached (linger_callback t h) k i \<longleftrightarrow> attached h k i" "hb_closed (linger_callback t h) = hb_closed h"
  by (auto simp: linger_callback_def attached_def Let_def split: option.splits)

lemma hub_Close_attached: "\<not> attached (hub_Close h) k i" "hb_closed (hub_Close h)"
  by (auto simp: hub_Close_def attached_def Let_def)

lemmas hub_attached [simp] = Subscribe_attached Unsubscribe_attached emit_attached timer_attached callback_attached hub_Close_attached

section \<open>Subscriptions\<close>

text \<open>
  The bounds of a connection, and that a hub has it as a sink exactly for the subscriptions it owns
  there, as long as the hub is open.
\<close>

definition owned_by :: "'p sockets \<Rightarrow> bool \<Rightarrow> Key \<Rightarrow> bool" where
  "owned_by s private key \<longleftrightarrow> map_of (cn_subscriptions (sk_conn s)) key = Some private"

definition hub_of :: "bool \<Rightarrow> 'p sockets \<Rightarrow> (nat, 'p) Hub" where
  "hub_of private s = (if private then sk_private s else sk_public s)"

lemma hub_of_conn [simp]: "hub_of private (s\<lparr>sk_conn := conn\<rparr>) = hub_of private s"
  by (simp add: hub_of_def)

definition sockets_ok :: "'p sockets \<Rightarrow> bool" where
  "sockets_ok s \<longleftrightarrow>
     gomap_ok (cn_subscriptions (sk_conn s)) \<and> length (cn_subscriptions (sk_conn s)) \<le> maxSubscriptions \<and>
     length (cn_queue (sk_conn s)) \<le> outboundQueue \<and>
     (\<forall>private key. attached (hub_of private s) key (cn_id (sk_conn s)) \<longleftrightarrow>
        owned_by s private key \<and> \<not> hb_closed (hub_of private s))"

lemma Send_sel [simp]:
  "cn_id (snd (connection_Send payload conn)) = cn_id conn"
  "cn_subscriptions (snd (connection_Send payload conn)) = cn_subscriptions conn"
  "length (cn_queue conn) \<le> outboundQueue \<Longrightarrow> length (cn_queue (snd (connection_Send payload conn))) \<le> outboundQueue"
  by (auto simp: connection_Send_def)

lemma send_all_sel [simp]:
  "cn_id (send_all payloads conn) = cn_id conn"
  "cn_subscriptions (send_all payloads conn) = cn_subscriptions conn"
  "length (cn_queue conn) \<le> outboundQueue \<Longrightarrow> length (cn_queue (send_all payloads conn)) \<le> outboundQueue"
  unfolding send_all_def by (induction payloads arbitrary: conn) auto

lemma sockets_ok_conn:
  assumes "sockets_ok s" "cn_id conn = cn_id (sk_conn s)" "cn_subscriptions conn = cn_subscriptions (sk_conn s)"
    and "length (cn_queue conn) \<le> outboundQueue"
  shows "sockets_ok (s\<lparr>sk_conn := conn\<rparr>)"
  using assms by (simp add: sockets_ok_def owned_by_def)

lemma reply_ok: "sockets_ok s \<Longrightarrow> sockets_ok (reply enc value s)"
  unfolding reply_def by (rule sockets_ok_conn) (auto simp: sockets_ok_def)

lemma socket_subscribe_ok:
  assumes "sockets_ok s" "map_of (cn_subscriptions (sk_conn s)) key = None"
    and "length (cn_subscriptions (sk_conn s)) < maxSubscriptions"
  shows "sockets_ok (socket_subscribe key private s)"
proof -
  let ?s = "socket_subscribe key private s"
  have hub: "hub_of p ?s = (if p = private then Subscribe key (cn_id (sk_conn s)) (hub_of p s) else hub_of p s)" for p
    by (auto simp: socket_subscribe_def hub_of_def Let_def)
  have conn: "cn_id (sk_conn ?s) = cn_id (sk_conn s)"
      "cn_subscriptions (sk_conn ?s) = AList.update key private (cn_subscriptions (sk_conn s))"
      "length (cn_queue (sk_conn s)) \<le> outboundQueue \<Longrightarrow> length (cn_queue (sk_conn ?s)) \<le> outboundQueue"
    by (auto simp: socket_subscribe_def Let_def)
  show ?thesis
    using assms by (auto simp: sockets_ok_def owned_by_def hub conn length_update)
qed

lemma hub_leave_sel [simp]:
  "sk_conn (hub_leave i now entry s) = sk_conn s"
  "attached (hub_of private (hub_leave i now entry s)) k j \<longleftrightarrow> attached (hub_of private s) k j \<and> \<not> (entry = (k, private) \<and> j = i)"
  "hb_closed (hub_of private (hub_leave i now entry s)) = hb_closed (hub_of private s)"
  by (auto simp: hub_leave_def hub_of_def split: prod.splits if_splits)

lemma length_delete: "length (AList.delete k m) \<le> length m"
  by (simp add: AList.delete_eq)

lemma control_step_ok:
  assumes "sockets_ok s"
  shows "sockets_ok (control_step enc catalog manager now input s)"
proof -
  have leave: "sockets_ok (let s1 = hub_leave (cn_id (sk_conn s)) now (key, owner) s in
      s1\<lparr>sk_conn := (sk_conn s1)\<lparr>cn_subscriptions := AList.delete key (cn_subscriptions (sk_conn s1))\<rparr>\<rparr>)"
    if "map_of (cn_subscriptions (sk_conn s)) key = Some owner" for key owner
  proof -
    let ?s = "(hub_leave (cn_id (sk_conn s)) now (key, owner) s)\<lparr>sk_conn := (sk_conn s)\<lparr>cn_subscriptions :=
      AList.delete key (cn_subscriptions (sk_conn s))\<rparr>\<rparr>"
    have "hub_of p ?s = hub_of p (hub_leave (cn_id (sk_conn s)) now (key, owner) s)" for p by (simp add: hub_of_def)
    then have "attached (hub_of p ?s) k (cn_id (sk_conn ?s)) \<longleftrightarrow> owned_by ?s p k \<and> \<not> hb_closed (hub_of p ?s)" for p k
      using assms that by (auto simp: sockets_ok_def owned_by_def)
    moreover have "length (AList.delete key (cn_subscriptions (sk_conn s))) \<le> maxSubscriptions"
      using assms le_trans [OF length_delete [of key "cn_subscriptions (sk_conn s)"]] by (simp add: sockets_ok_def)
    ultimately show ?thesis using assms by (simp add: sockets_ok_def)
  qed
  show ?thesis
    using assms leave
    by (auto simp: control_step_def reply_ok socket_subscribe_ok split: option.splits prod.splits)
qed

section \<open>Runs of a connection\<close>

text \<open>
  A connection from its start: its own control messages, the writing goroutine, and whatever happens in
  the hubs meanwhile (other connections come and go, sources emit, timers run, the hubs close). What a
  hub sends to the connection arrives in its queue.
\<close>

inductive hub_step :: "nat \<Rightarrow> (nat, 'p) Hub \<Rightarrow> (nat, 'p) Hub \<Rightarrow> bool" for i where
  other_subscribes: "sink \<noteq> i \<Longrightarrow> hub_step i h (Subscribe key sink h)"
| other_leaves: "sink \<noteq> i \<Longrightarrow> hub_step i h (Unsubscribe key sink now h)"
| source_emits: "hub_step i h (emit key tid channel encoded retain h)"
| timer_runs: "hub_step i h (timer_expires t h)"
| callback_runs: "hub_step i h (linger_callback t h)"
| hub_closes: "hub_step i h (hub_Close h)"

inductive socket_reach :: "'d Decimals \<Rightarrow> 'c Env \<Rightarrow> nat \<Rightarrow> 'p sockets \<Rightarrow> bool" for D env i where
  accepted: "(\<And>key. \<not> attached public key i \<and> \<not> attached private key i) \<Longrightarrow>
    socket_reach D env i \<lparr>sk_conn = \<lparr>cn_id = i, cn_queue = [], cn_cancelled = False, cn_subscriptions = []\<rparr>,
      sk_public = public, sk_private = private\<rparr>"
| controlled: "socket_reach D env i s \<Longrightarrow> manager_reach D env manager \<Longrightarrow>
    socket_reach D env i (control_step enc (catalog :: ('d, 'c) Catalog) manager now input s)"
| wrote: "socket_reach D env i s \<Longrightarrow> socket_reach D env i (writer_step written s)"
| public_step: "socket_reach D env i s \<Longrightarrow> hub_step i (sk_public s) hub \<Longrightarrow>
    socket_reach D env i (s\<lparr>sk_public := hub, sk_conn := send_all (replayed i (sk_public s) hub) (sk_conn s)\<rparr>)"
| private_step: "socket_reach D env i s \<Longrightarrow> hub_step i (sk_private s) hub \<Longrightarrow>
    socket_reach D env i (s\<lparr>sk_private := hub, sk_conn := send_all (replayed i (sk_private s) hub) (sk_conn s)\<rparr>)"

lemma hub_step_attached:
  "hub_step i h h' \<Longrightarrow> (hb_closed h' = hb_closed h \<and> (\<forall>key. attached h' key i = attached h key i)) \<or>
    (hb_closed h' \<and> (\<forall>key. \<not> attached h' key i))"
  by (induction rule: hub_step.induct) auto

lemma control_step_id [simp]: "cn_id (sk_conn (control_step enc catalog manager now input s)) = cn_id (sk_conn s)"
  by (auto simp: control_step_def reply_def socket_subscribe_def Let_def split: option.splits prod.splits)

lemma hub_change_ok:
  assumes "sockets_ok s" "hub_step (cn_id (sk_conn s)) (hub_of private s) hub"
    and "\<And>p. hub_of p s' = (if p = private then hub else hub_of p s)" "cn_id (sk_conn s') = cn_id (sk_conn s)"
    and "cn_subscriptions (sk_conn s') = cn_subscriptions (sk_conn s)" "length (cn_queue (sk_conn s')) \<le> outboundQueue"
  shows "sockets_ok s'"
  using assms(1) hub_step_attached [OF assms(2)] by (auto simp: sockets_ok_def owned_by_def assms(3-6))

lemma socket_reach_ok: "socket_reach D env i s \<Longrightarrow> sockets_ok s \<and> cn_id (sk_conn s) = i"
proof (induction rule: socket_reach.induct)
  case (accepted h1 h2)
  then show ?case by (auto simp: sockets_ok_def hub_of_def owned_by_def)
next
  case (controlled s manager enc catalog now input)
  then show ?case by (simp add: control_step_ok)
next
  case (wrote s written)
  then have "sockets_ok (writer_step written s)"
    unfolding writer_step_def Let_def by (intro sockets_ok_conn) (auto simp: sockets_ok_def)
  then show ?case using wrote by (simp add: writer_step_def Let_def)
next
  case (public_step s hub)
  let ?s = "s\<lparr>sk_public := hub, sk_conn := send_all (replayed i (sk_public s) hub) (sk_conn s)\<rparr>"
  have step: "hub_step (cn_id (sk_conn s)) (hub_of False s) hub" using public_step by (simp add: hub_of_def)
  have ok: "sockets_ok s" "cn_id (sk_conn s) = i" using public_step.IH by auto
  have hub: "hub_of p ?s = (if p = False then hub else hub_of p s)" for p by (simp add: hub_of_def)
  have "length (cn_queue (sk_conn ?s)) \<le> outboundQueue" using ok by (simp add: sockets_ok_def)
  then have "sockets_ok ?s" by (intro hub_change_ok [OF ok(1) step hub]) simp_all
  then show ?case using ok(2) by simp
next
  case (private_step s hub)
  let ?s = "s\<lparr>sk_private := hub, sk_conn := send_all (replayed i (sk_private s) hub) (sk_conn s)\<rparr>"
  have step: "hub_step (cn_id (sk_conn s)) (hub_of True s) hub" using private_step by (simp add: hub_of_def)
  have ok: "sockets_ok s" "cn_id (sk_conn s) = i" using private_step.IH by auto
  have hub: "hub_of p ?s = (if p = True then hub else hub_of p s)" for p by (simp add: hub_of_def)
  have "length (cn_queue (sk_conn ?s)) \<le> outboundQueue" using ok by (simp add: sockets_ok_def)
  then have "sockets_ok ?s" by (intro hub_change_ok [OF ok(1) step hub]) simp_all
  then show ?case using ok(2) by simp
qed

text \<open>Giving up the subscriptions one after the other.\<close>

lemma leave_all_attached:
  "attached (hub_of private (fold (hub_leave i now) entries s)) key j \<longleftrightarrow>
   attached (hub_of private s) key j \<and> \<not> ((key, private) \<in> set entries \<and> j = i)"
  by (induction entries arbitrary: s) auto

text \<open>
  C16: A connection holds what it subscribed to and nothing else. Whatever control messages it sends and
  whatever happens in the hubs, it has at most 64 subscriptions and 1024 queued messages; a topic of an
  open hub has the connection as a sink exactly when the connection is subscribed to it there, and when
  the connection ends no topic of either hub has it as a sink any more, while every other sink stays.
\<close>

theorem connection_holds_its_subscriptions:
  assumes "socket_reach D env i s"
  shows "length (cn_subscriptions (sk_conn s)) \<le> 64 \<and> length (cn_queue (sk_conn s)) \<le> 1024 \<and>
    (\<forall>private key. attached (hub_of private s) key i \<longleftrightarrow>
       map_of (cn_subscriptions (sk_conn s)) key = Some private \<and> \<not> hb_closed (hub_of private s)) \<and>
    (\<forall>now private key j. attached (hub_of private (socket_end now s)) key j \<longleftrightarrow> attached (hub_of private s) key j \<and> j \<noteq> i)"
proof -
  have ok: "sockets_ok s" "cn_id (sk_conn s) = i" using socket_reach_ok [OF assms] by auto
  have "attached (hub_of p (socket_end now s)) key j \<longleftrightarrow> attached (hub_of p s) key j \<and> j \<noteq> i" for now p key j
  proof -
    have "(key, p) \<in> set (cn_subscriptions (sk_conn s))" if "attached (hub_of p s) key i"
      using that ok by (auto simp: sockets_ok_def owned_by_def gomap_in_set)
    then show ?thesis using ok(2) by (auto simp: socket_end_def leave_all_attached)
  qed
  then show ?thesis
    using ok by (auto simp: sockets_ok_def owned_by_def)
qed

section \<open>An instance\<close>

definition sample_sockets :: "unit sockets" where
  "sample_sockets = \<lparr>sk_conn = \<lparr>cn_id = 7, cn_queue = [], cn_cancelled = False, cn_subscriptions = []\<rparr>,
     sk_public = hub_New (30 * Second), sk_private = hub_New (30 * Second)\<rparr>"

definition sample_control :: control where
  "sample_control = \<lparr>co_Op = ''sub'', co_Channel = ChannelBook, co_Instrument = sample_iid, co_Interval = ''x'', co_Account = []\<rparr>"

definition sample_key :: Key where
  "sample_key = \<lparr>ky_Channel = ChannelBook, ky_Instrument = sample_iid, ky_Interval = [], ky_Account = []\<rparr>"

definition sample_subscribed :: "unit sockets" where
  "sample_subscribed = control_step (\<lambda>_. ()) (wd_Catalog sample_world) sample_manager 0 (Some sample_control) sample_sockets"

theorem connection_holds_its_subscriptions_witness:
  "attached (hub_of False sample_subscribed) sample_key 7 \<and> \<not> attached (hub_of False (socket_end 5 sample_subscribed)) sample_key 7"
proof -
  have "socket_reach dec_ops sample_env 7 sample_sockets"
    unfolding sample_sockets_def by (rule accepted) (simp add: attached_def hub_New_def)
  then have reach: "socket_reach dec_ops sample_env 7 sample_subscribed"
    unfolding sample_subscribed_def by (rule controlled [OF _ sample_reach])
  have "socket_route (wd_Catalog sample_world) sample_manager (control_key sample_control) = (sample_key, False, None)"
    by (simp add: socket_route_def sample_control_def ValidKey_def catalog_Get_def sample_world_def sample_key_def)
  then have sub: "sample_subscribed = socket_subscribe sample_key False sample_sockets"
    by (simp add: sample_subscribed_def control_step_def sample_control_def)
      (simp add: sample_sockets_def)
  have "map_of (cn_subscriptions (sk_conn sample_subscribed)) sample_key = Some False" "\<not> hb_closed (hub_of False sample_subscribed)"
    by (simp_all add: sub socket_subscribe_def sample_sockets_def hub_of_def Let_def) (simp add: hub_New_def)
  then show ?thesis using connection_holds_its_subscriptions [OF reach] by auto
qed

end
