(* ===== verification/Trader_Auth.thy ===== *)
theory Trader_Auth
  imports Account_Bundle
begin

text \<open>
  Authentication of the trader (trader/auth.go): password hashes and their verification, the password
  file, the session table and the login throttle. The key derivation of argon2, randomness, the file
  system and the clock are parameters; times are those of the clock when the mutex is taken.
\<close>

section \<open>Base 64\<close>

text \<open>base64.RawStdEncoding: six bits a character, no padding; line breaks are skipped when decoding.\<close>

abbreviation base64_alphabet :: string where
  "base64_alphabet \<equiv> ''ABCDEFGHIJKLMNOPQRSTUVWXYZabcdefghijklmnopqrstuvwxyz0123456789+/''"

definition sextet_char :: "bool list \<Rightarrow> char" where
  "sextet_char g = base64_alphabet ! bits_value (take 6 (g @ replicate 6 False))"

fun base64_chars :: "bool list \<Rightarrow> string" where
  "base64_chars [] = []"
| "base64_chars bits = sextet_char (take 6 bits) # base64_chars (drop 6 bits)"

definition base64_encode :: "8 word list \<Rightarrow> string" where
  "base64_encode octets = base64_chars (concat (map byte_bits octets))"

definition sextet_val :: "char \<Rightarrow> nat option" where
  "sextet_val c =
     (if CHR ''A'' \<le> c \<and> c \<le> CHR ''Z'' then Some (of_char c - 65)
      else if CHR ''a'' \<le> c \<and> c \<le> CHR ''z'' then Some (of_char c - 71)
      else if is_digit c then Some (of_char c + 4)
      else if c = CHR ''+'' then Some 62 else if c = CHR ''/'' then Some 63 else None)"

fun nat_bits :: "nat \<Rightarrow> nat \<Rightarrow> bool list" where
  "nat_bits 0 n = []"
| "nat_bits (Suc k) n = nat_bits k (n div 2) @ [odd n]"

fun octets_of :: "bool list \<Rightarrow> 8 word list" where
  "octets_of bits = (if length bits < 8 then [] else of_nat (bits_value (take 8 bits)) # octets_of (drop 8 bits))"

declare octets_of.simps [simp del]

definition base64_decode :: "string \<Rightarrow> 8 word list option" where
  "base64_decode s =
     (let body = filter (\<lambda>c. c \<noteq> CHR 0x0A \<and> c \<noteq> CHR 0x0D) s in
      if list_ex (\<lambda>c. sextet_val c = None) body \<or> length body mod 4 = 1 then None
      else Some (octets_of (concat (map (\<lambda>c. nat_bits 6 (the (sextet_val c))) body))))"

section \<open>Password hashes\<close>

record Argon =
  ag_Version :: nat
  ag_IDKey :: "string \<Rightarrow> 8 word list \<Rightarrow> nat \<Rightarrow> nat \<Rightarrow> nat \<Rightarrow> nat \<Rightarrow> 8 word list"

abbreviation argonTime :: nat where "argonTime \<equiv> 3"
abbreviation argonMemoryKiB :: nat where "argonMemoryKiB \<equiv> 65536"
abbreviation argonThreads :: nat where "argonThreads \<equiv> 2"
abbreviation argonKeyLength :: nat where "argonKeyLength \<equiv> 32"

type_synonym PasswordHash = string

definition HashPassword :: "Argon \<Rightarrow> goerror + 8 word list \<Rightarrow> string \<Rightarrow> goerror + PasswordHash" where
  "HashPassword argon salt password =
     (case salt of
        Inl err \<Rightarrow> Inl err
      | Inr octets \<Rightarrow>
          Inr (''argon2id$v='' @ show_nat (ag_Version argon) @ ''$m='' @ show_nat argonMemoryKiB @ '',t='' @ show_nat argonTime @
               '',p='' @ show_nat argonThreads @ ''$'' @ base64_encode octets @ ''$'' @
               base64_encode (ag_IDKey argon password octets argonTime argonMemoryKiB argonThreads argonKeyLength)))"

text \<open>One unsigned integer as fmt.Sscanf reads it: the number and what is left.\<close>

definition scan_uint :: "nat \<Rightarrow> string \<Rightarrow> (nat \<times> string) option" where
  "scan_uint bits s =
     (let rest = strip (removeAll [CHR 0x0A] space_runes) s;
          token = takeWhile (\<lambda>c. is_digit c \<or> c = CHR ''_'') rest
      in case ParseUint 64 token of
           None \<Rightarrow> None
         | Some n \<Rightarrow> if n < 2 ^ bits then Some (n, drop (length token) rest) else None)"

definition literal :: "string \<Rightarrow> string \<Rightarrow> string option" where
  "literal expected s = (if prefix expected s then Some (drop (length expected) s) else None)"

text \<open>fmt.Sscanf with the format of the parameters; what follows the last number is not read.\<close>

definition scan_parameters :: "string \<Rightarrow> (nat \<times> nat \<times> nat) option" where
  "scan_parameters s =
     Option.bind (literal ''m='' s) (\<lambda>s1. Option.bind (scan_uint 32 s1) (\<lambda>(memory, s2).
     Option.bind (literal '',t='' s2) (\<lambda>s3. Option.bind (scan_uint 32 s3) (\<lambda>(iterations, s4).
     Option.bind (literal '',p='' s4) (\<lambda>s5. Option.bind (scan_uint 8 s5) (\<lambda>(threads, s6).
     Some (memory, iterations, threads)))))))"

definition Verify :: "Argon \<Rightarrow> PasswordHash \<Rightarrow> string \<Rightarrow> bool" where
  "Verify argon hash password \<longleftrightarrow>
     (let parts = SplitN (CHR ''$'') (Suc (Suc (length hash))) hash in
      length parts = 5 \<and> parts ! 0 = ''argon2id'' \<and> parts ! 1 = ''v='' @ show_nat (ag_Version argon) \<and>
      (case scan_parameters (parts ! 2) of
         None \<Rightarrow> False
       | Some (memory, iterations, threads) \<Rightarrow>
           (case (base64_decode (parts ! 3), base64_decode (parts ! 4)) of
              (Some salt, Some want) \<Rightarrow>
                want \<noteq> [] \<and> ag_IDKey argon password salt iterations memory threads (length want) = want
            | _ \<Rightarrow> False)))"

section \<open>The password file\<close>

text \<open>
  The file: its text and whether group or others may read it, None when there is none, an error when it
  cannot be read. The answer of a write is the first error of making the directory, writing the temporary
  file and renaming it. The second component of a result is the text that was put at the path, if any.
\<close>

definition WritePassword :: "goerror option \<Rightarrow> PasswordHash \<Rightarrow> goerror option \<times> string option" where
  "WritePassword answer hash = (case answer of Some err \<Rightarrow> (Some err, None) | None \<Rightarrow> (None, Some (hash @ [CHR 0x0A])))"

definition hex_digit :: "nat \<Rightarrow> char" where
  "hex_digit n = ''0123456789abcdef'' ! n"

definition hex_encode :: "8 word list \<Rightarrow> string" where
  "hex_encode octets = concat (map (\<lambda>b. [hex_digit (unat b div 16), hex_digit (unat b mod 16)]) octets)"

definition LoadOrCreatePassword ::
  "Argon \<Rightarrow> string \<Rightarrow> goerror + 8 word list \<Rightarrow> goerror + 8 word list \<Rightarrow> goerror option \<Rightarrow> (goerror + string \<times> bool) option \<Rightarrow>
   (goerror + PasswordHash \<times> string) \<times> string option" where
  "LoadOrCreatePassword argon path raw salt answer file =
     (case file of
        Some (Inr (content, shared)) \<Rightarrow>
          (if shared then Inl (PlainError (path @ '' must not be readable by group or others (chmod 600)''))
           else Inr (TrimSpace content, []), None)
      | Some (Inl err) \<Rightarrow> (Inl err, None)
      | None \<Rightarrow>
          (case raw of
             Inl err \<Rightarrow> (Inl err, None)
           | Inr octets \<Rightarrow>
               (let password = hex_encode octets in
                case HashPassword argon salt password of
                  Inl err \<Rightarrow> (Inl err, None)
                | Inr hash \<Rightarrow>
                    (case WritePassword answer hash of
                       (Some err, written) \<Rightarrow> (Inl err, written)
                     | (None, written) \<Rightarrow> (Inr (hash, password), written)))))"

section \<open>Sessions\<close>

abbreviation sessionIdle :: Duration where "sessionIdle \<equiv> 12 * Hour"
abbreviation sessionAbsolute :: Duration where "sessionAbsolute \<equiv> 7 * 24 * Hour"

record session =
  se_created :: Time
  se_lastSeen :: Time

type_synonym Sessions = "string \<rightharpoonup> session"

text \<open>Create; the token is the text of the random bytes, an error when there are none.\<close>

definition sessions_Create :: "Time \<Rightarrow> goerror + string \<Rightarrow> Sessions \<Rightarrow> (goerror + string) \<times> Sessions" where
  "sessions_Create now token store =
     (case token of Inl err \<Rightarrow> (Inl err, store) | Inr t \<Rightarrow> (Inr t, store(t \<mapsto> \<lparr>se_created = now, se_lastSeen = now\<rparr>)))"

definition sessions_Valid :: "Time \<Rightarrow> string \<Rightarrow> Sessions \<Rightarrow> bool \<times> Sessions" where
  "sessions_Valid now token store =
     (if token = [] then (False, store)
      else (case store token of
              None \<Rightarrow> (False, store)
            | Some current \<Rightarrow>
                if time_Sub now (se_lastSeen current) > sessionIdle \<or> time_Sub now (se_created current) > sessionAbsolute
                then (False, store(token := None))
                else (True, store(token \<mapsto> current\<lparr>se_lastSeen := now\<rparr>))))"

definition sessions_Delete :: "string \<Rightarrow> Sessions \<Rightarrow> Sessions" where
  "sessions_Delete token store = store(token := None)"

section \<open>Throttle\<close>

abbreviation maxLoginBackoff :: Duration where "maxLoginBackoff \<equiv> 15 * Minute"
abbreviation loginFailureSpan :: Duration where "loginFailureSpan \<equiv> Hour"

record failure =
  fl_count :: nat
  fl_last :: Time
  fl_until :: Time

type_synonym Throttle = "string \<rightharpoonup> failure"

definition throttle_Wait :: "Time \<Rightarrow> string \<Rightarrow> Throttle \<Rightarrow> Duration" where
  "throttle_Wait now ip throttle =
     (case throttle ip of None \<Rightarrow> 0 | Some entry \<Rightarrow> (let wait = time_Sub (fl_until entry) now in if wait > 0 then wait else 0))"

definition login_delay :: "nat \<Rightarrow> Duration" where
  "login_delay failures = min (Second * 2 ^ min (failures - 1) 20) maxLoginBackoff"

definition throttle_Fail :: "Time \<Rightarrow> string \<Rightarrow> Throttle \<Rightarrow> Throttle" where
  "throttle_Fail now ip throttle =
     (let failures = (case throttle ip of
                     None \<Rightarrow> 0
                   | Some entry \<Rightarrow> if time_Sub now (fl_last entry) > loginFailureSpan then 0 else fl_count entry)
      in throttle(ip \<mapsto> \<lparr>fl_count = Suc failures, fl_last = now, fl_until = now + login_delay (Suc failures)\<rparr>))"

definition throttle_Succeed :: "string \<Rightarrow> Throttle \<Rightarrow> Throttle" where
  "throttle_Succeed ip throttle = throttle(ip := None)"

text \<open>The seconds of the Retry-After header: rounded to the nearest second, half up, at least one.\<close>

definition retryAfter_seconds :: "Duration \<Rightarrow> int" where
  "retryAfter_seconds wait =
     (let rounded = (if wait mod Second * 2 < Second then wait - wait mod Second else wait - wait mod Second + Second)
      in max 1 (rounded div Second))"

section \<open>Base 64 round trip\<close>

lemma bits_value_append [simp]: "bits_value (g @ [b]) = 2 * bits_value g + of_bool b"
  by simp

lemma length_nat_bits [simp]: "length (nat_bits k n) = k"
  by (induction k arbitrary: n) auto

lemma bits_value_nat_bits: "bits_value (nat_bits k n) = n mod 2 ^ k"
proof (induction k arbitrary: n)
  case (Suc k)
  have "2 * (n div 2 mod 2 ^ k) + n mod 2 = n mod (2 * 2 ^ k)"
    by (metis mod_mult2_eq add.commute)
  then show ?case using Suc by (simp add: odd_iff_mod_2_eq_one mod_2_eq_odd [symmetric])
qed simp

lemma nat_bits_value: "length g = k \<Longrightarrow> nat_bits k (bits_value g) = g"
  using bits_value_less [of g] by (intro bits_value_inj) (simp_all add: bits_value_nat_bits)

lemma sextet_val_char: "n < 64 \<Longrightarrow> sextet_val (base64_alphabet ! n) = Some n"
proof -
  have "list_all (\<lambda>n. sextet_val (base64_alphabet ! n) = Some n) [0..<64]" by code_simp
  then show "n < 64 \<Longrightarrow> sextet_val (base64_alphabet ! n) = Some n" by (simp add: list_all_iff)
qed

lemma sextet_bits:
  assumes "length g \<le> 6"
  shows "sextet_val (sextet_char g) \<noteq> None" "nat_bits 6 (the (sextet_val (sextet_char g))) = g @ replicate (6 - length g) False"
proof -
  let ?fill = "take 6 (g @ replicate 6 False)"
  have fill: "?fill = g @ replicate (6 - length g) False" using assms by simp
  have size: "length ?fill = 6" using assms by simp
  have "bits_value ?fill < 64" using bits_value_less [of ?fill] unfolding size by simp
  then have val: "sextet_val (sextet_char g) = Some (bits_value ?fill)" unfolding sextet_char_def by (rule sextet_val_char)
  show "sextet_val (sextet_char g) \<noteq> None" using val by simp
  show "nat_bits 6 (the (sextet_val (sextet_char g))) = g @ replicate (6 - length g) False"
    using val nat_bits_value [OF size] fill by simp
qed

lemma base64_chars_bits:
  "(\<exists>pad<6. concat (map (\<lambda>c. nat_bits 6 (the (sextet_val c))) (base64_chars bits)) = bits @ replicate pad False) \<and>
   list_all (\<lambda>c. sextet_val c \<noteq> None) (base64_chars bits) \<and> length (base64_chars bits) = (length bits + 5) div 6"
proof (induction bits rule: base64_chars.induct)
  case (2 b bits)
  let ?bits = "b # bits"
  obtain pad where pad: "pad < 6" "concat (map (\<lambda>c. nat_bits 6 (the (sextet_val c))) (base64_chars (drop 6 ?bits))) = drop 6 ?bits @ replicate pad False"
    using 2 by blast
  have g: "length (take 6 ?bits) \<le> 6" by simp
  have split: "base64_chars ?bits = sextet_char (take 6 ?bits) # base64_chars (drop 6 ?bits)" by simp
  have "\<exists>pad<6. concat (map (\<lambda>c. nat_bits 6 (the (sextet_val c))) (base64_chars ?bits)) = ?bits @ replicate pad False"
  proof (cases "length ?bits \<le> 6")
    case True
    then have "drop 6 ?bits = []" by simp
    then have "concat (map (\<lambda>c. nat_bits 6 (the (sextet_val c))) (base64_chars ?bits)) = ?bits @ replicate (6 - length ?bits) False"
      using sextet_bits(2) [OF g] True by (simp only: split) simp
    moreover have "6 - length ?bits < 6" by simp
    ultimately show ?thesis by blast
  next
    case False
    then have "concat (map (\<lambda>c. nat_bits 6 (the (sextet_val c))) (base64_chars ?bits)) = take 6 ?bits @ drop 6 ?bits @ replicate pad False"
      using sextet_bits(2) [OF g] pad(2) by (simp only: split) simp
    then show ?thesis using pad(1) by (metis append_assoc append_take_drop_id)
  qed
  moreover have "length (base64_chars ?bits) = (length ?bits + 5) div 6"
    using 2 by (simp only: split) (auto simp: not_le)
  moreover have "list_all (\<lambda>c. sextet_val c \<noteq> None) (base64_chars ?bits)"
    using 2 sextet_bits(1) [OF g] by (simp only: split) simp
  ultimately show ?case by blast
qed simp

lemma nat_bits_bit: "nat_bits k n = map (bit n) (rev [0..<k])"
proof (induction k arbitrary: n)
  case (Suc k)
  have "[0..<Suc k] = 0 # map Suc [0..<k]" by (simp add: map_Suc_upt upt_conv_Cons del: upt_Suc)
  then show ?case using Suc by (simp add: rev_map bit_Suc bit_0 comp_def del: upt_Suc)
qed simp

lemma byte_bits_value: "bits_value (byte_bits b) = unat b"
proof -
  have "rev [0..<8] = [7, 6, 5, 4, 3, 2, 1, 0 :: nat]" by (simp add: upt_rec)
  then have "byte_bits b = nat_bits 8 (unat b)"
    by (simp add: byte_bits_def nat_bits_bit bit_unsigned_iff del: upt_Suc)
  moreover have "unat b < 2 ^ LENGTH(8)" by (rule unsigned_less)
  ultimately show ?thesis using bits_value_nat_bits [of 8 "unat b"] by simp
qed

lemma octets_of_bits: "pad < 8 \<Longrightarrow> octets_of (concat (map byte_bits octets) @ replicate pad False) = octets"
proof (induction octets)
  case Nil
  then show ?case by (subst octets_of.simps) simp
next
  case (Cons b octets)
  have size: "length (byte_bits b) = 8" by (simp add: byte_bits_def)
  have "octets_of (byte_bits b @ concat (map byte_bits octets) @ replicate pad False) =
      of_nat (bits_value (byte_bits b)) # octets_of (concat (map byte_bits octets) @ replicate pad False)"
    by (subst octets_of.simps) (simp add: size)
  then show ?case using Cons by (simp add: byte_bits_value)
qed

lemma sextet_val_plain: "sextet_val c \<noteq> None \<Longrightarrow> c \<noteq> CHR 0x0A \<and> c \<noteq> CHR 0x0D \<and> c \<noteq> CHR ''$'' \<and> printable c"
  by (auto simp: sextet_val_def is_digit_def printable_def less_eq_char_def split: if_splits)

lemma base64_roundtrip: "base64_decode (base64_encode octets) = Some octets"
proof -
  let ?bits = "concat (map byte_bits octets)"
  obtain pad where pad: "pad < 6" "concat (map (\<lambda>c. nat_bits 6 (the (sextet_val c))) (base64_chars ?bits)) = ?bits @ replicate pad False"
    using base64_chars_bits [of ?bits] by blast
  have chars: "list_all (\<lambda>c. sextet_val c \<noteq> None) (base64_chars ?bits)" using base64_chars_bits by blast
  have size: "length ?bits = 8 * length octets" by (induction octets) (simp_all add: byte_bits_def)
  have "length (base64_chars ?bits) = (8 * length octets + 5) div 6" using base64_chars_bits [of ?bits] size by simp
  then have four: "length (base64_chars ?bits) mod 4 \<noteq> 1" by presburger
  have "filter (\<lambda>c. c \<noteq> CHR 0x0A \<and> c \<noteq> CHR 0x0D) (base64_chars ?bits) = base64_chars ?bits"
    using chars sextet_val_plain by (auto simp: filter_id_conv list_all_iff)
  moreover have "\<not> list_ex (\<lambda>c. sextet_val c = None) (base64_chars ?bits)" using chars by (auto simp: list_all_iff list_ex_iff)
  ultimately show ?thesis
    using four pad octets_of_bits [of pad octets] by (simp add: base64_decode_def base64_encode_def)
qed

section \<open>Password round trip\<close>

lemma base64_plain: "c \<in> set (base64_encode octets) \<Longrightarrow> c \<noteq> CHR ''$'' \<and> printable c"
  using base64_chars_bits [of "concat (map byte_bits octets)"] sextet_val_plain
  by (auto simp: base64_encode_def list_all_iff)

lemma scan_uint_show:
  assumes "n < 2 ^ bits" "bits \<le> 64" "\<And>c r. rest = c # r \<Longrightarrow> \<not> is_digit c \<and> c \<noteq> CHR ''_''"
  shows "scan_uint bits (show_nat n @ rest) = Some (n, rest)"
proof -
  have digits: "list_all is_digit (show_nat n)" by (rule show_nat_digits)
  have plain: "printable c" if "is_digit c" for c using that by (auto simp: is_digit_def printable_def less_eq_char_def)
  have "printable (hd (show_nat n))" using digits plain show_nat_ne [of n] by (metis list.set_sel(1) list_all_iff)
  then have strip: "strip (removeAll [CHR 0x0A] space_runes) (show_nat n @ rest) = show_nat n @ rest"
    using show_nat_ne [of n] space_runes_hd by (intro strip_hd) (auto simp: hd_append, metis)
  have "takeWhile (\<lambda>c. is_digit c \<or> c = CHR ''_'') (show_nat n @ rest) = show_nat n"
    using digits assms(3) by (cases rest) (auto simp: list_all_iff takeWhile_append2)
  moreover have "n < 2 ^ 64" using assms(1,2) by (meson le_trans less_le_trans one_le_numeral power_increasing)
  ultimately show ?thesis using assms(1) by (simp add: scan_uint_def strip ParseUint_show Let_def)
qed

lemma hash_parts:
  assumes "HashPassword argon (Inr salt) password = Inr hash"
  shows "SplitN (CHR ''$'') (Suc (Suc (length hash))) hash =
    [''argon2id'', ''v='' @ show_nat (ag_Version argon), ''m='' @ show_nat argonMemoryKiB @ '',t='' @ show_nat argonTime @ '',p='' @ show_nat argonThreads,
     base64_encode salt, base64_encode (ag_IDKey argon password salt argonTime argonMemoryKiB argonThreads argonKeyLength)]"
proof -
  have digits: "CHR ''$'' \<notin> set (show_nat n)" for n
    using show_nat_digits [of n] by (auto simp: list_all_iff is_digit_def)
  have plain: "CHR ''$'' \<notin> set (base64_encode octets)" for octets using base64_plain by blast
  let ?params = "''m='' @ show_nat argonMemoryKiB @ '',t='' @ show_nat argonTime @ '',p='' @ show_nat argonThreads"
  let ?want = "base64_encode (ag_IDKey argon password salt argonTime argonMemoryKiB argonThreads argonKeyLength)"
  have hash: "hash = ''argon2id'' @ CHR ''$'' # (''v='' @ show_nat (ag_Version argon)) @ CHR ''$'' # ?params @ CHR ''$'' #
      base64_encode salt @ CHR ''$'' # ?want"
    using assms by (simp add: HashPassword_def)
  obtain k where k: "length hash = Suc (Suc (Suc (Suc k)))"
    using hash by (metis (no_types, lifting) Suc_le_D append_Cons le_add1 length_Cons add_Suc)
  show ?thesis
    unfolding k unfolding hash
    by (subst SplitN_char, simp add: digits)+ (simp add: SplitN_char SplitN_no_char plain digits del: SplitN.simps)
qed

lemma scan_hash_parameters:
  "scan_parameters (''m='' @ show_nat argonMemoryKiB @ '',t='' @ show_nat argonTime @ '',p='' @ show_nat argonThreads) =
   Some (argonMemoryKiB, argonTime, argonThreads)"
proof -
  have m: "scan_uint 32 (show_nat argonMemoryKiB @ '',t='' @ show_nat argonTime @ '',p='' @ show_nat argonThreads) =
      Some (argonMemoryKiB, '',t='' @ show_nat argonTime @ '',p='' @ show_nat argonThreads)"
    by (rule scan_uint_show) (auto simp: is_digit_def)
  have t: "scan_uint 32 (show_nat argonTime @ '',p='' @ show_nat argonThreads) = Some (argonTime, '',p='' @ show_nat argonThreads)"
    by (rule scan_uint_show) (auto simp: is_digit_def)
  have p: "scan_uint 8 (show_nat argonThreads) = Some (argonThreads, [])"
    using scan_uint_show [of argonThreads 8 "[]"] by simp
  show ?thesis using m t p by (simp add: scan_parameters_def literal_def)
qed

lemma Verify_hash:
  assumes "HashPassword argon (Inr salt) password = Inr hash"
    and "\<And>pw. length (ag_IDKey argon pw salt argonTime argonMemoryKiB argonThreads argonKeyLength) = argonKeyLength"
  shows "Verify argon hash attempt \<longleftrightarrow>
    ag_IDKey argon attempt salt argonTime argonMemoryKiB argonThreads argonKeyLength =
    ag_IDKey argon password salt argonTime argonMemoryKiB argonThreads argonKeyLength"
proof -
  let ?want = "ag_IDKey argon password salt argonTime argonMemoryKiB argonThreads argonKeyLength"
  have "length ?want = argonKeyLength" by (rule assms(2))
  then have "?want \<noteq> []" by auto
  then show ?thesis
    using \<open>length ?want = argonKeyLength\<close>
    by (simp add: Verify_def hash_parts [OF assms(1)] scan_hash_parameters [simplified] base64_roundtrip Let_def del: SplitN.simps)
qed

lemma TrimSpace_line:
  assumes "s \<noteq> []" "printable (hd s)" "printable (last s)"
  shows "TrimSpace (s @ [CHR 0x0A]) = s"
proof -
  have left: "strip space_runes (s @ [CHR 0x0A]) = s @ [CHR 0x0A]"
    using assms by (intro strip_printable) auto
  have "find (\<lambda>r. r \<noteq> [] \<and> prefix r (CHR 0x0A # rev s)) (map rev space_runes) = Some [CHR 0x0A]"
    by (simp add: space_runes_def)
  then have "strip (map rev space_runes) (CHR 0x0A # rev s) = strip (map rev space_runes) (rev s)"
    by (simp add: strip_Some)
  also have "strip (map rev space_runes) (rev s) = rev s"
  proof (rule strip_hd)
    show "rev s \<noteq> []" using assms(1) by simp
    fix r assume "r \<in> set (map rev space_runes)"
    then obtain q where "q \<in> set space_runes" "r = rev q" by auto
    then show "hd r \<noteq> hd (rev s)" using assms(3) space_runes_last by (metis hd_rev)
  qed
  finally show ?thesis by (simp add: TrimSpace_def left)
qed

lemma hash_trimmed:
  assumes "HashPassword argon (Inr salt) password = Inr hash"
    and "length (ag_IDKey argon password salt argonTime argonMemoryKiB argonThreads argonKeyLength) = argonKeyLength"
  shows "TrimSpace (hash @ [CHR 0x0A]) = hash"
proof (rule TrimSpace_line)
  let ?want = "base64_encode (ag_IDKey argon password salt argonTime argonMemoryKiB argonThreads argonKeyLength)"
  have hash: "hash = (''argon2id$v='' @ show_nat (ag_Version argon) @ ''$m='' @ show_nat argonMemoryKiB @ '',t='' @ show_nat argonTime @
      '',p='' @ show_nat argonThreads @ ''$'' @ base64_encode salt @ ''$'') @ ?want"
    using assms(1) by (simp add: HashPassword_def)
  show "hash \<noteq> []" "printable (hd hash)" using hash by (simp_all add: printable_def)
  have "length (concat (map byte_bits octets)) = 8 * length octets" for octets
    by (induction octets) (simp_all add: byte_bits_def)
  then have "length ?want = (8 * argonKeyLength + 5) div 6"
    using base64_chars_bits [of "concat (map byte_bits (ag_IDKey argon password salt argonTime argonMemoryKiB argonThreads argonKeyLength))"] assms(2)
    by (simp add: base64_encode_def)
  then have "?want \<noteq> []" by auto
  then have "last hash \<in> set ?want" using hash by simp
  then show "printable (last hash)" using base64_plain by blast
qed

text \<open>
  C18: The password the trader prints at its first start is the password it accepts. When no password file
  exists and one is written, the printed password verifies against the returned hash; a later start reads
  that very hash from the file and prints nothing; and a password verifies only if argon2 derives the same
  key from it. The key has the length that was asked for.
\<close>

theorem generated_password_verifies:
  assumes "\<And>pw salt. length (ag_IDKey argon pw salt argonTime argonMemoryKiB argonThreads argonKeyLength) = argonKeyLength"
    and "LoadOrCreatePassword argon path raw (Inr salt) answer None = (Inr (hash, password), written)"
  shows "Verify argon hash password \<and> (\<exists>content. written = Some content \<and>
      LoadOrCreatePassword argon path raw' salt' answer' (Some (Inr (content, False))) = (Inr (hash, []), None)) \<and>
    (\<forall>attempt. Verify argon hash attempt \<longrightarrow>
      ag_IDKey argon attempt salt argonTime argonMemoryKiB argonThreads argonKeyLength =
      ag_IDKey argon password salt argonTime argonMemoryKiB argonThreads argonKeyLength)"
proof -
  have hash: "HashPassword argon (Inr salt) password = Inr hash" and written: "written = Some (hash @ [CHR 0x0A])"
    using assms(2) by (auto simp: LoadOrCreatePassword_def WritePassword_def Let_def split: sum.splits option.splits)
  show ?thesis
    using Verify_hash [OF hash assms(1)] hash_trimmed [OF hash assms(1)] written
    by (simp add: LoadOrCreatePassword_def)
qed

definition sample_argon :: Argon where
  "sample_argon = \<lparr>ag_Version = 19, ag_IDKey = (\<lambda>pw salt t m p n. replicate n (of_nat (length pw)))\<rparr>"

theorem generated_password_verifies_witness:
  "\<exists>hash. LoadOrCreatePassword sample_argon ''pw'' (Inr [1, 2]) (Inr [3]) None None = (Inr (hash, ''0102''), Some (hash @ [CHR 0x0A])) \<and>
     Verify sample_argon hash ''0102''"
proof -
  have key: "length (ag_IDKey sample_argon pw salt argonTime argonMemoryKiB argonThreads argonKeyLength) = argonKeyLength" for pw salt
    by (simp add: sample_argon_def)
  have hex: "hex_encode [1, 2] = ''0102''" by (simp add: hex_encode_def hex_digit_def)
  obtain hash where run: "LoadOrCreatePassword sample_argon ''pw'' (Inr [1, 2]) (Inr [3]) None None = (Inr (hash, ''0102''), Some (hash @ [CHR 0x0A]))"
    by (simp add: LoadOrCreatePassword_def HashPassword_def WritePassword_def hex Let_def)
  from generated_password_verifies [OF key run] run show ?thesis by blast
qed

section \<open>Guessing\<close>

text \<open>Attempts of one client at the given times that the throttle lets through, each with a wrong password.\<close>

fun guesses :: "string \<Rightarrow> Time list \<Rightarrow> Throttle \<Rightarrow> bool" where
  "guesses ip [] throttle \<longleftrightarrow> True"
| "guesses ip (t # ts) throttle \<longleftrightarrow> throttle_Wait t ip throttle = 0 \<and> guesses ip ts (throttle_Fail t ip throttle)"

lemma Hour_range: "time_Sub t u > Hour \<longleftrightarrow> t > u + Hour"
  using time_Sub_le_iff [of Hour t u] by (simp add: minDuration_def maxDuration_def not_le [symmetric])

lemma login_delay_mono: "m \<le> n \<Longrightarrow> login_delay m \<le> login_delay n"
  unfolding login_delay_def by (intro min.mono mult_left_mono power_increasing) auto

lemma login_delay_pos: "0 < login_delay n"
  by (simp add: login_delay_def)

lemma guesses_spread:
  assumes "guesses ip ts throttle" "throttle ip = Some \<lparr>fl_count = c, fl_last = t0, fl_until = t0 + login_delay c\<rparr>"
    and "sorted (t0 # ts)" "last (t0 # ts) \<le> t0 + Hour"
  shows "t0 + (\<Sum>j<length ts. login_delay (c + j)) \<le> last (t0 # ts)"
  using assms
proof (induction ts arbitrary: throttle c t0)
  case (Cons t ts)
  have wait: "t0 + login_delay c \<le> t"
    using Cons.prems(1,2) time_Sub_pos_iff [of "t0 + login_delay c" t] by (auto simp: throttle_Wait_def Let_def split: if_splits)
  have "t \<le> last (t # ts)" using Cons.prems(3) by (cases ts rule: rev_cases) auto
  then have span: "t \<le> t0 + Hour" using Cons.prems(4) by simp
  then have entry: "throttle_Fail t ip throttle ip = Some \<lparr>fl_count = Suc c, fl_last = t, fl_until = t + login_delay (Suc c)\<rparr>"
    using Cons.prems(2) Hour_range [of t t0] by (simp add: throttle_Fail_def)
  have "t0 \<le> t" using Cons.prems(3) by simp
  then have "t + (\<Sum>j<length ts. login_delay (Suc c + j)) \<le> last (t # ts)"
    using Cons.prems by (intro Cons.IH [of "throttle_Fail t ip throttle", OF _ entry]) auto
  moreover have "(\<Sum>j<length (t # ts). login_delay (c + j)) = login_delay c + (\<Sum>j<length ts. login_delay (Suc c + j))"
    by (simp add: sum.lessThan_Suc_shift del: sum.lessThan_Suc)
  ultimately show ?case using wait by simp
qed simp

text \<open>
  C17: A client that guesses passwords one after the other gets at most thirteen guesses in an hour. Among
  the attempts of one address that the throttle lets through and that fail, those that lie within one hour
  are at most thirteen, whatever came before, and the waits between them grow from one second to fifteen
  minutes.
\<close>

theorem thirteen_guesses_an_hour:
  assumes "guesses ip ts throttle" "sorted ts" "\<forall>t\<in>set ts. \<forall>u\<in>set ts. u \<le> t + Hour"
  shows "length ts \<le> 13"
proof (rule ccontr)
  assume many: "\<not> length ts \<le> 13"
  then obtain t rest where ts: "ts = t # rest" by (cases ts) auto
  obtain c where entry: "throttle_Fail t ip throttle ip = Some \<lparr>fl_count = Suc c, fl_last = t, fl_until = t + login_delay (Suc c)\<rparr>"
    by (simp add: throttle_Fail_def Let_def)
  have "last (t # rest) \<in> set ts" by (simp add: ts)
  then have last: "last (t # rest) \<le> t + Hour" using assms(3) by (simp add: ts)
  have "t + (\<Sum>j<length rest. login_delay (Suc c + j)) \<le> last (t # rest)"
    using assms(1,2) last ts by (intro guesses_spread [of ip rest "throttle_Fail t ip throttle", OF _ entry]) auto
  moreover have "(\<Sum>j<13. login_delay (Suc j)) \<le> (\<Sum>j<13. login_delay (Suc c + j))"
    by (intro sum_mono login_delay_mono) simp
  moreover have "(\<Sum>j<13. login_delay (Suc c + j)) \<le> (\<Sum>j<length rest. login_delay (Suc c + j))"
    using many ts less_imp_le [OF login_delay_pos] by (intro sum_mono2) auto
  moreover have "(\<Sum>j<13. login_delay (Suc j)) = 3723 * Second"
    by (simp add: login_delay_def lessThan_nat_numeral)
  ultimately show False using last by simp
qed

theorem thirteen_guesses_an_hour_witness:
  "guesses ''ip'' [0, Second, 3 * Second] Map.empty \<and> length [0, Second, 3 * Second] \<le> 13"
proof -
  have run: "guesses ''ip'' [0, Second, 3 * Second] Map.empty"
    by (simp add: throttle_Wait_def throttle_Fail_def login_delay_def time_Sub_def minDuration_def maxDuration_def)
  have "sorted [0, Second, 3 * Second]" "\<forall>t\<in>set [0, Second, 3 * Second]. \<forall>u\<in>set [0, Second, 3 * Second]. u \<le> t + Hour" by simp_all
  from thirteen_guesses_an_hour [OF run this] run show ?thesis by blast
qed

end
