(* ===== verification/Trader_Server.thy ===== *)
theory Trader_Server
  imports Trader_Auth
begin

text \<open>
  The trader's HTTP server (trader/server.go): refusal of cross-origin requests, login with the throttle,
  sessions, and the requests it forwards to the gateway with the gateway's token. A reply says what the
  handler did; headers that only harden the browser are left out. How a URL's host and a remote address
  are read is a parameter, the JSON value of a body and the random token are part of the request's inputs.
\<close>

section \<open>Requests\<close>

record TraderConfig =
  tc_GatewayToken :: string
  tc_Password :: PasswordHash
  tc_WebDir :: string
  tc_Argon :: Argon
  tc_url_host :: "string \<Rightarrow> string option"
  tc_remote_host :: "string \<Rightarrow> string option"
  tc_is_file :: "string \<Rightarrow> bool"

record TraderRequest =
  tq_Method :: string
  tq_Path :: string
  tq_Clean :: bool
  tq_Host :: string
  tq_Origin :: string
  tq_Referer :: string
  tq_XBolter :: string
  tq_Cookie :: "string option"
  tq_RemoteAddr :: string
  tq_Body :: "json option"

record Trader =
  td_sessions :: Sessions
  td_throttle :: Throttle

datatype TraderReply =
    TraderError nat string string
  | Throttled int
  | LoggedIn string
  | LoggedOut
  | SessionIs bool
  | Forwarded string string
  | Bridged string
  | StaticFile string bool
  | MuxRedirect
  | MuxNotFound
  | MethodRefused

definition sameOrigin :: "TraderConfig \<Rightarrow> TraderRequest \<Rightarrow> bool" where
  "sameOrigin cfg r \<longleftrightarrow>
     (let source = (if tq_Origin r = [] then tq_Referer r else tq_Origin r) in
      source \<noteq> [] \<and>
      (case tc_url_host cfg source of None \<Rightarrow> False | Some host \<Rightarrow> host \<noteq> [] \<and> EqualFold host (tq_Host r)))"

definition clientIP :: "TraderConfig \<Rightarrow> TraderRequest \<Rightarrow> string" where
  "clientIP cfg r = (case tc_remote_host cfg (tq_RemoteAddr r) of None \<Rightarrow> tq_RemoteAddr r | Some host \<Rightarrow> host)"

text \<open>The password member of the login body: other members are ignored, a value that is not a text is an error.\<close>

fun password_member :: "(string \<times> json) list \<Rightarrow> string \<Rightarrow> string option" where
  "password_member [] pw = Some pw"
| "password_member ((key, v) # members) pw =
     (if key = ''password'' \<or> EqualFold ''password'' key then
        (case v of JString s \<Rightarrow> password_member members s | JNull \<Rightarrow> password_member members pw | _ \<Rightarrow> None)
      else password_member members pw)"

definition login_password :: "json option \<Rightarrow> string option" where
  "login_password body = (case body of Some (JObject members) \<Rightarrow> password_member members [] | Some JNull \<Rightarrow> Some [] | _ \<Rightarrow> None)"

section \<open>Handlers\<close>

text \<open>login; the token is what the session table would create.\<close>

definition trader_login ::
  "TraderConfig \<Rightarrow> goerror + string \<Rightarrow> Time \<Rightarrow> TraderRequest \<Rightarrow> Trader \<Rightarrow> TraderReply \<times> Trader" where
  "trader_login cfg token now r s =
     (let ip = clientIP cfg r; wait = throttle_Wait now ip (td_throttle s) in
      if wait > 0 then (Throttled (retryAfter_seconds wait), s)
      else (case login_password (tq_Body r) of
              None \<Rightarrow> (TraderError 400 ''INVALID_JSON'' ''invalid request'', s)
            | Some pw \<Rightarrow>
                if pw = [] \<or> \<not> Verify (tc_Argon cfg) (tc_Password cfg) pw
                then (TraderError 401 ''INVALID_PASSWORD'' ''incorrect password'',
                      s\<lparr>td_throttle := throttle_Fail now ip (td_throttle s)\<rparr>)
                else
                  (let s1 = s\<lparr>td_throttle := throttle_Succeed ip (td_throttle s)\<rparr> in
                   case sessions_Create now token (td_sessions s1) of
                     (Inl err, sessions) \<Rightarrow> (TraderError 500 ''INTERNAL'' ''could not create session'', s1)
                   | (Inr t, sessions) \<Rightarrow> (LoggedIn t, s1\<lparr>td_sessions := sessions\<rparr>))))"

definition trader_logout :: "TraderRequest \<Rightarrow> Trader \<Rightarrow> TraderReply \<times> Trader" where
  "trader_logout r s =
     (LoggedOut, case tq_Cookie r of None \<Rightarrow> s | Some token \<Rightarrow> s\<lparr>td_sessions := sessions_Delete token (td_sessions s)\<rparr>)"

text \<open>session and authenticated look the cookie up in the session table.\<close>

definition check_session :: "Time \<Rightarrow> TraderRequest \<Rightarrow> Trader \<Rightarrow> bool \<times> Trader" where
  "check_session now r s =
     (case tq_Cookie r of
        None \<Rightarrow> (False, s)
      | Some token \<Rightarrow> (case sessions_Valid now token (td_sessions s) of (ok, sessions) \<Rightarrow> (ok, s\<lparr>td_sessions := sessions\<rparr>)))"

definition trader_session :: "Time \<Rightarrow> TraderRequest \<Rightarrow> Trader \<Rightarrow> TraderReply \<times> Trader" where
  "trader_session now r s = (case check_session now r s of (ok, s1) \<Rightarrow> (SessionIs ok, s1))"

definition trader_authenticated ::
  "(TraderRequest \<Rightarrow> TraderReply) \<Rightarrow> Time \<Rightarrow> TraderRequest \<Rightarrow> Trader \<Rightarrow> TraderReply \<times> Trader" where
  "trader_authenticated handler now r s =
     (case check_session now r s of
        (False, s1) \<Rightarrow> (TraderError 401 ''UNAUTHENTICATED'' ''sign in required'', s1)
      | (True, s1) \<Rightarrow> (handler r, s1))"

text \<open>forward: the path and the Authorization header the gateway sees.\<close>

definition trader_forward :: "TraderConfig \<Rightarrow> TraderRequest \<Rightarrow> TraderReply" where
  "trader_forward cfg r =
     (if tq_Path r = ''/api/gw/v1/ws'' then TraderError 404 ''NOT_FOUND'' ''use /api/ws''
      else Forwarded (drop 7 (tq_Path r)) (''Bearer '' @ tc_GatewayToken cfg))"

text \<open>websocket up to the two sockets, which it then relays to each other.\<close>

definition trader_websocket :: "TraderConfig \<Rightarrow> TraderRequest \<Rightarrow> TraderReply" where
  "trader_websocket cfg r =
     (if \<not> sameOrigin cfg r then TraderError 403 ''CSRF'' ''cross-origin websocket refused''
      else Bridged (''Bearer '' @ tc_GatewayToken cfg))"

definition reads_only :: "string \<Rightarrow> bool" where
  "reads_only method \<longleftrightarrow> method = ''GET'' \<or> method = ''HEAD''"

text \<open>
  static: the file of the path or the page of the single-page application, and whether it may be cached for
  ever. The multiplexer has redirected every other unclean path, so cleaning drops a final slash.
\<close>

definition trader_static :: "TraderConfig \<Rightarrow> TraderRequest \<Rightarrow> TraderReply" where
  "trader_static cfg r =
     (if \<not> reads_only (tq_Method r) then MethodRefused
      else (let clean = (if tq_Path r \<noteq> ''/'' \<and> HasSuffix (tq_Path r) ''/'' then butlast (tq_Path r) else tq_Path r) in
            if tc_is_file cfg clean then StaticFile clean (HasPrefix clean ''/assets/'')
            else StaticFile ''/index.html'' False))"

definition trader_mux ::
  "TraderConfig \<Rightarrow> goerror + string \<Rightarrow> Time \<Rightarrow> TraderRequest \<Rightarrow> Trader \<Rightarrow> TraderReply \<times> Trader" where
  "trader_mux cfg token now r s =
     (if \<not> tq_Clean r \<and> tq_Method r \<noteq> ''CONNECT'' \<or> tq_Path r = ''/api/gw/v1'' \<or> tq_Path r = ''/api'' then (MuxRedirect, s)
      else if tq_Path r = ''/api/auth/login'' \<and> tq_Method r = ''POST'' then trader_login cfg token now r s
      else if tq_Path r = ''/api/auth/logout'' \<and> tq_Method r = ''POST'' then trader_logout r s
      else if tq_Path r = ''/api/auth/session'' \<and> reads_only (tq_Method r) then trader_session now r s
      else if tq_Path r = ''/api/ws'' \<and> reads_only (tq_Method r)
      then trader_authenticated (trader_websocket cfg) now r s
      else if HasPrefix (tq_Path r) ''/api/gw/v1/'' then trader_authenticated (trader_forward cfg) now r s
      else if HasPrefix (tq_Path r) ''/api/'' then (TraderError 404 ''NOT_FOUND'' ''unknown endpoint'', s)
      else if tc_WebDir cfg = [] then (MuxNotFound, s)
      else (trader_static cfg r, s))"

definition trader_ServeHTTP ::
  "TraderConfig \<Rightarrow> goerror + string \<Rightarrow> Time \<Rightarrow> TraderRequest \<Rightarrow> Trader \<Rightarrow> TraderReply \<times> Trader" where
  "trader_ServeHTTP cfg token now r s =
     (if HasPrefix (tq_Path r) ''/api/'' \<and> \<not> reads_only (tq_Method r) \<and> (\<not> sameOrigin cfg r \<or> tq_XBolter r \<noteq> ''1'')
      then (TraderError 403 ''CSRF'' ''cross-origin request refused'', s)
      else trader_mux cfg token now r s)"

section \<open>Histories\<close>

text \<open>The requests served so far, newest first, with their times and replies.\<close>

type_synonym history = "(Time \<times> TraderRequest \<times> TraderReply) list"

inductive trader_reach :: "TraderConfig \<Rightarrow> Time \<Rightarrow> history \<Rightarrow> Trader \<Rightarrow> bool" for cfg where
  trader_start: "trader_reach cfg now [] \<lparr>td_sessions = Map.empty, td_throttle = Map.empty\<rparr>"
| trader_serve: "trader_reach cfg now history s \<Longrightarrow> now \<le> now' \<Longrightarrow> trader_ServeHTTP cfg token now' r s = (response, s') \<Longrightarrow>
    trader_reach cfg now' ((now', r, response) # history) s'"

definition password_ok :: "TraderConfig \<Rightarrow> TraderRequest \<Rightarrow> bool" where
  "password_ok cfg r \<longleftrightarrow> (\<exists>pw. login_password (tq_Body r) = Some pw \<and> pw \<noteq> [] \<and> Verify (tc_Argon cfg) (tc_Password cfg) pw)"

definition own_request :: "TraderConfig \<Rightarrow> TraderRequest \<Rightarrow> bool" where
  "own_request cfg r \<longleftrightarrow> reads_only (tq_Method r) \<or> sameOrigin cfg r \<and> tq_XBolter r = ''1''"

text \<open>A login gave the token, with the password, and no logout with the token came after it.\<close>

definition signed_in :: "TraderConfig \<Rightarrow> history \<Rightarrow> string \<Rightarrow> Time \<Rightarrow> bool" where
  "signed_in cfg history token t \<longleftrightarrow>
     (\<exists>newer r older. history = newer @ (t, r, LoggedIn token) # older \<and> password_ok cfg r \<and> own_request cfg r \<and>
        (\<forall>(u, q, response)\<in>set newer. \<not> (response = LoggedOut \<and> tq_Cookie q = Some token)))"

text \<open>The token was used, or given, at a time.\<close>

definition used_at :: "history \<Rightarrow> string \<Rightarrow> Time \<Rightarrow> bool" where
  "used_at history token t \<longleftrightarrow> (\<exists>q response. (t, q, response) \<in> set history \<and> (response = LoggedIn token \<or> tq_Cookie q = Some token))"

definition sessions_ok :: "TraderConfig \<Rightarrow> history \<Rightarrow> Sessions \<Rightarrow> bool" where
  "sessions_ok cfg history sessions \<longleftrightarrow>
     (\<forall>token current. sessions token = Some current \<longrightarrow>
        signed_in cfg history token (se_created current) \<and> used_at history token (se_lastSeen current))"

lemma signed_in_Cons:
  "signed_in cfg history token t \<Longrightarrow> \<not> (response = LoggedOut \<and> tq_Cookie r = Some token) \<Longrightarrow>
   signed_in cfg ((now, r, response) # history) token t"
proof -
  assume kept: "\<not> (response = LoggedOut \<and> tq_Cookie r = Some token)" and "signed_in cfg history token t"
  then obtain newer q older where "history = newer @ (t, q, LoggedIn token) # older" "password_ok cfg q" "own_request cfg q"
      "\<forall>(u, q, response)\<in>set newer. \<not> (response = LoggedOut \<and> tq_Cookie q = Some token)"
    unfolding signed_in_def by blast
  then show ?thesis
    unfolding signed_in_def using kept by (intro exI [of _ "(now, r, response) # newer"] exI [of _ q] exI [of _ older]) simp
qed

lemma used_at_Cons: "used_at history token t \<Longrightarrow> used_at (entry # history) token t"
  by (auto simp: used_at_def)

lemma used_at_now: "tq_Cookie r = Some token \<or> response = LoggedIn token \<Longrightarrow> used_at ((now, r, response) # history) token now"
  by (auto simp: used_at_def)

lemma sessions_ok_Cons:
  "sessions_ok cfg history sessions \<Longrightarrow> response \<noteq> LoggedOut \<Longrightarrow> sessions_ok cfg ((now, r, response) # history) sessions"
  by (auto simp: sessions_ok_def intro: signed_in_Cons used_at_Cons)

lemma check_session_ok:
  assumes "check_session now r s = (ok, s')" "sessions_ok cfg history (td_sessions s)" "response \<noteq> LoggedOut"
  shows "sessions_ok cfg ((now, r, response) # history) (td_sessions s')"
  using assms(1) sessions_ok_Cons [OF assms(2,3), of now r]
  by (auto simp: check_session_def sessions_Valid_def sessions_ok_def used_at_now split: option.splits prod.splits if_splits)

lemma login_session_ok:
  assumes "trader_login cfg token now r s = (response, s')" "sessions_ok cfg history (td_sessions s)" "own_request cfg r"
  shows "sessions_ok cfg ((now, r, response) # history) (td_sessions s')"
proof -
  have fresh: "signed_in cfg ((now, r, LoggedIn t) # history) t now" if "password_ok cfg r" for t
    unfolding signed_in_def using that assms(3) by (intro exI [of _ "[]"] exI [of _ r] exI [of _ history]) simp
  consider "response \<noteq> LoggedOut" "td_sessions s' = td_sessions s"
    | t where "response = LoggedIn t" "td_sessions s' = (td_sessions s)(t \<mapsto> \<lparr>se_created = now, se_lastSeen = now\<rparr>)" "password_ok cfg r"
    using assms(1) by (auto simp: trader_login_def Let_def sessions_Create_def password_ok_def split: if_splits option.splits sum.splits)
  then show ?thesis
  proof cases
    case 1
    then show ?thesis
      using sessions_ok_Cons assms(2) by simp
  next
    case (2 t)
    then show ?thesis
      using sessions_ok_Cons [OF assms(2), of "LoggedIn t" now r] fresh [of t] by (auto simp: sessions_ok_def intro: used_at_now)
  qed
qed

lemma logout_session_ok:
  "trader_logout r s = (response, s') \<Longrightarrow> sessions_ok cfg history (td_sessions s) \<Longrightarrow>
   sessions_ok cfg ((now, r, response) # history) (td_sessions s')"
  by (auto simp: trader_logout_def sessions_Delete_def sessions_ok_def intro: signed_in_Cons used_at_Cons
      split: option.splits if_splits)

text \<open>What a request can do to the sessions.\<close>

definition gateway_reply :: "TraderReply \<Rightarrow> bool" where
  "gateway_reply response = (case response of Forwarded _ _ \<Rightarrow> True | Bridged _ \<Rightarrow> True | _ \<Rightarrow> False)"

lemma gateway_reply_simps [simp]:
  "gateway_reply (Forwarded p t)" "gateway_reply (Bridged t)" "\<not> gateway_reply (TraderError n c m)" "\<not> gateway_reply (Throttled seconds)"
  "\<not> gateway_reply (LoggedIn t)" "\<not> gateway_reply LoggedOut" "\<not> gateway_reply (SessionIs b)" "\<not> gateway_reply (StaticFile f b)"
  "\<not> gateway_reply MuxRedirect" "\<not> gateway_reply MuxNotFound" "\<not> gateway_reply MethodRefused"
  by (simp_all add: gateway_reply_def)

lemma trader_static_reply: "trader_static cfg r \<noteq> LoggedOut" "\<not> gateway_reply (trader_static cfg r)"
  by (simp_all add: trader_static_def Let_def)

lemma handler_reply: "trader_forward cfg r \<noteq> LoggedOut" "trader_websocket cfg r \<noteq> LoggedOut"
  by (simp_all add: trader_forward_def trader_websocket_def)

lemma authenticated_reply:
  assumes "trader_authenticated handler now r s = (response, s')" "handler r \<noteq> LoggedOut"
  shows "\<exists>ok. check_session now r s = (ok, s') \<and> response \<noteq> LoggedOut \<and> (gateway_reply response \<longrightarrow> ok)"
  using assms by (auto simp: trader_authenticated_def split: prod.splits bool.splits)

lemma api_prefix: "HasPrefix p ''/api/gw/v1/'' \<Longrightarrow> HasPrefix p ''/api/''"
  by (auto simp: HasPrefix_def prefix_def)

lemma trader_mux_cases:
  "trader_mux cfg token now r s = (response, s') \<Longrightarrow>
   response \<noteq> LoggedOut \<and> s' = s \<and> \<not> gateway_reply response \<or>
   HasPrefix (tq_Path r) ''/api/'' \<and>
     (trader_login cfg token now r s = (response, s') \<or> trader_logout r s = (response, s') \<or>
      trader_session now r s = (response, s') \<or> trader_authenticated (trader_websocket cfg) now r s = (response, s') \<or>
      trader_authenticated (trader_forward cfg) now r s = (response, s'))"
  by (simp add: trader_mux_def api_prefix split: if_split_asm) (auto simp: HasPrefix_def trader_static_reply)

lemma trader_ServeHTTP_cases:
  assumes "trader_ServeHTTP cfg token now r s = (response, s')"
  obtains (unchanged) "response \<noteq> LoggedOut" "s' = s" "\<not> gateway_reply response"
    | (login) "trader_login cfg token now r s = (response, s')" "own_request cfg r"
    | (logout) "trader_logout r s = (response, s')" "own_request cfg r"
    | (session) ok where "check_session now r s = (ok, s')" "response \<noteq> LoggedOut" "own_request cfg r" "gateway_reply response \<longrightarrow> ok"
proof (cases "HasPrefix (tq_Path r) ''/api/'' \<and> \<not> own_request cfg r")
  case True
  then show ?thesis
    using assms by (intro unchanged) (auto simp: trader_ServeHTTP_def own_request_def split: if_splits)
next
  case False
  then have own: "own_request cfg r" if "HasPrefix (tq_Path r) ''/api/''"
    using that by simp
  have mux: "trader_mux cfg token now r s = (response, s')"
    using False assms by (auto simp: trader_ServeHTTP_def own_request_def)
  consider "response \<noteq> LoggedOut" "s' = s" "\<not> gateway_reply response"
    | "HasPrefix (tq_Path r) ''/api/''" "trader_login cfg token now r s = (response, s') \<or> trader_logout r s = (response, s')"
    | "HasPrefix (tq_Path r) ''/api/''" "trader_session now r s = (response, s')"
    | handler where "HasPrefix (tq_Path r) ''/api/''" "trader_authenticated handler now r s = (response, s')" "handler r \<noteq> LoggedOut"
    using trader_mux_cases [OF mux] handler_reply by blast
  then show ?thesis
  proof cases
    case 3
    then show ?thesis
      using own session by (auto simp: trader_session_def split: prod.splits)
  next
    case (4 handler)
    then show ?thesis
      using own session authenticated_reply by blast
  qed (use own unchanged login logout in blast)+
qed

lemma trader_step_ok:
  assumes "trader_ServeHTTP cfg token now r s = (response, s')" "sessions_ok cfg history (td_sessions s)"
  shows "sessions_ok cfg ((now, r, response) # history) (td_sessions s')"
  using assms(1)
  by (cases rule: trader_ServeHTTP_cases)
    (use assms(2) in \<open>blast intro: sessions_ok_Cons login_session_ok logout_session_ok check_session_ok\<close>)+

lemma trader_reach_ok: "trader_reach cfg now history s \<Longrightarrow> sessions_ok cfg history (td_sessions s)"
  by (induction rule: trader_reach.induct) (auto simp: sessions_ok_def [of _ "[]"] intro: trader_step_ok)

lemma live_session:
  assumes "check_session now r s = (True, s')"
  obtains token current where "tq_Cookie r = Some token" "td_sessions s token = Some current"
    "now \<le> se_lastSeen current + sessionIdle" "now \<le> se_created current + sessionAbsolute"
  using assms by (auto simp: check_session_def sessions_Valid_def go_time minDuration_def maxDuration_def not_less
      split: option.splits prod.splits if_splits)

text \<open>
  C11: whatever requests the trader has served, in whatever order, it sends a request on to the gateway, with
  the gateway's token, only for a browser that signed in: the request carries a token that a login gave out
  for the right password at most seven days ago, with no logout of that token since, and that was last used
  at most twelve hours ago. A request that changes state came from the trader's own pages: its origin is the
  trader's host and it has the header that a foreign form cannot set.
\<close>

theorem gateway_needs_live_session:
  assumes "trader_reach cfg before history s" "before \<le> now"
    and "trader_ServeHTTP cfg fresh now r s = (response, s')" "gateway_reply response"
  shows "\<exists>token t u. tq_Cookie r = Some token \<and> signed_in cfg history token t \<and> now \<le> t + sessionAbsolute \<and>
      used_at history token u \<and> now \<le> u + sessionIdle \<and>
      (\<not> reads_only (tq_Method r) \<longrightarrow> sameOrigin cfg r \<and> tq_XBolter r = ''1'')"
  using assms(3)
proof (cases rule: trader_ServeHTTP_cases)
  case (session ok)
  then have "check_session now r s = (True, s')"
    using assms(4) by simp
  then show ?thesis
    using live_session trader_reach_ok [OF assms(1)] session(3) unfolding sessions_ok_def own_request_def by metis
qed (use assms(4) in \<open>auto simp: trader_login_def trader_logout_def Let_def split: if_splits option.splits sum.splits prod.splits\<close>)

definition sample_trader :: TraderConfig where
  "sample_trader = \<lparr>tc_GatewayToken = ''gw'', tc_Password = (case HashPassword sample_argon (Inr [3]) ''pw'' of Inr h \<Rightarrow> h | Inl _ \<Rightarrow> []),
     tc_WebDir = [], tc_Argon = sample_argon, tc_url_host = Some, tc_remote_host = Some, tc_is_file = (\<lambda>_. False)\<rparr>"

definition sample_login :: TraderRequest where
  "sample_login = \<lparr>tq_Method = ''POST'', tq_Path = ''/api/auth/login'', tq_Clean = True, tq_Host = ''h'', tq_Origin = ''h'',
     tq_Referer = [], tq_XBolter = ''1'', tq_Cookie = None, tq_RemoteAddr = ''ip'', tq_Body = Some (JObject [(''password'', JString ''pw'')])\<rparr>"

definition sample_read :: TraderRequest where
  "sample_read = \<lparr>tq_Method = ''GET'', tq_Path = ''/api/gw/v1/venues'', tq_Clean = True, tq_Host = ''h'', tq_Origin = [],
     tq_Referer = [], tq_XBolter = [], tq_Cookie = Some ''t'', tq_RemoteAddr = ''ip'', tq_Body = None\<rparr>"

lemma sample_password: "Verify sample_argon (tc_Password sample_trader) ''pw''"
proof -
  have "length (ag_IDKey sample_argon pw [3] argonTime argonMemoryKiB argonThreads argonKeyLength) = argonKeyLength" for pw
    by (simp add: sample_argon_def)
  moreover have "HashPassword sample_argon (Inr [3]) ''pw'' = Inr (tc_Password sample_trader)"
    by (simp add: sample_trader_def HashPassword_def Let_def)
  ultimately show ?thesis
    using Verify_hash by blast
qed

lemma sample_history:
  "\<exists>s. trader_reach sample_trader 0 [(0, sample_login, LoggedIn ''t'')] s \<and> td_sessions s ''t'' = Some \<lparr>se_created = 0, se_lastSeen = 0\<rparr>"
proof -
  let ?s = "\<lparr>td_sessions = Map.empty, td_throttle = Map.empty\<rparr>"
  have "tc_Argon sample_trader = sample_argon" "tc_url_host sample_trader = Some"
    by (simp_all add: sample_trader_def)
  then have "trader_ServeHTTP sample_trader (Inr ''t'') 0 sample_login ?s =
      (LoggedIn ''t'', \<lparr>td_sessions = [''t'' \<mapsto> \<lparr>se_created = 0, se_lastSeen = 0\<rparr>], td_throttle = Map.empty\<rparr>)"
    by (simp add: trader_ServeHTTP_def trader_mux_def trader_login_def sample_login_def reads_only_def sameOrigin_def EqualFold_def
        throttle_Wait_def throttle_Succeed_def sessions_Create_def login_password_def sample_password Let_def)
  from trader_serve [OF trader_start _ this] show ?thesis
    by (intro exI conjI) auto
qed

theorem gateway_needs_live_session_witness:
  "\<exists>s s'. trader_ServeHTTP sample_trader (Inr ''u'') Hour sample_read s = (Forwarded ''/v1/venues'' ''Bearer gw'', s') \<and>
     (\<exists>token t. tq_Cookie sample_read = Some token \<and> signed_in sample_trader [(0, sample_login, LoggedIn ''t'')] token t)"
proof -
  obtain s where reach: "trader_reach sample_trader 0 [(0, sample_login, LoggedIn ''t'')] s"
      and live: "td_sessions s ''t'' = Some \<lparr>se_created = 0, se_lastSeen = 0\<rparr>"
    using sample_history by blast
  have "\<exists>s'. trader_ServeHTTP sample_trader (Inr ''u'') Hour sample_read s = (Forwarded ''/v1/venues'' ''Bearer gw'', s')"
    using live
    by (simp add: trader_ServeHTTP_def trader_mux_def trader_authenticated_def check_session_def sessions_Valid_def sample_read_def
        sample_trader_def trader_forward_def reads_only_def HasPrefix_def time_Sub_def minDuration_def maxDuration_def)
  then obtain s' where step: "trader_ServeHTTP sample_trader (Inr ''u'') Hour sample_read s = (Forwarded ''/v1/venues'' ''Bearer gw'', s')"
    by blast
  show ?thesis
    using gateway_needs_live_session [OF reach _ step] step by fastforce
qed

end
