(* ===== verification/Ws_Stream.thy ===== *)
theory Ws_Stream
  imports Prelude
begin

text \<open>
  The event channel between a venue's reader and a subscriber (internal/wsstream/wsstream.go): a bounded
  channel whose senders block while it is full, and whose Close releases them. Emit and Close take the
  mutex, wait and send in steps of their own, so the stream is a step relation: an Emit registers, and then
  its select sends (to the receiver itself when there is no buffer) or sees that the stream is closing. A
  send on a closed channel would panic.
\<close>

section \<open>Steps\<close>

text \<open>The emitters are the events of the registered calls; the last fields record what the calls returned and the reader got.\<close>

record 'a Stream =
  st_cap :: nat
  st_ch :: "'a list"
  st_closing :: bool
  st_ch_closed :: bool
  st_emitters :: "'a list"
  st_panicked :: bool
  st_delivered :: "'a list"
  st_refused :: "'a list"
  st_received :: "'a list"

definition newStream :: "nat \<Rightarrow> 'a Stream" where
  "newStream buffer =
     \<lparr>st_cap = buffer, st_ch = [], st_closing = False, st_ch_closed = False, st_emitters = [], st_panicked = False,
      st_delivered = [], st_refused = [], st_received = []\<rparr>"

inductive stream_step :: "'a Stream \<Rightarrow> 'a Stream \<Rightarrow> bool" where
  emit_register: "\<not> st_closing s \<Longrightarrow> stream_step s (s\<lparr>st_emitters := st_emitters s @ [ev]\<rparr>)"
| emit_late: "st_closing s \<Longrightarrow> stream_step s (s\<lparr>st_refused := st_refused s @ [ev]\<rparr>)"
| emit_send: "st_emitters s = before @ ev # after \<Longrightarrow> length (st_ch s) < st_cap s \<Longrightarrow>
    stream_step s (if st_ch_closed s then s\<lparr>st_panicked := True\<rparr>
      else s\<lparr>st_ch := st_ch s @ [ev], st_emitters := before @ after, st_delivered := st_delivered s @ [ev]\<rparr>)"
| emit_hand: "st_emitters s = before @ ev # after \<Longrightarrow> st_cap s = 0 \<Longrightarrow>
    stream_step s (if st_ch_closed s then s\<lparr>st_panicked := True\<rparr>
      else s\<lparr>st_emitters := before @ after, st_delivered := st_delivered s @ [ev], st_received := st_received s @ [ev]\<rparr>)"
| emit_done: "st_emitters s = before @ ev # after \<Longrightarrow> st_closing s \<Longrightarrow>
    stream_step s (s\<lparr>st_emitters := before @ after, st_refused := st_refused s @ [ev]\<rparr>)"
| receive: "st_ch s = ev # rest \<Longrightarrow> stream_step s (s\<lparr>st_ch := rest, st_received := st_received s @ [ev]\<rparr>)"
| close_done: "\<not> st_closing s \<Longrightarrow> stream_step s (s\<lparr>st_closing := True\<rparr>)"
| close_ch: "st_closing s \<Longrightarrow> st_emitters s = [] \<Longrightarrow> \<not> st_ch_closed s \<Longrightarrow> stream_step s (s\<lparr>st_ch_closed := True\<rparr>)"

section \<open>Nothing is lost\<close>

definition stream_ok :: "'a Stream \<Rightarrow> bool" where
  "stream_ok s \<longleftrightarrow>
     \<not> st_panicked s \<and> st_delivered s = st_received s @ st_ch s \<and> length (st_ch s) \<le> st_cap s \<and>
     (st_ch_closed s \<longrightarrow> st_closing s \<and> st_emitters s = []) \<and> (\<not> st_closing s \<longrightarrow> st_refused s = [])"

lemma stream_ok_new: "stream_ok (newStream buffer)"
  by (simp add: stream_ok_def newStream_def)

lemma stream_ok_step: "stream_step s s' \<Longrightarrow> stream_ok s \<Longrightarrow> stream_ok s'"
  by (induction rule: stream_step.induct) (auto simp: stream_ok_def)

lemma stream_ok_run: "stream_step\<^sup>*\<^sup>* (newStream buffer) s \<Longrightarrow> stream_ok s"
  by (induction rule: rtranclp_induct) (auto intro: stream_ok_new stream_ok_step)

text \<open>While the stream closes, each registered Emit can return, without the reader.\<close>

lemma emitters_leave:
  "st_closing s \<Longrightarrow> st_emitters s = evs \<Longrightarrow>
   stream_step\<^sup>*\<^sup>* s (s\<lparr>st_emitters := [], st_refused := st_refused s @ evs\<rparr>)"
proof (induction evs arbitrary: s)
  case (Cons ev evs)
  let ?s = "s\<lparr>st_emitters := evs, st_refused := st_refused s @ [ev]\<rparr>"
  have "stream_step s ?s"
    using emit_done [of s "[]" ev evs] Cons.prems by simp
  moreover have "stream_step\<^sup>*\<^sup>* ?s (s\<lparr>st_emitters := [], st_refused := st_refused s @ ev # evs\<rparr>)"
    using Cons.IH [of ?s] Cons.prems by simp
  ultimately show ?case
    by (rule converse_rtranclp_into_rtranclp)
next
  case Nil
  then have "s\<lparr>st_emitters := [], st_refused := st_refused s @ []\<rparr> = s"
    by (cases s) simp
  then show ?case
    by simp
qed

text \<open>
  C13: A stream loses no event and never panics. In every reachable state the events whose Emit returned true
  are exactly those the reader got followed by those in the channel, in order; at most the buffer's size of
  them wait; an Emit returns false only after Close has begun; and once Close has begun it can always run to
  its end without the reader: every blocked Emit returns false and the channel is closed.
\<close>

theorem stream_loses_nothing:
  assumes "stream_step\<^sup>*\<^sup>* (newStream buffer) s"
  shows "\<not> st_panicked s \<and> st_delivered s = st_received s @ st_ch s \<and> length (st_ch s) \<le> buffer \<and>
    (st_refused s \<noteq> [] \<longrightarrow> st_closing s) \<and>
    (st_closing s \<longrightarrow> (\<exists>s'. stream_step\<^sup>*\<^sup>* s s' \<and> st_ch_closed s' \<and> st_emitters s' = [] \<and> st_received s' = st_received s))"
proof -
  have "st_cap s = buffer"
    using assms by (induction rule: rtranclp_induct) (auto simp: newStream_def elim!: stream_step.cases split: if_splits)
  moreover have "\<exists>s'. stream_step\<^sup>*\<^sup>* s s' \<and> st_ch_closed s' \<and> st_emitters s' = [] \<and> st_received s' = st_received s"
    if closing: "st_closing s"
  proof (cases "st_ch_closed s")
    case True
    then show ?thesis
      using stream_ok_run [OF assms] by (intro exI [of _ s]) (simp add: stream_ok_def)
  next
    case False
    let ?s = "s\<lparr>st_emitters := [], st_refused := st_refused s @ st_emitters s\<rparr>"
    have "stream_step ?s (?s\<lparr>st_ch_closed := True\<rparr>)"
      using closing False by (intro close_ch) simp_all
    then have "stream_step\<^sup>*\<^sup>* s (?s\<lparr>st_ch_closed := True\<rparr>)"
      using emitters_leave [OF closing refl] by (rule rtranclp.rtrancl_into_rtrancl [rotated])
    then show ?thesis
      by (intro exI) auto
  qed
  ultimately show ?thesis
    using stream_ok_run [OF assms] by (auto simp: stream_ok_def)
qed

definition sample_stream :: "nat Stream" where
  "sample_stream = \<lparr>st_cap = 1, st_ch = [7], st_closing = True, st_ch_closed = False, st_emitters = [8], st_panicked = False,
     st_delivered = [7], st_refused = [], st_received = []\<rparr>"

lemma sample_stream_reached: "stream_step\<^sup>*\<^sup>* (newStream 1) sample_stream"
proof -
  let ?a = "(newStream 1)\<lparr>st_emitters := [7 :: nat]\<rparr>"
  let ?b = "?a\<lparr>st_ch := [7], st_emitters := [], st_delivered := [7]\<rparr>"
  let ?c = "?b\<lparr>st_emitters := [8]\<rparr>"
  have "stream_step (newStream 1) ?a" "stream_step ?b ?c"
    using emit_register [of "newStream 1 :: nat Stream" 7] emit_register [of ?b 8] by (simp_all add: newStream_def)
  moreover have "stream_step ?a ?b"
    using emit_send [of ?a "[]" 7 "[]"] by (simp add: newStream_def)
  moreover have "stream_step ?c sample_stream"
    using close_done [of ?c] by (simp add: newStream_def sample_stream_def)
  ultimately show ?thesis
    by (meson converse_rtranclp_into_rtranclp r_into_rtranclp)
qed

theorem stream_loses_nothing_witness:
  "\<exists>s'. stream_step\<^sup>*\<^sup>* sample_stream s' \<and> st_ch_closed s' \<and> st_emitters s' = [] \<and> st_received s' = []"
  using stream_loses_nothing [OF sample_stream_reached] by (simp add: sample_stream_def)

end
