(* ===== verification/Ws_Dispatch.thy ===== *)
theory Ws_Dispatch
  imports Prelude
begin

text \<open>
  The dispatcher that holds WebSocket callbacks back while a client recovers (internal/wsdispatch/ws.go).
  Dispatch, Pause, Reset and the sections of Resume take the mutex, and a callback runs under a second one
  after its revision was checked, so each of them is a step. Callbacks come from the one reading goroutine of
  a connection, and recoveries follow each other: a Resume begins when no other one of its generation runs.
  A Resume of an older generation can only return, and is forgotten by the next one. The revision counts
  calls of Reset and overflows; it is a number here, 64 bits wide in the code.
\<close>

section \<open>The dispatcher\<close>

record 'a Dispatcher =
  dp_paused :: bool
  dp_buffer :: "'a list"
  dp_revision :: nat
  dp_maxBuffer :: nat
  dp_overflow :: bool

text \<open>A limit of zero is the dispatcher of NewDispatcher; NewBoundedDispatcher panics below one.\<close>

definition newDispatcher :: "nat \<Rightarrow> 'a Dispatcher" where
  "newDispatcher limit = \<lparr>dp_paused = False, dp_buffer = [], dp_revision = 0, dp_maxBuffer = limit, dp_overflow = False\<rparr>"

definition Pause :: "'a Dispatcher \<Rightarrow> 'a Dispatcher" where
  "Pause d = d\<lparr>dp_paused := True\<rparr>"

definition Reset :: "'a Dispatcher \<Rightarrow> 'a Dispatcher" where
  "Reset d = d\<lparr>dp_revision := Suc (dp_revision d), dp_paused := False, dp_overflow := False, dp_buffer := []\<rparr>"

text \<open>The first section of Resume: nothing to do, or the buffered callbacks.\<close>

definition resume_begin :: "'a Dispatcher \<Rightarrow> ('a list \<times> 'a Dispatcher) option" where
  "resume_begin d = (if \<not> dp_paused d \<or> dp_overflow d then None else Some (dp_buffer d, d\<lparr>dp_buffer := []\<rparr>))"

text \<open>The section at the end of each round: the end of Resume, or what was buffered meanwhile.\<close>

definition resume_turn :: "nat \<Rightarrow> 'a Dispatcher \<Rightarrow> 'a list option \<times> 'a Dispatcher" where
  "resume_turn revision d =
     (if dp_revision d \<noteq> revision then (None, d)
      else if dp_buffer d = [] then (None, d\<lparr>dp_paused := False\<rparr>)
      else (Some (dp_buffer d), d\<lparr>dp_buffer := []\<rparr>))"

datatype Admission = BufferFull | Buffered | DeliverAt nat

definition DispatchChecked :: "'a \<Rightarrow> 'a Dispatcher \<Rightarrow> Admission \<times> 'a Dispatcher" where
  "DispatchChecked fn d =
     (if dp_paused d
      then if dp_overflow d then (BufferFull, d)
           else if 0 < dp_maxBuffer d \<and> dp_maxBuffer d \<le> length (dp_buffer d)
           then (BufferFull, d\<lparr>dp_revision := Suc (dp_revision d), dp_overflow := True, dp_buffer := []\<rparr>)
           else (Buffered, d\<lparr>dp_buffer := dp_buffer d @ [fn]\<rparr>)
      else (DeliverAt (dp_revision d), d))"

section \<open>Runs\<close>

text \<open>
  A callback carries the revision it was admitted in. The log has the callbacks that ran, each with the
  revision that was current; \<open>ds_admitted\<close> are the callbacks admitted since the revision last changed.
\<close>

record Drain =
  dn_hook :: bool
  dn_revision :: nat

record 'a Dispatching =
  ds_dispatcher :: "(nat \<times> 'a) Dispatcher"
  ds_reader :: "((nat \<times> 'a) \<times> nat) option"
  ds_drain :: "(Drain \<times> (nat \<times> 'a) list) option"
  ds_log :: "((nat \<times> 'a) \<times> nat) list"
  ds_admitted :: "'a list"

abbreviation revision_of :: "'a Dispatching \<Rightarrow> nat" where
  "revision_of s \<equiv> dp_revision (ds_dispatcher s)"

definition newDispatching :: "nat \<Rightarrow> 'a Dispatching" where
  "newDispatching limit =
     \<lparr>ds_dispatcher = newDispatcher limit, ds_reader = None, ds_drain = None, ds_log = [], ds_admitted = []\<rparr>"

text \<open>deliverAtRevision: the callback runs when its revision is current.\<close>

definition deliverAtRevision :: "nat \<times> 'a \<Rightarrow> nat \<Rightarrow> 'a Dispatching \<Rightarrow> bool \<times> 'a Dispatching" where
  "deliverAtRevision fn revision s =
     (if revision_of s = revision then (True, s\<lparr>ds_log := ds_log s @ [(fn, revision)]\<rparr>) else (False, s))"

definition dispatch_call :: "'a \<Rightarrow> 'a Dispatching \<Rightarrow> 'a Dispatching" where
  "dispatch_call fn s =
     (case DispatchChecked (revision_of s, fn) (ds_dispatcher s) of
        (BufferFull, d) \<Rightarrow> s\<lparr>ds_dispatcher := d, ds_admitted := []\<rparr>
      | (Buffered, d) \<Rightarrow> s\<lparr>ds_dispatcher := d, ds_admitted := ds_admitted s @ [fn]\<rparr>
      | (DeliverAt revision, d) \<Rightarrow>
          s\<lparr>ds_dispatcher := d, ds_reader := Some ((revision_of s, fn), revision), ds_admitted := ds_admitted s @ [fn]\<rparr>)"

definition drain_turn :: "nat \<Rightarrow> 'a Dispatching \<Rightarrow> 'a Dispatching" where
  "drain_turn revision s =
     (case resume_turn revision (ds_dispatcher s) of
        (None, d) \<Rightarrow> s\<lparr>ds_dispatcher := d, ds_drain := None\<rparr>
      | (Some batch, d) \<Rightarrow> s\<lparr>ds_dispatcher := d, ds_drain := Some (\<lparr>dn_hook = False, dn_revision = revision\<rparr>, batch)\<rparr>)"

definition draining :: "'a Dispatching \<Rightarrow> bool" where
  "draining s \<longleftrightarrow> (\<exists>drain batch. ds_drain s = Some (drain, batch) \<and> dn_revision drain = revision_of s)"

inductive dispatch_step :: "'a Dispatching \<Rightarrow> 'a Dispatching \<Rightarrow> bool" where
  pause: "dispatch_step s (s\<lparr>ds_dispatcher := Pause (ds_dispatcher s)\<rparr>)"
| reset: "dispatch_step s (s\<lparr>ds_dispatcher := Reset (ds_dispatcher s), ds_admitted := []\<rparr>)"
| dispatch: "ds_reader s = None \<Longrightarrow> dispatch_step s (dispatch_call fn s)"
| deliver: "ds_reader s = Some (fn, revision) \<Longrightarrow> dispatch_step s ((snd (deliverAtRevision fn revision s))\<lparr>ds_reader := None\<rparr>)"
| resume: "\<not> draining s \<Longrightarrow> resume_begin (ds_dispatcher s) = Some (batch, d) \<Longrightarrow>
    dispatch_step s (s\<lparr>ds_dispatcher := d, ds_drain := Some (\<lparr>dn_hook = hook, dn_revision = revision_of s\<rparr>, batch)\<rparr>)"
| hook: "ds_drain s = Some (drain, batch) \<Longrightarrow> dn_hook drain \<Longrightarrow>
    dispatch_step s (s\<lparr>ds_drain := if revision_of s = dn_revision drain then Some (drain\<lparr>dn_hook := False\<rparr>, batch) else None\<rparr>)"
| drain: "ds_drain s = Some (drain, fn # batch) \<Longrightarrow> \<not> dn_hook drain \<Longrightarrow> deliverAtRevision fn (dn_revision drain) s = (taken, s1) \<Longrightarrow>
    dispatch_step s (s1\<lparr>ds_drain := if taken then Some (drain, batch) else None\<rparr>)"
| turn: "ds_drain s = Some (drain, []) \<Longrightarrow> \<not> dn_hook drain \<Longrightarrow> dispatch_step s (drain_turn (dn_revision drain) s)"

section \<open>Order and loss\<close>

text \<open>The callbacks that ran in the current generation, and those that wait to.\<close>

definition ran_now :: "'a Dispatching \<Rightarrow> (nat \<times> 'a) list" where
  "ran_now s = map fst (filter (\<lambda>(fn, revision). revision = revision_of s) (ds_log s))"

definition draining_batch :: "'a Dispatching \<Rightarrow> (nat \<times> 'a) list" where
  "draining_batch s = (case ds_drain s of Some (drain, batch) \<Rightarrow> if dn_revision drain = revision_of s then batch else [] | None \<Rightarrow> [])"

definition reader_pending :: "'a Dispatching \<Rightarrow> (nat \<times> 'a) list" where
  "reader_pending s = (case ds_reader s of Some (fn, revision) \<Rightarrow> if revision = revision_of s then [fn] else [] | None \<Rightarrow> [])"

abbreviation waiting :: "'a Dispatching \<Rightarrow> (nat \<times> 'a) list" where
  "waiting s \<equiv> draining_batch s @ dp_buffer (ds_dispatcher s) @ reader_pending s"

definition order_ok :: "'a Dispatching \<Rightarrow> bool" where
  "order_ok s \<longleftrightarrow>
     map snd (ran_now s @ waiting s) = ds_admitted s \<and> list_all (\<lambda>fn. fst fn = revision_of s) (waiting s) \<and>
     (reader_pending s \<noteq> [] \<longrightarrow> draining_batch s = [] \<and> dp_buffer (ds_dispatcher s) = [])"

definition log_ok :: "'a Dispatching \<Rightarrow> bool" where
  "log_ok s \<longleftrightarrow> (\<forall>(fn, revision)\<in>set (ds_log s). fst fn = revision \<and> revision \<le> revision_of s) \<and> sorted (map snd (ds_log s))"

definition paused_ok :: "'a Dispatching \<Rightarrow> bool" where
  "paused_ok s \<longleftrightarrow>
     (let d = ds_dispatcher s in
      (dp_buffer d \<noteq> [] \<longrightarrow> dp_paused d) \<and> (draining s \<longrightarrow> dp_paused d \<and> \<not> dp_overflow d) \<and>
      (dp_overflow d \<longrightarrow> dp_paused d \<and> dp_buffer d = [] \<and> reader_pending s = [] \<and> ran_now s = [] \<and> ds_admitted s = []) \<and>
      (0 < dp_maxBuffer d \<longrightarrow> length (dp_buffer d) \<le> dp_maxBuffer d))"

text \<open>Nothing of the next generation has run, and nothing that waits belongs to it.\<close>

lemma next_generation:
  assumes "log_ok s" "revision_of s' = Suc (revision_of s)" "ds_log s' = ds_log s"
  shows "ran_now s' = []" "log_ok s'"
  using assms by (fastforce simp: ran_now_def log_ok_def filter_empty_conv)+

definition calls_ok :: "'a Dispatching \<Rightarrow> bool" where
  "calls_ok s \<longleftrightarrow> (\<forall>drain batch. ds_drain s = Some (drain, batch) \<longrightarrow> dn_revision drain \<le> revision_of s) \<and>
     (\<forall>fn revision. ds_reader s = Some (fn, revision) \<longrightarrow> revision \<le> revision_of s)"

definition dispatching_ok :: "'a Dispatching \<Rightarrow> bool" where
  "dispatching_ok s \<longleftrightarrow> order_ok s \<and> log_ok s \<and> paused_ok s \<and> calls_ok s"

lemma new_dispatching_ok: "dispatching_ok (newDispatching limit)"
  by (simp add: dispatching_ok_def newDispatching_def newDispatcher_def order_ok_def log_ok_def paused_ok_def calls_ok_def ran_now_def
      draining_batch_def reader_pending_def draining_def)

text \<open>What a state shows of its calls and its log depends on these components.\<close>

lemma same_log:
  assumes "revision_of s' = revision_of s" "ds_log s' = ds_log s"
  shows "ran_now s' = ran_now s" "log_ok s' = log_ok s"
  using assms by (simp_all add: ran_now_def log_ok_def)

lemma same_reader:
  assumes "revision_of s' = revision_of s" "ds_reader s' = ds_reader s"
  shows "reader_pending s' = reader_pending s"
  unfolding reader_pending_def assms by (rule refl)

lemma same_drain:
  assumes "revision_of s' = revision_of s" "ds_drain s' = ds_drain s"
  shows "draining_batch s' = draining_batch s" "draining s' = draining s"
  unfolding draining_batch_def draining_def assms by (rule refl)+

lemma same_calls:
  assumes "revision_of s' = revision_of s" "ds_reader s' = ds_reader s" "ds_drain s' = ds_drain s"
  shows "calls_ok s' = calls_ok s"
  using assms by (simp add: calls_ok_def)

lemma pause_ok:
  assumes "dispatching_ok s"
  shows "dispatching_ok (s\<lparr>ds_dispatcher := Pause (ds_dispatcher s)\<rparr>)" (is "dispatching_ok ?s")
proof -
  note same = same_log [of ?s s] same_reader [of ?s s] same_drain [of ?s s] same_calls [of ?s s]
  show ?thesis
    using assms same by (simp add: dispatching_ok_def order_ok_def paused_ok_def Pause_def Let_def)
qed

lemma generation_ok:
  assumes "dispatching_ok s" "revision_of s' = Suc (revision_of s)" "ds_log s' = ds_log s" "ds_reader s' = ds_reader s" "ds_drain s' = ds_drain s"
    and "dp_buffer (ds_dispatcher s') = []" "ds_admitted s' = []" "dp_overflow (ds_dispatcher s') \<longrightarrow> dp_paused (ds_dispatcher s')"
  shows "dispatching_ok s'"
proof -
  note log = next_generation [OF _ assms(2,3)]
  have calls: "calls_ok s" and logged: "log_ok s"
    using assms(1) by (simp_all add: dispatching_ok_def)
  have none: "draining_batch s' = []" "reader_pending s' = []" "\<not> draining s'"
    using calls assms(2,4,5) by (auto simp: calls_ok_def draining_batch_def reader_pending_def draining_def split: option.split)
  then show ?thesis
    using assms(2-8) calls log [OF logged] by (auto simp: dispatching_ok_def order_ok_def paused_ok_def calls_ok_def Let_def le_Suc_eq)
qed

lemma not_paused:
  assumes "dispatching_ok s" "\<not> dp_paused (ds_dispatcher s)"
  shows "dp_buffer (ds_dispatcher s) = []" "draining_batch s = []" "\<not> draining s" "\<not> dp_overflow (ds_dispatcher s)"
  using assms by (auto simp: dispatching_ok_def paused_ok_def draining_def draining_batch_def Let_def split: option.split)

lemma admitted_ok:
  assumes ok: "dispatching_ok s" and idle: "ds_reader s = None"
  shows "dispatching_ok (dispatch_call fn s)"
proof -
  let ?d = "ds_dispatcher s"
  consider (full) "dp_paused ?d" "dp_overflow ?d" | (over) "dp_paused ?d" "\<not> dp_overflow ?d" "0 < dp_maxBuffer ?d" "dp_maxBuffer ?d \<le> length (dp_buffer ?d)"
    | (kept) "dp_paused ?d" "\<not> dp_overflow ?d" "\<not> (0 < dp_maxBuffer ?d \<and> dp_maxBuffer ?d \<le> length (dp_buffer ?d))" | (now) "\<not> dp_paused ?d"
    by (cases "dp_paused ?d"; cases "dp_overflow ?d") auto
  then show ?thesis
  proof cases
    case full
    then have "ds_admitted s = []"
      using ok by (auto simp: dispatching_ok_def paused_ok_def Let_def)
    then have "dispatch_call fn s = s"
      using full by (simp add: dispatch_call_def DispatchChecked_def)
    then show ?thesis
      using ok by simp
  next
    case over
    then show ?thesis
      by (intro generation_ok [OF ok]) (simp_all add: dispatch_call_def DispatchChecked_def)
  next
    case kept
    let ?s = "dispatch_call fn s"
    have new: "?s = s\<lparr>ds_dispatcher := ?d\<lparr>dp_buffer := dp_buffer ?d @ [(revision_of s, fn)]\<rparr>, ds_admitted := ds_admitted s @ [fn]\<rparr>"
      using kept by (simp add: dispatch_call_def DispatchChecked_def)
    then have fields: "revision_of ?s = revision_of s" "ds_log ?s = ds_log s" "ds_reader ?s = ds_reader s" "ds_drain ?s = ds_drain s"
        "ds_admitted ?s = ds_admitted s @ [fn]" "ds_dispatcher ?s = ?d\<lparr>dp_buffer := dp_buffer ?d @ [(revision_of s, fn)]\<rparr>"
      by simp_all
    note same = same_log [OF fields(1,2)] same_reader [OF fields(1,3)] same_drain [OF fields(1,4)] same_calls [OF fields(1,3,4)]
    have "reader_pending s = []"
      using idle by (simp add: reader_pending_def)
    then show ?thesis
      using ok kept by (auto simp: dispatching_ok_def same fields order_ok_def paused_ok_def Let_def)
  next
    case now
    let ?s = "dispatch_call fn s"
    have new: "?s = s\<lparr>ds_reader := Some ((revision_of s, fn), revision_of s), ds_admitted := ds_admitted s @ [fn]\<rparr>"
      using now by (simp add: dispatch_call_def DispatchChecked_def)
    then have fields: "revision_of ?s = revision_of s" "ds_log ?s = ds_log s" "ds_drain ?s = ds_drain s"
        "ds_admitted ?s = ds_admitted s @ [fn]" "ds_dispatcher ?s = ?d"
      by simp_all
    note same = same_log [OF fields(1,2)] same_drain [OF fields(1,3)]
    have "reader_pending s = []" "reader_pending ?s = [(revision_of s, fn)]" "calls_ok ?s"
      using idle ok by (simp_all add: new reader_pending_def calls_ok_def dispatching_ok_def)
    then show ?thesis
      using ok not_paused [OF ok now] by (auto simp: dispatching_ok_def same fields order_ok_def paused_ok_def Let_def)
  qed
qed

text \<open>A callback of the current generation that is the first to wait runs.\<close>

lemma run_ok:
  assumes "dispatching_ok s" "waiting s = fn # rest" "ds_log s' = ds_log s @ [(fn, revision_of s)]" "waiting s' = rest"
    and "ds_dispatcher s' = ds_dispatcher s" "ds_admitted s' = ds_admitted s" "calls_ok s'" "draining s' \<longrightarrow> draining s"
    and "reader_pending s' = [] \<or> reader_pending s' = reader_pending s \<and> draining_batch s = fn # draining_batch s'"
  shows "dispatching_ok s'"
proof -
  have ran: "ran_now s' = ran_now s @ [fn]"
    using assms(3,5) by (simp add: ran_now_def)
  have ok: "order_ok s" "log_ok s" "paused_ok s"
    using assms(1) by (simp_all add: dispatching_ok_def)
  have now: "fst fn = revision_of s"
    using ok(1) assms(2) by (simp add: order_ok_def)
  have "map snd (ran_now s' @ waiting s') = ds_admitted s'" "list_all (\<lambda>fn. fst fn = revision_of s') (waiting s')"
    using ok(1) assms(2,4,5,6) ran by (simp_all add: order_ok_def)
  moreover have "reader_pending s' \<noteq> [] \<longrightarrow> draining_batch s' = [] \<and> dp_buffer (ds_dispatcher s') = []"
    using ok(1) assms(9) by (auto simp: order_ok_def)
  ultimately have "order_ok s'"
    by (simp only: order_ok_def simp_thms)
  moreover have "log_ok s'"
    using ok(2) now assms(3,5) by (auto simp: log_ok_def sorted_append)
  moreover have "\<not> dp_overflow (ds_dispatcher s)"
    using ok(1,3) assms(2) by (auto simp: paused_ok_def order_ok_def Let_def)
  then have "paused_ok s'"
    using ok(3) assms(5,8) by (auto simp: paused_ok_def Let_def)
  ultimately show ?thesis
    using assms(7) by (simp add: dispatching_ok_def)
qed

lemma deliver_ok:
  assumes ok: "dispatching_ok s" and call: "ds_reader s = Some (fn, revision)"
  shows "dispatching_ok ((snd (deliverAtRevision fn revision s))\<lparr>ds_reader := None\<rparr>)" (is "dispatching_ok ?s")
proof -
  have calls: "calls_ok ?s" and pending: "reader_pending ?s = []"
    using ok by (auto simp: dispatching_ok_def calls_ok_def deliverAtRevision_def reader_pending_def)
  show ?thesis
  proof (cases "revision_of s = revision")
    case True
    have fields: "revision_of ?s = revision_of s" "ds_drain ?s = ds_drain s" "ds_log ?s = ds_log s @ [(fn, revision_of s)]"
      using True by (simp_all add: deliverAtRevision_def)
    have "reader_pending s = [fn]"
      using call True by (simp add: reader_pending_def)
    then have "draining_batch s = []" "dp_buffer (ds_dispatcher s) = []" "reader_pending s = [fn]"
      using ok by (simp_all add: dispatching_ok_def order_ok_def)
    then show ?thesis
      using True calls pending fields same_drain [OF fields(1,2)]
      by (intro run_ok [OF ok, of fn "[]"]) (simp_all add: deliverAtRevision_def)
  next
    case False
    have fields: "revision_of ?s = revision_of s" "ds_log ?s = ds_log s" "ds_drain ?s = ds_drain s" "ds_dispatcher ?s = ds_dispatcher s"
        "ds_admitted ?s = ds_admitted s"
      using False by (simp_all add: deliverAtRevision_def)
    have "reader_pending s = []"
      using call False by (simp add: reader_pending_def)
    then show ?thesis
      using ok calls pending same_log [OF fields(1,2)] same_drain [OF fields(1,3)] fields(4,5)
      by (simp add: dispatching_ok_def order_ok_def paused_ok_def)
  qed
qed

text \<open>A Resume takes what is buffered, at its start and after each round.\<close>

lemma take_ok:
  assumes ok: "dispatching_ok s" and paused: "dp_paused (ds_dispatcher s)" "\<not> dp_overflow (ds_dispatcher s)" and none: "draining_batch s = []"
  shows "dispatching_ok (s\<lparr>ds_dispatcher := (ds_dispatcher s)\<lparr>dp_buffer := []\<rparr>,
    ds_drain := Some (\<lparr>dn_hook = hook, dn_revision = revision_of s\<rparr>, dp_buffer (ds_dispatcher s))\<rparr>)" (is "dispatching_ok ?s")
proof -
  note same = same_log [of ?s s] same_reader [of ?s s]
  have "draining_batch ?s = dp_buffer (ds_dispatcher s)" "calls_ok ?s"
    using ok by (simp_all add: draining_batch_def dispatching_ok_def calls_ok_def)
  then show ?thesis
    using ok paused none same by (auto simp: dispatching_ok_def order_ok_def paused_ok_def Let_def)
qed

lemma drain_frame_ok:
  assumes ok: "dispatching_ok s" and frame: "ds_dispatcher s' = ds_dispatcher s" "ds_log s' = ds_log s" "ds_reader s' = ds_reader s"
      "ds_admitted s' = ds_admitted s" "draining_batch s' = draining_batch s" "draining s' \<longrightarrow> draining s"
    and revisions: "\<And>drain batch. ds_drain s' = Some (drain, batch) \<Longrightarrow> dn_revision drain \<le> revision_of s"
  shows "dispatching_ok s'"
proof -
  have revision: "revision_of s' = revision_of s"
    using frame(1) by simp
  note same = same_log [OF revision frame(2)] same_reader [OF revision frame(3)]
  show ?thesis
    using ok frame same revisions by (auto simp: dispatching_ok_def order_ok_def paused_ok_def calls_ok_def Let_def)
qed

lemma stale_batch:
  "ds_drain s = Some (drain, batch) \<Longrightarrow> dn_revision drain \<noteq> revision_of s \<Longrightarrow> draining_batch s = []"
  by (simp add: draining_batch_def)

lemma drained_revision:
  "dispatching_ok s \<Longrightarrow> ds_drain s = Some (drain, batch) \<Longrightarrow> dn_revision drain \<le> revision_of s"
  by (auto simp: dispatching_ok_def calls_ok_def)

lemma hook_ok:
  assumes ok: "dispatching_ok s" and call: "ds_drain s = Some (drain, batch)"
  shows "dispatching_ok (s\<lparr>ds_drain := if revision_of s = dn_revision drain then Some (drain\<lparr>dn_hook := False\<rparr>, batch) else None\<rparr>)"
  using call drained_revision [OF ok call]
  by (intro drain_frame_ok [OF ok]) (auto simp: draining_batch_def draining_def split: if_splits)

lemma drain_ok:
  assumes ok: "dispatching_ok s" and call: "ds_drain s = Some (drain, fn # batch)"
    and run: "deliverAtRevision fn (dn_revision drain) s = (taken, s1)"
  shows "dispatching_ok (s1\<lparr>ds_drain := if taken then Some (drain, batch) else None\<rparr>)" (is "dispatching_ok ?s")
proof (cases "revision_of s = dn_revision drain")
  case True
  then have new: "?s = s\<lparr>ds_log := ds_log s @ [(fn, revision_of s)], ds_drain := Some (drain, batch)\<rparr>"
    using run by (auto simp: deliverAtRevision_def)
  have batches: "draining_batch s = fn # batch" "draining_batch ?s = batch"
    using call True by (simp_all add: new draining_batch_def)
  have "reader_pending ?s = reader_pending s" "calls_ok ?s" "draining ?s \<longrightarrow> draining s"
    using ok call True same_reader [of ?s s] by (auto simp: new dispatching_ok_def calls_ok_def draining_def)
  moreover have "waiting s = fn # (batch @ dp_buffer (ds_dispatcher s) @ reader_pending s)"
    using batches by simp
  ultimately show ?thesis
    using batches by (intro run_ok [OF ok, of fn "batch @ dp_buffer (ds_dispatcher s) @ reader_pending s"]) (simp_all add: new)
next
  case False
  then have "?s = s\<lparr>ds_drain := None\<rparr>"
    using run by (auto simp: deliverAtRevision_def)
  then show ?thesis
    using stale_batch [OF call] False by (intro drain_frame_ok [OF ok]) (auto simp: draining_batch_def draining_def)
qed

lemma turn_ok:
  assumes ok: "dispatching_ok s" and call: "ds_drain s = Some (drain, [])"
  shows "dispatching_ok (drain_turn (dn_revision drain) s)" (is "dispatching_ok ?s")
proof -
  consider (stale) "revision_of s \<noteq> dn_revision drain" | (over) "revision_of s = dn_revision drain" "dp_buffer (ds_dispatcher s) = []"
    | (again) "revision_of s = dn_revision drain" "dp_buffer (ds_dispatcher s) \<noteq> []"
    by blast
  then show ?thesis
  proof cases
    case stale
    then have "?s = s\<lparr>ds_drain := None\<rparr>"
      by (simp add: drain_turn_def resume_turn_def)
    then show ?thesis
      using stale_batch [OF call] stale by (intro drain_frame_ok [OF ok]) (auto simp: draining_batch_def draining_def)
  next
    case over
    then have new: "?s = s\<lparr>ds_dispatcher := (ds_dispatcher s)\<lparr>dp_paused := False\<rparr>, ds_drain := None\<rparr>"
      by (simp add: drain_turn_def resume_turn_def)
    have current: "draining s" "draining_batch s = []"
      using call over(1) by (auto simp: draining_def draining_batch_def)
    have "ran_now ?s = ran_now s" "log_ok ?s = log_ok s" "reader_pending ?s = reader_pending s" "draining_batch ?s = []" "\<not> draining ?s" "calls_ok ?s"
      using ok same_log [of ?s s] same_reader [of ?s s] by (auto simp: new draining_batch_def draining_def dispatching_ok_def calls_ok_def)
    then show ?thesis
      using ok current over(2) by (auto simp: dispatching_ok_def order_ok_def paused_ok_def Let_def) (auto simp: new)
  next
    case again
    then have "?s = s\<lparr>ds_dispatcher := (ds_dispatcher s)\<lparr>dp_buffer := []\<rparr>,
        ds_drain := Some (\<lparr>dn_hook = False, dn_revision = revision_of s\<rparr>, dp_buffer (ds_dispatcher s))\<rparr>"
      by (simp add: drain_turn_def resume_turn_def)
    moreover have "draining s" "draining_batch s = []"
      using call again(1) by (auto simp: draining_def draining_batch_def)
    ultimately show ?thesis
      using take_ok [OF ok, of False] ok by (auto simp: dispatching_ok_def paused_ok_def Let_def)
  qed
qed

lemma dispatch_step_ok: "dispatch_step s s' \<Longrightarrow> dispatching_ok s \<Longrightarrow> dispatching_ok s'"
proof (induction rule: dispatch_step.induct)
  case (pause s)
  then show ?case by (rule pause_ok)
next
  case (reset s)
  then show ?case
    by (intro generation_ok [OF reset]) (simp_all add: Reset_def)
next
  case (resume s batch d hook)
  then have "draining_batch s = []" "dp_paused (ds_dispatcher s)" "\<not> dp_overflow (ds_dispatcher s)" "batch = dp_buffer (ds_dispatcher s)"
      "d = (ds_dispatcher s)\<lparr>dp_buffer := []\<rparr>"
    by (auto simp: resume_begin_def draining_batch_def draining_def split: option.split if_splits)
  then show ?case
    using take_ok resume(3) by blast
qed (assumption | rule admitted_ok deliver_ok hook_ok drain_ok turn_ok)+

lemma dispatch_run_ok: "dispatch_step\<^sup>*\<^sup>* (newDispatching limit) s \<Longrightarrow> dispatching_ok s"
  by (induction rule: rtranclp_induct) (auto intro: new_dispatching_ok dispatch_step_ok)

lemma max_buffer_fixed:
  "dispatch_step\<^sup>*\<^sup>* (newDispatching limit) s \<Longrightarrow> dp_maxBuffer (ds_dispatcher s) = limit"
proof (induction rule: rtranclp_induct)
  case (step s s')
  from step(2) have "dp_maxBuffer (ds_dispatcher s') = dp_maxBuffer (ds_dispatcher s)"
    by (induction rule: dispatch_step.induct)
      (auto simp: Pause_def Reset_def dispatch_call_def DispatchChecked_def deliverAtRevision_def resume_begin_def
        drain_turn_def resume_turn_def split: if_splits)
  with step(3) show ?case by simp
qed (simp add: newDispatching_def newDispatcher_def)

section \<open>A recovery can end\<close>

lemma drain_batch:
  assumes "ds_drain s = Some (drain, batch)" "\<not> dn_hook drain" "dn_revision drain = revision_of s"
  shows "\<exists>s'. dispatch_step\<^sup>*\<^sup>* s s' \<and> ds_drain s' = Some (drain, []) \<and> ds_dispatcher s' = ds_dispatcher s \<and>
    ds_admitted s' = ds_admitted s"
  using assms
proof (induction batch arbitrary: s)
  case (Cons fn batch)
  let ?s = "s\<lparr>ds_log := ds_log s @ [(fn, revision_of s)], ds_drain := Some (drain, batch)\<rparr>"
  have "dispatch_step s ?s"
    using drain [of s drain fn batch True "s\<lparr>ds_log := ds_log s @ [(fn, revision_of s)]\<rparr>"] Cons.prems by (simp add: deliverAtRevision_def)
  moreover obtain s' where "dispatch_step\<^sup>*\<^sup>* ?s s'" "ds_drain s' = Some (drain, [])" "ds_dispatcher s' = ds_dispatcher ?s" "ds_admitted s' = ds_admitted ?s"
    using Cons.IH [of ?s] Cons.prems by auto
  ultimately show ?case
    by (intro exI [of _ s']) (simp add: converse_rtranclp_into_rtranclp)
qed blast

text \<open>A round with nothing buffered ends the Resume.\<close>

lemma last_turn:
  assumes "ds_drain s = Some (drain, [])" "\<not> dn_hook drain" "dn_revision drain = revision_of s" "dp_buffer (ds_dispatcher s) = []"
  shows "dispatch_step s (s\<lparr>ds_dispatcher := (ds_dispatcher s)\<lparr>dp_paused := False\<rparr>, ds_drain := None\<rparr>)"
  using turn [OF assms(1,2)] assms(3,4) by (simp add: drain_turn_def resume_turn_def)

lemma resume_ends:
  assumes "ds_drain s = Some (drain, batch)" "\<not> dn_hook drain" "dn_revision drain = revision_of s"
  shows "\<exists>s'. dispatch_step\<^sup>*\<^sup>* s s' \<and> \<not> dp_paused (ds_dispatcher s') \<and> revision_of s' = revision_of s \<and> ds_admitted s' = ds_admitted s"
proof -
  obtain s1 where s1: "dispatch_step\<^sup>*\<^sup>* s s1" "ds_drain s1 = Some (drain, [])" "ds_dispatcher s1 = ds_dispatcher s" "ds_admitted s1 = ds_admitted s"
    using drain_batch [OF assms] by blast
  show ?thesis
  proof (cases "dp_buffer (ds_dispatcher s) = []")
    case True
    let ?s = "s1\<lparr>ds_dispatcher := (ds_dispatcher s)\<lparr>dp_paused := False\<rparr>, ds_drain := None\<rparr>"
    have "dispatch_step s1 ?s"
      using last_turn [OF s1(2) assms(2)] True assms(3) s1(3) by simp
    then have "dispatch_step\<^sup>*\<^sup>* s ?s"
      using s1(1) by simp
    then show ?thesis
      using s1(4) by (intro exI [of _ ?s]) simp
  next
    case False
    let ?s = "drain_turn (dn_revision drain) s1"
    have two: "ds_drain ?s = Some (\<lparr>dn_hook = False, dn_revision = revision_of s\<rparr>, dp_buffer (ds_dispatcher s))"
        "ds_dispatcher ?s = (ds_dispatcher s)\<lparr>dp_buffer := []\<rparr>" "ds_admitted ?s = ds_admitted s"
      using False s1 assms(3) by (simp_all add: drain_turn_def resume_turn_def)
    obtain s2 where s2: "dispatch_step\<^sup>*\<^sup>* ?s s2" "ds_drain s2 = Some (\<lparr>dn_hook = False, dn_revision = revision_of s\<rparr>, [])"
        "ds_dispatcher s2 = ds_dispatcher ?s" "ds_admitted s2 = ds_admitted ?s"
      using drain_batch [OF two(1)] two(2) by auto
    let ?t = "s2\<lparr>ds_dispatcher := (ds_dispatcher s2)\<lparr>dp_paused := False\<rparr>, ds_drain := None\<rparr>"
    have "dispatch_step s2 ?t"
      using last_turn [OF s2(2)] s2(3) two(2) by simp
    then have "dispatch_step\<^sup>*\<^sup>* s ?t"
      using s1(1) turn [OF s1(2) assms(2)] s2(1) by (meson converse_rtranclp_into_rtranclp rtranclp.rtrancl_into_rtrancl rtranclp_trans)
    then show ?thesis
      using s2 two by (intro exI [of _ ?t]) simp
  qed
qed

lemma unpaused_runs_all:
  assumes ok: "dispatching_ok s" and open_: "\<not> dp_paused (ds_dispatcher s)"
  shows "\<exists>s'. dispatch_step\<^sup>*\<^sup>* s s' \<and> \<not> dp_paused (ds_dispatcher s') \<and> revision_of s' = revision_of s \<and> map snd (ran_now s') = ds_admitted s"
proof (cases "reader_pending s")
  case Nil
  then have "map snd (ran_now s) = ds_admitted s"
    using ok not_paused [OF ok open_] by (simp add: dispatching_ok_def order_ok_def)
  then show ?thesis
    using open_ by blast
next
  case (Cons fn rest)
  then have call: "ds_reader s = Some (fn, revision_of s)"
    by (auto simp: reader_pending_def split: option.splits if_splits)
  let ?s = "(snd (deliverAtRevision fn (revision_of s) s))\<lparr>ds_reader := None\<rparr>"
  have fields: "ds_dispatcher ?s = ds_dispatcher s" "ds_admitted ?s = ds_admitted s" "reader_pending ?s = []"
    by (simp_all add: deliverAtRevision_def reader_pending_def)
  have done_: "dispatching_ok ?s" "\<not> dp_paused (ds_dispatcher ?s)"
    using deliver_ok [OF ok call] open_ fields(1) by simp_all
  then have "map snd (ran_now ?s) = ds_admitted s"
    using not_paused [OF done_] fields(2,3) by (simp add: dispatching_ok_def order_ok_def)
  then show ?thesis
    using deliver [OF call] done_(2) fields(1) by (intro exI [of _ ?s]) auto
qed

text \<open>A Resume that runs can end with every admitted callback run, whatever is buffered or about to run.\<close>

lemma recovery_ends:
  assumes ok: "dispatching_ok s" and "draining s"
  shows "\<exists>s'. dispatch_step\<^sup>*\<^sup>* s s' \<and> \<not> dp_paused (ds_dispatcher s') \<and> revision_of s' = revision_of s \<and> map snd (ran_now s') = ds_admitted s"
proof -
  obtain drain batch where call: "ds_drain s = Some (drain, batch)" "dn_revision drain = revision_of s"
    using assms(2) by (auto simp: draining_def)
  let ?s = "s\<lparr>ds_drain := Some (drain\<lparr>dn_hook := False\<rparr>, batch)\<rparr>"
  have first: "dispatch_step\<^sup>*\<^sup>* s ?s"
  proof (cases "dn_hook drain")
    case True
    then show ?thesis
      using hook [OF call(1) True] call(2) by simp
  next
    case False
    then have "?s = s"
      using call(1) by simp
    then show ?thesis by simp
  qed
  obtain s1 where s1: "dispatch_step\<^sup>*\<^sup>* ?s s1" "\<not> dp_paused (ds_dispatcher s1)" "revision_of s1 = revision_of s" "ds_admitted s1 = ds_admitted s"
    using resume_ends [of ?s "drain\<lparr>dn_hook := False\<rparr>" batch] call(2) by auto
  have run: "dispatch_step\<^sup>*\<^sup>* s s1"
    using first s1(1) by (rule rtranclp_trans)
  have "dispatching_ok s1"
    using run ok by (induction rule: rtranclp_induct) (auto intro: dispatch_step_ok)
  then obtain s2 where "dispatch_step\<^sup>*\<^sup>* s1 s2" "\<not> dp_paused (ds_dispatcher s2)" "revision_of s2 = revision_of s1" "map snd (ran_now s2) = ds_admitted s1"
    using unpaused_runs_all [OF _ s1(2)] by blast
  then show ?thesis
    using run s1(3,4) by (intro exI [of _ s2]) (simp add: rtranclp_trans)
qed

section \<open>Properties\<close>

text \<open>
  C14: however dispatches, pauses, recoveries, resets and overflows interleave, the callbacks admitted since
  the last reset or overflow have run, or wait, each once and in the order they were admitted; a callback
  only runs in the generation it was admitted in, and generations never mix; a bounded buffer stays within its
  limit, and after an overflow nothing waits, so nothing runs before a reset; and a Resume that runs can
  always end with the dispatcher open and every admitted callback run.
\<close>

theorem callbacks_run_in_order:
  assumes "dispatch_step\<^sup>*\<^sup>* (newDispatching limit) s"
  shows "map snd (ran_now s @ waiting s) = ds_admitted s \<and>
    (\<forall>entry\<in>set (ds_log s). fst (fst entry) = snd entry) \<and> sorted (map snd (ds_log s)) \<and>
    (0 < limit \<longrightarrow> length (dp_buffer (ds_dispatcher s)) \<le> limit) \<and>
    (dp_overflow (ds_dispatcher s) \<longrightarrow> waiting s = [] \<and> ran_now s = [] \<and> dp_paused (ds_dispatcher s)) \<and>
    (draining s \<longrightarrow> (\<exists>s'. dispatch_step\<^sup>*\<^sup>* s s' \<and> \<not> dp_paused (ds_dispatcher s') \<and> revision_of s' = revision_of s \<and>
       map snd (ran_now s') = ds_admitted s))"
proof -
  note ok = dispatch_run_ok [OF assms]
  have parts: "order_ok s" "log_ok s" "paused_ok s"
    using ok by (simp_all add: dispatching_ok_def)
  have "waiting s = []" if "dp_overflow (ds_dispatcher s)"
    using that parts(1,3) by (auto simp: paused_ok_def order_ok_def Let_def)
  then show ?thesis
    using parts max_buffer_fixed [OF assms] recovery_ends [OF ok]
    by (auto simp: order_ok_def log_ok_def paused_ok_def Let_def)
qed

text \<open>A client pauses, one callback is held back, and the recovery has begun.\<close>

definition sample_recovery :: "nat Dispatching" where
  "sample_recovery =
     \<lparr>ds_dispatcher = \<lparr>dp_paused = True, dp_buffer = [], dp_revision = 0, dp_maxBuffer = 1, dp_overflow = False\<rparr>, ds_reader = None,
      ds_drain = Some (\<lparr>dn_hook = False, dn_revision = 0\<rparr>, [(0, 7)]), ds_log = [], ds_admitted = [7]\<rparr>"

lemma sample_recovery_reached: "dispatch_step\<^sup>*\<^sup>* (newDispatching 1) sample_recovery"
proof -
  let ?a = "(newDispatching 1)\<lparr>ds_dispatcher := Pause (newDispatcher 1)\<rparr> :: nat Dispatching"
  have 1: "dispatch_step (newDispatching 1) ?a"
    using pause [of "newDispatching 1 :: nat Dispatching"] by (simp add: newDispatching_def)
  have 2: "dispatch_step ?a (dispatch_call 7 ?a)"
    by (rule dispatch) (simp add: newDispatching_def)
  have 3: "dispatch_step (dispatch_call 7 ?a) sample_recovery"
    using resume [of "dispatch_call 7 ?a" "[(0, 7)]" "(ds_dispatcher (dispatch_call 7 ?a))\<lparr>dp_buffer := []\<rparr>" False]
    by (simp add: dispatch_call_def DispatchChecked_def Pause_def newDispatching_def newDispatcher_def resume_begin_def draining_def sample_recovery_def)
  show ?thesis
    using 1 2 3 by (meson converse_rtranclp_into_rtranclp r_into_rtranclp)
qed

theorem callbacks_run_in_order_witness:
  "\<exists>s'. dispatch_step\<^sup>*\<^sup>* sample_recovery s' \<and> \<not> dp_paused (ds_dispatcher s') \<and> map snd (ran_now s') = [7]"
proof -
  have "draining sample_recovery" "ds_admitted sample_recovery = [7]"
    by (simp_all add: draining_def sample_recovery_def)
  then show ?thesis
    using callbacks_run_in_order [OF sample_recovery_reached] by auto
qed

text \<open>
  A Pause during a Resume is lost: it leaves the paused dispatcher as it is, and the end of the Resume opens it,
  so the next callback runs at once although its client has begun another recovery.
\<close>

lemma pause_during_resume_is_lost:
  assumes "dp_paused (ds_dispatcher s)" "ds_drain s = Some (drain, [])" "\<not> dn_hook drain" "dn_revision drain = revision_of s"
    and "dp_buffer (ds_dispatcher s) = []"
  shows "\<exists>s'. dispatch_step (s\<lparr>ds_dispatcher := Pause (ds_dispatcher s)\<rparr>) s' \<and> \<not> dp_paused (ds_dispatcher s')"
proof -
  have "s\<lparr>ds_dispatcher := Pause (ds_dispatcher s)\<rparr> = s"
    using assms(1) by (simp add: Pause_def)
  then show ?thesis
    using last_turn [OF assms(2-5)] by (intro exI) auto
qed

end
