(* ===== verification/Venue_Candles.thy ===== *)
theory Venue_Candles
  imports Http_Errors
begin

text \<open>
  Candles of the Bybit and Bitget clients (exchange/internal/factoryclient/bybit_bitget.go). Bybit answers
  with one page. Bitget gives at most a hundred rows at a time, so its client walks backwards: each page ends
  a millisecond before the earliest candle of the page before it. The venue is a parameter: its answer to the
  n-th request is any function of n and of the query, and the code of a response error is read by a function.
  The walk is a partial function, so that its end is a theorem: every page but the last brings a candle not
  seen before, whatever the venue answers.
\<close>

section \<open>Requests and pages\<close>

record 'd CandlesRequest =
  cr_Instrument :: "'d Instrument"
  cr_Interval :: string
  cr_Start :: Time
  cr_End :: Time
  cr_Limit :: int
  cr_Cursor :: string

record 'd CandlePage =
  cp_Candles :: "'d Candle list"
  cp_Limit :: int
  cp_WindowStart :: Time
  cp_WindowEnd :: Time

record clientMeta =
  cm_venue :: Venue
  cm_product :: Product

section \<open>Errors\<close>

definition meta_error :: "ErrorKind \<Rightarrow> clientMeta \<Rightarrow> string \<Rightarrow> string \<Rightarrow> string \<Rightarrow> goerror" where
  "meta_error kind meta op code msg =
     ExchangeError kind
       (no_details\<lparr>ed_Venue := cm_venue meta, ed_Product := cm_product meta, ed_Operation := op, ed_Code := code, ed_SafeMessage := msg\<rparr>)"

abbreviation meta_invalid :: "clientMeta \<Rightarrow> string \<Rightarrow> string \<Rightarrow> goerror" where
  "meta_invalid meta op msg \<equiv> meta_error KindInvalidRequest meta op [] msg"

abbreviation meta_malformed :: "clientMeta \<Rightarrow> string \<Rightarrow> string \<Rightarrow> goerror" where
  "meta_malformed meta op msg \<equiv> meta_error KindMalformedResponse meta op [] msg"

definition withExchangeOperation :: "goerror \<Rightarrow> string \<Rightarrow> goerror" where
  "withExchangeOperation err operation =
     (case as_exchange err of None \<Rightarrow> err | Some (kind, details) \<Rightarrow> ExchangeError kind (details\<lparr>ed_Operation := operation\<rparr>))"

text \<open>ctxErr with the error of the context, None while it is live; a nil context is left out.\<close>

definition ctxErr :: "goerror option \<Rightarrow> clientMeta \<Rightarrow> string \<Rightarrow> goerror option" where
  "ctxErr ctx meta op =
     (case ctx of
        None \<Rightarrow> None
      | Some err \<Rightarrow>
          Some (meta_error (if errors_Is err ContextDeadlineExceeded then KindDeadlineExceeded else KindCanceled)
                  meta op [] ''request context ended''))"

definition classifyCode :: "string \<Rightarrow> ErrorKind" where
  "classifyCode code =
     (if code \<in> {''401'', ''-2015'', ''33004'', ''10003'', ''10004'', ''10007'',
                 ''40001'', ''40002'', ''40003'', ''40005'', ''40006'', ''40009'', ''40011'', ''40012''}
      then KindAuthentication
      else if code \<in> {''10005'', ''10009'', ''10010'', ''40014'', ''40018'', ''40301''} then KindPermission
      else if code \<in> {''10006'', ''429'', ''42900''} then KindRateLimit
      else if code \<in> {''10001'', ''40017''} then KindInvalidRequest
      else KindVenueRejected)"

text \<open>normErr; code_of is the code of the response error in a failure, if there is one.\<close>

definition normErr :: "(goerror \<Rightarrow> string option) \<Rightarrow> clientMeta \<Rightarrow> string \<Rightarrow> goerror \<Rightarrow> goerror option" where
  "normErr code_of meta op err =
     (let mapped =
        (if errors_Is err ContextCanceled then meta_error KindCanceled meta op [] ''request context ended''
         else if errors_Is err ContextDeadlineExceeded then meta_error KindDeadlineExceeded meta op [] ''request context ended''
         else (case code_of err of
                 Some code \<Rightarrow>
                   meta_error (classifyCode code) meta op code
                     (if cm_venue meta = [] then ''venue rejected request'' else cm_venue meta @ '' rejected request'')
               | None \<Rightarrow> meta_error KindTransport meta op [] ''transport failure''))
      in normalizeHTTPError (Some mapped) (Some err) (cm_venue meta) (cm_product meta) op)"

section \<open>Arguments\<close>

definition validateBybitBitgetInstrument :: "'d Decimals \<Rightarrow> clientMeta \<Rightarrow> string \<Rightarrow> 'd Instrument \<Rightarrow> goerror option" where
  "validateBybitBitgetInstrument D meta operation instrument =
     (case Instrument_Validate D instrument of
        Some err \<Rightarrow> Some (withExchangeOperation err operation)
      | None \<Rightarrow>
          let identity = ins_Identity instrument in
          if id_Venue identity \<noteq> cm_venue meta then Some (meta_invalid meta operation ''instrument venue does not match client venue'')
          else if id_Product identity \<noteq> cm_product meta then Some (meta_invalid meta operation ''instrument product does not match client product'')
          else if id_NativeSymbol identity = [] then Some (meta_invalid meta operation ''instrument native symbol is required'')
          else if id_NativeSymbol identity \<noteq> TrimSpace (id_NativeSymbol identity)
          then Some (meta_invalid meta operation ''instrument native symbol must be trimmed'')
          else None)"

definition bitget_symbols :: "'d Decimals \<Rightarrow> clientMeta \<Rightarrow> string \<Rightarrow> string \<Rightarrow> 'd Instrument \<Rightarrow> goerror + string" where
  "bitget_symbols D meta marginCoin operation instrument =
     (case validateBybitBitgetInstrument D meta operation instrument of
        Some err \<Rightarrow> Inl err
      | None \<Rightarrow>
          if cm_product meta = ProductPerp \<and> id_SettleAsset (ins_Identity instrument) \<noteq> marginCoin
          then Inl (meta_invalid meta operation (''instrument quote must match '' @ marginCoin @ '' settlement''))
          else Inr (id_NativeSymbol (ins_Identity instrument)))"

definition validateWindow :: "clientMeta \<Rightarrow> string \<Rightarrow> 'd CandlesRequest \<Rightarrow> goerror option" where
  "validateWindow meta op req =
     (if TrimSpace (cr_Interval req) = [] then Some (meta_invalid meta op ''interval is required'')
      else if cr_Cursor req \<noteq> [] then Some (meta_invalid meta op ''cursor is not supported'')
      else if cr_Limit req < 0 then Some (meta_invalid meta op ''limit must be non-negative'')
      else if cr_Start req \<noteq> 0 \<and> cr_End req \<noteq> 0 \<and> \<not> cr_Start req < cr_End req
      then Some (meta_invalid meta op ''end must be after start'')
      else None)"

definition bitgetInterval :: "clientMeta \<Rightarrow> string \<Rightarrow> string \<Rightarrow> goerror + string" where
  "bitgetInterval meta op interval =
     (if interval \<in> {''1m'', ''5m'', ''15m'', ''30m''} then Inr interval
      else if interval = ''1h'' then Inr ''1H'' else if interval = ''4h'' then Inr ''4H''
      else if interval = ''12h'' then Inr ''12H'' else if interval = ''1d'' then Inr ''1D''
      else Inl (meta_invalid meta op ''unsupported interval''))"

definition venue_millis :: "Time \<Rightarrow> int" where
  "venue_millis t = (if t = 0 then 0 else UnixMilli t)"

section \<open>Rows\<close>

definition parseRequiredMilli :: "clientMeta \<Rightarrow> string \<Rightarrow> string \<Rightarrow> string \<Rightarrow> goerror + Time" where
  "parseRequiredMilli meta operation field v =
     (if TrimSpace v = [] then Inl (meta_malformed meta operation (field @ '' is required''))
      else (case ParseInt 64 v of
              None \<Rightarrow> Inl (meta_malformed meta operation (''invalid '' @ field))
            | Some ms \<Rightarrow> if ms \<le> 0 then Inl (meta_malformed meta operation (''invalid '' @ field)) else Inr (time_of_UnixMilli ms)))"

definition parseRequiredDecimal :: "'d Decimals \<Rightarrow> clientMeta \<Rightarrow> string \<Rightarrow> string \<Rightarrow> string \<Rightarrow> goerror + 'd" where
  "parseRequiredDecimal D meta op field v =
     (if TrimSpace v = [] then Inl (meta_malformed meta op (field @ '' is required''))
      else (case NewFromString D v of
              None \<Rightarrow> Inl (meta_malformed meta op ''invalid decimal value'')
            | Some d \<Rightarrow> Inr d))"

text \<open>strictCandle of the seven texts of a row, of which it reads six.\<close>

definition strictCandle :: "'d Decimals \<Rightarrow> clientMeta \<Rightarrow> string \<Rightarrow> (nat \<Rightarrow> string) \<Rightarrow> goerror + 'd Candle" where
  "strictCandle D meta op row =
     (case parseRequiredMilli meta op ''open timestamp'' (row 0) of Inl e \<Rightarrow> Inl e | Inr openTime \<Rightarrow>
     (case parseRequiredDecimal D meta op ''open'' (row 1) of Inl e \<Rightarrow> Inl e | Inr p1 \<Rightarrow>
     (case parseRequiredDecimal D meta op ''high'' (row 2) of Inl e \<Rightarrow> Inl e | Inr p2 \<Rightarrow>
     (case parseRequiredDecimal D meta op ''low'' (row 3) of Inl e \<Rightarrow> Inl e | Inr p3 \<Rightarrow>
     (case parseRequiredDecimal D meta op ''close'' (row 4) of Inl e \<Rightarrow> Inl e | Inr p4 \<Rightarrow>
     (case parseRequiredDecimal D meta op ''volume'' (row 5) of Inl e \<Rightarrow> Inl e | Inr volume \<Rightarrow>
       Inr \<lparr>cd_OpenTime = openTime, cd_CloseTime = 0, cd_Open = p1, cd_High = p2, cd_Low = p3, cd_Close = p4,
            cd_Volume = volume, cd_Complete = True\<rparr>))))))"

fun convertCandles :: "'d Decimals \<Rightarrow> clientMeta \<Rightarrow> string \<Rightarrow> (nat \<Rightarrow> string) list \<Rightarrow> goerror + 'd Candle list" where
  "convertCandles D meta op [] = Inr []"
| "convertCandles D meta op (row # rows) =
     (case strictCandle D meta op row of
        Inl err \<Rightarrow> Inl err
      | Inr candle \<Rightarrow> (case convertCandles D meta op rows of Inl err \<Rightarrow> Inl err | Inr candles \<Rightarrow> Inr (candle # candles)))"

section \<open>The walk\<close>

abbreviation bitgetCandlePageLimit :: int where "bitgetCandlePageLimit \<equiv> 100"

record 'd CandleWalk =
  wk_remaining :: int
  wk_pageEnd :: Time
  wk_seen :: "(int, 'd Candle) gomap"

definition pageLimit :: "'d CandleWalk \<Rightarrow> int" where
  "pageLimit walk =
     (if wk_remaining walk = 0 \<or> wk_remaining walk > bitgetCandlePageLimit then bitgetCandlePageLimit else wk_remaining walk)"

text \<open>The loop over a page: the earliest open time, how many candles are new, and the candles by open time.\<close>

fun merge_page :: "'d Candle list \<Rightarrow> Time \<times> int \<times> (int, 'd Candle) gomap \<Rightarrow> Time \<times> int \<times> (int, 'd Candle) gomap" where
  "merge_page [] acc = acc"
| "merge_page (candle # candles) (earliest, added, seen) =
     (let key = UnixMilli (cd_OpenTime candle) in
      merge_page candles
        (if cd_OpenTime candle < earliest then cd_OpenTime candle else earliest,
         if map_of seen key = None then added + 1 else added,
         AList.update key candle seen))"

text \<open>One round of the loop with the venue's answer: an error, or whether to go on.\<close>

definition bitget_page ::
  "'d Decimals \<Rightarrow> (goerror \<Rightarrow> string option) \<Rightarrow> clientMeta \<Rightarrow> 'd CandlesRequest \<Rightarrow> goerror + (nat \<Rightarrow> string) list \<Rightarrow>
   'd CandleWalk \<Rightarrow> goerror option + bool \<times> 'd CandleWalk" where
  "bitget_page D code_of meta req answer walk =
     (case answer of
        Inl err \<Rightarrow> Inl (normErr code_of meta ''Candles'' err)
      | Inr rows \<Rightarrow>
          (case convertCandles D meta ''Candles'' rows of
             Inl err \<Rightarrow> Inl (Some (meta_malformed meta ''Candles'' (error_text err)))
           | Inr [] \<Rightarrow> Inr (False, walk)
           | Inr (candle # candles) \<Rightarrow>
               (case merge_page (candle # candles) (cd_OpenTime candle, 0, wk_seen walk) of (earliest, added, seen) \<Rightarrow>
                  if cr_Limit req = 0 \<or> int (length rows) < pageLimit walk then Inr (False, walk\<lparr>wk_seen := seen\<rparr>)
                  else (let remaining = wk_remaining walk - added; nextEnd = earliest - Millisecond;
                            walk1 = walk\<lparr>wk_seen := seen, wk_remaining := remaining\<rparr> in
                        if remaining \<le> 0 then Inr (False, walk1)
                        else if cr_Start req \<noteq> 0 \<and> \<not> cr_Start req < nextEnd \<or>
                                wk_pageEnd walk \<noteq> 0 \<and> \<not> nextEnd < wk_pageEnd walk then Inr (False, walk1)
                        else Inr (True, walk1\<lparr>wk_pageEnd := nextEnd\<rparr>)))))"

text \<open>What the client asks: category, symbol, interval, start and end in milliseconds, number of rows.\<close>

type_synonym CandleQuery = "string \<times> string \<times> string \<times> int \<times> int \<times> int"

type_synonym CandleVenue = "nat \<Rightarrow> CandleQuery \<Rightarrow> goerror + (nat \<Rightarrow> string) list"

text \<open>The loop; it returns how many pages were asked for as well.\<close>

partial_function (option) bitget_pages ::
  "'d Decimals \<Rightarrow> (goerror \<Rightarrow> string option) \<Rightarrow> clientMeta \<Rightarrow> 'd CandlesRequest \<Rightarrow>
   (nat \<Rightarrow> Time \<Rightarrow> int \<Rightarrow> goerror + (nat \<Rightarrow> string) list) \<Rightarrow> nat \<Rightarrow> 'd CandleWalk \<Rightarrow>
   ((goerror option + 'd CandleWalk) \<times> nat) option" where
  "bitget_pages D code_of meta req fetch n walk =
     (case bitget_page D code_of meta req (fetch n (wk_pageEnd walk) (pageLimit walk)) walk of
        Inl err \<Rightarrow> Some (Inl err, Suc n)
      | Inr (go_on, walk1) \<Rightarrow>
          if go_on then bitget_pages D code_of meta req fetch (Suc n) walk1 else Some (Inr walk1, Suc n))"

abbreviation candle_page :: "'d CandlesRequest \<Rightarrow> 'd Candle list \<Rightarrow> 'd CandlePage" where
  "candle_page req candles \<equiv>
     \<lparr>cp_Candles = candles, cp_Limit = cr_Limit req, cp_WindowStart = cr_Start req, cp_WindowEnd = cr_End req\<rparr>"

definition latest_candles :: "'d CandlesRequest \<Rightarrow> 'd Candle list \<Rightarrow> 'd Candle list" where
  "latest_candles req unsorted =
     (let candles = slice_sort (\<lambda>a b. cd_OpenTime a < cd_OpenTime b) unsorted in
      if cr_Limit req > 0 \<and> int (length candles) > cr_Limit req then drop (length candles - nat (cr_Limit req)) candles
      else candles)"

definition bitget_fetch ::
  "clientMeta \<Rightarrow> string \<Rightarrow> CandleVenue \<Rightarrow> 'd CandlesRequest \<Rightarrow> string \<Rightarrow> string \<Rightarrow> nat \<Rightarrow> Time \<Rightarrow> int \<Rightarrow> goerror + (nat \<Rightarrow> string) list" where
  "bitget_fetch meta productType venue req symbol interval n pageEnd limit =
     venue n (if cm_product meta = ProductSpot then ''spot'' else productType, symbol, interval,
       venue_millis (cr_Start req), venue_millis pageEnd, limit)"

text \<open>The checks before the first request: the venue's symbol and interval.\<close>

definition bitget_arguments ::
  "'d Decimals \<Rightarrow> goerror option \<Rightarrow> clientMeta \<Rightarrow> string \<Rightarrow> 'd CandlesRequest \<Rightarrow> goerror + string \<times> string" where
  "bitget_arguments D ctx meta marginCoin req =
     (case ctxErr ctx meta ''Candles'' of Some err \<Rightarrow> Inl err | None \<Rightarrow>
     (case bitget_symbols D meta marginCoin ''Candles'' (cr_Instrument req) of Inl err \<Rightarrow> Inl err | Inr symbol \<Rightarrow>
     (case validateWindow meta ''Candles'' req of Some err \<Rightarrow> Inl err | None \<Rightarrow>
     (case bitgetInterval meta ''Candles'' (cr_Interval req) of Inl err \<Rightarrow> Inl err | Inr interval \<Rightarrow> Inr (symbol, interval)))))"

text \<open>Candles of Bitget; the outer option is None if it never returned.\<close>

definition bitget_Candles ::
  "'d Decimals \<Rightarrow> (goerror \<Rightarrow> string option) \<Rightarrow> goerror option \<Rightarrow> clientMeta \<Rightarrow> string \<Rightarrow> string \<Rightarrow> CandleVenue \<Rightarrow>
   'd CandlesRequest \<Rightarrow> ((goerror option + 'd CandlePage) \<times> nat) option" where
  "bitget_Candles D code_of ctx meta productType marginCoin venue req =
     (case bitget_arguments D ctx meta marginCoin req of
        Inl err \<Rightarrow> Some (Inl (Some err), 0)
      | Inr (symbol, interval) \<Rightarrow>
          (case bitget_pages D code_of meta req (bitget_fetch meta productType venue req symbol interval) 0
                  \<lparr>wk_remaining = cr_Limit req, wk_pageEnd = cr_End req, wk_seen = []\<rparr> of
             None \<Rightarrow> None
           | Some (Inl err, n) \<Rightarrow> Some (Inl err, n)
           | Some (Inr walk, n) \<Rightarrow> Some (Inr (candle_page req (latest_candles req (map snd (wk_seen walk)))), n)))"

section \<open>The walk ends\<close>

text \<open>Open times are whole positive milliseconds of Unix time.\<close>

definition milli_candle :: "'d Candle \<Rightarrow> bool" where
  "milli_candle candle \<longleftrightarrow> UnixMilli (cd_OpenTime candle) > 0 \<and> cd_OpenTime candle = time_of_UnixMilli (UnixMilli (cd_OpenTime candle))"

lemma convertCandles_milli: "convertCandles D meta op rows = Inr candles \<Longrightarrow> list_all milli_candle candles"
  by (induction rows arbitrary: candles)
    (auto simp: strictCandle_def parseRequiredMilli_def milli_candle_def split: sum.splits if_splits option.splits)

definition seen_ok :: "(int, 'd Candle) gomap \<Rightarrow> bool" where
  "seen_ok seen \<longleftrightarrow> gomap_ok seen \<and> (\<forall>(key, candle)\<in>set seen. milli_candle candle \<and> key = UnixMilli (cd_OpenTime candle))"

lemma seen_ok_update:
  assumes "seen_ok seen" "milli_candle candle"
  shows "seen_ok (AList.update (UnixMilli (cd_OpenTime candle)) candle seen)"
proof -
  have "(k, v) \<in> set seen \<or> (k, v) = (UnixMilli (cd_OpenTime candle), candle)"
    if "(k, v) \<in> set (AList.update (UnixMilli (cd_OpenTime candle)) candle seen)" for k v
    using that assms(1) by (auto simp: gomap_in_set seen_ok_def split: if_splits)
  then show ?thesis
    using assms unfolding seen_ok_def by fastforce
qed

lemma merge_page_ok:
  assumes "merge_page candles (earliest, added, seen) = (earliest', added', seen')" "list_all milli_candle candles" "seen_ok seen"
  shows "seen_ok seen' \<and> added' - added = int (length seen') - int (length seen) \<and> earliest' \<le> earliest \<and>
    fst ` set seen' = fst ` set seen \<union> (\<lambda>c. UnixMilli (cd_OpenTime c)) ` set candles \<and>
    (\<forall>c\<in>set candles. earliest' \<le> cd_OpenTime c) \<and> (earliest' = earliest \<or> earliest' \<in> cd_OpenTime ` set candles)"
  using assms
proof (induction candles arbitrary: earliest added seen)
  case (Cons candle candles)
  let ?key = "UnixMilli (cd_OpenTime candle)"
  have "seen_ok (AList.update ?key candle seen)"
    using Cons.prems by (auto intro: seen_ok_update)
  note IH = Cons.IH [OF _ _ this]
  show ?case
    using IH Cons.prems by (force simp: Let_def length_update update_conv' dom_update split: if_splits)
qed simp

text \<open>Between two rounds: the page to ask for ends before every candle seen.\<close>

definition walk_ok :: "'d CandlesRequest \<Rightarrow> 'd CandleWalk \<Rightarrow> bool" where
  "walk_ok req walk \<longleftrightarrow>
     seen_ok (wk_seen walk) \<and> wk_remaining walk = cr_Limit req - int (length (wk_seen walk)) \<and>
     (wk_seen walk \<noteq> [] \<longrightarrow> (\<exists>ms\<ge>0. wk_pageEnd walk = time_of_UnixMilli ms \<and> (\<forall>key\<in>fst ` set (wk_seen walk). ms < key)))"

lemma time_of_UnixMilli_less [simp]: "time_of_UnixMilli a < time_of_UnixMilli b \<longleftrightarrow> a < b"
  by (simp add: time_of_UnixMilli_def)

lemma time_of_UnixMilli_pred: "time_of_UnixMilli a - Millisecond = time_of_UnixMilli (a - 1)"
  by (simp add: time_of_UnixMilli_def algebra_simps)

lemma time_of_UnixMilli_pos: "0 \<le> ms \<Longrightarrow> time_of_UnixMilli ms \<noteq> 0"
  by (simp add: time_of_UnixMilli_def unix_epoch_def)

text \<open>A round that goes on has seen a new candle, and asks for an earlier page.\<close>

lemma bitget_page_progress:
  assumes "bitget_page D code_of meta req answer walk = Inr (True, walk')" "walk_ok req walk"
  shows "walk_ok req walk' \<and> 0 < wk_remaining walk' \<and> wk_remaining walk' < wk_remaining walk"
proof -
  obtain rows candle candles earliest added seen where
      rows: "convertCandles D meta ''Candles'' rows = Inr (candle # candles)"
    and page: "merge_page (candle # candles) (cd_OpenTime candle, 0, wk_seen walk) = (earliest, added, seen)"
    and walk': "walk' = walk\<lparr>wk_seen := seen, wk_remaining := wk_remaining walk - added, wk_pageEnd := earliest - Millisecond\<rparr>"
    and left: "0 < wk_remaining walk - added"
    and earlier: "wk_pageEnd walk = 0 \<or> earliest - Millisecond < wk_pageEnd walk"
    using assms(1) by (auto simp: bitget_page_def Let_def split: sum.splits list.splits prod.splits if_splits)
  have milli: "list_all milli_candle (candle # candles)"
    using convertCandles_milli [OF rows] .
  have walk: "seen_ok (wk_seen walk)" "wk_remaining walk = cr_Limit req - int (length (wk_seen walk))"
    using assms(2) by (simp_all add: walk_ok_def)
  note merged = merge_page_ok [OF page milli walk(1)]
  obtain c where c: "c \<in> set (candle # candles)" "earliest = cd_OpenTime c" "milli_candle c"
    using merged milli by (auto simp: list_all_iff)
  define ms where "ms = UnixMilli earliest"
  have ms: "earliest = time_of_UnixMilli ms" "0 < ms"
    using c by (auto simp: ms_def milli_candle_def)
  have before: "ms \<le> key - 1" if key: "key \<in> fst ` set (wk_seen walk)" for key
  proof -
    have "wk_seen walk \<noteq> []"
      using key by auto
    then obtain last where "0 \<le> last" "wk_pageEnd walk = time_of_UnixMilli last" "last < key"
      using assms(2) key unfolding walk_ok_def by blast
    then show ?thesis
      using earlier time_of_UnixMilli_pos [of last] by (simp add: ms(1) time_of_UnixMilli_pred)
  qed
  have keys: "fst ` set seen = fst ` set (wk_seen walk) \<union> (\<lambda>c. UnixMilli (cd_OpenTime c)) ` set (candle # candles)"
    using merged by blast
  have first: "ms \<le> UnixMilli (cd_OpenTime c')" if "c' \<in> set (candle # candles)" for c'
  proof -
    have "\<not> cd_OpenTime c' < time_of_UnixMilli ms" "milli_candle c'"
      using merged milli that by (auto simp: ms(1) list_all_iff)
    then show ?thesis
      unfolding milli_candle_def by (metis time_of_UnixMilli_less linorder_not_less)
  qed
  have new: "ms - 1 < key" if "key \<in> fst ` set seen" for key
    using that unfolding keys by (elim UnE imageE) (use before first in \<open>force+\<close>)
  have "ms \<in> fst ` set seen"
    unfolding keys ms_def c(2) using c(1) by blast
  then have "ms \<in> fst ` set seen - fst ` set (wk_seen walk)"
    using before [of ms] by auto
  moreover have "fst ` set (wk_seen walk) \<subseteq> fst ` set seen"
    unfolding keys by blast
  ultimately have "card (fst ` set (wk_seen walk)) < card (fst ` set seen)"
    by (intro psubset_card_mono) auto
  then have "length (wk_seen walk) < length seen"
    using gomap_card [of seen] gomap_card [of "wk_seen walk"] merged walk(1) unfolding seen_ok_def by metis
  then have "added > 0" "seen \<noteq> []"
    using merged by auto
  moreover have "\<exists>t\<ge>0. earliest - Millisecond = time_of_UnixMilli t \<and> (\<forall>key\<in>fst ` set seen. t < key)"
    using ms new by (intro exI [of _ "ms - 1"]) (simp add: time_of_UnixMilli_pred)
  ultimately show ?thesis
    using merged left walk(2) unfolding walk_ok_def walk' by simp
qed

lemma bitget_page_ends:
  assumes "bitget_page D code_of meta req answer walk = Inr (False, walk')" "walk_ok req walk"
  shows "seen_ok (wk_seen walk')"
proof -
  consider "wk_seen walk' = wk_seen walk"
    | rows candle candles earliest added where "convertCandles D meta ''Candles'' rows = Inr (candle # candles)"
        "merge_page (candle # candles) (cd_OpenTime candle, 0, wk_seen walk) = (earliest, added, wk_seen walk')"
    using assms(1) by (auto simp: bitget_page_def Let_def split: sum.splits list.splits prod.splits if_splits)
  then show ?thesis
  proof cases
    case 2
    then show ?thesis
      using merge_page_ok [OF 2(2) convertCandles_milli [OF 2(1)]] assms(2) by (simp add: walk_ok_def)
  qed (use assms(2) in \<open>simp add: walk_ok_def\<close>)
qed

lemma bitget_pages_return:
  assumes "walk_ok req walk" "nat (wk_remaining walk) \<le> fuel"
  shows "\<exists>result m. bitget_pages D code_of meta req fetch n walk = Some (result, m) \<and> n < m \<and> m \<le> n + max 1 fuel \<and>
    (\<forall>walk'. result = Inr walk' \<longrightarrow> seen_ok (wk_seen walk'))"
  using assms
proof (induction fuel arbitrary: n walk)
  case 0
  let ?page = "bitget_page D code_of meta req (fetch n (wk_pageEnd walk) (pageLimit walk)) walk"
  have "?page \<noteq> Inr (True, walk')" for walk'
    using bitget_page_progress [of D code_of meta req _ walk walk'] 0 by force
  then show ?case
    using bitget_page_ends [OF _ 0(1)]
    by (subst bitget_pages.simps) (fastforce split: sum.splits prod.splits)
next
  case (Suc fuel)
  let ?page = "bitget_page D code_of meta req (fetch n (wk_pageEnd walk) (pageLimit walk)) walk"
  show ?case
  proof (cases "\<exists>walk'. ?page = Inr (True, walk')")
    case True
    then obtain walk' where page: "?page = Inr (True, walk')"
      by blast
    note progress = bitget_page_progress [OF page Suc.prems(1)]
    then have "nat (wk_remaining walk') \<le> fuel"
      using Suc.prems(2) by linarith
    then obtain result m where
        "bitget_pages D code_of meta req fetch (Suc n) walk' = Some (result, m)" "Suc n < m" "m \<le> Suc n + max 1 fuel"
        "\<forall>walk'. result = Inr walk' \<longrightarrow> seen_ok (wk_seen walk')"
      using Suc.IH [of walk' "Suc n"] progress by blast
    moreover have "0 < fuel"
      using progress Suc.prems(2) by linarith
    ultimately show ?thesis
      by (subst bitget_pages.simps) (simp add: page)
  next
    case False
    then show ?thesis
      using bitget_page_ends [OF _ Suc.prems(1)]
      by (subst bitget_pages.simps) (fastforce split: sum.splits prod.splits)
  qed
qed

lemma latest_candles_sorted:
  assumes "seen_ok seen"
  shows "sorted_wrt (<) (map cd_OpenTime (latest_candles req (map snd seen)))"
proof -
  let ?sorted = "slice_sort (\<lambda>a b. cd_OpenTime a < cd_OpenTime b) (map snd seen)"
  have "map (UnixMilli \<circ> cd_OpenTime) (map snd seen) = map fst seen"
    using assms by (auto simp: seen_ok_def)
  then have "distinct (map cd_OpenTime (map snd seen))"
    using assms unfolding seen_ok_def gomap_ok_def by (metis distinct_map map_map)
  then have "distinct (map cd_OpenTime ?sorted)"
    by (simp only: distinct_map_slice_sort)
  moreover have "sorted_wrt (\<lambda>a b. \<not> cd_OpenTime b < cd_OpenTime a) ?sorted"
    by (rule strict_weak.sorted_slice_sort) (unfold_locales, auto)
  then have "sorted (map cd_OpenTime ?sorted)"
    by (simp add: sorted_wrt_map not_less)
  ultimately have "sorted_wrt (<) (map cd_OpenTime ?sorted)"
    by (simp add: strict_sorted_iff)
  then show ?thesis
    by (simp add: latest_candles_def Let_def drop_map [symmetric] sorted_wrt_drop)
qed

text \<open>
  C15: Bitget's Candles returns, whatever the venue answers and however its answers change: it asks for at most
  as many pages as the candles requested, because every page that is followed by another one brought a candle
  not seen before. The candles it returns are in strictly ascending order of their open times and, with a
  positive limit, no more than the limit.
\<close>

theorem candle_walk_ends:
  "\<exists>result pages. bitget_Candles D code_of ctx meta productType marginCoin venue req = Some (result, pages) \<and>
     pages \<le> max 1 (nat (cr_Limit req)) \<and>
     (\<forall>page. result = Inr page \<longrightarrow>
        sorted_wrt (<) (map cd_OpenTime (cp_Candles page)) \<and> (cr_Limit req > 0 \<longrightarrow> int (length (cp_Candles page)) \<le> cr_Limit req))"
proof -
  have start: "walk_ok req \<lparr>wk_remaining = cr_Limit req, wk_pageEnd = cr_End req, wk_seen = []\<rparr>"
    by (simp add: walk_ok_def seen_ok_def)
  have run: "\<exists>result m. bitget_pages D code_of meta req fetch 0 \<lparr>wk_remaining = cr_Limit req, wk_pageEnd = cr_End req, wk_seen = []\<rparr> =
        Some (result, m) \<and> m \<le> max 1 (nat (cr_Limit req)) \<and> (\<forall>walk. result = Inr walk \<longrightarrow> seen_ok (wk_seen walk))" for fetch
    using bitget_pages_return [OF start order_refl, of D code_of meta fetch 0] by auto
  have size: "int (length (latest_candles req candles)) \<le> cr_Limit req" if "cr_Limit req > 0" for candles
    using that by (simp add: latest_candles_def Let_def)
  show ?thesis
  proof (cases "bitget_arguments D ctx meta marginCoin req")
    case (Inr args)
    obtain symbol interval where args: "args = (symbol, interval)"
      by force
    obtain result m where "bitget_pages D code_of meta req (bitget_fetch meta productType venue req symbol interval) 0
        \<lparr>wk_remaining = cr_Limit req, wk_pageEnd = cr_End req, wk_seen = []\<rparr> = Some (result, m)"
        "m \<le> max 1 (nat (cr_Limit req))" "\<forall>walk. result = Inr walk \<longrightarrow> seen_ok (wk_seen walk)"
      using run by blast
    then show ?thesis
      using latest_candles_sorted size by (cases result) (simp_all add: bitget_Candles_def Inr args)
  qed (simp add: bitget_Candles_def)
qed

definition bitget_instrument :: "dec Instrument" where
  "bitget_instrument = sample_instrument\<lparr>ins_Identity := (ins_Identity sample_instrument)\<lparr>id_Venue := VenueBitget\<rparr>\<rparr>"

lemma bitget_instrument_valid: "Instrument_Validate dec_ops bitget_instrument = None"
  by (simp add: Instrument_Validate_def bitget_instrument_def sample_instrument_def knownVenue_def dec_ops_def)

definition sample_candles_request :: "dec CandlesRequest" where
  "sample_candles_request =
     \<lparr>cr_Instrument = bitget_instrument, cr_Interval = ''1m'', cr_Start = 0, cr_End = 0, cr_Limit = 2, cr_Cursor = []\<rparr>"

definition sample_row :: "string \<Rightarrow> nat \<Rightarrow> string" where
  "sample_row openTime i = (if i = 0 then openTime else ''1'')"

text \<open>A venue that repeats a row, so that two candles take two pages.\<close>

definition sample_candle_venue :: CandleVenue where
  "sample_candle_venue n query = Inr (if n = 0 then [sample_row ''2000'', sample_row ''2000''] else [sample_row ''1000''])"

definition sample_candle :: "int \<Rightarrow> dec Candle" where
  "sample_candle ms = \<lparr>cd_OpenTime = time_of_UnixMilli ms, cd_CloseTime = 0, cd_Open = Dec 1 0, cd_High = Dec 1 0,
     cd_Low = Dec 1 0, cd_Close = Dec 1 0, cd_Volume = Dec 1 0, cd_Complete = True\<rparr>"

lemma sample_rows:
  "strictCandle dec_ops meta op (sample_row ''2000'') = Inr (sample_candle 2000)"
  "strictCandle dec_ops meta op (sample_row ''1000'') = Inr (sample_candle 1000)"
proof -
  have "dec_parse ''1'' = Some (Dec 1 0)" by code_simp
  moreover have "TrimSpace ''1'' = ''1''" "TrimSpace ''2000'' = ''2000''" "TrimSpace ''1000'' = ''1000''"
    by (simp_all add: TrimSpace_printable printable_code)
  moreover have "ParseInt 64 ''2000'' = Some 2000" "ParseInt 64 ''1000'' = Some 1000"
    by (simp_all add: ParseInt_def Let_def is_digit_def digits_val_def digit_val_def)
  ultimately show "strictCandle dec_ops meta op (sample_row ''2000'') = Inr (sample_candle 2000)"
      "strictCandle dec_ops meta op (sample_row ''1000'') = Inr (sample_candle 1000)"
    by (simp_all add: strictCandle_def parseRequiredMilli_def parseRequiredDecimal_def sample_row_def sample_candle_def dec_ops_def)
qed

abbreviation sample_meta :: clientMeta where
  "sample_meta \<equiv> \<lparr>cm_venue = VenueBitget, cm_product = ProductPerp\<rparr>"

lemma sample_candle_walk:
  "bitget_Candles dec_ops (\<lambda>_. None) None sample_meta ''USDT-FUTURES'' ''USDT'' sample_candle_venue sample_candles_request =
     Some (Inr (candle_page sample_candles_request [sample_candle 1000, sample_candle 2000]), 2)"
proof -
  have "TrimSpace ''1m'' = ''1m''"
    by (simp add: TrimSpace_printable printable_code)
  then have "bitget_arguments dec_ops None sample_meta ''USDT'' sample_candles_request = Inr (''BTCUSDT'', ''1m'')"
    using bitget_instrument_valid
    by (simp add: bitget_arguments_def ctxErr_def bitget_symbols_def validateBybitBitgetInstrument_def validateWindow_def
        bitgetInterval_def sample_candles_request_def Let_def)
      (simp add: bitget_instrument_def sample_instrument_def)
  moreover have "bitget_pages dec_ops (\<lambda>_. None) sample_meta sample_candles_request
      (bitget_fetch sample_meta ''USDT-FUTURES'' sample_candle_venue sample_candles_request ''BTCUSDT'' ''1m'') 0
      \<lparr>wk_remaining = 2, wk_pageEnd = 0, wk_seen = []\<rparr> =
      Some (Inr \<lparr>wk_remaining = 0, wk_pageEnd = time_of_UnixMilli 1999, wk_seen = [(2000, sample_candle 2000), (1000, sample_candle 1000)]\<rparr>, 2)"
    by (simp add: bitget_pages.simps [of _ _ _ _ _ 0] bitget_pages.simps [of _ _ _ _ _ "Suc 0"] bitget_page_def bitget_fetch_def sample_candle_venue_def
        sample_rows pageLimit_def sample_candles_request_def Let_def)
      (simp add: sample_candle_def time_of_UnixMilli_def UnixMilli_def unix_epoch_def numeral_2_eq_2)
  ultimately show ?thesis
    by (simp add: bitget_Candles_def latest_candles_def sample_candles_request_def sample_candle_def)
qed

theorem candle_walk_ends_witness:
  "\<exists>page. bitget_Candles dec_ops (\<lambda>_. None) None sample_meta ''USDT-FUTURES'' ''USDT'' sample_candle_venue sample_candles_request =
       Some (Inr page, 2) \<and> map cd_OpenTime (cp_Candles page) = [time_of_UnixMilli 1000, time_of_UnixMilli 2000] \<and>
     sorted_wrt (<) (map cd_OpenTime (cp_Candles page)) \<and> int (length (cp_Candles page)) \<le> 2"
  using candle_walk_ends [of dec_ops "\<lambda>_. None" None sample_meta "''USDT-FUTURES''" "''USDT''" sample_candle_venue sample_candles_request]
  unfolding sample_candle_walk by (simp add: sample_candle_def sample_candles_request_def)

end
