(* ===== verification/Public_Socket.thy ===== *)
theory Public_Socket
  imports Order_Book Venue_Candles
begin

text \<open>
  The shared topics of a venue's public WebSocket (exchange/internal/factoryclient/public_websocket.go).
  Subscriptions of one instrument share one native stream: the first watch of a key starts it, later ones
  wait for it, the last one to close stops it. Each operation below is what the code does in one critical
  section of the socket's mutex, and the step relation runs them in any order. A topic starts at most one
  native stream, so the number of the topic also names the stream; the streams that run are a component of
  the state, their starts and stops belong to the venue's backend.
\<close>

section \<open>Requests\<close>

abbreviation maxWebSocketBuffer :: int where "maxWebSocketBuffer \<equiv> 65536"

definition portableCandleInterval :: "string \<Rightarrow> bool" where
  "portableCandleInterval interval \<longleftrightarrow> interval \<in> {''1m'', ''5m'', ''15m'', ''30m'', ''1h'', ''4h'', ''12h'', ''1d''}"

abbreviation socket_error :: "clientMeta \<Rightarrow> string \<Rightarrow> ErrorKind \<Rightarrow> string \<Rightarrow> goerror" where
  "socket_error meta operation kind message \<equiv> websocketError (cm_venue meta) (cm_product meta) operation kind message"

definition websocketContextError :: "clientMeta \<Rightarrow> string \<Rightarrow> goerror \<Rightarrow> goerror" where
  "websocketContextError meta operation err =
     socket_error meta operation
       (if errors_Is err ContextDeadlineExceeded then KindDeadlineExceeded else KindCanceled) ''request context ended''"

text \<open>validateWatch of a configured socket with a context.\<close>

definition validateWatch ::
  "'d Decimals \<Rightarrow> clientMeta \<Rightarrow> goerror option \<Rightarrow> string \<Rightarrow> 'd Instrument \<Rightarrow> int \<Rightarrow> goerror option" where
  "validateWatch D meta ctx operation instrument buffer =
     (case ctx of
        Some err \<Rightarrow> Some (websocketContextError meta operation err)
      | None \<Rightarrow>
          (case Instrument_Validate D instrument of
             Some err \<Rightarrow> Some (socket_error meta operation KindInvalidRequest (error_text err))
           | None \<Rightarrow>
               if id_Venue (ins_Identity instrument) \<noteq> cm_venue meta \<or> id_Product (ins_Identity instrument) \<noteq> cm_product meta
               then Some (socket_error meta operation KindInvalidRequest ''instrument venue/product does not match websocket'')
               else if buffer < 0 \<or> buffer > maxWebSocketBuffer
               then Some (socket_error meta operation KindInvalidRequest ''buffer must be between 0 and 65536'')
               else None))"

definition websocketInstrumentKey :: "'d Instrument \<Rightarrow> string" where
  "websocketInstrumentKey instrument =
     (let identity = ins_Identity instrument in
      if id_NativeID identity \<noteq> [] then id_Venue identity @ '':'' @ id_Product identity @ '':id:'' @ id_NativeID identity
      else id_Venue identity @ '':'' @ id_Product identity @ '':symbol:'' @ id_NativeSymbol identity)"

text \<open>The four watch operations up to watchWebSocketTopic: the refusal, or the key of the topic they share.\<close>

definition watch_key ::
  "'d Decimals \<Rightarrow> clientMeta \<Rightarrow> goerror option \<Rightarrow> string \<Rightarrow> 'd Instrument \<Rightarrow> int \<Rightarrow> goerror + string" where
  "watch_key D meta ctx operation instrument buffer =
     (case validateWatch D meta ctx operation instrument buffer of
        Some err \<Rightarrow> Inl err
      | None \<Rightarrow> Inr (websocketInstrumentKey instrument))"

definition WatchOrderBook :: "'d Decimals \<Rightarrow> clientMeta \<Rightarrow> goerror option \<Rightarrow> 'd Instrument \<Rightarrow> int \<Rightarrow> goerror + string" where
  "WatchOrderBook D meta ctx instrument buffer = watch_key D meta ctx ''WatchOrderBook'' instrument buffer"

definition WatchBBO :: "'d Decimals \<Rightarrow> clientMeta \<Rightarrow> goerror option \<Rightarrow> 'd Instrument \<Rightarrow> int \<Rightarrow> goerror + string" where
  "WatchBBO D meta ctx instrument buffer = watch_key D meta ctx ''WatchBBO'' instrument buffer"

definition WatchPublicTrades :: "'d Decimals \<Rightarrow> clientMeta \<Rightarrow> goerror option \<Rightarrow> 'd Instrument \<Rightarrow> int \<Rightarrow> goerror + string" where
  "WatchPublicTrades D meta ctx instrument buffer = watch_key D meta ctx ''WatchPublicTrades'' instrument buffer"

definition WatchCandles ::
  "'d Decimals \<Rightarrow> clientMeta \<Rightarrow> goerror option \<Rightarrow> 'd Instrument \<Rightarrow> string \<Rightarrow> int \<Rightarrow> goerror + string" where
  "WatchCandles D meta ctx instrument interval buffer =
     (case watch_key D meta ctx ''WatchCandles'' instrument buffer of
        Inl err \<Rightarrow> Inl err
      | Inr key \<Rightarrow>
          if \<not> portableCandleInterval interval
          then Inl (socket_error meta ''WatchCandles'' KindInvalidRequest ''interval must be one of 1m, 5m, 15m, 30m, 1h, 4h, 12h, or 1d'')
          else Inr (key @ [CHR 0x00] @ interval))"

definition normalizeWebSocketStartupError ::
  "clientMeta \<Rightarrow> string \<Rightarrow> goerror option \<Rightarrow> goerror option \<Rightarrow> bool \<Rightarrow> goerror option" where
  "normalizeWebSocketStartupError meta operation startErr contextErr is_closed =
     (if is_closed then Some (socket_error meta operation KindSubscriptionClosed ''websocket client is closed'')
      else (case (startErr, contextErr) of
              (Some err, Some ctx) \<Rightarrow>
                if errors_Is err ContextCanceled \<or> errors_Is err ContextDeadlineExceeded
                then Some (websocketContextError meta operation ctx) else Some err
            | _ \<Rightarrow> startErr))"

text \<open>The instrument a venue knows by its native identifier, or by its symbol when it has none.\<close>

definition same_native :: "'d Instrument \<Rightarrow> 'd Instrument \<Rightarrow> bool" where
  "same_native a b \<longleftrightarrow>
     id_NativeID (ins_Identity a) = id_NativeID (ins_Identity b) \<and>
     (id_NativeID (ins_Identity a) = [] \<longrightarrow> id_NativeSymbol (ins_Identity a) = id_NativeSymbol (ins_Identity b))"

lemma instrument_key_iff:
  assumes "id_Venue (ins_Identity a) = id_Venue (ins_Identity b)" "id_Product (ins_Identity a) = id_Product (ins_Identity b)"
  shows "websocketInstrumentKey a = websocketInstrumentKey b \<longleftrightarrow> same_native a b"
  using assms by (auto simp: websocketInstrumentKey_def same_native_def Let_def)

lemma watch_key_accepts:
  assumes "watch_key D meta ctx operation a buffer = Inr key"
  shows "key = websocketInstrumentKey a" "id_Venue (ins_Identity a) = cm_venue meta" "id_Product (ins_Identity a) = cm_product meta"
    "Instrument_Validate D a = None" "0 \<le> buffer" "buffer \<le> maxWebSocketBuffer"
  using assms by (auto simp: watch_key_def validateWatch_def split: option.splits if_splits)

lemma portable_no_null: "portableCandleInterval interval \<Longrightarrow> CHR 0x00 \<notin> set interval"
  by (auto simp: portableCandleInterval_def)

lemma last_null_split:
  "CHR 0x00 \<notin> set x \<Longrightarrow> CHR 0x00 \<notin> set y \<Longrightarrow> a @ CHR 0x00 # x = b @ CHR 0x00 # y \<longleftrightarrow> a = b \<and> x = y"
  by (auto simp: append_eq_append_conv2 append_eq_Cons_conv Cons_eq_append_conv)

lemma WatchCandles_accepts:
  assumes "WatchCandles D meta ctx a interval buffer = Inr key"
  shows "watch_key D meta ctx ''WatchCandles'' a buffer = Inr (websocketInstrumentKey a)" "portableCandleInterval interval"
    "key = websocketInstrumentKey a @ CHR 0x00 # interval"
  using assms by (auto simp: WatchCandles_def watch_key_def split: sum.splits option.splits if_splits)

lemma watch_key_any_operation:
  "watch_key D meta ctx operation a buffer = Inr key \<Longrightarrow> watch_key D meta ctx operation' a buffer = Inr key"
  by (auto simp: watch_key_def validateWatch_def split: option.splits if_splits)

text \<open>
  C26: the topic keys of a socket are exact. Two accepted candle watches of one socket share a native stream
  exactly when they ask for the same native instrument and the same interval; book watches of the same
  instruments are accepted too and share a stream exactly when the native instrument is the same. An accepted
  watch carries a valid instrument of the socket's venue and product and a buffer between 0 and 65536.
\<close>

theorem watch_keys_are_exact:
  assumes "WatchCandles D meta ctx a interval buffer = Inr key" "WatchCandles D meta ctx' b interval' buffer' = Inr key'"
  shows "(key = key' \<longleftrightarrow> same_native a b \<and> interval = interval') \<and>
    (\<exists>plain plain'. WatchOrderBook D meta ctx a buffer = Inr plain \<and> WatchOrderBook D meta ctx' b buffer' = Inr plain' \<and>
       (plain = plain' \<longleftrightarrow> same_native a b)) \<and>
    Instrument_Validate D a = None \<and> id_Venue (ins_Identity a) = cm_venue meta \<and> id_Product (ins_Identity a) = cm_product meta \<and>
    0 \<le> buffer \<and> buffer \<le> 65536"
proof -
  note ca = WatchCandles_accepts [OF assms(1)] and cb = WatchCandles_accepts [OF assms(2)]
  note a = watch_key_accepts [OF ca(1)] and b = watch_key_accepts [OF cb(1)]
  have same: "websocketInstrumentKey a = websocketInstrumentKey b \<longleftrightarrow> same_native a b"
    using a b instrument_key_iff by metis
  have "WatchOrderBook D meta ctx a buffer = Inr (websocketInstrumentKey a)"
    "WatchOrderBook D meta ctx' b buffer' = Inr (websocketInstrumentKey b)"
    using watch_key_any_operation [OF ca(1)] watch_key_any_operation [OF cb(1)] by (simp_all add: WatchOrderBook_def)
  moreover have "key = key' \<longleftrightarrow> same_native a b \<and> interval = interval'"
    using last_null_split [OF portable_no_null [OF ca(2)] portable_no_null [OF cb(2)]] same by (simp add: ca(3) cb(3))
  ultimately show ?thesis
    using a same by auto
qed

definition sample_socket_meta :: clientMeta where
  "sample_socket_meta = \<lparr>cm_venue = VenueBinance, cm_product = ProductPerp\<rparr>"

lemma sample_candle_watch:
  "interval \<in> {''1m'', ''1h''} \<Longrightarrow>
   WatchCandles dec_ops sample_socket_meta None sample_instrument interval 0 = Inr (''binance:perp:symbol:BTCUSDT'' @ CHR 0x00 # interval)"
  by (auto simp: WatchCandles_def watch_key_def validateWatch_def websocketInstrumentKey_def portableCandleInterval_def sample_socket_meta_def)
    (auto simp: sample_instrument_def)

theorem watch_keys_are_exact_witness:
  "(\<exists>plain. WatchOrderBook dec_ops sample_socket_meta None sample_instrument 0 = Inr plain) \<and>
   ''binance:perp:symbol:BTCUSDT'' @ CHR 0x00 # ''1m'' \<noteq> ''binance:perp:symbol:BTCUSDT'' @ CHR 0x00 # ''1h''"
  using watch_keys_are_exact [OF sample_candle_watch [of "''1m''"] sample_candle_watch [of "''1h''"]] by auto

section \<open>Topics and watches\<close>

record WsTopic =
  wt_subscriptions :: "nat list"
  wt_starting :: bool
  wt_startErr :: "goerror option"
  wt_stop :: bool

text \<open>Where a watch is: in the start call, waiting for it, before the last check, or back with an error or a subscription.\<close>

datatype Phase = Starting | Waiting | Started | Returned "goerror option"

record Watch =
  wa_key :: string
  wa_topic :: nat
  wa_phase :: Phase
  wa_closed :: bool
  wa_closeOnce :: bool

record PublicSocket =
  ps_topics :: "string \<rightharpoonup> nat"
  ps_topic :: "nat \<Rightarrow> WsTopic"
  ps_newTopic :: nat
  ps_watches :: "nat \<rightharpoonup> Watch"
  ps_newId :: nat
  ps_closed :: bool
  ps_running :: "nat list"

definition newPublicSocket :: PublicSocket where
  "newPublicSocket =
     \<lparr>ps_topics = Map.empty, ps_topic = (\<lambda>t. \<lparr>wt_subscriptions = [], wt_starting = False, wt_startErr = None, wt_stop = False\<rparr>),
      ps_newTopic = 0, ps_watches = Map.empty, ps_newId = 0, ps_closed = False, ps_running = []\<rparr>"

text \<open>The first critical section of watchWebSocketTopic, on an open socket: the number of the watch is new.\<close>

definition watch_begin :: "string \<Rightarrow> PublicSocket \<Rightarrow> PublicSocket" where
  "watch_begin key s =
     (let i = ps_newId s in
      case ps_topics s key of
        None \<Rightarrow>
          (let t = ps_newTopic s in
           s\<lparr>ps_topics := (ps_topics s)(key \<mapsto> t),
             ps_topic := (ps_topic s)(t := \<lparr>wt_subscriptions = [i], wt_starting = True, wt_startErr = None, wt_stop = False\<rparr>),
             ps_newTopic := Suc t,
             ps_watches := (ps_watches s)(i \<mapsto> \<lparr>wa_key = key, wa_topic = t, wa_phase = Starting, wa_closed = False, wa_closeOnce = False\<rparr>),
             ps_newId := Suc i\<rparr>)
      | Some t \<Rightarrow>
          s\<lparr>ps_topic := (ps_topic s)(t := (ps_topic s t)\<lparr>wt_subscriptions := i # wt_subscriptions (ps_topic s t)\<rparr>),
            ps_watches := (ps_watches s)(i \<mapsto> \<lparr>wa_key = key, wa_topic = t, wa_phase = Waiting, wa_closed = False, wa_closeOnce = False\<rparr>),
            ps_newId := Suc i\<rparr>)"

text \<open>After the start call of a watch: it gave an error, or a running stream with its stop function.\<close>

definition start_returns ::
  "clientMeta \<Rightarrow> string \<Rightarrow> nat \<Rightarrow> Watch \<Rightarrow> goerror option \<Rightarrow> goerror option \<Rightarrow> PublicSocket \<Rightarrow> PublicSocket" where
  "start_returns meta operation i w startErr contextErr s =
     (let t = wa_topic w; topic = ps_topic s t;
          err = normalizeWebSocketStartupError meta operation startErr contextErr (ps_closed s);
          unused = (wt_subscriptions topic = []);
          started = (startErr = None) in
      s\<lparr>ps_topic := (ps_topic s)(t := topic\<lparr>wt_starting := False, wt_startErr := err, wt_stop := started \<and> \<not> unused\<rparr>),
        ps_topics := (if (err \<noteq> None \<or> unused) \<and> ps_topics s (wa_key w) = Some t then (ps_topics s)(wa_key w := None) else ps_topics s),
        ps_running := (if started \<and> \<not> unused then t # ps_running s else ps_running s),
        ps_watches := (ps_watches s)(i \<mapsto> w\<lparr>wa_phase := Started\<rparr>)\<rparr>)"

text \<open>removeWebSocketTopicSubscription: the topic is the one that has the key now.\<close>

definition removeWebSocketTopicSubscription :: "string \<Rightarrow> nat \<Rightarrow> PublicSocket \<Rightarrow> PublicSocket" where
  "removeWebSocketTopicSubscription key i s =
     (case ps_topics s key of
        None \<Rightarrow> s
      | Some t \<Rightarrow>
          (let topic = (ps_topic s t)\<lparr>wt_subscriptions := removeAll i (wt_subscriptions (ps_topic s t))\<rparr>;
               s1 = s\<lparr>ps_topic := (ps_topic s)(t := topic)\<rparr> in
           if wt_subscriptions topic \<noteq> [] \<or> wt_starting topic then s1
           else s1\<lparr>ps_topics := (ps_topics s)(key := None),
                   ps_running := (if wt_stop topic then removeAll t (ps_running s) else ps_running s)\<rparr>))"

text \<open>Close of a subscription, which acts once.\<close>

definition subscription_Close :: "nat \<Rightarrow> Watch \<Rightarrow> PublicSocket \<Rightarrow> PublicSocket" where
  "subscription_Close i w s =
     (if wa_closeOnce w then s
      else removeWebSocketTopicSubscription (wa_key w) i
             (s\<lparr>ps_watches := (ps_watches s)(i \<mapsto> w\<lparr>wa_closed := True, wa_closeOnce := True\<rparr>)\<rparr>))"

text \<open>The select of a watch that did not start the topic: its own context, or the socket's end.\<close>

definition wait_ends :: "nat \<Rightarrow> Watch \<Rightarrow> goerror \<Rightarrow> PublicSocket \<Rightarrow> PublicSocket" where
  "wait_ends i w err s =
     (let s1 = subscription_Close i w s in
      s1\<lparr>ps_watches := (ps_watches s1)(i \<mapsto> w\<lparr>wa_closed := True, wa_closeOnce := True, wa_phase := Returned (Some err)\<rparr>)\<rparr>)"

text \<open>The last critical section and what follows it.\<close>

definition watch_returns :: "clientMeta \<Rightarrow> string \<Rightarrow> nat \<Rightarrow> Watch \<Rightarrow> PublicSocket \<Rightarrow> PublicSocket" where
  "watch_returns meta operation i w s =
     s\<lparr>ps_watches := (ps_watches s)(i \<mapsto>
        (case wt_startErr (ps_topic s (wa_topic w)) of
           Some err \<Rightarrow> w\<lparr>wa_closed := True, wa_phase := Returned (Some err)\<rparr>
         | None \<Rightarrow>
             if ps_closed s \<or> wa_closed w
             then w\<lparr>wa_closed := True,
                    wa_phase := Returned (Some (socket_error meta operation KindSubscriptionClosed ''websocket client is closed''))\<rparr>
             else w\<lparr>wa_phase := Returned None\<rparr>))\<rparr>"

inductive socket_step :: "clientMeta \<Rightarrow> PublicSocket \<Rightarrow> PublicSocket \<Rightarrow> bool" for meta where
  watch: "\<not> ps_closed s \<Longrightarrow> socket_step meta s (watch_begin key s)"
| start: "ps_watches s i = Some w \<Longrightarrow> wa_phase w = Starting \<Longrightarrow>
    socket_step meta s (start_returns meta operation i w startErr contextErr s)"
| ready: "ps_watches s i = Some w \<Longrightarrow> wa_phase w = Waiting \<Longrightarrow> \<not> wt_starting (ps_topic s (wa_topic w)) \<Longrightarrow>
    socket_step meta s (s\<lparr>ps_watches := (ps_watches s)(i \<mapsto> w\<lparr>wa_phase := Started\<rparr>)\<rparr>)"
| give_up: "ps_watches s i = Some w \<Longrightarrow> wa_phase w = Waiting \<Longrightarrow> socket_step meta s (wait_ends i w err s)"
| finish: "ps_watches s i = Some w \<Longrightarrow> wa_phase w = Started \<Longrightarrow> socket_step meta s (watch_returns meta operation i w s)"
| leave: "ps_watches s i = Some w \<Longrightarrow> socket_step meta s (subscription_Close i w s)"
| shut: "socket_step meta s (s\<lparr>ps_closed := True\<rparr>)"

section \<open>Streams follow their subscriptions\<close>

text \<open>A registered topic is starting for one watch, or its stream runs for subscriptions that are open.\<close>

definition topic_ok :: "PublicSocket \<Rightarrow> string \<Rightarrow> nat \<Rightarrow> bool" where
  "topic_ok s key t \<longleftrightarrow>
     t < ps_newTopic s \<and> wt_startErr (ps_topic s t) = None \<and>
     (if wt_starting (ps_topic s t)
      then t \<notin> set (ps_running s) \<and> (\<exists>i w. ps_watches s i = Some w \<and> wa_phase w = Starting \<and> wa_topic w = t)
      else wt_subscriptions (ps_topic s t) \<noteq> [] \<and> wt_stop (ps_topic s t) \<and> t \<in> set (ps_running s)) \<and>
     (\<forall>i\<in>set (wt_subscriptions (ps_topic s t)). \<exists>w. ps_watches s i = Some w \<and> wa_topic w = t \<and> wa_key w = key \<and>
        \<not> wa_closeOnce w \<and> (wa_closed w \<longrightarrow> ps_closed s))"

definition watch_ok :: "PublicSocket \<Rightarrow> nat \<Rightarrow> Watch \<Rightarrow> bool" where
  "watch_ok s i w \<longleftrightarrow>
     i < ps_newId s \<and> wa_topic w < ps_newTopic s \<and> (wa_closeOnce w \<longrightarrow> wa_closed w) \<and>
     (\<not> wa_closed w \<longrightarrow> i \<in> set (wt_subscriptions (ps_topic s (wa_topic w))) \<and>
        (ps_topics s (wa_key w) = Some (wa_topic w) \<or> wt_startErr (ps_topic s (wa_topic w)) \<noteq> None)) \<and>
     (wa_phase w = Starting \<longrightarrow> wt_starting (ps_topic s (wa_topic w)) \<and> ps_topics s (wa_key w) = Some (wa_topic w)) \<and>
     (wa_phase w = Started \<longrightarrow> \<not> wt_starting (ps_topic s (wa_topic w))) \<and>
     (wa_phase w = Returned None \<longrightarrow> \<not> wt_starting (ps_topic s (wa_topic w)) \<and> wt_startErr (ps_topic s (wa_topic w)) = None) \<and>
     (\<forall>err. wa_phase w = Returned (Some err) \<longrightarrow> wa_closed w)"

definition socket_ok :: "PublicSocket \<Rightarrow> bool" where
  "socket_ok s \<longleftrightarrow>
     (\<forall>key t. ps_topics s key = Some t \<longrightarrow> topic_ok s key t) \<and>
     (\<forall>key key' t. ps_topics s key = Some t \<longrightarrow> ps_topics s key' = Some t \<longrightarrow> key = key') \<and>
     (\<forall>i w. ps_watches s i = Some w \<longrightarrow> watch_ok s i w) \<and>
     (\<forall>i j v w. ps_watches s i = Some v \<longrightarrow> ps_watches s j = Some w \<longrightarrow> wa_phase v = Starting \<longrightarrow> wa_phase w = Starting \<longrightarrow>
        wa_topic v = wa_topic w \<longrightarrow> i = j) \<and>
     distinct (ps_running s) \<and>
     (\<forall>t\<in>set (ps_running s). t < ps_newTopic s \<and>
        (ps_closed s \<or> (\<exists>key. ps_topics s key = Some t \<and> \<not> wt_starting (ps_topic s t))))"

lemma socket_ok_parts:
  assumes "socket_ok s"
  shows "ps_topics s key = Some t \<Longrightarrow> topic_ok s key t"
    and "ps_topics s key = Some t \<Longrightarrow> ps_topics s key' = Some t \<Longrightarrow> key = key'"
    and "ps_watches s i = Some w \<Longrightarrow> watch_ok s i w"
    and "ps_watches s i = Some v \<Longrightarrow> ps_watches s j = Some w \<Longrightarrow> wa_phase v = Starting \<Longrightarrow> wa_phase w = Starting \<Longrightarrow>
      wa_topic v = wa_topic w \<Longrightarrow> i = j"
    and "distinct (ps_running s)"
    and "t \<in> set (ps_running s) \<Longrightarrow> t < ps_newTopic s \<and>
      (ps_closed s \<or> (\<exists>key. ps_topics s key = Some t \<and> \<not> wt_starting (ps_topic s t)))"
  using assms unfolding socket_ok_def by blast+

lemma socket_okI:
  assumes "\<And>key t. ps_topics s key = Some t \<Longrightarrow> topic_ok s key t"
    and "\<And>key key' t. ps_topics s key = Some t \<Longrightarrow> ps_topics s key' = Some t \<Longrightarrow> key = key'"
    and "\<And>i w. ps_watches s i = Some w \<Longrightarrow> watch_ok s i w"
    and "\<And>i j v w. ps_watches s i = Some v \<Longrightarrow> ps_watches s j = Some w \<Longrightarrow> wa_phase v = Starting \<Longrightarrow> wa_phase w = Starting \<Longrightarrow>
      wa_topic v = wa_topic w \<Longrightarrow> i = j"
    and "distinct (ps_running s)"
    and "\<And>t. t \<in> set (ps_running s) \<Longrightarrow> t < ps_newTopic s \<and>
      (ps_closed s \<or> (\<exists>key. ps_topics s key = Some t \<and> \<not> wt_starting (ps_topic s t)))"
  shows "socket_ok s"
  using assms unfolding socket_ok_def by blast

lemma new_socket_ok: "socket_ok newPublicSocket"
  by (simp add: socket_ok_def newPublicSocket_def)

text \<open>A watch that a step leaves open: same topic, and not closed by it unless the socket is.\<close>

definition keeps :: "PublicSocket \<Rightarrow> Watch \<Rightarrow> Watch \<Rightarrow> bool" where
  "keeps s' w w' \<longleftrightarrow> wa_topic w' = wa_topic w \<and> wa_key w' = wa_key w \<and>
     (wa_closeOnce w' \<longrightarrow> wa_closeOnce w) \<and> (wa_closed w' \<longrightarrow> wa_closed w \<or> ps_closed s')"

lemma keeps_refl [simp]: "keeps s' w w"
  by (simp add: keeps_def)

lemma topic_ok_frame:
  assumes "topic_ok s key t" "ps_topic s' t = ps_topic s t" "ps_newTopic s \<le> ps_newTopic s'" "ps_closed s \<longrightarrow> ps_closed s'"
    and "t \<in> set (ps_running s') \<longleftrightarrow> t \<in> set (ps_running s)"
    and "\<And>i w. ps_watches s i = Some w \<Longrightarrow> wa_topic w = t \<Longrightarrow> i \<in> set (wt_subscriptions (ps_topic s t)) \<Longrightarrow>
      \<exists>w'. ps_watches s' i = Some w' \<and> keeps s' w w'"
    and "\<And>i w. ps_watches s i = Some w \<Longrightarrow> wa_phase w = Starting \<Longrightarrow> wa_topic w = t \<Longrightarrow>
      \<exists>w'. ps_watches s' i = Some w' \<and> wa_phase w' = Starting \<and> wa_topic w' = t"
  shows "topic_ok s' key t"
proof -
  have "\<exists>w'. ps_watches s' i = Some w' \<and> wa_topic w' = t \<and> wa_key w' = key \<and> \<not> wa_closeOnce w' \<and> (wa_closed w' \<longrightarrow> ps_closed s')"
    if i: "i \<in> set (wt_subscriptions (ps_topic s t))" for i
  proof -
    obtain w where w: "ps_watches s i = Some w" "wa_topic w = t" "wa_key w = key" "\<not> wa_closeOnce w" "wa_closed w \<longrightarrow> ps_closed s"
      using assms(1) i by (auto simp: topic_ok_def)
    then show ?thesis
      using assms(6) [OF w(1,2) i] assms(4) by (auto simp: keeps_def)
  qed
  then show ?thesis
    using assms(1-5,7) unfolding topic_ok_def by (auto split: if_splits) (metis | blast)+
qed

lemma watch_ok_frame:
  assumes "watch_ok s i w" "ps_newTopic s \<le> ps_newTopic s'" "ps_newId s \<le> ps_newId s'"
    and "wt_starting (ps_topic s' (wa_topic w)) = wt_starting (ps_topic s (wa_topic w))"
    and "wt_startErr (ps_topic s' (wa_topic w)) = wt_startErr (ps_topic s (wa_topic w))"
    and "\<not> wa_closed w \<Longrightarrow> i \<in> set (wt_subscriptions (ps_topic s (wa_topic w))) \<Longrightarrow> i \<in> set (wt_subscriptions (ps_topic s' (wa_topic w)))"
    and "\<not> wa_closed w \<or> wa_phase w = Starting \<Longrightarrow> ps_topics s (wa_key w) = Some (wa_topic w) \<Longrightarrow> ps_topics s' (wa_key w) = Some (wa_topic w)"
  shows "watch_ok s' i w"
  using assms unfolding watch_ok_def by auto

lemma watch_first_ok:
  assumes "socket_ok s" and None: "ps_topics s key = None"
  shows "socket_ok (watch_begin key s)"
proof -
  let ?t = "ps_newTopic s" and ?i = "ps_newId s" and ?s = "watch_begin key s"
  have old: "k \<noteq> key" "t \<noteq> ?t" if "ps_topics s k = Some t" for k t
    using socket_ok_parts(1) [OF assms(1) that] None that by (auto simp: topic_ok_def)
  have watches: "i \<noteq> ?i" "wa_topic w \<noteq> ?t" if "ps_watches s i = Some w" for i w
    using socket_ok_parts(3) [OF assms(1) that] by (auto simp: watch_ok_def)
  have running: "?t \<notin> set (ps_running s)"
    using socket_ok_parts(6) [OF assms(1)] by blast
  show ?thesis
  proof (rule socket_okI)
  show "topic_ok ?s k t" if "ps_topics ?s k = Some t" for k t
  proof (cases "k = key")
    case True
    then show ?thesis
      using that None running by (auto simp: watch_begin_def topic_ok_def Let_def)
  next
    case False
    then have "ps_topics s k = Some t"
      using that None by (simp add: watch_begin_def Let_def)
    then show ?thesis
      using old watches None by (intro topic_ok_frame [OF socket_ok_parts(1) [OF assms(1)]]) (auto simp: watch_begin_def Let_def)
  qed
  show "watch_ok ?s i w" if "ps_watches ?s i = Some w" for i w
  proof (cases "i = ?i")
    case True
    then show ?thesis
      using that None by (auto simp: watch_begin_def watch_ok_def Let_def)
  next
    case False
    then have "ps_watches s i = Some w"
      using that None by (simp add: watch_begin_def Let_def)
    then show ?thesis
      using watches None by (intro watch_ok_frame [OF socket_ok_parts(3) [OF assms(1)]]) (auto simp: watch_begin_def Let_def)
  qed
    show "k = k'" if "ps_topics ?s k = Some t" "ps_topics ?s k' = Some t" for k k' t
      using that None old(2) socket_ok_parts(2) [OF assms(1)] by (auto simp: watch_begin_def Let_def split: if_splits)
    show "i = j" if "ps_watches ?s i = Some v" "ps_watches ?s j = Some w" "wa_phase v = Starting" "wa_phase w = Starting"
        "wa_topic v = wa_topic w" for i j v w
      using that None watches(2) [of i v] watches(2) [of j w] socket_ok_parts(4) [OF assms(1)]
      by (auto simp: watch_begin_def Let_def split: if_splits)
    show "distinct (ps_running ?s)"
      using None socket_ok_parts(5) [OF assms(1)] by (simp add: watch_begin_def Let_def)
    show "t < ps_newTopic ?s \<and> (ps_closed ?s \<or> (\<exists>k. ps_topics ?s k = Some t \<and> \<not> wt_starting (ps_topic ?s t)))"
      if "t \<in> set (ps_running ?s)" for t
      using that None running old(1) socket_ok_parts(6) [OF assms(1), of t]
      by (auto simp: watch_begin_def Let_def)
  qed
qed

lemma watch_join_ok:
  assumes "socket_ok s" and Some: "ps_topics s key = Some t"
  shows "socket_ok (watch_begin key s)"
proof -
  let ?i = "ps_newId s" and ?s = "watch_begin key s"
  have watches: "i \<noteq> ?i" if "ps_watches s i = Some w" for i w
    using socket_ok_parts(3) [OF assms(1) that] by (auto simp: watch_ok_def)
  have topic: "topic_ok s key t"
    using socket_ok_parts(1) [OF assms(1) Some] .
  show ?thesis
  proof (rule socket_okI)
    show "topic_ok ?s k u" if "ps_topics ?s k = Some u" for k u
    proof (cases "u = t")
      case True
      then have "k = key"
        using that Some socket_ok_parts(2) [OF assms(1)] by (auto simp: watch_begin_def Let_def)
      then show ?thesis
        using topic Some True watches by (auto simp: watch_begin_def topic_ok_def Let_def split: if_splits)
    next
      case False
      then show ?thesis
        using that watches Some
        by (intro topic_ok_frame [OF socket_ok_parts(1) [OF assms(1)]]) (auto simp: watch_begin_def Let_def)
    qed
    show "watch_ok ?s i w" if "ps_watches ?s i = Some w" for i w
    proof (cases "i = ?i")
      case True
      then show ?thesis
        using that Some topic by (auto simp: watch_begin_def watch_ok_def topic_ok_def Let_def)
    next
      case False
      then have "ps_watches s i = Some w"
        using that Some by (simp add: watch_begin_def Let_def)
      then show ?thesis
        using Some by (intro watch_ok_frame [OF socket_ok_parts(3) [OF assms(1)]]) (auto simp: watch_begin_def Let_def)
    qed
    show "k = k'" if "ps_topics ?s k = Some u" "ps_topics ?s k' = Some u" for k k' u
      using that Some socket_ok_parts(2) [OF assms(1)] by (simp add: watch_begin_def Let_def)
    show "i = j" if "ps_watches ?s i = Some v" "ps_watches ?s j = Some w" "wa_phase v = Starting" "wa_phase w = Starting"
        "wa_topic v = wa_topic w" for i j v w
      using that Some socket_ok_parts(4) [OF assms(1)] by (auto simp: watch_begin_def Let_def split: if_splits)
    show "distinct (ps_running ?s)"
      using Some socket_ok_parts(5) [OF assms(1)] by (simp add: watch_begin_def Let_def)
    show "u < ps_newTopic ?s \<and> (ps_closed ?s \<or> (\<exists>k. ps_topics ?s k = Some u \<and> \<not> wt_starting (ps_topic ?s u)))"
      if "u \<in> set (ps_running ?s)" for u
      using that Some socket_ok_parts(6) [OF assms(1), of u] by (auto simp: watch_begin_def Let_def)
  qed
qed

text \<open>The watch that starts a topic: what holds before its start returns, and the state after it.\<close>

lemma starting_watch:
  assumes "socket_ok s" "ps_watches s i = Some w" "wa_phase w = Starting"
  shows "ps_topics s (wa_key w) = Some (wa_topic w)" "wt_starting (ps_topic s (wa_topic w))"
    "topic_ok s (wa_key w) (wa_topic w)" "wa_topic w \<notin> set (ps_running s)"
    "\<And>j v. ps_watches s j = Some v \<Longrightarrow> wa_phase v = Starting \<Longrightarrow> wa_topic v = wa_topic w \<Longrightarrow> j = i"
proof -
  show watch: "ps_topics s (wa_key w) = Some (wa_topic w)" "wt_starting (ps_topic s (wa_topic w))"
    using socket_ok_parts(3) [OF assms(1,2)] assms(3) by (simp_all add: watch_ok_def)
  show "topic_ok s (wa_key w) (wa_topic w)"
    using socket_ok_parts(1) [OF assms(1) watch(1)] .
  then show "wa_topic w \<notin> set (ps_running s)"
    using watch(2) by (simp add: topic_ok_def)
  show "\<And>j v. ps_watches s j = Some v \<Longrightarrow> wa_phase v = Starting \<Longrightarrow> wa_topic v = wa_topic w \<Longrightarrow> j = i"
    using socket_ok_parts(4) [OF assms(1)] assms(2,3) by metis
qed

definition after_start :: "nat \<Rightarrow> Watch \<Rightarrow> goerror option \<Rightarrow> bool \<Rightarrow> bool \<Rightarrow> PublicSocket \<Rightarrow> PublicSocket" where
  "after_start i w err started unused s =
     s\<lparr>ps_topic := (ps_topic s)(wa_topic w := (ps_topic s (wa_topic w))\<lparr>wt_starting := False, wt_startErr := err, wt_stop := started \<and> \<not> unused\<rparr>),
       ps_topics := (if err \<noteq> None \<or> unused then (ps_topics s)(wa_key w := None) else ps_topics s),
       ps_running := (if started \<and> \<not> unused then wa_topic w # ps_running s else ps_running s),
       ps_watches := (ps_watches s)(i \<mapsto> w\<lparr>wa_phase := Started\<rparr>)\<rparr>"

lemma after_start_topics:
  assumes ok: "socket_ok s" and w: "ps_watches s i = Some w" "wa_phase w = Starting"
    and unused: "unused = (wt_subscriptions (ps_topic s (wa_topic w)) = [])" and err: "err = None \<Longrightarrow> started"
    and k: "ps_topics (after_start i w err started unused s) k = Some u"
  shows "topic_ok (after_start i w err started unused s) k u"
proof (cases "u = wa_topic w")
  case True
  then have "k = wa_key w" "err = None" "\<not> unused"
    using k starting_watch(1) [OF ok w] socket_ok_parts(2) [OF ok] unfolding after_start_def by (auto split: if_splits)
  then show ?thesis
    using True starting_watch(3) [OF ok w] err w(1) unfolding after_start_def topic_ok_def by (auto simp: unused)
next
  case False
  then have "ps_topics s k = Some u"
    using k unfolding after_start_def by (auto split: if_splits)
  then show ?thesis
    using False w(1) unfolding after_start_def by (intro topic_ok_frame [OF socket_ok_parts(1) [OF ok]]) auto
qed

lemma after_start_watches:
  assumes ok: "socket_ok s" and w: "ps_watches s i = Some w" "wa_phase w = Starting"
    and unused: "unused = (wt_subscriptions (ps_topic s (wa_topic w)) = [])"
    and v: "ps_watches (after_start i w err started unused s) j = Some v"
  shows "watch_ok (after_start i w err started unused s) j v"
proof (cases "j = i")
  case True
  then have "v = w\<lparr>wa_phase := Started\<rparr>"
    using v by (simp add: after_start_def)
  then show ?thesis
    using True socket_ok_parts(3) [OF ok w(1)] starting_watch(1) [OF ok w] by (auto simp: after_start_def watch_ok_def unused)
next
  case False
  then have old: "ps_watches s j = Some v" "watch_ok s j v"
    using v socket_ok_parts(3) [OF ok] unfolding after_start_def by auto
  show ?thesis
  proof (cases "wa_topic v = wa_topic w")
    case True
    then have "wt_startErr (ps_topic s (wa_topic v)) = None" "wt_starting (ps_topic s (wa_topic v))" "wa_phase v \<noteq> Starting"
      using starting_watch [OF ok w] old(1) False by (auto simp: topic_ok_def)
    moreover have "ps_topics s (wa_key v) = Some (wa_topic w) \<Longrightarrow> wa_key v = wa_key w"
      using socket_ok_parts(2) [OF ok] starting_watch(1) [OF ok w] by blast
    ultimately show ?thesis
      using True old(2) by (auto simp: after_start_def watch_ok_def unused)
  next
    case False
    then have "wa_key v \<noteq> wa_key w" if "ps_topics s (wa_key v) = Some (wa_topic v)"
      using that starting_watch(1) [OF ok w] by auto
    then show ?thesis
      using False by (intro watch_ok_frame [OF old(2)]) (auto simp: after_start_def)
  qed
qed

lemma after_start_ok:
  assumes ok: "socket_ok s" and w: "ps_watches s i = Some w" "wa_phase w = Starting"
    and unused: "unused = (wt_subscriptions (ps_topic s (wa_topic w)) = [])"
    and err: "err = None \<Longrightarrow> started" "err \<noteq> None \<Longrightarrow> started \<Longrightarrow> ps_closed s"
  shows "socket_ok (after_start i w err started unused s)"
proof (rule socket_okI)
  let ?s = "after_start i w err started unused s"
  note start = starting_watch [OF ok w]
  show "ps_topics ?s k = Some u \<Longrightarrow> topic_ok ?s k u" for k u
    by (rule after_start_topics [OF ok w unused err(1)])
  show "ps_watches ?s j = Some v \<Longrightarrow> watch_ok ?s j v" for j v
    by (rule after_start_watches [OF ok w unused])
  show "k = k'" if "ps_topics ?s k = Some u" "ps_topics ?s k' = Some u" for k k' u
    using that socket_ok_parts(2) [OF ok] unfolding after_start_def by (auto split: if_splits)
  show "j = j'" if "ps_watches ?s j = Some v" "ps_watches ?s j' = Some v'" "wa_phase v = Starting" "wa_phase v' = Starting"
      "wa_topic v = wa_topic v'" for j j' v v'
    using that socket_ok_parts(4) [OF ok] unfolding after_start_def by (auto split: if_splits)
  show "distinct (ps_running ?s)"
    using start(4) socket_ok_parts(5) [OF ok] unfolding after_start_def by simp
  show "u < ps_newTopic ?s \<and> (ps_closed ?s \<or> (\<exists>k. ps_topics ?s k = Some u \<and> \<not> wt_starting (ps_topic ?s u)))"
    if u: "u \<in> set (ps_running ?s)" for u
  proof (cases "u = wa_topic w")
    case True
    then have "started" "\<not> unused"
      using u start(4) by (auto simp: after_start_def split: if_splits)
    then show ?thesis
      using True start(1,3) err(2) by (cases err) (auto simp: after_start_def topic_ok_def)
  next
    case False
    then have "u \<in> set (ps_running s)"
      using u by (auto simp: after_start_def split: if_splits)
    then have "u < ps_newTopic s" "ps_closed s \<or> (\<exists>k. ps_topics s k = Some u \<and> k \<noteq> wa_key w \<and> \<not> wt_starting (ps_topic s u))"
      using socket_ok_parts(6) [OF ok] start(1) False by force+
    then show ?thesis
      using False by (auto simp: after_start_def)
  qed
qed

lemma start_returns_ok:
  assumes ok: "socket_ok s" and w: "ps_watches s i = Some w" "wa_phase w = Starting"
  shows "socket_ok (start_returns meta operation i w startErr contextErr s)"
proof -
  let ?err = "normalizeWebSocketStartupError meta operation startErr contextErr (ps_closed s)"
  have "start_returns meta operation i w startErr contextErr s =
      after_start i w ?err (startErr = None) (wt_subscriptions (ps_topic s (wa_topic w)) = []) s"
    using starting_watch(1) [OF ok w] by (simp add: start_returns_def after_start_def Let_def)
  moreover have "?err = None \<Longrightarrow> startErr = None" "?err \<noteq> None \<Longrightarrow> startErr = None \<Longrightarrow> ps_closed s"
    by (auto simp: normalizeWebSocketStartupError_def split: if_splits option.splits)
  ultimately show ?thesis
    using after_start_ok [OF ok w refl, of ?err "startErr = None"] by metis
qed

text \<open>A watch whose subscription is closed, and what it leaves in place.\<close>

lemma closed_watch_ok:
  assumes ok: "socket_ok s" and w: "ps_watches s i = Some w" and w': "wa_topic w' = wa_topic w" "wa_key w' = wa_key w"
      "wa_closed w'" "wa_phase w' = wa_phase w \<or> wa_phase w \<noteq> Starting \<and> (\<exists>err. wa_phase w' = Returned (Some err))"
    and t: "i \<in> set (wt_subscriptions (ps_topic s (wa_topic w))) \<Longrightarrow> ps_topics s (wa_key w) \<noteq> Some (wa_topic w)"
  shows "socket_ok (s\<lparr>ps_watches := (ps_watches s)(i \<mapsto> w')\<rparr>)" (is "socket_ok ?s")
proof (rule socket_okI)
  show "topic_ok ?s k u" if "ps_topics ?s k = Some u" for k u
  proof -
    have k: "ps_topics s k = Some u" "topic_ok s k u"
      using that socket_ok_parts(1) [OF ok] by simp_all
    have "i \<notin> set (wt_subscriptions (ps_topic s u))"
    proof
      assume i: "i \<in> set (wt_subscriptions (ps_topic s u))"
      then have "wa_topic w = u" "wa_key w = k"
        using k(2) w by (auto simp: topic_ok_def)
      then show False
        using t i k(1) by simp
    qed
    then show ?thesis
      using w w' by (intro topic_ok_frame [OF k(2)]) auto
  qed
  show "watch_ok ?s j v" if "ps_watches ?s j = Some v" for j v
  proof (cases "j = i")
    case True
    then show ?thesis
      using that socket_ok_parts(3) [OF ok w] w' by (auto simp: watch_ok_def)
  next
    case False
    then show ?thesis
      using that by (intro watch_ok_frame [OF socket_ok_parts(3) [OF ok]]) auto
  qed
qed (use ok w w' socket_ok_parts(2,4,5,6) [OF ok] in \<open>auto split: if_splits\<close>)

lemma remove_absent:
  assumes "ps_topics s key = Some t" "i \<notin> set (wt_subscriptions (ps_topic s t))"
    and "wt_subscriptions (ps_topic s t) \<noteq> [] \<or> wt_starting (ps_topic s t)"
  shows "removeWebSocketTopicSubscription key i s = s"
  using assms by (cases s) (simp add: removeWebSocketTopicSubscription_def Let_def)

lemma remove_fields:
  fixes i :: nat
  assumes "ps_topics s key = Some t"
  defines "gone \<equiv> set (wt_subscriptions (ps_topic s t)) \<subseteq> {i} \<and> \<not> wt_starting (ps_topic s t)"
  shows "ps_topic (removeWebSocketTopicSubscription key i s) =
      (ps_topic s)(t := (ps_topic s t)\<lparr>wt_subscriptions := removeAll i (wt_subscriptions (ps_topic s t))\<rparr>)"
    "ps_topics (removeWebSocketTopicSubscription key i s) = (if gone then (ps_topics s)(key := None) else ps_topics s)"
    "ps_running (removeWebSocketTopicSubscription key i s) =
      (if gone \<and> wt_stop (ps_topic s t) then removeAll t (ps_running s) else ps_running s)"
  using assms(1) by (simp_all add: removeWebSocketTopicSubscription_def gone_def removeAll_Nil_iff Let_def)

lemma remove_keeps [simp]:
  "ps_watches (removeWebSocketTopicSubscription key i s) = ps_watches s"
  "ps_newTopic (removeWebSocketTopicSubscription key i s) = ps_newTopic s"
  "ps_newId (removeWebSocketTopicSubscription key i s) = ps_newId s"
  "ps_closed (removeWebSocketTopicSubscription key i s) = ps_closed s"
  by (simp_all add: removeWebSocketTopicSubscription_def Let_def split: option.split)

lemma removed_topics:
  assumes ok: "socket_ok s" and w: "ps_watches s i = Some w" and t: "ps_topics s (wa_key w) = Some t"
    and w': "wa_topic w' = wa_topic w" "wa_phase w' = wa_phase w \<or> wa_phase w \<noteq> Starting"
    and i: "i \<in> set (wt_subscriptions (ps_topic s t))"
    and k: "ps_topics (removeWebSocketTopicSubscription (wa_key w) i (s\<lparr>ps_watches := (ps_watches s)(i \<mapsto> w')\<rparr>)) k = Some u"
  shows "topic_ok (removeWebSocketTopicSubscription (wa_key w) i (s\<lparr>ps_watches := (ps_watches s)(i \<mapsto> w')\<rparr>)) k u"
    (is "topic_ok ?s k u")
proof -
  let ?m = "s\<lparr>ps_watches := (ps_watches s)(i \<mapsto> w')\<rparr>"
  have "ps_topics ?m (wa_key w) = Some t"
    using t by simp
  note after = remove_fields [OF this]
  have topic: "topic_ok s (wa_key w) t" "wa_topic w = t"
    using i w socket_ok_parts(1) [OF ok t] by (auto simp: topic_ok_def)
  have old: "ps_topics s k = Some u"
    using k by (auto simp: after split: if_splits)
  show ?thesis
  proof (cases "u = t")
    case True
    then have "k = wa_key w"
      using old t socket_ok_parts(2) [OF ok] by blast
    then have "\<exists>j\<in>set (wt_subscriptions (ps_topic s t)). j \<noteq> i" if "\<not> wt_starting (ps_topic s t)"
      using k that by (auto simp: after split: if_splits)
    moreover have "\<exists>j v. ps_watches ?s j = Some v \<and> wa_phase v = Starting \<and> wa_topic v = t" if "wt_starting (ps_topic s t)"
      using that topic w w' by (auto simp: topic_ok_def) (metis option.inject)+
    ultimately show ?thesis
      using True topic w w' \<open>k = wa_key w\<close> by (auto simp: after topic_ok_def removeAll_Nil_iff)
  next
    case False
    have "topic_ok s k u"
      using socket_ok_parts(1) [OF ok old] .
    then show ?thesis
      using False topic(2) w w' by (elim topic_ok_frame) (auto simp: after)
  qed
qed

lemma removed_watches:
  assumes ok: "socket_ok s" and w: "ps_watches s i = Some w" and t: "ps_topics s (wa_key w) = Some t"
    and w': "wa_topic w' = wa_topic w" "wa_key w' = wa_key w" "wa_closed w'"
      "wa_phase w' = wa_phase w \<or> wa_phase w \<noteq> Starting \<and> (\<exists>err. wa_phase w' = Returned (Some err))"
    and v: "ps_watches (removeWebSocketTopicSubscription (wa_key w) i (s\<lparr>ps_watches := (ps_watches s)(i \<mapsto> w')\<rparr>)) j = Some v"
  shows "watch_ok (removeWebSocketTopicSubscription (wa_key w) i (s\<lparr>ps_watches := (ps_watches s)(i \<mapsto> w')\<rparr>)) j v"
    (is "watch_ok ?s j v")
proof -
  have "ps_topics (s\<lparr>ps_watches := (ps_watches s)(i \<mapsto> w')\<rparr>) (wa_key w) = Some t"
    using t by simp
  note after = remove_fields [OF this]
  have same: "wt_starting (ps_topic ?s u) = wt_starting (ps_topic s u)" "wt_startErr (ps_topic ?s u) = wt_startErr (ps_topic s u)" for u
    by (simp_all add: after)
  show ?thesis
  proof (cases "j = i")
    case True
    then have "v = w'" "watch_ok s j v"
      using v w' socket_ok_parts(3) [OF ok w] by (auto simp: watch_ok_def)
    moreover have "wa_phase w = Starting \<Longrightarrow> wt_starting (ps_topic s t)"
      using socket_ok_parts(3) [OF ok w] t by (simp add: watch_ok_def)
    ultimately show ?thesis
      using w' by (elim watch_ok_frame) (auto simp: same after)
  next
    case False
    then have old: "watch_ok s j v"
      using v socket_ok_parts(3) [OF ok] by simp
    have "ps_topics ?s (wa_key v) = Some (wa_topic v)"
      if unclosed: "\<not> wa_closed v \<or> wa_phase v = Starting" and key: "ps_topics s (wa_key v) = Some (wa_topic v)"
    proof (cases "wa_key v = wa_key w")
      case True
      then have "wa_topic v = t"
        using key t by simp
      then have "j \<in> set (wt_subscriptions (ps_topic s t)) \<or> wt_starting (ps_topic s t)"
        using unclosed old by (auto simp: watch_ok_def)
      then show ?thesis
        using False key by (auto simp: after)
    qed (use key in \<open>simp add: after\<close>)
    then show ?thesis
      using old False by (elim watch_ok_frame) (auto simp: same after)
  qed
qed

lemma removed_ok:
  assumes ok: "socket_ok s" and w: "ps_watches s i = Some w" and w': "wa_topic w' = wa_topic w" "wa_key w' = wa_key w" "wa_closed w'"
      "wa_phase w' = wa_phase w \<or> wa_phase w \<noteq> Starting \<and> (\<exists>err. wa_phase w' = Returned (Some err))"
  shows "socket_ok (removeWebSocketTopicSubscription (wa_key w) i (s\<lparr>ps_watches := (ps_watches s)(i \<mapsto> w')\<rparr>))"
    (is "socket_ok (removeWebSocketTopicSubscription _ _ ?m)")
proof (cases "\<exists>t. ps_topics s (wa_key w) = Some t \<and> i \<in> set (wt_subscriptions (ps_topic s t))")
  case True
  then obtain t where t: "ps_topics s (wa_key w) = Some t" "i \<in> set (wt_subscriptions (ps_topic s t))"
    by blast
  let ?s = "removeWebSocketTopicSubscription (wa_key w) i ?m"
  have "ps_topics ?m (wa_key w) = Some t"
    using t by simp
  note after = remove_fields [OF this]
  show ?thesis
  proof (rule socket_okI)
    show "ps_topics ?s k = Some u \<Longrightarrow> topic_ok ?s k u" for k u
      by (rule removed_topics [OF ok w t(1) w'(1) _ t(2)]) (use w'(4) in auto)
    show "ps_watches ?s j = Some v \<Longrightarrow> watch_ok ?s j v" for j v
      by (rule removed_watches [OF ok w t(1) w'])
    show "k = k'" if "ps_topics ?s k = Some u" "ps_topics ?s k' = Some u" for k k' u
      using that socket_ok_parts(2) [OF ok, of k u k'] by (auto simp: after split: if_splits)
    show "j = j'" if "ps_watches ?s j = Some v" "ps_watches ?s j' = Some v'" "wa_phase v = Starting" "wa_phase v' = Starting"
        "wa_topic v = wa_topic v'" for j j' v v'
      using that w w' socket_ok_parts(4) [OF ok] by (auto split: if_splits)
    show "distinct (ps_running ?s)"
      using socket_ok_parts(5) [OF ok] by (simp add: after distinct_removeAll)
    show "u < ps_newTopic ?s \<and> (ps_closed ?s \<or> (\<exists>k. ps_topics ?s k = Some u \<and> \<not> wt_starting (ps_topic ?s u)))"
      if u: "u \<in> set (ps_running ?s)" for u
    proof -
      have old: "u \<in> set (ps_running s)" "u < ps_newTopic s"
          "ps_closed s \<or> (\<exists>k. ps_topics s k = Some u \<and> \<not> wt_starting (ps_topic s u))"
        using u socket_ok_parts(6) [OF ok, of u] by (auto simp: after split: if_splits)
      show ?thesis
      proof (cases "u = t")
        case True
        then have "wt_subscriptions (ps_topic ?s t) \<noteq> []"
          using u old(1) socket_ok_parts(1) [OF ok t(1)] by (auto simp: after topic_ok_def removeAll_Nil_iff split: if_splits)
        then show ?thesis
          using True old by (auto simp: after removeAll_Nil_iff)
      next
        case False
        then have "k \<noteq> wa_key w" if "ps_topics s k = Some u" for k
          using that t(1) by auto
        then show ?thesis
          using False old(2,3) by (auto simp: after)
      qed
    qed
  qed
next
  case False
  have "socket_ok ?m"
    using False by (intro closed_watch_ok [OF ok w w']) auto
  moreover have "removeWebSocketTopicSubscription (wa_key w) i ?m = ?m"
  proof (cases "ps_topics s (wa_key w)")
    case None
    then show ?thesis
      by (simp add: removeWebSocketTopicSubscription_def)
  next
    case (Some t)
    then show ?thesis
      using False socket_ok_parts(1) [OF ok Some] by (intro remove_absent) (auto simp: topic_ok_def split: if_splits)
  qed
  ultimately show ?thesis
    by simp
qed

lemma subscription_Close_ok:
  assumes "socket_ok s" "ps_watches s i = Some w"
  shows "socket_ok (subscription_Close i w s)"
  using assms removed_ok [OF assms, of "w\<lparr>wa_closed := True, wa_closeOnce := True\<rparr>"] by (simp add: subscription_Close_def)

lemma wait_ends_ok:
  assumes "socket_ok s" "ps_watches s i = Some w" "wa_phase w = Waiting"
  shows "socket_ok (wait_ends i w err s)"
proof (cases "wa_closeOnce w")
  case True
  let ?w = "w\<lparr>wa_closed := True, wa_closeOnce := True, wa_phase := Returned (Some err)\<rparr>"
  have "i \<notin> set (wt_subscriptions (ps_topic s (wa_topic w)))" if "ps_topics s (wa_key w) = Some (wa_topic w)"
    using socket_ok_parts(1) [OF assms(1) that] assms(2) True by (auto simp: topic_ok_def)
  then have "socket_ok (s\<lparr>ps_watches := (ps_watches s)(i \<mapsto> ?w)\<rparr>)"
    using assms by (intro closed_watch_ok [OF assms(1,2)]) auto
  then show ?thesis
    using True by (simp add: wait_ends_def subscription_Close_def Let_def)
next
  case False
  let ?w = "w\<lparr>wa_closed := True, wa_closeOnce := True, wa_phase := Returned (Some err)\<rparr>"
  have "wait_ends i w err s = removeWebSocketTopicSubscription (wa_key w) i (s\<lparr>ps_watches := (ps_watches s)(i \<mapsto> ?w)\<rparr>)"
    using False
    by (simp add: wait_ends_def subscription_Close_def removeWebSocketTopicSubscription_def Let_def split: option.split)
  then show ?thesis
    using removed_ok [OF assms(1,2), of ?w] assms(3) by simp
qed

text \<open>A change of phase, and of the closed flag on a closed socket or after a failed start.\<close>

lemma phase_ok:
  assumes ok: "socket_ok s" and w: "ps_watches s i = Some w" "wa_phase w \<noteq> Starting" and w': "watch_ok s i w'" "wa_phase w' \<noteq> Starting"
    and same: "wa_topic w' = wa_topic w" "wa_key w' = wa_key w" "wa_closeOnce w' = wa_closeOnce w"
    and closed: "wa_closed w' \<Longrightarrow> wa_closed w \<or> ps_closed s \<or> wt_startErr (ps_topic s (wa_topic w)) \<noteq> None"
  shows "socket_ok (s\<lparr>ps_watches := (ps_watches s)(i \<mapsto> w')\<rparr>)" (is "socket_ok ?s")
proof (rule socket_okI)
  show "topic_ok ?s k u" if "ps_topics ?s k = Some u" for k u
  proof -
    have topic: "topic_ok s k u"
      using that socket_ok_parts(1) [OF ok] by simp
    then have "wt_startErr (ps_topic s u) = None"
      by (simp add: topic_ok_def)
    then show ?thesis
      using w same closed by (intro topic_ok_frame [OF topic]) (auto simp: keeps_def)
  qed
  show "watch_ok ?s j v" if "ps_watches ?s j = Some v" for j v
    using that socket_ok_parts(3) [OF ok, of j] w' by (auto simp: watch_ok_def split: if_splits)
qed (use w w' socket_ok_parts(2,4,5,6) [OF ok] in \<open>auto split: if_splits\<close>)

lemma socket_step_ok: "socket_step meta s s' \<Longrightarrow> socket_ok s \<Longrightarrow> socket_ok s'"
proof (induction rule: socket_step.induct)
  case (watch s key)
  then show ?case
    by (cases "ps_topics s key") (auto intro: watch_first_ok watch_join_ok)
next
  case (ready s i w)
  then show ?case
    using socket_ok_parts(3) [of s i w] by (intro phase_ok [of s i w]) (auto simp: watch_ok_def)
next
  case (finish s i w operation)
  then show ?case
    unfolding watch_returns_def using socket_ok_parts(3) [of s i w]
    by (intro phase_ok [of s i w]) (auto simp: watch_ok_def split: option.splits if_splits)
next
  case (shut s)
  let ?s = "s\<lparr>ps_closed := True\<rparr>"
  show ?case
  proof (rule socket_okI)
    show "topic_ok ?s key t" if "ps_topics ?s key = Some t" for key t
      using that by (intro topic_ok_frame [OF socket_ok_parts(1) [OF shut]]) auto
    show "watch_ok ?s i w" if "ps_watches ?s i = Some w" for i w
      using that by (intro watch_ok_frame [OF socket_ok_parts(3) [OF shut]]) auto
  qed (use socket_ok_parts(2,4,5,6) [OF shut] in auto)
qed (auto intro: start_returns_ok wait_ends_ok subscription_Close_ok)

lemma socket_run_ok: "(socket_step meta)\<^sup>*\<^sup>* newPublicSocket s \<Longrightarrow> socket_ok s"
  by (induction rule: rtranclp_induct) (auto intro: new_socket_ok socket_step_ok)


text \<open>Two watches of one key share a stream; it runs until the second is closed.\<close>

definition sample_two :: PublicSocket where
  "sample_two = watch_begin ''k'' (watch_begin ''k'' newPublicSocket)"

abbreviation sample_topic :: "nat list \<Rightarrow> bool \<Rightarrow> goerror option \<Rightarrow> bool \<Rightarrow> WsTopic" where
  "sample_topic subscriptions starting err stop \<equiv>
     \<lparr>wt_subscriptions = subscriptions, wt_starting = starting, wt_startErr = err, wt_stop = stop\<rparr>"

abbreviation sample_watch :: "Phase \<Rightarrow> bool \<Rightarrow> Watch" where
  "sample_watch phase is_closed \<equiv> \<lparr>wa_key = ''k'', wa_topic = 0, wa_phase = phase, wa_closed = is_closed, wa_closeOnce = is_closed\<rparr>"

definition sample_socket :: "bool \<Rightarrow> WsTopic \<Rightarrow> Watch \<Rightarrow> Watch \<Rightarrow> nat list \<Rightarrow> PublicSocket" where
  "sample_socket registered topic v w streams =
     \<lparr>ps_topics = (if registered then [''k'' \<mapsto> 0] else Map.empty),
      ps_topic = (\<lambda>t. \<lparr>wt_subscriptions = [], wt_starting = False, wt_startErr = None, wt_stop = False\<rparr>)(0 := topic), ps_newTopic = 1,
      ps_watches = [0 \<mapsto> v, 1 \<mapsto> w], ps_newId = 2, ps_closed = False, ps_running = streams\<rparr>"

lemma sample_two_eq: "sample_two = sample_socket True (sample_topic [1, 0] True None False) (sample_watch Starting False) (sample_watch Waiting False) []"
  by (simp add: sample_two_def sample_socket_def watch_begin_def newPublicSocket_def Let_def numeral_2_eq_2)

lemma sample_socket_watches [simp]:
  "ps_watches (sample_socket r t v w xs) 0 = Some v" "ps_watches (sample_socket r t v w xs) (Suc 0) = Some w"
  "ps_topic (sample_socket r t v w xs) 0 = t"
  "(sample_socket r t v w xs)\<lparr>ps_watches := (ps_watches (sample_socket r t v w xs))(0 \<mapsto> v')\<rparr> = sample_socket r t v' w xs"
  "(sample_socket r t v w xs)\<lparr>ps_watches := (ps_watches (sample_socket r t v w xs))(Suc 0 \<mapsto> w')\<rparr> = sample_socket r t v w' xs"
  by (auto simp: sample_socket_def)

lemma sample_two_reached: "(socket_step sample_socket_meta)\<^sup>*\<^sup>* newPublicSocket sample_two"
proof -
  let ?s = "watch_begin ''k'' newPublicSocket"
  have "socket_step sample_socket_meta newPublicSocket ?s" "socket_step sample_socket_meta ?s sample_two"
    unfolding sample_two_def by (rule watch, simp add: newPublicSocket_def watch_begin_def Let_def)+
  then show ?thesis
    by (meson converse_rtranclp_into_rtranclp r_into_rtranclp)
qed

lemma run_steps: "R\<^sup>*\<^sup>* a b \<Longrightarrow> R b c \<Longrightarrow> R c d \<Longrightarrow> R d e \<Longrightarrow> R\<^sup>*\<^sup>* a e"
  by (meson rtranclp.rtrancl_into_rtrancl)

abbreviation sample_shared :: PublicSocket where
  "sample_shared \<equiv> sample_socket True (sample_topic [1] False None True) (sample_watch (Returned None) True) (sample_watch Waiting False) [0]"

lemma sample_shared_reached: "(socket_step sample_socket_meta)\<^sup>*\<^sup>* newPublicSocket sample_shared"
proof -
  let ?t = "sample_topic [1, 0] False None True" and ?w = "sample_watch Waiting False"
  let ?a = "sample_socket True ?t (sample_watch Started False) ?w [0]"
  let ?b = "sample_socket True ?t (sample_watch (Returned None) False) ?w [0]"
  have 1: "socket_step sample_socket_meta sample_two ?a"
    using start [of sample_two 0 "sample_watch Starting False" sample_socket_meta "''WatchBBO''" None None]
    by (simp add: sample_two_eq) (simp add: sample_socket_def start_returns_def normalizeWebSocketStartupError_def Let_def fun_upd_twist)
  have 2: "socket_step sample_socket_meta ?a ?b"
    using finish [of ?a 0 "sample_watch Started False" sample_socket_meta "''WatchBBO''"]
    by (simp add: watch_returns_def) (simp add: sample_socket_def)
  have "subscription_Close 0 (sample_watch (Returned None) False) ?b = sample_shared"
    by (simp add: subscription_Close_def) (simp add: sample_socket_def removeWebSocketTopicSubscription_def Let_def)
  then have 3: "socket_step sample_socket_meta ?b sample_shared"
    using leave [of ?b 0 "sample_watch (Returned None) False" sample_socket_meta] by simp
  show ?thesis
    by (rule run_steps [where R = "socket_step sample_socket_meta", OF sample_two_reached 1 2 3])
qed


text \<open>
  A watch that waits for another's start fails with the context of the other: the first watch is cancelled,
  and the second, whose own context is live, returns that its context ended.
\<close>

lemma cancelled_start_fails_the_waiting:
  "\<exists>s w. (socket_step sample_socket_meta)\<^sup>*\<^sup>* newPublicSocket s \<and> ps_watches s 1 = Some w \<and>
     wa_phase w = Returned (Some (websocketContextError sample_socket_meta ''WatchBBO'' ContextCanceled))"
proof -
  let ?err = "websocketContextError sample_socket_meta ''WatchBBO'' ContextCanceled"
  let ?t = "sample_topic [1, 0] False (Some ?err) False" and ?v = "sample_watch Started False"
  let ?a = "sample_socket False ?t ?v (sample_watch Waiting False) []"
  let ?b = "sample_socket False ?t ?v ?v []"
  let ?c = "watch_returns sample_socket_meta ''WatchBBO'' 1 ?v ?b"
  have 1: "socket_step sample_socket_meta sample_two ?a"
    using start [of sample_two 0 "sample_watch Starting False" sample_socket_meta "''WatchBBO''" "Some ContextCanceled" "Some ContextCanceled"]
    by (simp add: sample_two_eq) (simp add: sample_socket_def start_returns_def normalizeWebSocketStartupError_def Let_def fun_upd_twist)
  have 2: "socket_step sample_socket_meta ?a ?b"
    using ready [of ?a 1 "sample_watch Waiting False" sample_socket_meta] by simp
  have 3: "socket_step sample_socket_meta ?b ?c"
    by (rule finish) simp_all
  have "\<exists>w. ps_watches ?c 1 = Some w \<and> wa_phase w = Returned (Some ?err)"
    by (simp add: watch_returns_def)
  then show ?thesis
    using run_steps [where R = "socket_step sample_socket_meta", OF sample_two_reached 1 2 3] by blast
qed

end
