(* ===== verification/Book_Topic.thy ===== *)
theory Book_Topic
  imports Order_Book
begin

text \<open>
  How a shared order-book topic delivers its events (websocketTopic of
  exchange/internal/factoryclient/public_websocket.go with the contract of order_book_contract.go). An event
  of the venue passes the contract and picks its receivers under the topic's mutex, and is handed to each of
  them after the mutex is released; a subscriber may join in between, and starts from the contract's replay.
  A subscription that closes refuses events from then on, and leaves the topic in a later step.
  The venue's reader calls back from one goroutine, so one event is handed out before the next arrives.
\<close>

section \<open>Steps\<close>

record 'd BookTopic =
  bt_contract :: "'d orderBookContract"
  bt_subscribers :: "nat list"
  bt_closed :: "nat list"
  bt_emitting :: "('d BookEvent \<times> nat list) option"
  bt_delivered :: "nat \<Rightarrow> 'd BookEvent list"

definition newBookTopic :: "'d orderBookContract \<Rightarrow> 'd BookTopic" where
  "newBookTopic contract = \<lparr>bt_contract = contract, bt_subscribers = [], bt_closed = [], bt_emitting = None, bt_delivered = (\<lambda>i. [])\<rparr>"

definition topic_add :: "'d Decimals \<Rightarrow> nat \<Rightarrow> 'd BookTopic \<Rightarrow> 'd BookTopic" where
  "topic_add D i topic =
     topic\<lparr>bt_subscribers := i # bt_subscribers topic,
           bt_delivered := (bt_delivered topic)
             (i := bt_delivered topic i @ (case contract_snapshot D (bt_contract topic) of None \<Rightarrow> [] | Some event \<Rightarrow> [event]))\<rparr>"

definition topic_closed :: "nat \<Rightarrow> 'd BookTopic \<Rightarrow> 'd BookTopic" where
  "topic_closed i topic = topic\<lparr>bt_closed := i # bt_closed topic\<rparr>"

definition topic_remove :: "nat \<Rightarrow> 'd BookTopic \<Rightarrow> 'd BookTopic" where
  "topic_remove i topic = topic\<lparr>bt_subscribers := removeAll i (bt_subscribers topic)\<rparr>"

text \<open>The Event callback up to the release of the mutex; an error goes to the error channels.\<close>

definition topic_Event :: "'d Decimals \<Rightarrow> 'd BookEvent \<Rightarrow> 'd BookTopic \<Rightarrow> 'd BookTopic" where
  "topic_Event D event topic =
     (case accept D event (bt_contract topic) of
        ((emit, err), contract) \<Rightarrow>
          topic\<lparr>bt_contract := contract,
                bt_emitting := (if err = None \<and> emit then Some (event, bt_subscribers topic) else None)\<rparr>)"

text \<open>Its loop over the receivers, one at a time.\<close>

definition topic_emit :: "'d BookEvent \<Rightarrow> nat list \<Rightarrow> nat \<Rightarrow> 'd BookTopic \<Rightarrow> 'd BookTopic" where
  "topic_emit event receivers i topic =
     topic\<lparr>bt_delivered :=
             (if i \<in> set (bt_closed topic) then bt_delivered topic else (bt_delivered topic)(i := bt_delivered topic i @ [event])),
           bt_emitting := (if removeAll i receivers = [] then None else Some (event, removeAll i receivers))\<rparr>"

text \<open>A subscription's id is new: nothing has been delivered to it and nothing is on its way.\<close>

definition new_subscriber :: "nat \<Rightarrow> 'd BookTopic \<Rightarrow> bool" where
  "new_subscriber i topic \<longleftrightarrow>
     i \<notin> set (bt_subscribers topic) \<and> i \<notin> set (bt_closed topic) \<and> bt_delivered topic i = [] \<and> (\<forall>(event, receivers)\<in>set_option (bt_emitting topic). i \<notin> set receivers)"

inductive topic_step :: "'d Decimals \<Rightarrow> 'd BookTopic \<Rightarrow> 'd BookTopic \<Rightarrow> bool" for D where
  add: "new_subscriber i topic \<Longrightarrow> topic_step D topic (topic_add D i topic)"
| close: "topic_step D topic (topic_closed i topic)"
| remove: "topic_step D topic (topic_remove i topic)"
| event: "bt_emitting topic = None \<Longrightarrow> topic_step D topic (topic_Event D event topic)"
| emit: "bt_emitting topic = Some (event, receivers) \<Longrightarrow> i \<in> set receivers \<Longrightarrow> topic_step D topic (topic_emit event receivers i topic)"
| emitted: "bt_emitting topic = Some (event, []) \<Longrightarrow> topic_step D topic (topic\<lparr>bt_emitting := None\<rparr>)"

section \<open>Every subscriber holds the topic's book\<close>

text \<open>The event on its way to a subscriber.\<close>

definition in_flight :: "'d BookTopic \<Rightarrow> nat \<Rightarrow> 'd BookEvent list" where
  "in_flight topic i = (case bt_emitting topic of Some (event, receivers) \<Rightarrow> if i \<in> set receivers then [event] else [] | None \<Rightarrow> [])"

definition topic_ok_for :: "'d Decimals \<Rightarrow> ('d \<Rightarrow> rat) \<Rightarrow> 'd orderBookContract \<Rightarrow> 'd BookTopic \<Rightarrow> nat \<Rightarrow> bool" where
  "topic_ok_for D val fresh topic i \<longleftrightarrow>
     (let events = bt_delivered topic i @ in_flight topic i in
      fst (accept_all D events fresh) = events \<and> contract_equiv D val (bt_contract topic) (snd (accept_all D events fresh)))"

definition book_topic_ok :: "'d Decimals \<Rightarrow> ('d \<Rightarrow> rat) \<Rightarrow> 'd orderBookContract \<Rightarrow> 'd BookTopic \<Rightarrow> bool" where
  "book_topic_ok D val fresh topic \<longleftrightarrow>
     contract_ok D val (bt_contract topic) \<and> oc_venue (bt_contract topic) = oc_venue fresh \<and>
     oc_product (bt_contract topic) = oc_product fresh \<and> oc_instrument (bt_contract topic) = oc_instrument fresh \<and>
     (\<not> oc_started (bt_contract topic) \<longrightarrow> bt_contract topic = fresh) \<and>
     (\<forall>i\<in>set (bt_subscribers topic) - set (bt_closed topic). topic_ok_for D val fresh topic i)"

lemma accept_keeps:
  "accept D event c = (verdict, c') \<Longrightarrow> oc_venue c' = oc_venue c \<and> oc_product c' = oc_product c \<and> oc_instrument c' = oc_instrument c"
  by (cases verdict; cases "fst verdict") (auto dest: accept_True(5) accept_False)

context decimal_laws
begin

lemma topic_added_ok:
  assumes "book_topic_ok D val fresh topic" "sameOrderBookInstrument (oc_instrument fresh) (oc_instrument fresh)"
    and "fresh = newOrderBookContract (oc_venue fresh) (oc_product fresh) (oc_instrument fresh)"
    and "new_subscriber i topic"
  shows "topic_ok_for D val fresh (topic_add D i topic) i"
proof -
  let ?c = "bt_contract topic"
  have idle: "in_flight (topic_add D i topic) i = []"
    using assms(4) by (auto simp: in_flight_def topic_add_def new_subscriber_def split: option.split)
  have none: "bt_delivered topic i = []"
    using assms(4) by (simp add: new_subscriber_def)
  show ?thesis
  proof (cases "contract_snapshot D ?c")
    case None
    then have "?c = fresh"
      using assms(1) by (auto simp: book_topic_ok_def contract_snapshot_def split: if_splits)
    then show ?thesis
      using None idle none assms(1) by (simp add: topic_ok_for_def topic_add_def contract_equiv_def book_topic_ok_def)
  next
    case (Some event)
    then have "oc_started ?c"
      by (simp add: contract_snapshot_def split: if_splits)
    then obtain c' where "accept D event fresh = ((True, None), c')" "contract_equiv D val ?c c'"
      using replay_equiv [of ?c event] assms(1-3) Some by (auto simp: book_topic_ok_def)
    then show ?thesis
      using Some idle none by (simp add: topic_ok_for_def topic_add_def)
  qed
qed

lemma topic_event_ok:
  assumes ok: "book_topic_ok D val fresh topic" and idle: "bt_emitting topic = None"
  shows "book_topic_ok D val fresh (topic_Event D event topic)"
proof -
  obtain emit err c where run: "accept D event (bt_contract topic) = ((emit, err), c)"
    by (metis surj_pair)
  show ?thesis
  proof (cases emit)
    case True
    then have err: "err = None"
      using accept_True(1) [of D event "bt_contract topic" err c] run by simp
    have taken: "accept D event (bt_contract topic) = ((True, err), c)"
      using run True by simp
    have c: "contract_ok D val c" "oc_started c"
      using accept_refines(1) [OF _ taken] ok by (simp_all add: book_topic_ok_def accept_True(5) [OF taken])
    have "topic_ok_for D val fresh (topic_Event D event topic) i" if sub: "i \<in> set (bt_subscribers topic) - set (bt_closed topic)" for i
    proof -
      obtain c1 where c1: "accept_all D (bt_delivered topic i) fresh = (bt_delivered topic i, c1)" "contract_equiv D val (bt_contract topic) c1"
        using ok sub idle by (auto simp: book_topic_ok_def topic_ok_for_def in_flight_def Let_def prod_eq_iff)
      obtain err' c2 where "accept D event c1 = ((True, err'), c2)" "contract_equiv D val c c2"
        using accept_equiv [OF c1(2), of event] taken by (cases "accept D event c1") (auto simp: prod_eq_iff)
      then show ?thesis
        using sub run True err c1(1) by (simp add: topic_ok_for_def topic_Event_def in_flight_def accept_all_snoc)
    qed
    then show ?thesis
      using ok run c accept_keeps [OF run] by (auto simp: book_topic_ok_def topic_Event_def)
  next
    case False
    then have "c = bt_contract topic"
      using accept_False [of D event "bt_contract topic" err c] run by simp
    then show ?thesis
      using ok idle run False by (auto simp: book_topic_ok_def topic_Event_def topic_ok_for_def in_flight_def)
  qed
qed

lemma topic_emit_ok:
  assumes "book_topic_ok D val fresh topic" "bt_emitting topic = Some (event, receivers)" "i \<in> set receivers"
  shows "book_topic_ok D val fresh (topic_emit event receivers i topic)"
proof -
  have "bt_delivered (topic_emit event receivers i topic) j @ in_flight (topic_emit event receivers i topic) j =
      bt_delivered topic j @ in_flight topic j" if "j \<notin> set (bt_closed topic)" for j
    using that assms(2,3) by (auto simp: topic_emit_def in_flight_def removeAll_Nil_iff)
  then show ?thesis
    using assms(1) by (auto simp: book_topic_ok_def topic_ok_for_def) (auto simp: topic_emit_def)
qed

lemma topic_step_ok:
  assumes "topic_step D topic topic'" "book_topic_ok D val fresh topic" "sameOrderBookInstrument (oc_instrument fresh) (oc_instrument fresh)"
    and "fresh = newOrderBookContract (oc_venue fresh) (oc_product fresh) (oc_instrument fresh)"
  shows "book_topic_ok D val fresh topic'"
  using assms
proof (induction rule: topic_step.induct)
  case (add i topic)
  have "topic_ok_for D val fresh (topic_add D i topic) i"
    using topic_added_ok [OF add(2,3,4,1)] by blast
  moreover have "topic_ok_for D val fresh (topic_add D i topic) j = topic_ok_for D val fresh topic j" if "j \<noteq> i" for j
    using that by (simp add: topic_ok_for_def topic_add_def in_flight_def)
  ultimately have "topic_ok_for D val fresh (topic_add D i topic) j" if "j \<in> set (i # bt_subscribers topic) - set (bt_closed topic)" for j
    using that add(2) by (cases "j = i") (auto simp: book_topic_ok_def)
  then show ?case
    using add(2) by (simp add: book_topic_ok_def topic_add_def)
next
  case (close topic i)
  then show ?case
    by (auto simp: book_topic_ok_def topic_closed_def topic_ok_for_def in_flight_def)
next
  case (remove topic i)
  then show ?case
    by (auto simp: book_topic_ok_def topic_remove_def topic_ok_for_def in_flight_def)
next
  case (emitted topic event)
  then show ?case
    by (auto simp: book_topic_ok_def topic_ok_for_def in_flight_def)
qed (auto intro: topic_event_ok topic_emit_ok)

lemma reachable_topic_ok:
  assumes "(topic_step D)\<^sup>*\<^sup>* (newBookTopic fresh) topic" "fresh = newOrderBookContract venue product instrument"
    and "sameOrderBookInstrument instrument instrument"
  shows "book_topic_ok D val fresh topic"
  using assms
proof (induction rule: rtranclp_induct)
  case base
  then show ?case
    by (simp add: book_topic_ok_def newBookTopic_def contract_ok_def newOrderBookContract_def)
next
  case (step topic topic')
  then show ?case
    by (intro topic_step_ok [OF step(2)]) (simp_all add: newOrderBookContract_def)
qed

end

text \<open>
  C3: everyone who watches a shared order book sees the same book. However new subscriptions, closings and
  removals fall between the venue's events, and between an event's acceptance and its delivery to each
  receiver, an open subscriber that runs the contract on its own copy accepts every event it was handed (and the one still on
  its way to it), in that order from its first, and holds the book, the sequence and the start mark of the
  topic's contract.
\<close>

theorem subscribers_share_the_book:
  assumes "decimal_laws D val" and "sameOrderBookInstrument instrument instrument"
    and "(topic_step D)\<^sup>*\<^sup>* (newBookTopic (newOrderBookContract venue product instrument)) topic"
    and "i \<in> set (bt_subscribers topic)" "i \<notin> set (bt_closed topic)"
    and "events = bt_delivered topic i @ in_flight topic i"
  shows "\<exists>own. accept_all D events (newOrderBookContract venue product instrument) = (events, own) \<and>
    contract_book val own = contract_book val (bt_contract topic) \<and> oc_sequence own = oc_sequence (bt_contract topic) \<and>
    oc_started own = oc_started (bt_contract topic)"
  using decimal_laws.reachable_topic_ok [OF assms(1,3) refl assms(2)] assms(4,5,6)
  by (auto simp: book_topic_ok_def topic_ok_for_def contract_equiv_def Let_def prod_eq_iff)

text \<open>The second subscriber joins while the first event is on its way to the first.\<close>

definition sample_joined :: "dec BookTopic" where
  "sample_joined = topic_add dec_ops 2 (topic_Event dec_ops (hd sample_book_stream) (topic_add dec_ops 1 (newBookTopic sample_contract)))"

lemma sample_joined_reachable: "(topic_step dec_ops)\<^sup>*\<^sup>* (newBookTopic sample_contract) sample_joined"
proof -
  let ?one = "topic_add dec_ops 1 (newBookTopic sample_contract)"
  let ?run = "topic_Event dec_ops (hd sample_book_stream) ?one"
  have "topic_step dec_ops (newBookTopic sample_contract) ?one"
    by (rule topic_step.add) (simp add: new_subscriber_def newBookTopic_def)
  moreover have "topic_step dec_ops ?one ?run"
    by (rule topic_step.event) (simp add: topic_add_def newBookTopic_def)
  moreover have "topic_step dec_ops ?run sample_joined"
    unfolding sample_joined_def
    by (rule topic_step.add) (auto simp: new_subscriber_def newBookTopic_def topic_add_def topic_Event_def split: prod.split)
  ultimately show ?thesis
    by (meson converse_rtranclp_into_rtranclp rtranclp.rtrancl_refl)
qed

lemma sample_joined_first:
  "1 \<in> set (bt_subscribers sample_joined)" "1 \<notin> set (bt_closed sample_joined)"
  "bt_delivered sample_joined 1 @ in_flight sample_joined 1 = [hd sample_book_stream]"
  by (simp_all add: sample_joined_def topic_add_def topic_Event_def newBookTopic_def in_flight_def contract_snapshot_def
      sample_book_stream_def accept_eval Let_def del: dec_string.simps)

theorem subscribers_share_the_book_witness:
  "\<exists>own. accept_all dec_ops [hd sample_book_stream] sample_contract = ([hd sample_book_stream], own) \<and>
     contract_book dec_val own = contract_book dec_val (bt_contract sample_joined)"
  using subscribers_share_the_book [OF dec.decimal_laws_axioms sample_same_instrument sample_joined_reachable sample_joined_first(1,2) refl]
  unfolding sample_joined_first(3) by blast

end
