(* ===== verification/Spec2Isabelle.thy ===== *)
theory Spec2Isabelle
  imports Rate_Limit Gateway_Socket Trader_Server Ws_Stream Ws_Dispatch Public_Socket Book_Topic
begin

text \<open>
  A model of BolterTrader (src/), a self-hosted trading stack in Go, and the theorems that make it correct.

  \<^bold>\<open>The program.\<close> Two processes serve one user. The \<^emph>\<open>trader\<close> (trader/) signs the user in and
  passes requests on to the \<^emph>\<open>gateway\<close> (gateway/) with a token the browser never sees. The gateway
  keeps a directory of instruments, fans public market data out to its clients, and holds the accounts:
  their sealed credentials, their venue clients, their positions and balances, and the orders they place.
  Both rest on the venue-neutral connector library (exchange/), whose adapters translate between it and the
  SDKs of the venues (sdk/). A request passes a shared request budget (gateway/ratelimit) and its failure is
  normalised (internal/venuehttp, exchange/internal/factoryclient) before the gateway classifies it.

  \<^bold>\<open>Conventions.\<close> A Go string is a HOL string of bytes; named string types are strings too, because
  the code's validators exist to refuse unknown ones. A pointer that may be nil is an option, an error is a
  tree of wrapped errors with nil as \<open>None\<close>, a pair (value, error) is a sum, and an outer option is a
  nil dereference, which panics. Times are integers of nanoseconds since Go's zero time, with the saturating
  difference of time.Sub. A map that is only looked up is a function to options; one that is iterated is an
  association list, and where the order of iteration matters it is a parameter. Code outside src/ is a parameter:
  decimals (\<open>Decimals\<close> with the locale \<open>decimal_laws\<close>), JSON texts, authenticated
  encryption, Argon2, randomness, the clock, the file system and what a venue answers. A component that is
  shared by goroutines is a step relation whose steps are the critical sections of its mutex, so its theorems
  hold of every interleaving.

  \<^bold>\<open>Groundwork.\<close>
  \<^item> Prelude: strings, strconv, time, sort.Slice (locale \<open>strict_weak\<close>) and iterated maps.
  \<^item> Decimal: the operations of shopspring/decimal with their laws, interpreted on scaled integers.
  \<^item> Errors: exchange/errors.go, gateway/account/errors.go, errors.Is and errors.As.

  \<^bold>\<open>The connector library.\<close>
  \<^item> Exchange_Model: exchange/model.go, ack.go, exact_order_lookup.go, account_events.go and websocket.go;
    the validators accept exactly the orders and records their reference conditions describe.
  \<^item> Instrument_Catalog: exchange/catalog.go; the indexes of a published snapshot are exact, generations
    only grow, and a failed refresh keeps the last good snapshot.
  \<^item> Market_Data, Route_Profile: exchange/market_data.go, funding_history.go, market_support.go and
    routeprofile/; derivative patches converge whatever the order of independent groups, and every
    route has a catalog.
  \<^item> Order_Book, Book_Topic: order_book_contract.go and the delivery of public_websocket.go in
    exchange/internal/factoryclient; the replay book refines a map from prices to quantities (locale
    \<open>book_side\<close>), and every subscriber of a shared topic holds the topic's book.
  \<^item> Public_Socket, Ws_Stream, Ws_Dispatch: the shared topics of public_websocket.go, internal/wsstream and
    internal/wsdispatch; native streams run exactly for open subscriptions, streams lose nothing and close,
    and callbacks held back during a recovery run once, in order and in their own generation.
  \<^item> Http_Policy, Http_Errors: internal/venuehttp, internal/mbx, http_errors.go and venue_message.go; a command
    with a doubtful answer is never reported as rejected.
  \<^item> Venue_Candles: the candle pages of bybit_bitget.go. The walk over pages is a
    \<^theory_text>\<open>partial_function\<close>, and its end is a theorem: at most as many pages as candles
    were asked for, whatever the venue answers, so no fuel is needed.

  \<^bold>\<open>The gateway.\<close>
  \<^item> Venue_Routes, Gateway_Catalog: gateway/venue, gateway/market/catalog.go; instrument identifiers round trip
    and the directory serves every lookup.
  \<^item> Hub, Market_Feeds: gateway/hub, gateway/market/feeds.go and warmup.go; topics close a linger after their
    last client, and a book topic shows the contract's book (locale \<open>book_side\<close> again, through
    \<^theory_text>\<open>sublocale\<close>).
  \<^item> Rate_Limit: gateway/ratelimit; no window of a budget is ever exceeded and a refusal names an honest wait.
  \<^item> Credentials, Account_Model, Account_Runtime, Account_Orders, Account_Bundle: credential/ and
    gateway/account/; submitted credentials decode to what was submitted, private streams refine the
    venue's account, and a doubtful placement is reported as unknown.
  \<^item> Account_Store, Account_Manager: secretstore/cipher.go, gateway/store, gateway/account/manager.go; after a
    failure at any step of a write the file holds the accounts before or after it, and a restart brings
    back exactly the created accounts that were not deleted.
  \<^item> Gateway_Api, Gateway_Socket: gateway/api; nothing but the health check is served without the token, the
    status of an order response tells its outcome, and a connection is attached to exactly its subscriptions.

  \<^bold>\<open>The trader.\<close>
  \<^item> Trader_Auth, Trader_Server: trader/; a request reaches the gateway only for a live session, and a
    client that guesses one password after the other has at most thirteen guesses an hour.

  \<^bold>\<open>Bounds.\<close> Go's int is 64 bits wide. Field masks are 32-bit words; integers that a caller or a venue
  chooses are parsed into their range and kept as int; counters that only grow by one per call (revisions,
  generations, subscription numbers) are unbounded. Queue and buffer limits are those of the source (1024
  messages and 64 subscriptions of a connection, 65536 events of a watch).

  \<^bold>\<open>Not modelled.\<close> The SDKs (sdk/) sign, send and decode the requests of each venue, and the other
  adapters of exchange/internal/factoryclient translate one response type each; both are the venue to the
  theories above, whose answers are arbitrary. The funding feeds and funding loaders, the private sockets and the
  factory (exchange/factory) compose such adapters. The programs of cmd/, the key sources of secretstore/
  and internal/testenv read flags, environment and files; the relay between two sockets in trader/server.go only
  copies frames; web/ is a browser application in TypeScript. JSON texts, HTTP headers that only harden a
  response, log lines and time-outs (which show as answers of the venue) are left out of the modelled parts.
\<close>

end
